(* ===== verification/Prelude.thy ===== *)
theory Prelude
  imports Main "HOL-Library.Multiset" "HOL-Library.List_Lexorder" "HOL-Library.Char_ord"
begin

section \<open>Prelude: results, Python strings, ordered dictionaries\<close>

text \<open>
  What every component of the model shares: the result type of a fallible operation with
  its sequencing lemmas, the string operations of Python that the code uses, decimal
  rendering of integers, and dictionaries as association lists in insertion order.

  A Python string is a \<^typ>\<open>string\<close> whose characters are the Unicode code points below
  256; all literals and all delimiters of the program are in that range. A raised exception
  is the left value of a sum, the returned value is the right one.
\<close>

named_theorems result_simps "sequencing of fallible operations"
named_theorems string_defs "Python string operations"

subsection \<open>Fallible operations\<close>

type_synonym ('e, 'a) result = "'e + 'a"

definition sbind :: "'e + 'a \<Rightarrow> ('a \<Rightarrow> 'e + 'b) \<Rightarrow> 'e + 'b" where
  "sbind r f = (case r of Inl e \<Rightarrow> Inl e | Inr x \<Rightarrow> f x)"

definition ensure :: "bool \<Rightarrow> 'e \<Rightarrow> 'e + unit" where
  "ensure b e = (if b then Inr () else Inl e)"

fun smap :: "('a \<Rightarrow> 'e + 'b) \<Rightarrow> 'a list \<Rightarrow> 'e + 'b list" where
  "smap f [] = Inr []"
| "smap f (x # xs) = sbind (f x) (\<lambda>y. sbind (smap f xs) (\<lambda>ys. Inr (y # ys)))"

lemma sbind_Inr [simp]: "sbind (Inr x) f = f x"
  and sbind_Inl [simp]: "sbind (Inl e) f = Inl e"
  by (simp_all add: sbind_def)

lemma sbind_eq_Inr [result_simps]:
  "sbind r f = Inr y \<longleftrightarrow> (\<exists>x. r = Inr x \<and> f x = Inr y)"
  by (cases r) auto

lemma sbind_eq_Inl [result_simps]:
  "sbind r f = Inl e \<longleftrightarrow> r = Inl e \<or> (\<exists>x. r = Inr x \<and> f x = Inl e)"
  by (cases r) auto

lemma ensure_eq_Inr [result_simps]: "ensure b e = Inr u \<longleftrightarrow> b"
  by (simp add: ensure_def)

lemma ensure_eq_Inl [result_simps]: "ensure b e = Inl e' \<longleftrightarrow> \<not> b \<and> e' = e"
  by (auto simp: ensure_def)

lemma ensure_True [simp]: "ensure True e = Inr ()"
  and ensure_False [simp]: "ensure False e = Inl e"
  by (simp_all add: ensure_def)

lemma sbind_cong [fundef_cong]:
  "r = r' \<Longrightarrow> (\<And>x. r' = Inr x \<Longrightarrow> f x = g x) \<Longrightarrow> sbind r f = sbind r' g"
  by (cases r') auto

lemma smap_cong [fundef_cong]:
  "xs = ys \<Longrightarrow> (\<And>x. x \<in> set ys \<Longrightarrow> f x = g x) \<Longrightarrow> smap f xs = smap g ys"
proof (induction ys arbitrary: xs)
  case (Cons y ys)
  then have "smap f ys = smap g ys" by auto
  with Cons.prems show ?case by simp
qed simp

lemma smap_Inr_conv: "smap f xs = Inr ys \<longleftrightarrow> list_all2 (\<lambda>x y. f x = Inr y) xs ys"
proof (induction xs arbitrary: ys)
  case Nil
  then show ?case by (cases ys) auto
next
  case (Cons x xs)
  then show ?case by (cases ys) (auto simp: result_simps)
qed

lemma smap_length: "smap f xs = Inr ys \<Longrightarrow> length ys = length xs"
  by (auto simp: smap_Inr_conv dest: list_all2_lengthD)

lemma smap_all_Inr: "(\<And>x. x \<in> set xs \<Longrightarrow> f x = Inr (g x)) \<Longrightarrow> smap f xs = Inr (map g xs)"
  by (induction xs) auto

lemma list_all2_mem1: "list_all2 P xs ys \<Longrightarrow> x \<in> set xs \<Longrightarrow> \<exists>y \<in> set ys. P x y"
  by (induction rule: list_all2_induct) auto

lemma list_all2_mem2: "list_all2 P xs ys \<Longrightarrow> y \<in> set ys \<Longrightarrow> \<exists>x \<in> set xs. P x y"
  by (induction rule: list_all2_induct) auto

lemma smap_mem: "smap f xs = Inr ys \<Longrightarrow> y \<in> set ys \<Longrightarrow> \<exists>x \<in> set xs. f x = Inr y"
  unfolding smap_Inr_conv by (rule list_all2_mem2)

text \<open>A finding that is appended under a condition, and options combined.\<close>

definition only_if :: "bool \<Rightarrow> 'a \<Rightarrow> 'a list" where
  "only_if b x = (if b then [x] else [])"

lemma set_only_if [simp]: "set (only_if b x) = (if b then {x} else {})"
  by (cases b) (simp_all add: only_if_def)

lemma mem_only_if: "y \<in> (if b then {x} else {}) \<longleftrightarrow> b \<and> y = x"
  by simp

lemma only_if_Nil [simp]: "only_if b x = [] \<longleftrightarrow> \<not> b"
  and only_if_True [simp]: "only_if True x = [x]"
  and only_if_False [simp]: "only_if False x = []"
  by (simp_all add: only_if_def)

definition map2_option :: "('a \<Rightarrow> 'b \<Rightarrow> 'c) \<Rightarrow> 'a option \<Rightarrow> 'b option \<Rightarrow> 'c option" where
  "map2_option f a b = (case (a, b) of (Some x, Some y) \<Rightarrow> Some (f x y) | _ \<Rightarrow> None)"

lemma map2_option_Some: "map2_option f a b = Some z \<longleftrightarrow> (\<exists>x y. a = Some x \<and> b = Some y \<and> z = f x y)"
  by (auto simp: map2_option_def split: option.splits)

lemma map2_option_None [simp]: "map2_option f None b = None"
  by (simp add: map2_option_def)

lemma map2_option_None2 [simp]: "map2_option f a None = None"
  by (cases a) (simp_all add: map2_option_def)

lemma map2_option_Some2 [simp]: "map2_option f (Some x) (Some y) = Some (f x y)"
  by (simp add: map2_option_def)

subsection \<open>Python strings\<close>

definition char_code :: "char \<Rightarrow> nat" where
  "char_code c = of_char c"

definition chr_of :: "nat \<Rightarrow> char" where
  "chr_of n = char_of n"

text \<open>The characters \<open>str.strip\<close> removes, among the code points below 256.\<close>

definition is_space :: "char \<Rightarrow> bool" where
  "is_space c =
     (let n = char_code c
      in (9 \<le> n \<and> n \<le> 13) \<or> (28 \<le> n \<and> n \<le> 32) \<or> n = 133 \<or> n = 160)"

definition py_lstrip :: "string \<Rightarrow> string" where
  "py_lstrip s = dropWhile is_space s"

definition py_strip :: "string \<Rightarrow> string" where
  "py_strip s = rev (dropWhile is_space (rev (dropWhile is_space s)))"

definition is_blank :: "string \<Rightarrow> bool" where
  "is_blank s = (py_strip s = [])"

definition has_control :: "string \<Rightarrow> bool" where
  "has_control s = list_ex (\<lambda>c. char_code c < 32 \<or> char_code c = 127) s"

definition starts_with :: "string \<Rightarrow> string \<Rightarrow> bool" where
  "starts_with p s = (take (length p) s = p)"

definition ends_with :: "string \<Rightarrow> string \<Rightarrow> bool" where
  "ends_with p s = (take (length p) (rev s) = rev p)"

definition char_lower :: "char \<Rightarrow> char" where
  "char_lower c =
     (let n = char_code c
      in if (65 \<le> n \<and> n \<le> 90) \<or> (192 \<le> n \<and> n \<le> 222 \<and> n \<noteq> 215) then chr_of (n + 32) else c)"

definition char_upper :: "char \<Rightarrow> char" where
  "char_upper c =
     (let n = char_code c
      in if (97 \<le> n \<and> n \<le> 122) \<or> (224 \<le> n \<and> n \<le> 254 \<and> n \<noteq> 247) then chr_of (n - 32) else c)"

definition py_lower :: "string \<Rightarrow> string" where
  "py_lower s = map char_lower s"

definition py_upper :: "string \<Rightarrow> string" where
  "py_upper s = map char_upper s"

text \<open>\<open>str.title\<close> on the one-word role names it is applied to.\<close>

definition py_title :: "string \<Rightarrow> string" where
  "py_title s = (case s of [] \<Rightarrow> [] | c # cs \<Rightarrow> char_upper c # py_lower cs)"

fun split_on :: "char \<Rightarrow> string \<Rightarrow> string list" where
  "split_on c [] = [[]]"
| "split_on c (x # xs) =
     (if x = c then [] # split_on c xs
      else (case split_on c xs of [] \<Rightarrow> [[x]] | p # ps \<Rightarrow> (x # p) # ps))"

fun join :: "string \<Rightarrow> string list \<Rightarrow> string" where
  "join sep [] = []"
| "join sep [x] = x"
| "join sep (x # y # ys) = x @ sep @ join sep (y # ys)"

text \<open>\<open>str.replace\<close> of one character, and of the two-character line break.\<close>

definition replace_char :: "char \<Rightarrow> string \<Rightarrow> string \<Rightarrow> string" where
  "replace_char c r s = concat (map (\<lambda>x. if x = c then r else [x]) s)"

fun replace_crlf :: "string \<Rightarrow> string \<Rightarrow> string" where
  "replace_crlf r [] = []"
| "replace_crlf r [x] = [x]"
| "replace_crlf r (x # y # ys) =
     (if char_code x = 13 \<and> char_code y = 10 then r @ replace_crlf r ys
      else x # replace_crlf r (y # ys))"

definition nl :: string where "nl = [chr_of 10]"
definition cr :: char where "cr = chr_of 13"
definition lf :: char where "lf = chr_of 10"
definition bslash :: char where "bslash = chr_of 92"
definition dquote :: char where "dquote = chr_of 34"

declare char_code_def [string_defs] chr_of_def [string_defs] is_space_def [string_defs]
  py_lstrip_def [string_defs] py_strip_def [string_defs] is_blank_def [string_defs]
  has_control_def [string_defs] starts_with_def [string_defs] ends_with_def [string_defs]
  char_lower_def [string_defs] char_upper_def [string_defs] py_lower_def [string_defs]
  py_upper_def [string_defs] py_title_def [string_defs] replace_char_def [string_defs]
  nl_def [string_defs] cr_def [string_defs] lf_def [string_defs] bslash_def [string_defs]
  dquote_def [string_defs]

lemma dropWhile_id: "(xs \<noteq> [] \<Longrightarrow> \<not> P (hd xs)) \<Longrightarrow> dropWhile P xs = xs"
  by (cases xs) auto

lemma hd_dropWhile_not: "dropWhile P xs \<noteq> [] \<Longrightarrow> \<not> P (hd (dropWhile P xs))"
  by (induction xs) auto

lemma last_strip_hd:
  assumes "dropWhile P (rev (dropWhile P xs)) \<noteq> []"
  shows "hd (rev (dropWhile P (rev (dropWhile P xs)))) = hd (dropWhile P xs)"
proof -
  let ?ys = "rev (dropWhile P xs)"
  obtain zs where zs: "?ys = zs @ dropWhile P ?ys"
    by (metis takeWhile_dropWhile_id)
  from assms have "last (dropWhile P ?ys) = last ?ys"
    using zs by (metis last_appendR)
  with assms show ?thesis
    by (metis hd_rev last_rev rev_rev_ident)
qed

lemma py_strip_idem [simp]: "py_strip (py_strip s) = py_strip s"
proof (cases "py_strip s = []")
  case True
  have "py_strip [] = []" by (simp add: py_strip_def)
  with True show ?thesis by simp
next
  case False
  let ?d = "dropWhile is_space s"
  let ?r = "dropWhile is_space (rev ?d)"
  from False have ne: "?r \<noteq> []" by (simp only: py_strip_def rev_is_Nil_conv not_False_eq_True)
  then have d: "?d \<noteq> []" by (cases ?d) simp_all
  have "\<not> is_space (hd (rev ?r))"
    using last_strip_hd [OF ne] hd_dropWhile_not [OF d] by simp
  then have 1: "dropWhile is_space (rev ?r) = rev ?r"
    by (intro dropWhile_id)
  have 2: "dropWhile is_space ?r = ?r"
    by (rule dropWhile_idem)
  show ?thesis by (simp only: py_strip_def 1 2 rev_rev_ident)
qed

lemma starts_with_iff: "starts_with p s \<longleftrightarrow> (\<exists>t. s = p @ t)"
  unfolding starts_with_def
  by (metis append_eq_conv_conj append_take_drop_id)

lemma split_on_not_Nil [simp]: "split_on c s \<noteq> []"
  by (induction s) (auto split: list.splits)

lemma join_split_on: "join [c] (split_on c s) = s"
proof (induction s)
  case (Cons x s)
  show ?case
  proof (cases "split_on c s")
    case Nil
    then show ?thesis by simp
  next
    case (Cons p ps)
    with Cons.IH show ?thesis by (cases ps) auto
  qed
qed simp

lemma split_on_no_sep: "p \<in> set (split_on c s) \<Longrightarrow> c \<notin> set p"
  by (induction s arbitrary: p) (auto split: list.splits if_splits)

subsection \<open>Decimal rendering of integers\<close>

fun show_nat :: "nat \<Rightarrow> string" where
  "show_nat n = (if n < 10 then [chr_of (48 + n)] else show_nat (n div 10) @ [chr_of (48 + n mod 10)])"

declare show_nat.simps [simp del]

definition show_int :: "int \<Rightarrow> string" where
  "show_int i = (if i < 0 then ''-'' @ show_nat (nat (- i)) else show_nat (nat i))"

fun ndigits :: "nat \<Rightarrow> nat" where
  "ndigits n = (if n < 10 then 1 else Suc (ndigits (n div 10)))"

declare ndigits.simps [simp del]

lemma ndigits_pos [simp]: "0 < ndigits n"
  by (subst ndigits.simps) simp

lemma length_show_nat: "length (show_nat n) = ndigits n"
proof (induction n rule: show_nat.induct)
  case (1 n)
  then show ?case
    by (subst show_nat.simps, subst ndigits.simps) simp
qed

lemma ndigits_upper: "n < 10 ^ ndigits n"
proof (induction n rule: ndigits.induct)
  case (1 n)
  show ?case
  proof (cases "n < 10")
    case True
    then show ?thesis by (subst ndigits.simps) simp
  next
    case False
    with 1 have "n div 10 < 10 ^ ndigits (n div 10)" by simp
    then have "n < 10 * 10 ^ ndigits (n div 10)"
      by linarith
    with False show ?thesis by (subst ndigits.simps) simp
  qed
qed

lemma ndigits_lower: "0 < n \<Longrightarrow> 10 ^ (ndigits n - 1) \<le> n"
proof (induction n rule: ndigits.induct)
  case (1 n)
  show ?case
  proof (cases "n < 10")
    case True
    with 1 show ?thesis by (subst ndigits.simps) simp
  next
    case False
    with 1 have IH: "10 ^ (ndigits (n div 10) - 1) \<le> n div 10" by simp
    have "ndigits n - 1 = Suc (ndigits (n div 10) - 1)"
      using False by (subst ndigits.simps) (simp add: Suc_diff_1)
    moreover have "10 * 10 ^ (ndigits (n div 10) - 1) \<le> n" using IH by linarith
    moreover have "(10::nat) ^ ndigits (n div 10) = 10 * 10 ^ (ndigits (n div 10) - 1)"
      using ndigits_pos [of "n div 10"] by (metis Suc_diff_1 power_Suc)
    ultimately show ?thesis by simp
  qed
qed

subsection \<open>repr of a string\<close>

definition hex_digit :: "nat \<Rightarrow> char" where
  "hex_digit n = (if n < 10 then chr_of (48 + n) else chr_of (87 + n))"

definition str_repr :: "string \<Rightarrow> string" where
  "str_repr s =
     (let q = (if chr_of 39 \<in> set s \<and> dquote \<notin> set s then dquote else chr_of 39);
          esc = (\<lambda>c. let n = char_code c
                     in if c = q \<or> c = bslash then [bslash, c]
                        else if n = 9 then [bslash, CHR ''t'']
                        else if n = 10 then [bslash, CHR ''n'']
                        else if n = 13 then [bslash, CHR ''r'']
                        else if n < 32 \<or> (127 \<le> n \<and> n \<le> 160) \<or> n = 173
                        then [bslash, CHR ''x'', hex_digit (n div 16), hex_digit (n mod 16)]
                        else [c])
      in [q] @ concat (map esc s) @ [q])"

subsection \<open>Ordered dictionaries\<close>

text \<open>
  A Python dict keeps insertion order; assigning an existing key keeps its place.
\<close>

fun al_set :: "'k \<Rightarrow> 'v \<Rightarrow> ('k \<times> 'v) list \<Rightarrow> ('k \<times> 'v) list" where
  "al_set k v [] = [(k, v)]"
| "al_set k v ((k', v') # r) = (if k' = k then (k, v) # r else (k', v') # al_set k v r)"

lemma map_of_al_set: "map_of (al_set k v d) = (map_of d)(k \<mapsto> v)"
  by (induction d) (auto simp: fun_eq_iff)

lemma dom_al_set: "fst ` set (al_set k v d) = insert k (fst ` set d)"
proof (induction d)
  case (Cons p d)
  then show ?case by (cases p) (auto split: if_splits)
qed simp

lemma distinct_al_set: "distinct (map fst d) \<Longrightarrow> distinct (map fst (al_set k v d))"
proof (induction d)
  case (Cons p d)
  obtain k' v' where p: "p = (k', v')" by (cases p)
  have "k' \<noteq> k \<Longrightarrow> k' \<notin> fst ` set d \<Longrightarrow> k' \<notin> fst ` set (al_set k v d)"
    by (simp add: dom_al_set)
  with Cons p show ?case by auto
qed simp

end
