(* ===== verification/PyNumbers.thy ===== *)
theory PyNumbers
  imports Prelude Complex_Main
begin

section \<open>Python numbers: binary64 floats and decimals\<close>

text \<open>
  The audit compares experiment metrics through \<^verbatim>\<open>Decimal(str(x))\<close>, so its verdicts
  depend on how a float is spelled and on how decimals are rounded. This theory models that
  part of Python's standard library over integers, so that every definition evaluates:
  \<^item> a float is a binary64 datum in canonical form (\<open>FFin m e\<close> stands for \<open>m * 2 ^ e\<close>);
  \<^item> a decimal is a sign, a coefficient and an exponent, as \<^verbatim>\<open>decimal.Decimal\<close> keeps it;
  \<^item> conversions round correctly, to nearest with ties to even.
  Exponents of decimals are unbounded here: the coefficients that reach the program have at
  most 4300 digits (the limit of \<^verbatim>\<open>int\<close>/\<^verbatim>\<open>str\<close> conversion), far from the default
  context's exponent bounds of 999999.
\<close>

subsection \<open>Integer helpers\<close>

fun bit_length :: "nat \<Rightarrow> nat" where
  "bit_length n = (if n = 0 then 0 else Suc (bit_length (n div 2)))"

declare bit_length.simps [simp del]

text \<open>\<open>rhe a b\<close> is the quotient \<open>a / b\<close> rounded to the nearest integer, ties to even.\<close>

definition rhe :: "nat \<Rightarrow> nat \<Rightarrow> nat" where
  "rhe a b =
     (let q = a div b; r = a mod b
      in if b < 2 * r \<or> (2 * r = b \<and> odd q) then Suc q else q)"

fun isqrt :: "nat \<Rightarrow> nat" where
  "isqrt n =
     (if n = 0 then 0
      else let r = 2 * isqrt (n div 4) in if (r + 1) * (r + 1) \<le> n then r + 1 else r)"

declare isqrt.simps [simp del]

subsection \<open>Floats\<close>

datatype flt = FFin int int | FNegZero | FInf bool | FNan

definition fzero :: flt where "fzero = FFin 0 (-1074)"

fun flt_wf :: "flt \<Rightarrow> bool" where
  "flt_wf (FFin m e) =
     ((m = 0 \<and> e = -1074)
      \<or> (2 ^ 52 \<le> \<bar>m\<bar> \<and> \<bar>m\<bar> < 2 ^ 53 \<and> -1074 \<le> e \<and> e \<le> 971)
      \<or> (0 < \<bar>m\<bar> \<and> \<bar>m\<bar> < 2 ^ 52 \<and> e = -1074))"
| "flt_wf _ = True"

fun isfinite :: "flt \<Rightarrow> bool" where
  "isfinite (FFin _ _) = True"
| "isfinite FNegZero = True"
| "isfinite _ = False"

text \<open>
  The float nearest to \<open>num / den\<close> (a non-negative quotient, \<open>den\<close> positive), negated when
  \<open>neg\<close> is set; too large a quotient is infinite. \<open>floor_log2\<close> is the exponent of the
  leading binary digit of a positive quotient.
\<close>

definition floor_log2 :: "nat \<Rightarrow> nat \<Rightarrow> int" where
  "floor_log2 num den =
     (let l = int (bit_length num) - int (bit_length den)
      in if den * 2 ^ nat l \<le> num * 2 ^ nat (- l) then l else l - 1)"

definition sgn_int :: "bool \<Rightarrow> nat \<Rightarrow> int" where
  "sgn_int neg n = (if neg then - int n else int n)"

definition round_ratio :: "bool \<Rightarrow> nat \<Rightarrow> nat \<Rightarrow> flt" where
  "round_ratio neg num den =
     (if num = 0 then (if neg then FNegZero else fzero)
      else
        (let e = max (floor_log2 num den - 52) (-1074);
             m = rhe (num * 2 ^ nat (- e)) (den * 2 ^ nat e);
             m' = (if m = 2 ^ 53 then 2 ^ 52 else m);
             e' = (if m = 2 ^ 53 then e + 1 else e)
         in if m' = 0 then (if neg then FNegZero else fzero)
            else if 971 < e' then FInf neg
            else FFin (sgn_int neg m') e'))"

text \<open>Magnitude of a finite float as a quotient, and its sign.\<close>

fun flt_neg :: "flt \<Rightarrow> bool" where
  "flt_neg (FFin m _) = (m < 0)"
| "flt_neg FNegZero = True"
| "flt_neg (FInf s) = s"
| "flt_neg FNan = False"

fun flt_num :: "flt \<Rightarrow> nat" where
  "flt_num (FFin m e) = nat \<bar>m\<bar> * 2 ^ nat e"
| "flt_num _ = 0"

fun flt_den :: "flt \<Rightarrow> nat" where
  "flt_den (FFin m e) = 2 ^ nat (- e)"
| "flt_den _ = 1"

definition flt_snum :: "flt \<Rightarrow> int" where
  "flt_snum x = sgn_int (flt_neg x) (flt_num x)"

text \<open>
  \<open>float(i)\<close> of an integer raises OverflowError when the integer is too large; \<open>None\<close> here.
\<close>

definition float_of_int :: "int \<Rightarrow> flt option" where
  "float_of_int i =
     (case round_ratio (i < 0) (nat \<bar>i\<bar>) 1 of FInf _ \<Rightarrow> None | x \<Rightarrow> Some x)"

text \<open>Comparison of two floats; every comparison with a NaN is false.\<close>

fun flt_le :: "flt \<Rightarrow> flt \<Rightarrow> bool" where
  "flt_le FNan _ = False"
| "flt_le _ FNan = False"
| "flt_le (FInf True) _ = True"
| "flt_le _ (FInf False) = True"
| "flt_le (FInf False) _ = False"
| "flt_le _ (FInf True) = False"
| "flt_le x y = (flt_snum x * int (flt_den y) \<le> flt_snum y * int (flt_den x))"

definition flt_lt :: "flt \<Rightarrow> flt \<Rightarrow> bool" where
  "flt_lt x y = (flt_le x y \<and> \<not> flt_le y x)"

definition flt_eq :: "flt \<Rightarrow> flt \<Rightarrow> bool" where
  "flt_eq x y = (flt_le x y \<and> flt_le y x)"

definition fneg :: "flt \<Rightarrow> flt" where
  "fneg x = (case x of FFin m e \<Rightarrow> if m = 0 then FNegZero else FFin (- m) e
             | FNegZero \<Rightarrow> fzero | FInf s \<Rightarrow> FInf (\<not> s) | FNan \<Rightarrow> FNan)"

text \<open>Rounded sum and product of finite floats, and the product by an infinity.\<close>

definition fadd :: "flt \<Rightarrow> flt \<Rightarrow> flt" where
  "fadd x y =
     (case (x, y) of
        (FNan, _) \<Rightarrow> FNan
      | (_, FNan) \<Rightarrow> FNan
      | (FInf s, FInf t) \<Rightarrow> if s = t then FInf s else FNan
      | (FInf s, _) \<Rightarrow> FInf s
      | (_, FInf t) \<Rightarrow> FInf t
      | (FNegZero, FNegZero) \<Rightarrow> FNegZero
      | _ \<Rightarrow>
          (let n = flt_snum x * int (flt_den y) + flt_snum y * int (flt_den x)
           in round_ratio (n < 0) (nat \<bar>n\<bar>) (flt_den x * flt_den y)))"

definition fsub :: "flt \<Rightarrow> flt \<Rightarrow> flt" where
  "fsub x y = fadd x (fneg y)"

definition fmul100 :: "flt \<Rightarrow> flt" where
  "fmul100 x = (if isfinite x then round_ratio (flt_neg x) (flt_num x * 100) (flt_den x) else x)"

text \<open>True division of two integers, the divisor positive: \<open>None\<close> is OverflowError.\<close>

definition int_truediv :: "int \<Rightarrow> nat \<Rightarrow> flt option" where
  "int_truediv a b =
     (case round_ratio (a < 0) (nat \<bar>a\<bar>) b of FInf _ \<Rightarrow> None | x \<Rightarrow> Some x)"

subsection \<open>Decimals\<close>

datatype dec = Dec bool nat int | DInf bool | DNan

fun dec_finite :: "dec \<Rightarrow> bool" where
  "dec_finite (Dec _ _ _) = True"
| "dec_finite _ = False"

fun dec_coeff :: "dec \<Rightarrow> nat" where
  "dec_coeff (Dec _ c _) = c"
| "dec_coeff _ = 0"

fun dec_sc :: "dec \<Rightarrow> int" where
  "dec_sc (Dec s c _) = sgn_int s c"
| "dec_sc _ = 0"

fun dec_exp :: "dec \<Rightarrow> int" where
  "dec_exp (Dec _ _ e) = e"
| "dec_exp _ = 0"

text \<open>\<open>len(d.as_tuple().digits)\<close>\<close>

definition dec_digits :: "dec \<Rightarrow> nat" where
  "dec_digits d = ndigits (dec_coeff d)"

text \<open>Comparison of finite decimals, exact: both sides are brought to the smaller exponent.\<close>

definition dec_le :: "dec \<Rightarrow> dec \<Rightarrow> bool" where
  "dec_le a b =
     (dec_sc a * 10 ^ nat (dec_exp a - dec_exp b) \<le> dec_sc b * 10 ^ nat (dec_exp b - dec_exp a))"

definition dec_eq :: "dec \<Rightarrow> dec \<Rightarrow> bool" where
  "dec_eq a b = (dec_le a b \<and> dec_le b a)"

definition dec_lt :: "dec \<Rightarrow> dec \<Rightarrow> bool" where
  "dec_lt a b = (\<not> dec_le b a)"

definition dec_is_zero :: "dec \<Rightarrow> bool" where
  "dec_is_zero d = (dec_finite d \<and> dec_coeff d = 0)"

text \<open>Rounding a coefficient to \<open>p\<close> digits, half to even.\<close>

fun dec_fix :: "nat \<Rightarrow> dec \<Rightarrow> dec" where
  "dec_fix p (Dec s c e) =
     (let n = ndigits c
      in if n \<le> p then Dec s c e
         else let k = n - p; q = rhe c (10 ^ k)
              in if p < ndigits q then Dec s (q div 10) (e + int k + 1) else Dec s q (e + int k))"
| "dec_fix p d = d"

text \<open>
  Context arithmetic on finite decimals with precision \<open>p\<close>: the exact result, then rounded.
  An exact zero sum is negative only when both operands are.
\<close>

fun dec_neg :: "dec \<Rightarrow> dec" where
  "dec_neg (Dec s c e) = Dec (\<not> s) c e"
| "dec_neg (DInf s) = DInf (\<not> s)"
| "dec_neg DNan = DNan"

fun dec_abs :: "dec \<Rightarrow> dec" where
  "dec_abs (Dec s c e) = Dec False c e"
| "dec_abs (DInf s) = DInf False"
| "dec_abs DNan = DNan"

fun dec_plus :: "dec \<Rightarrow> dec \<Rightarrow> dec" where
  "dec_plus (Dec s c e) (Dec t d f) =
     (let m = min e f;
          v = sgn_int s c * 10 ^ nat (e - m) + sgn_int t d * 10 ^ nat (f - m)
      in Dec (if v = 0 then s \<and> t else v < 0) (nat \<bar>v\<bar>) m)"
| "dec_plus _ _ = DNan"

definition dec_add :: "nat \<Rightarrow> dec \<Rightarrow> dec \<Rightarrow> dec" where
  "dec_add p a b = dec_fix p (dec_plus a b)"

definition dec_sub :: "nat \<Rightarrow> dec \<Rightarrow> dec \<Rightarrow> dec" where
  "dec_sub p a b = dec_add p a (dec_neg b)"

fun dec_mul :: "nat \<Rightarrow> dec \<Rightarrow> dec \<Rightarrow> dec" where
  "dec_mul p (Dec s c e) (Dec t d f) = dec_fix p (Dec (s \<noteq> t) (c * d) (e + f))"
| "dec_mul p _ _ = DNan"

text \<open>
  Division as \<^verbatim>\<open>Decimal.__truediv__\<close> does it: enough digits for the precision, a sticky
  digit for an inexact quotient, trailing zeros of an exact one dropped down to the ideal
  exponent, then rounding. The divisor is not zero.
\<close>

fun strip_zeros :: "nat \<Rightarrow> int \<Rightarrow> int \<Rightarrow> nat \<times> int" where
  "strip_zeros c e ideal =
     (if 0 < c \<and> e < ideal \<and> c mod 10 = 0 then strip_zeros (c div 10) (e + 1) ideal else (c, e))"

declare strip_zeros.simps [simp del]

fun dec_div :: "nat \<Rightarrow> dec \<Rightarrow> dec \<Rightarrow> dec" where
  "dec_div p (Dec s c e) (Dec t d f) =
     (if c = 0 then dec_fix p (Dec (s \<noteq> t) 0 (e - f))
      else
        (let shift = int (ndigits d) - int (ndigits c) + int p + 1;
             x = e - f - shift;
             num = c * 10 ^ nat shift;
             den = d * 10 ^ nat (- shift);
             q = num div den;
             r = num mod den
         in if r \<noteq> 0
            then dec_fix p (Dec (s \<noteq> t) (if q mod 5 = 0 then q + 1 else q) x)
            else (case strip_zeros q x (e - f) of (q', x') \<Rightarrow> dec_fix p (Dec (s \<noteq> t) q' x'))))"
| "dec_div p _ _ = DNan"

text \<open>\<open>float(d)\<close> of a decimal is the correctly rounded float; it may be infinite.\<close>

fun float_of_dec :: "dec \<Rightarrow> flt" where
  "float_of_dec (Dec s c e) = round_ratio s (c * 10 ^ nat e) (10 ^ nat (- e))"
| "float_of_dec (DInf s) = FInf s"
| "float_of_dec DNan = FNan"

definition dec_of_int :: "int \<Rightarrow> dec" where
  "dec_of_int i = Dec (i < 0) (nat \<bar>i\<bar>) 0"

subsection \<open>The spelling of a float\<close>

text \<open>
  \<^verbatim>\<open>repr(x)\<close> is the shortest decimal that reads back as \<open>x\<close> and, among those, the closest
  to \<open>x\<close>. \<open>repr_point\<close> is the position of the decimal point; \<open>repr_try n\<close> is the best
  decimal with \<open>n\<close> significant digits, if one reads back. Seventeen digits always suffice.
\<close>

definition repr_point :: "nat \<Rightarrow> nat \<Rightarrow> int" where
  "repr_point num den =
     (let k = int (ndigits num) - int (ndigits den)
      in if den * 10 ^ nat k \<le> num * 10 ^ nat (- k) then k + 1 else k)"

definition reads_back :: "nat \<Rightarrow> nat \<Rightarrow> nat \<Rightarrow> int \<Rightarrow> bool" where
  "reads_back num den c q =
     (round_ratio False (c * 10 ^ nat q) (10 ^ nat (- q)) = round_ratio False num den)"

definition repr_try :: "nat \<Rightarrow> nat \<Rightarrow> nat \<Rightarrow> (nat \<times> int) option" where
  "repr_try num den n =
     (let q = repr_point num den - int n;
          a = num * 10 ^ nat (- q);
          b = den * 10 ^ nat q;
          lo = a div b;
          near = rhe a b;
          far = (if near = lo then Suc lo else lo)
      in if reads_back num den near q then Some (near, q)
         else if reads_back num den far q then Some (far, q)
         else None)"

fun repr_search :: "nat \<Rightarrow> nat \<Rightarrow> nat list \<Rightarrow> nat \<times> int" where
  "repr_search num den [] =
     (let q = repr_point num den - 17
      in (rhe (num * 10 ^ nat (- q)) (den * 10 ^ nat q), q))"
| "repr_search num den (n # ns) =
     (case repr_try num den n of Some r \<Rightarrow> r | None \<Rightarrow> repr_search num den ns)"

definition repr_lengths :: "nat list" where
  "repr_lengths = [1,2,3,4,5,6,7,8,9,10,11,12,13,14,15,16,17]"

definition repr_digits :: "flt \<Rightarrow> nat \<times> int" where
  "repr_digits x =
     (if flt_num x = 0 then (0, 0)
      else case repr_search (flt_num x) (flt_den x) repr_lengths of
             (c, q) \<Rightarrow> strip_zeros c q 400)"

text \<open>
  \<^verbatim>\<open>Decimal(str(x))\<close>: positional notation (with at least one digit after the point) when the
  decimal point lies between -3 and 16, scientific notation otherwise.
\<close>

definition dec_of_flt :: "flt \<Rightarrow> dec" where
  "dec_of_flt x =
     (case x of
        FNan \<Rightarrow> DNan
      | FInf s \<Rightarrow> DInf s
      | FNegZero \<Rightarrow> Dec True 0 (-1)
      | FFin m e \<Rightarrow>
          (if m = 0 then Dec False 0 (-1)
           else case repr_digits x of
             (c, q) \<Rightarrow>
               (let point = int (ndigits c) + q
                in if 0 \<le> q \<and> point \<le> 16 then Dec (m < 0) (c * 10 ^ nat q * 10) (-1)
                   else Dec (m < 0) c q)))"

subsection \<open>Correct rounding\<close>

lemma bit_length_bounds: "0 < n \<Longrightarrow> 2 ^ (bit_length n - 1) \<le> n \<and> n < 2 ^ bit_length n"
proof (induction n rule: bit_length.induct)
  case (1 n)
  show ?case
  proof (cases "n = 1")
    case True
    then show ?thesis by (simp add: bit_length.simps)
  next
    case False
    with 1 have IH: "2 ^ (bit_length (n div 2) - 1) \<le> n div 2" "n div 2 < 2 ^ bit_length (n div 2)"
      and pos: "0 < n div 2" by auto
    have b: "bit_length n = Suc (bit_length (n div 2))"
      using 1 by (subst bit_length.simps) simp
    have "0 < bit_length (n div 2)"
      using pos by (subst bit_length.simps) simp
    then have "(2::nat) ^ bit_length (n div 2) = 2 * 2 ^ (bit_length (n div 2) - 1)"
      by (metis Suc_diff_1 power_Suc)
    with IH b show ?thesis by simp linarith
  qed
qed

lemma powi_split: "(2::real) powi l = 2 ^ nat l / 2 ^ nat (- l)"
  by (cases "0 \<le> l") (auto simp: power_int_def field_simps)

lemma powi10_split: "(10::real) powi l = 10 ^ nat l / 10 ^ nat (- l)"
  by (cases "0 \<le> l") (auto simp: power_int_def field_simps)

lemma scaled_le_iff:
  assumes "0 < den"
  shows "den * 2 ^ nat l \<le> num * 2 ^ nat (- l) \<longleftrightarrow> 2 powi l \<le> real num / real den"
proof -
  have "den * 2 ^ nat l \<le> num * 2 ^ nat (- l) \<longleftrightarrow>
      real (den * 2 ^ nat l) \<le> real (num * 2 ^ nat (- l))" by (simp only: of_nat_le_iff)
  also have "\<dots> \<longleftrightarrow> 2 powi l \<le> real num / real den"
    using assms by (simp add: powi_split field_simps)
  finally show ?thesis .
qed

lemma floor_log2_bounds:
  assumes "0 < num" "0 < den"
  shows "2 powi floor_log2 num den \<le> real num / real den"
    and "real num / real den < 2 powi (floor_log2 num den + 1)"
proof -
  define a b where "a = bit_length num" and "b = bit_length den"
  define l where "l = int a - int b"
  have A: "2 ^ (a - 1) \<le> num" "num < 2 ^ a" and B: "2 ^ (b - 1) \<le> den" "den < 2 ^ b"
    using bit_length_bounds assms by (auto simp: a_def b_def)
  have pos: "0 < a" "0 < b"
    using A B assms by (auto intro: gr0I)
  have num: "2 powi (int a - 1) \<le> real num" "real num < 2 powi int a"
    using A pos of_nat_mono [OF A(1), where ?'a = real] of_nat_less_iff [of num "2 ^ a", where ?'a = real]
    by (auto simp: power_int_def nat_diff_distrib)
  have den: "2 powi (int b - 1) \<le> real den" "real den < 2 powi int b"
    using B pos of_nat_mono [OF B(1), where ?'a = real] of_nat_less_iff [of den "2 ^ b", where ?'a = real]
    by (auto simp: power_int_def nat_diff_distrib)
  have "2 powi (l - 1) * real den \<le> 2 powi (l - 1) * 2 powi int b"
    using den by (intro mult_left_mono) auto
  also have "\<dots> = 2 powi (l - 1 + int b)" by (rule power_int_add [symmetric]) simp
  also have "l - 1 + int b = int a - 1" by (simp add: l_def)
  also note num(1)
  finally have lo: "2 powi (l - 1) \<le> real num / real den"
    using assms by (simp add: field_simps)
  have "real num < 2 powi int a" by (rule num)
  also have "int a = l + 1 + (int b - 1)" by (simp add: l_def)
  also have "(2::real) powi (l + 1 + (int b - 1)) = 2 powi (l + 1) * 2 powi (int b - 1)"
    by (rule power_int_add) simp
  also have "\<dots> \<le> 2 powi (l + 1) * real den"
    using den by (intro mult_left_mono) auto
  finally have hi: "real num / real den < 2 powi (l + 1)"
    using assms by (simp add: field_simps)
  have fl: "floor_log2 num den = (if 2 powi l \<le> real num / real den then l else l - 1)"
    using scaled_le_iff [OF assms(2)] by (simp add: floor_log2_def Let_def l_def a_def b_def)
  show "2 powi floor_log2 num den \<le> real num / real den"
    and "real num / real den < 2 powi (floor_log2 num den + 1)"
    using lo hi by (auto simp: fl)
qed

text \<open>The cell of an integer: the quotients that round to it.\<close>

definition in_cell :: "nat \<Rightarrow> real \<Rightarrow> bool" where
  "in_cell m r =
     (real m - 1/2 \<le> r \<and> r \<le> real m + 1/2
      \<and> (odd m \<longrightarrow> real m - 1/2 < r \<and> r < real m + 1/2))"

lemma in_cell_unique: "in_cell m r \<Longrightarrow> in_cell n r \<Longrightarrow> m = n"
proof (rule ccontr)
  assume m: "in_cell m r" and n: "in_cell n r" and "m \<noteq> n"
  then have "m < n \<or> n < m" by auto
  moreover have False if mn: "m < n" and m: "in_cell m r" and n: "in_cell n r" for m n
  proof -
    have "real n \<le> real m + 1" using m n by (auto simp: in_cell_def)
    with mn have "n = Suc m" by linarith
    with m n show False by (cases "even m") (auto simp: in_cell_def)
  qed
  ultimately show False using m n by blast
qed

lemma rhe_in_cell:
  assumes "0 < b"
  shows "in_cell (rhe a b) (real a / real b)"
proof -
  define q r where "q = a div b" and "r = a mod b"
  have "a = q * b + r" "r < b" using assms by (auto simp: q_def r_def)
  then have eq: "real a / real b = real q + real r / real b" and f: "real r / real b < 1" "0 \<le> real r / real b"
    using assms by (auto simp: field_simps)
  define f where "f = real r / real b"
  have F: "0 \<le> f" "f < 1" and eq: "real a / real b = real q + f"
    using f eq by (simp_all add: f_def)
  have ff: "2 * f = real (2 * r) / real b" by (simp add: f_def)
  have h1: "b < 2 * r \<longleftrightarrow> 1 < 2 * f"
    using assms by (simp only: ff less_divide_eq_1_pos of_nat_0_less_iff of_nat_less_iff)
  have h2: "2 * r = b \<longleftrightarrow> 2 * f = 1"
    using assms by (simp only: ff divide_eq_1_iff of_nat_eq_iff of_nat_eq_0_iff) auto
  have rhe: "rhe a b = (if 1 < 2 * f \<or> (2 * f = 1 \<and> odd q) then Suc q else q)"
    by (simp only: rhe_def Let_def q_def [symmetric] r_def [symmetric] h1 h2)
  show ?thesis
  proof (cases "1 < 2 * f \<or> (2 * f = 1 \<and> odd q)")
    case True
    then have r: "rhe a b = Suc q" and f: "1 / 2 \<le> f" and o: "odd (Suc q) \<longrightarrow> 1 / 2 < f"
      using rhe by auto
    then show ?thesis
      using F unfolding r eq in_cell_def of_nat_Suc by (intro conjI impI) linarith+
  next
    case False
    then have r: "rhe a b = q" and f: "f \<le> 1 / 2" and o: "odd q \<longrightarrow> f < 1 / 2"
      using rhe by (auto simp: not_less)
    then show ?thesis
      using F unfolding r eq in_cell_def by (intro conjI impI) linarith+
  qed
qed

lemma rhe_eq_iff: "0 < b \<Longrightarrow> rhe a b = m \<longleftrightarrow> in_cell m (real a / real b)"
  using rhe_in_cell in_cell_unique by metis


lemma scaled_ratio:
  "real (num * 2 ^ nat (- e)) / real (den * 2 ^ nat e) = real num / real den * 2 powi (- e)"
  by (simp add: powi_split [of "- e"])

lemma powi_less_iff: "(2::real) powi a < 2 powi b \<longleftrightarrow> a < b"
proof
  assume "(2::real) powi a < 2 powi b"
  then show "a < b"
    using power_int_increasing [of b a "2::real"] by (cases "a < b") auto
qed (simp add: power_int_strict_increasing)

lemma rhe_scaled_iff:
  "0 < den \<Longrightarrow> rhe (num * 2 ^ nat (- e)) (den * 2 ^ nat e) = m
    \<longleftrightarrow> in_cell m (real num / real den * 2 powi (- e))"
  by (subst rhe_eq_iff) (simp_all only: scaled_ratio, simp)

lemma floor_log2_eqI:
  assumes "0 < num" "0 < den" "2 powi l \<le> real num / real den" "real num / real den < 2 powi (l + 1)"
  shows "floor_log2 num den = l"
proof -
  note b = floor_log2_bounds [OF assms(1,2)]
  have "(2::real) powi floor_log2 num den < 2 powi (l + 1)" "(2::real) powi l < 2 powi (floor_log2 num den + 1)"
    using b assms by linarith+
  then show ?thesis unfolding powi_less_iff by linarith
qed

lemma powi_shift: "(2::real) powi (e + k) = 2 powi k * 2 powi e"
  by (simp add: power_int_add mult.commute)

lemma powi_cancel: "r * 2 powi (- e) * 2 powi e = (r :: real)"
  by (simp add: power_int_minus)

lemma round_exponent:
  assumes "0 < num" "0 < den" "-1074 \<le> e" and r: "r = real num / real den"
    and hi: "r * 2 powi (- e) < 2 ^ 53"
    and lo: "e = -1074 \<or> 2 ^ 52 \<le> r * 2 powi (- e)"
  shows "max (floor_log2 num den - 52) (-1074) = e"
proof -
  note b = floor_log2_bounds [OF assms(1,2), folded r]
  have "r < 2 ^ 53 * 2 powi e"
    using mult_strict_right_mono [OF hi, of "2 powi e"] by (simp only: powi_cancel) simp
  then have "(2::real) powi floor_log2 num den < 2 powi (e + 53)"
    using b powi_shift [of e 53] by simp
  then have 1: "floor_log2 num den - 52 \<le> e" unfolding powi_less_iff by linarith
  show ?thesis
  proof (cases "e = -1074")
    case True
    with 1 show ?thesis by simp
  next
    case False
    with lo have "2 ^ 52 \<le> r * 2 powi (- e)" by simp
    from mult_right_mono [OF this, of "2 powi e"]
    have "2 ^ 52 * 2 powi e \<le> r" by (simp only: powi_cancel) simp
    then have "(2::real) powi (e + 52) < 2 powi (floor_log2 num den + 1)"
      using b powi_shift [of e 52] by simp
    with 1 assms(3) show ?thesis unfolding powi_less_iff by linarith
  qed
qed

lemma round_ratio_cell:
  assumes pos: "0 < num" "0 < den" and e: "-1074 \<le> e" "e \<le> 971" and m: "0 < m" "m < 2 ^ 53"
    and r: "r = real num / real den"
    and cell: "in_cell m (r * 2 powi (- e))"
    and lo: "e = -1074 \<or> 2 ^ 52 \<le> r * 2 powi (- e)"
  shows "round_ratio neg num den = FFin (sgn_int neg m) e"
proof -
  have "real m + 1 \<le> real (2 ^ 53)" using m(2) by linarith
  then have hi: "r * 2 powi (- e) < 2 ^ 53"
    using cell unfolding in_cell_def by simp
  note ex = round_exponent [OF pos e(1) r hi lo]
  have "rhe (num * 2 ^ nat (- e)) (den * 2 ^ nat e) = m"
    using cell rhe_scaled_iff [OF pos(2)] r by blast
  with ex m e pos show ?thesis by (simp add: round_ratio_def Let_def)
qed

lemma round_ratio_cell_boundary:
  assumes pos: "0 < num" "0 < den" and e: "-1074 < e" "e \<le> 971"
    and r: "r = real num / real den"
    and cell: "2 ^ 52 - 1 / 4 \<le> r * 2 powi (- e)" "r * 2 powi (- e) < 2 ^ 52"
  shows "round_ratio neg num den = FFin (sgn_int neg (2 ^ 52)) e"
proof -
  have sh: "r * 2 powi (- (e - 1)) = 2 * (r * 2 powi (- e))"
    using powi_shift [of "- e" 1] by (simp add: algebra_simps)
  have ex: "max (floor_log2 num den - 52) (-1074) = e - 1"
    by (rule round_exponent [OF pos _ r]) (use e cell in \<open>simp_all only: sh, simp_all\<close>)
  have "in_cell (2 ^ 53) (r * 2 powi (- (e - 1)))"
    using cell by (simp only: in_cell_def sh) simp
  then have "rhe (num * 2 ^ nat (- (e - 1))) (den * 2 ^ nat (e - 1)) = 2 ^ 53"
    using rhe_scaled_iff [OF pos(2)] r by blast
  with ex e pos show ?thesis by (simp add: round_ratio_def Let_def)
qed


subsection \<open>Values of floats and decimals\<close>

fun fval :: "flt \<Rightarrow> real" where
  "fval (FFin m e) = real_of_int m * 2 powi e"
| "fval _ = 0"

definition dval :: "dec \<Rightarrow> real" where
  "dval d = real_of_int (dec_sc d) * 10 powi dec_exp d"

lemma flt_ratio:
  "real (flt_num (FFin m e)) / real (flt_den (FFin m e)) = \<bar>real_of_int m\<bar> * 2 powi e"
  by (simp add: powi_split [of e])

lemma round_ratio_exact:
  assumes wf: "flt_wf (FFin m e)" and m: "m \<noteq> 0"
  shows "round_ratio (m < 0) (flt_num (FFin m e)) (flt_den (FFin m e)) = FFin m e"
proof -
  have sg: "sgn_int (m < 0) (nat \<bar>m\<bar>) = m" by (simp add: sgn_int_def)
  have abs: "\<bar>real_of_int m\<bar> = real (nat \<bar>m\<bar>)" by simp
  have "\<bar>real_of_int m\<bar> * 2 powi e * 2 powi (- e) = real (nat \<bar>m\<bar>)"
    using powi_cancel [of "\<bar>real_of_int m\<bar>" "- e"] by simp
  then have v: "real (flt_num (FFin m e)) / real (flt_den (FFin m e)) * 2 powi (- e) = real (nat \<bar>m\<bar>)"
    by (simp only: flt_ratio)
  have lo: "e = -1074 \<or> 2 ^ 52 \<le> real (nat \<bar>m\<bar>)"
  proof (cases "e = -1074")
    case False
    with wf m have "2 ^ 52 \<le> \<bar>m\<bar>" by auto
    then have "real_of_int (2 ^ 52) \<le> real_of_int \<bar>m\<bar>" by (simp only: of_int_le_iff)
    then show ?thesis by simp
  qed simp
  have "round_ratio (m < 0) (flt_num (FFin m e)) (flt_den (FFin m e)) = FFin (sgn_int (m < 0) (nat \<bar>m\<bar>)) e"
    by (rule round_ratio_cell [OF _ _ _ _ _ _ refl]) (use wf m lo in \<open>auto simp only: v in_cell_def\<close>, auto)
  then show ?thesis by (simp only: sg)
qed

lemma round_ratio_value:
  assumes "0 < den" "0 < den'" and eq: "real num / real den = real num' / real den'"
  shows "round_ratio neg num den = round_ratio neg num' den'"
proof (cases "num = 0")
  case True
  with assms have "num' = 0" by simp
  with True show ?thesis by (simp add: round_ratio_def)
next
  case False
  then have "0 < num" by simp
  with assms have "0 < real num' / real den'" by (metis divide_pos_pos of_nat_0_less_iff)
  then have "0 < num'" by (cases "num' = 0") auto
  note n = \<open>0 < num\<close> this
  have fl: "floor_log2 num den = floor_log2 num' den'"
    by (rule floor_log2_eqI) (use floor_log2_bounds [OF n(2) assms(2)] eq n assms in auto)
  have "rhe (num * 2 ^ nat (- e)) (den * 2 ^ nat e) = rhe (num' * 2 ^ nat (- e)) (den' * 2 ^ nat e)" for e
    by (simp only: rhe_scaled_iff [OF assms(1)] eq) (simp only: rhe_scaled_iff [OF assms(2), symmetric])
  then show ?thesis using n by (simp add: round_ratio_def fl)
qed

lemma dec_ratio: "real (c * 10 ^ nat q) / real (10 ^ nat (- q)) = real c * 10 powi q"
  by (simp add: powi10_split [of q])

lemma float_of_dec_value:
  assumes "real c * 10 powi q = real c' * 10 powi q'"
  shows "float_of_dec (Dec s c q) = float_of_dec (Dec s c' q')"
  unfolding float_of_dec.simps by (rule round_ratio_value) (simp_all only: dec_ratio assms, simp_all)

lemma strip_zeros_value:
  "strip_zeros c q i = (c', q') \<Longrightarrow> real c * 10 powi q = real c' * 10 powi q'"
proof (induction c q i rule: strip_zeros.induct)
  case (1 c q i)
  show ?case
  proof (cases "0 < c \<and> q < i \<and> c mod 10 = 0")
    case True
    with 1 have "real (c div 10) * 10 powi (q + 1) = real c' * 10 powi q'"
      by (subst (asm) (2) strip_zeros.simps) simp
    moreover have "real c = real (c div 10) * 10"
      using True by (metis mod_0_imp_dvd dvd_div_mult_self of_nat_mult of_nat_numeral)
    ultimately show ?thesis by (simp add: power_int_add)
  next
    case False
    with 1 show ?thesis by (subst (asm) (2) strip_zeros.simps) auto
  qed
qed


subsection \<open>The spelling of a float reads back\<close>

lemma scaled10_le_iff:
  assumes "0 < den"
  shows "den * 10 ^ nat l \<le> num * 10 ^ nat (- l) \<longleftrightarrow> 10 powi l \<le> real num / real den"
proof -
  have "den * 10 ^ nat l \<le> num * 10 ^ nat (- l) \<longleftrightarrow>
      real (den * 10 ^ nat l) \<le> real (num * 10 ^ nat (- l))" by (simp only: of_nat_le_iff)
  also have "\<dots> \<longleftrightarrow> 10 powi l \<le> real num / real den"
    using assms by (simp add: powi10_split field_simps)
  finally show ?thesis .
qed

lemma repr_point_lower:
  assumes "0 < num" "0 < den"
  shows "10 powi (repr_point num den - 1) \<le> real num / real den"
proof -
  define a b where "a = ndigits num" and "b = ndigits den"
  have k: "repr_point num den
      = (if 10 powi (int a - int b) \<le> real num / real den then int a - int b + 1 else int a - int b)"
    using scaled10_le_iff [OF assms(2)] by (simp add: repr_point_def Let_def a_def b_def)
  have "0 < a" by (simp add: a_def)
  have "real (10 ^ (a - 1)) \<le> real num"
    using ndigits_lower [OF assms(1)] by (simp only: a_def of_nat_le_iff)
  then have n: "10 powi (int a - 1) \<le> real num"
    using \<open>0 < a\<close> by (simp add: power_int_def nat_diff_distrib)
  have "real den < real (10 ^ b)"
    using ndigits_upper [of den] by (simp only: b_def of_nat_less_iff)
  then have d: "real den < 10 powi int b" by simp
  have "10 powi (int a - int b - 1) * real den \<le> 10 powi (int a - int b - 1) * 10 powi int b"
    using d by (intro mult_left_mono) auto
  also have "\<dots> = 10 powi (int a - int b - 1 + int b)" by (rule power_int_add [symmetric]) simp
  also have "int a - int b - 1 + int b = int a - 1" by simp
  also note n
  finally have "10 powi (int a - int b - 1) \<le> real num / real den"
    using assms by (simp add: field_simps)
  then show ?thesis by (auto simp: k)
qed

lemma powi10_cancel: "r * 10 powi (- e) * 10 powi e = (r :: real)"
  by (simp add: power_int_minus)

lemma near17_error:
  assumes pos: "0 < num" "0 < den" and r: "r = real num / real den"
    and q: "q = repr_point num den - 17" and c: "c = rhe (num * 10 ^ nat (- q)) (den * 10 ^ nat q)"
  shows "\<bar>real c * 10 powi q - r\<bar> * (2 * 10 ^ 16) \<le> r"
proof -
  have "real (num * 10 ^ nat (- q)) / real (den * 10 ^ nat q) = r * 10 powi (- q)"
    by (simp add: r powi10_split [of "- q"])
  then have cell: "in_cell c (r * 10 powi (- q))"
    using rhe_in_cell [of "den * 10 ^ nat q" "num * 10 ^ nat (- q)"] pos c by simp
  have "\<bar>real c - r * 10 powi (- q)\<bar> \<le> 1 / 2"
    using cell unfolding in_cell_def by (intro abs_leI) linarith+
  from mult_right_mono [OF this, of "10 powi q"]
  have "\<bar>real c - r * 10 powi (- q)\<bar> * 10 powi q \<le> 10 powi q / 2" by simp
  moreover have "\<bar>real c - r * 10 powi (- q)\<bar> * 10 powi q = \<bar>real c * 10 powi q - r\<bar>"
  proof -
    have "\<bar>real c - r * 10 powi (- q)\<bar> * 10 powi q = \<bar>(real c - r * 10 powi (- q)) * 10 powi q\<bar>"
      by (simp only: abs_mult) simp
    then show ?thesis by (simp only: left_diff_distrib powi10_cancel)
  qed
  moreover have "10 powi q * 10 ^ 16 \<le> r"
    using repr_point_lower [OF pos] power_int_add [of "10::real" q 16]
    by (simp add: q r)
  ultimately show ?thesis by simp
qed

lemma near17_reads_back:
  assumes wf: "flt_wf (FFin m e)" and m: "0 < m"
    and nd: "num = flt_num (FFin m e)" "den = flt_den (FFin m e)"
    and q: "q = repr_point num den - 17" and c: "c = rhe (num * 10 ^ nat (- q)) (den * 10 ^ nat q)"
  shows "round_ratio False (c * 10 ^ nat q) (10 ^ nat (- q)) = FFin m e"
proof -
  define r where "r = real_of_int m * 2 powi e"
  define s where "s = real c * 10 powi q"
  have pos: "0 < num" "0 < den" using m by (simp_all add: nd)
  have r: "r = real num / real den"
    using flt_ratio [of m e] m by (simp only: r_def nd abs_of_pos of_int_0_less_iff)
  have err: "\<bar>s - r\<bar> * (2 * 10 ^ 16) \<le> r"
    using near17_error [OF pos r q c] by (simp only: s_def)
  have m53: "real_of_int m \<le> 2 ^ 53 - 1" using wf m by auto
  define t where "t = s * 2 powi (- e)"
  have rt: "r * 2 powi (- e) = real_of_int m" using powi_cancel [of "real_of_int m" "- e"] by (simp add: r_def)
  have "\<bar>t - real_of_int m\<bar> = \<bar>s - r\<bar> * 2 powi (- e)"
    by (simp only: t_def rt [symmetric] left_diff_distrib [symmetric] abs_mult) simp
  then have terr: "\<bar>t - real_of_int m\<bar> * (2 * 10 ^ 16) \<le> real_of_int m"
    using mult_right_mono [OF err, of "2 powi (- e)"] rt by (simp add: mult.assoc mult.commute mult.left_commute)
  have st: "s = real (c * 10 ^ nat q) / real (10 ^ nat (- q))" by (simp only: s_def dec_ratio)
  have rpos: "0 < r" using m by (simp add: r_def)
  have "0 < s"
  proof (rule ccontr)
    assume "\<not> 0 < s"
    then have "r \<le> \<bar>s - r\<bar>" by linarith
    then have "r * (2 * 10 ^ 16) \<le> \<bar>s - r\<bar> * (2 * 10 ^ 16)" by (rule mult_right_mono) simp
    with err rpos show False by simp
  qed
  then have cpos: "0 < c * 10 ^ nat q" by (auto simp: s_def intro: gr0I)
  have e: "-1074 \<le> e" "e \<le> 971" using wf m by auto
  have mn: "real_of_int m = real (nat m)" using m by simp
  show ?thesis
  proof (cases "e = -1074 \<or> 2 ^ 52 \<le> t")
    case True
    have "in_cell (nat m) t"
      using terr m53 by (simp only: in_cell_def mn [symmetric]) (auto simp: abs_le_iff abs_if split: if_splits)
    then have "round_ratio False (c * 10 ^ nat q) (10 ^ nat (- q)) = FFin (sgn_int False (nat m)) e"
      by (intro round_ratio_cell [OF cpos _ e _ _ st])
        (use True m m53 in \<open>auto simp: t_def\<close>)
    with m show ?thesis by (simp add: sgn_int_def)
  next
    case False
    then have "2 ^ 52 \<le> m" using wf m by auto
    then have m52: "2 ^ 52 \<le> real_of_int m"
      by (metis of_int_le_iff of_int_numeral of_int_power)
    have d: "(real_of_int m - t) * (2 * 10 ^ 16) \<le> real_of_int m"
      using terr by (auto simp: abs_if split: if_splits)
    have "m = 2 ^ 52"
    proof (rule ccontr)
      assume "m \<noteq> 2 ^ 52"
      with \<open>2 ^ 52 \<le> m\<close> have "real_of_int (2 ^ 52 + 1) \<le> real_of_int m" by (simp only: of_int_le_iff)
      then have "2 ^ 52 + 1 \<le> real_of_int m" by simp
      with d False m53 show False by simp
    qed
    then have mv: "real_of_int m = 2 ^ 52" by simp
    have lo: "2 ^ 52 - 1 / 4 \<le> t" using d unfolding mv by simp
    have "round_ratio False (c * 10 ^ nat q) (10 ^ nat (- q)) = FFin (sgn_int False (2 ^ 52)) e"
      by (intro round_ratio_cell_boundary [OF cpos _ _ _ st])
        (use False lo e in \<open>simp_all add: t_def\<close>)
    with \<open>m = 2 ^ 52\<close> show ?thesis by (simp add: sgn_int_def)
  qed
qed

lemma round_ratio_sign:
  assumes "round_ratio False num den = FFin k e" "k \<noteq> 0"
  shows "round_ratio neg num den = FFin (if neg then - k else k) e"
proof -
  define e0 where "e0 = max (floor_log2 num den - 52) (-1074)"
  define m0 where "m0 = rhe (num * 2 ^ nat (- e0)) (den * 2 ^ nat e0)"
  define m1 where "m1 = (if m0 = 2 ^ 53 then 2 ^ 52 else m0)"
  define e1 where "e1 = (if m0 = 2 ^ 53 then e0 + 1 else e0)"
  have r: "round_ratio s num den =
     (if num = 0 then (if s then FNegZero else fzero)
      else if m1 = 0 then (if s then FNegZero else fzero)
      else if 971 < e1 then FInf s else FFin (sgn_int s m1) e1)" for s
    by (simp only: round_ratio_def Let_def e0_def m0_def m1_def e1_def)
  from assms show ?thesis
    unfolding r by (auto simp: sgn_int_def fzero_def split: if_splits)
qed

lemma repr_search_reads_back:
  assumes fb: "\<And>q. q = repr_point num den - 17 \<Longrightarrow>
      reads_back num den (rhe (num * 10 ^ nat (- q)) (den * 10 ^ nat q)) q"
    and res: "repr_search num den ns = (c, q)"
  shows "reads_back num den c q"
  using res
proof (induction ns)
  case Nil
  then show ?case using fb by (auto simp: Let_def)
next
  case (Cons n ns)
  then show ?case
    by (auto simp: repr_try_def Let_def split: option.splits if_splits)
qed

text \<open>\<^verbatim>\<open>float(Decimal(str(x))) == x\<close> for every finite float.\<close>

lemma float_of_dec_of_flt_pos:
  assumes wf: "flt_wf (FFin m e)" and m: "m \<noteq> 0"
  shows "float_of_dec (dec_of_flt (FFin m e)) = FFin m e"
proof -
  let ?x = "FFin m e" and ?y = "FFin \<bar>m\<bar> e"
  have same: "flt_num ?y = flt_num ?x" "flt_den ?y = flt_den ?x" by simp_all
  have wfy: "flt_wf ?y" and my: "0 < \<bar>m\<bar>" using wf m by auto
  have num0: "flt_num ?x \<noteq> 0" using m by simp
  obtain c q where cq: "repr_search (flt_num ?x) (flt_den ?x) repr_lengths = (c, q)" by fastforce
  obtain c' q' where cq': "strip_zeros c q 400 = (c', q')" by fastforce
  have ex: "round_ratio False (flt_num ?x) (flt_den ?x) = ?y"
    using round_ratio_exact [OF wfy] my by (simp only: same) simp
  have "reads_back (flt_num ?x) (flt_den ?x) c q"
  proof (rule repr_search_reads_back [OF _ cq])
    fix k assume "k = repr_point (flt_num ?x) (flt_den ?x) - 17"
    then show "reads_back (flt_num ?x) (flt_den ?x)
        (rhe (flt_num ?x * 10 ^ nat (- k)) (flt_den ?x * 10 ^ nat k)) k"
      unfolding reads_back_def ex by (intro near17_reads_back [OF wfy my]) (simp_all only: same)
  qed
  then have rb: "float_of_dec (Dec False c q) = ?y"
    by (simp only: reads_back_def ex float_of_dec.simps)
  have sgn: "float_of_dec (Dec (m < 0) c q) = ?x"
    using round_ratio_sign [OF rb [unfolded float_of_dec.simps], of "m < 0"] m by auto
  have v': "real c * 10 powi q = real c' * 10 powi q'" by (rule strip_zeros_value [OF cq'])
  define d where "d = dec_of_flt ?x"
  have "d = Dec (m < 0) c' q' \<or> (0 \<le> q' \<and> d = Dec (m < 0) (c' * 10 ^ nat q' * 10) (- 1))"
    using m num0 cq cq' by (auto simp: d_def dec_of_flt_def repr_digits_def Let_def split: if_splits)
  then show ?thesis
  proof
    assume "d = Dec (m < 0) c' q'"
    then show ?thesis using sgn float_of_dec_value [OF v', of "m < 0"] by (simp only: d_def)
  next
    assume d: "0 \<le> q' \<and> d = Dec (m < 0) (c' * 10 ^ nat q' * 10) (- 1)"
    then have "real (c' * 10 ^ nat q' * 10) * 10 powi (- 1) = real c' * 10 powi q'"
      by (simp add: power_int_def)
    then have "real (c' * 10 ^ nat q' * 10) * 10 powi (- 1) = real c * 10 powi q"
      by (rule trans [OF _ v' [symmetric]])
    then show ?thesis using d sgn float_of_dec_value [of "c' * 10 ^ nat q' * 10" "- 1" c q "m < 0"]
      by (simp only: d_def)
  qed
qed

lemma float_of_dec_of_flt:
  assumes "flt_wf x" "isfinite x"
  shows "float_of_dec (dec_of_flt x) = x"
proof (cases x)
  case (FFin m e)
  then show ?thesis
    using assms float_of_dec_of_flt_pos [of m e]
    by (cases "m = 0") (auto simp: dec_of_flt_def round_ratio_def fzero_def)
next
  case FNegZero
  then show ?thesis by (simp add: dec_of_flt_def round_ratio_def)
qed (use assms in auto)


subsection \<open>Fast evaluation\<close>

text \<open>
  Checking a rounding by its cell takes a few products instead of a search: \<open>fcell\<close> decides over
  the integers whether \<open>c * 10 ^ q\<close> reads back as the normal float \<open>m * 2 ^ e\<close>.
\<close>

definition cell_test :: "nat \<Rightarrow> int \<Rightarrow> nat \<Rightarrow> nat \<Rightarrow> bool" where
  "cell_test m e num den =
     (let a = 2 * num * 2 ^ nat (- e); b = den * 2 ^ nat e
      in (2 * m - 1) * b \<le> a \<and> a \<le> (2 * m + 1) * b
         \<and> (odd m \<longrightarrow> (2 * m - 1) * b < a \<and> a < (2 * m + 1) * b)
         \<and> 2 ^ 53 * b \<le> a)"

lemma round_ratio_cell_test:
  assumes "cell_test m e num den" "0 < num" "0 < den" "0 < m" "m < 2 ^ 53" "-1074 \<le> e" "e \<le> 971"
  shows "round_ratio neg num den = FFin (sgn_int neg m) e"
proof -
  define a b where "a = num * 2 ^ nat (- e)" and "b = den * 2 ^ nat e"
  define r where "r = real num / real den"
  have b: "0 < b" using assms by (simp add: b_def)
  have q: "r * 2 powi (- e) = real a / real b"
    by (simp only: r_def a_def b_def scaled_ratio)
  have m1: "real (2 * m - 1) = 2 * real m - 1" using assms by (simp add: of_nat_diff)
  have t: "(2 * m - 1) * b \<le> 2 * a" "2 * a \<le> (2 * m + 1) * b" "2 ^ 53 * b \<le> 2 * a"
      "odd m \<longrightarrow> (2 * m - 1) * b < 2 * a \<and> 2 * a < (2 * m + 1) * b"
    using assms(1) by (simp_all add: cell_test_def Let_def a_def b_def mult.assoc)
  have R: "real ((2 * m - 1) * b) \<le> real (2 * a)" "real (2 * a) \<le> real ((2 * m + 1) * b)"
      "real (2 ^ 53 * b) \<le> real (2 * a)"
      "odd m \<longrightarrow> real ((2 * m - 1) * b) < real (2 * a) \<and> real (2 * a) < real ((2 * m + 1) * b)"
    using t by (simp_all only: of_nat_le_iff of_nat_less_iff simp_thms)
  have cell: "in_cell m (real a / real b)"
    using R b unfolding in_cell_def of_nat_mult m1 by (auto simp: field_simps)
  have lo: "2 ^ 52 \<le> real a / real b"
    using R(3) b by (simp add: field_simps)
  show ?thesis
    by (rule round_ratio_cell [OF assms(2,3,6,7,4,5) r_def]) (use cell lo q in simp_all)
qed


lemma round_ratio_imp_cell:
  assumes pos: "0 < den" and m: "2 ^ 52 < m"
    and rr: "round_ratio False num den = FFin (int m) e"
  shows "in_cell m (real num / real den * 2 powi (- e))"
proof -
  define e0 where "e0 = max (floor_log2 num den - 52) (-1074)"
  define m0 where "m0 = rhe (num * 2 ^ nat (- e0)) (den * 2 ^ nat e0)"
  define m1 where "m1 = (if m0 = 2 ^ 53 then 2 ^ 52 else m0)"
  define e1 where "e1 = (if m0 = 2 ^ 53 then e0 + 1 else e0)"
  have r: "round_ratio False num den =
     (if num = 0 then fzero else if m1 = 0 then fzero
      else if 971 < e1 then FInf False else FFin (int m1) e1)"
    by (simp only: round_ratio_def Let_def e0_def m0_def m1_def e1_def sgn_int_def if_False)
  have "m1 = m" "e1 = e" using rr m unfolding r by (auto simp: fzero_def split: if_splits)
  then have "m0 = m" "e0 = e" using m by (auto simp: m1_def e1_def split: if_splits)
  then show ?thesis using rhe_scaled_iff [OF pos, of num e m] m0_def by simp
qed

lemma reads_back_cell_test:
  assumes x: "num = flt_num (FFin (int m) e)" "den = flt_den (FFin (int m) e)"
    and m: "2 ^ 52 < m" "m < 2 ^ 53" and e: "-1074 \<le> e" "e \<le> 971"
  shows "reads_back num den c q = cell_test m e (c * 10 ^ nat q) (10 ^ nat (- q))"
proof -
  let ?n = "c * 10 ^ nat q" and ?d = "10 ^ nat (- q) :: nat"
  have wf: "flt_wf (FFin (int m) e)"
    using m e by simp
  have ex: "round_ratio False num den = FFin (int m) e"
    using round_ratio_exact [OF wf] m by (simp only: x) simp
  have m1: "real (2 * m - 1) = 2 * real m - 1" using m by (simp add: of_nat_diff)
  show ?thesis
  proof
    assume "cell_test m e ?n ?d"
    moreover have "0 < ?n"
    proof (rule gr0I)
      assume z: "?n = 0"
      have "0 < (2 * m - 1) * (?d * 2 ^ nat e)" using m by simp
      with \<open>cell_test m e ?n ?d\<close> z show False by (simp add: cell_test_def Let_def)
    qed
    ultimately show "reads_back num den c q"
      using round_ratio_cell_test [of m e ?n ?d False] m e by (simp add: reads_back_def ex sgn_int_def)
  next
    assume "reads_back num den c q"
    then have "round_ratio False ?n ?d = FFin (int m) e" by (simp only: reads_back_def ex)
    then have "in_cell m (real ?n / real ?d * 2 powi (- e))"
      by (intro round_ratio_imp_cell m) simp_all
    moreover define a b where "a = ?n * 2 ^ nat (- e)" and "b = ?d * 2 ^ nat e"
    ultimately have cell: "in_cell m (real a / real b)"
      by (simp only: a_def b_def scaled_ratio)
    have b: "0 < real b" by (simp add: b_def)
    have m52: "2 ^ 52 + 1 \<le> real m"
      using m(1) by (metis Suc_leI of_nat_Suc of_nat_le_iff of_nat_numeral of_nat_power add.commute)
    have c: "(2 * real m - 1) * real b \<le> 2 * real a" "2 * real a \<le> (2 * real m + 1) * real b"
      "odd m \<longrightarrow> (2 * real m - 1) * real b < 2 * real a \<and> 2 * real a < (2 * real m + 1) * real b"
      using cell b by (auto simp: in_cell_def field_simps)
    have "2 ^ 53 * real b \<le> (2 * real m - 1) * real b"
      by (intro mult_right_mono) (use m52 b in simp_all)
    with c(1) have "2 ^ 53 * real b \<le> 2 * real a" by linarith
    note h = c this
    have eqs: "real ((2 * m - 1) * b) = (2 * real m - 1) * real b"
        "real ((2 * m + 1) * b) = (2 * real m + 1) * real b" "real (2 * a) = 2 * real a"
        "real (2 ^ 53 * b) = 2 ^ 53 * real b"
      by (simp_all add: m1 del: One_nat_def)
    have "real ((2 * m - 1) * b) \<le> real (2 * a)" "real (2 * a) \<le> real ((2 * m + 1) * b)"
      "real (2 ^ 53 * b) \<le> real (2 * a)"
      "odd m \<longrightarrow> real ((2 * m - 1) * b) < real (2 * a) \<and> real (2 * a) < real ((2 * m + 1) * b)"
      unfolding eqs using h by (simp_all only:)
    then show "cell_test m e ?n ?d"
      unfolding of_nat_le_iff of_nat_less_iff cell_test_def Let_def a_def b_def by (simp only: mult.assoc simp_thms)
  qed
qed

lemma repr_try_cell_test:
  assumes "repr_point (flt_num (FFin (int m) e)) (flt_den (FFin (int m) e)) = p"
    and "2 ^ 52 < m" "m < 2 ^ 53" "-1074 \<le> e" "e \<le> 971"
  shows "repr_try (flt_num (FFin (int m) e)) (flt_den (FFin (int m) e)) n =
    (let q = p - int n;
         a = flt_num (FFin (int m) e) * 10 ^ nat (- q);
         b = flt_den (FFin (int m) e) * 10 ^ nat q;
         lo = a div b; near = rhe a b; far = (if near = lo then Suc lo else lo)
     in if cell_test m e (near * 10 ^ nat q) (10 ^ nat (- q)) then Some (near, q)
        else if cell_test m e (far * 10 ^ nat q) (10 ^ nat (- q)) then Some (far, q) else None)"
  by (simp only: repr_try_def assms(1) reads_back_cell_test [OF refl refl assms(2-)])

subsection \<open>Decimals and their values\<close>

lemma powi10_min:
  "(10::real) ^ nat (x - y) * 10 powi min x y = 10 powi x"
  "(10::real) ^ nat (y - x) * 10 powi min x y = 10 powi y"
  using power_int_add [of "10::real" "x - y" "min x y"] power_int_add [of "10::real" "y - x" "min x y"]
  by (cases "y \<le> x"; auto simp: power_int_def)+

lemma dec_le_dval: "dec_le a b \<longleftrightarrow> dval a \<le> dval b"
proof -
  define x y where "x = dec_exp a" and "y = dec_exp b"
  have "dec_le a b \<longleftrightarrow> real_of_int (dec_sc a * 10 ^ nat (x - y)) \<le> real_of_int (dec_sc b * 10 ^ nat (y - x))"
    by (simp only: dec_le_def of_int_le_iff x_def y_def)
  also have "\<dots> \<longleftrightarrow> real_of_int (dec_sc a * 10 ^ nat (x - y)) * 10 powi min x y
      \<le> real_of_int (dec_sc b * 10 ^ nat (y - x)) * 10 powi min x y"
    by (simp only: mult_le_cancel_right_pos zero_less_power_int zero_less_numeral)
  also have "\<dots> \<longleftrightarrow> real_of_int (dec_sc a) * (10 ^ nat (x - y) * 10 powi min x y)
      \<le> real_of_int (dec_sc b) * (10 ^ nat (y - x) * 10 powi min x y)"
    by simp
  finally show ?thesis by (simp only: powi10_min dval_def x_def y_def)
qed

lemma dec_eq_dval: "dec_eq a b \<longleftrightarrow> dval a = dval b"
  and dec_lt_dval: "dec_lt a b \<longleftrightarrow> dval a < dval b"
  by (auto simp: dec_eq_def dec_lt_def dec_le_dval)

lemma dval_Dec: "dval (Dec s c e) = (if s then - real c else real c) * 10 powi e"
  by (simp add: dval_def sgn_int_def)

lemma dval_neg: "dval (dec_neg a) = - dval a"
  by (cases a) (auto simp: dval_def sgn_int_def)

lemma dval_abs: "dec_finite a \<Longrightarrow> dval (dec_abs a) = \<bar>dval a\<bar>"
  by (cases a) (auto simp: dval_def sgn_int_def abs_mult)

lemma dval_plus:
  assumes "dec_finite a" "dec_finite b"
  shows "dval (dec_plus a b) = dval a + dval b"
proof (cases a)
  case a: (Dec s c e)
  show ?thesis
  proof (cases b)
    case b: (Dec t d f)
    define m where "m = min e f"
    define v where "v = sgn_int s c * 10 ^ nat (e - m) + sgn_int t d * 10 ^ nat (f - m)"
    have "dec_plus a b = Dec (if v = 0 then s \<and> t else v < 0) (nat \<bar>v\<bar>) m"
      by (simp add: a b Let_def m_def v_def)
    then have "dval (dec_plus a b) = real_of_int v * 10 powi m"
      by (auto simp: dval_Dec)
    also have "\<dots> = real_of_int (sgn_int s c) * (10 ^ nat (e - m) * 10 powi m)
        + real_of_int (sgn_int t d) * (10 ^ nat (f - m) * 10 powi m)"
      by (simp add: v_def algebra_simps)
    also have "(10::real) ^ nat (e - m) * 10 powi m = 10 powi e"
      using powi10_min(1) [of e f] by (auto simp: m_def min_def)
    also have "(10::real) ^ nat (f - m) * 10 powi m = 10 powi f"
      using powi10_min(2) [of f e] by (auto simp: m_def min_def)
    finally show ?thesis by (simp add: a b dval_def)
  qed (use assms in auto)
qed (use assms in auto)

lemma dec_finite_plus [simp]: "dec_finite (dec_plus a b) \<longleftrightarrow> dec_finite a \<and> dec_finite b"
  by (cases a; cases b) (auto simp: Let_def)

lemma dec_finite_fix [simp]: "dec_finite (dec_fix p d) = dec_finite d"
  by (cases d) (auto simp: Let_def)

lemma dec_finite_neg [simp]: "dec_finite (dec_neg d) = dec_finite d"
  by (cases d) auto

lemma dec_finite_abs [simp]: "dec_finite (dec_abs d) = dec_finite d"
  by (cases d) auto

lemma dec_fix_short: "dec_digits d \<le> p \<Longrightarrow> dec_fix p d = d"
  by (cases d) (auto simp: dec_digits_def)

text \<open>\<open>dec_fix\<close> rounds the value: a multiple of \<open>10 ^ k\<close> within half a unit.\<close>

lemma ndigits_le_iff: "0 < p \<Longrightarrow> ndigits n \<le> p \<longleftrightarrow> n < 10 ^ p"
proof
  assume "ndigits n \<le> p"
  then have "(10::nat) ^ ndigits n \<le> 10 ^ p" by (simp add: power_increasing)
  with ndigits_upper [of n] show "n < 10 ^ p" by linarith
next
  assume p: "0 < p" and n: "n < 10 ^ p"
  show "ndigits n \<le> p"
  proof (rule ccontr)
    assume "\<not> ndigits n \<le> p"
    moreover have "ndigits 0 = 1" by (simp add: ndigits.simps)
    ultimately have "p \<le> ndigits n - 1" "n \<noteq> 0" using p by (cases "n = 0"; auto)+
    then have "(10::nat) ^ p \<le> 10 ^ (ndigits n - 1)" by (intro power_increasing) simp_all
    with ndigits_lower [of n] n \<open>n \<noteq> 0\<close> show False by linarith
  qed
qed

lemma dval_fix:
  assumes p: "0 < p" and n: "p < ndigits c"
  shows "dval (dec_fix p (Dec s c e))
    = (if s then - 1 else 1) * real (rhe c (10 ^ (ndigits c - p))) * 10 powi (e + int (ndigits c - p))"
proof -
  define k q where "k = ndigits c - p" and "q = rhe c (10 ^ k)"
  have "c < 10 ^ (p + k)" using ndigits_upper [of c] n by (simp add: k_def)
  have cell: "in_cell q (real c / real (10 ^ k))" unfolding q_def by (rule rhe_in_cell) simp
  show ?thesis
  proof (cases "p < ndigits q")
    case False
    then show ?thesis using n by (simp add: dval_Dec Let_def flip: k_def q_def)
  next
    case True
    then have "10 ^ p \<le> q" using ndigits_le_iff [OF p, of q] by simp
    moreover have "q \<le> 10 ^ p"
    proof (rule ccontr)
      assume "\<not> q \<le> 10 ^ p"
      then have "real (10 ^ p + 1) \<le> real q" by (simp only: of_nat_le_iff)
      moreover have "real q - 1/2 \<le> real c / real (10 ^ k)" using cell by (simp add: in_cell_def)
      moreover have "real c / real (10 ^ k) < real (10 ^ p)"
        using \<open>c < 10 ^ (p + k)\<close> of_nat_less_iff [of c "10 ^ (p + k)", where ?'a = real]
        by (simp add: power_add field_simps)
      ultimately show False by simp
    qed
    ultimately have q: "q = 10 ^ p" by simp
    with p have "q div 10 * 10 = q" by (cases p) auto
    then have "real (q div 10) * 10 = real q" by (metis of_nat_mult of_nat_numeral)
    then show ?thesis
      using n True by (auto simp: dval_Dec Let_def power_int_add simp flip: k_def q_def)
  qed
qed


lemma rhe_ge: "0 < b \<Longrightarrow> real t \<le> real a / real b \<Longrightarrow> t \<le> rhe a b"
proof (rule ccontr)
  assume b: "0 < b" and t: "real t \<le> real a / real b" and "\<not> t \<le> rhe a b"
  then have "real (rhe a b + 1) \<le> real t" by (simp only: of_nat_le_iff)
  with rhe_in_cell [OF b, of a] t show False by (simp add: in_cell_def)
qed

lemma rhe_le: "0 < b \<Longrightarrow> real a / real b \<le> real t \<Longrightarrow> rhe a b \<le> t"
proof (rule ccontr)
  assume b: "0 < b" and t: "real a / real b \<le> real t" and "\<not> rhe a b \<le> t"
  then have "real (t + 1) \<le> real (rhe a b)" by (simp only: of_nat_le_iff)
  with rhe_in_cell [OF b, of a] t show False by (simp add: in_cell_def)
qed

lemma dec_fix_ge_pos:
  assumes p: "0 < p" and n: "p < ndigits c" and t: "ndigits ct \<le> p" "0 < ct"
    and le: "real ct * 10 powi f \<le> real c * 10 powi e"
  shows "real ct * 10 powi f \<le> real (rhe c (10 ^ (ndigits c - p))) * 10 powi (e + int (ndigits c - p))"
proof -
  define k q where "k = ndigits c - p" and "q = rhe c (10 ^ k)"
  have ge: "T \<le> q" if "real T \<le> real c / real (10 ^ k)" for T
    using that unfolding q_def by (intro rhe_ge) simp_all
  have sh: "real c * 10 powi e = real c / real (10 ^ k) * 10 powi (e + int k)"
    by (simp add: power_int_add)
  have "real ct * 10 powi f \<le> real q * 10 powi (e + int k)"
  proof (cases "e + int k \<le> f")
    case True
    define T where "T = ct * 10 ^ nat (f - (e + int k))"
    have "(10::real) powi f = 10 powi (f - (e + int k)) * 10 powi (e + int k)"
      by (subst power_int_add [symmetric]) auto
    then have T: "real ct * 10 powi f = real T * 10 powi (e + int k)"
      using True by (simp add: T_def power_int_def [of _ "f - (e + int k)"])
    with le sh have "real T * 10 powi (e + int k) \<le> real c / real (10 ^ k) * 10 powi (e + int k)"
      by simp
    then have "real T \<le> real c / real (10 ^ k)" by (simp only: mult_le_cancel_right_pos zero_less_power_int zero_less_numeral)
    from ge [OF this] T show ?thesis by simp
  next
    case False
    have "c \<noteq> 0" using n p by (intro notI) (simp add: ndigits.simps)
    then have "10 ^ (ndigits c - 1) \<le> c" by (intro ndigits_lower) simp
    moreover have "ndigits c - 1 = (p - 1) + k" using n p by (simp add: k_def)
    ultimately have "real (10 ^ (p - 1) * 10 ^ k) \<le> real c" by (simp only: of_nat_le_iff power_add)
    then have "real (10 ^ (p - 1)) \<le> real c / real (10 ^ k)" by (simp add: field_simps)
    then have q: "real (10 ^ (p - 1)) \<le> real q" using ge by (simp only: of_nat_le_iff)
    have "real ct \<le> real (10 ^ p)"
      using t ndigits_le_iff [OF p, of ct] by (simp only: of_nat_le_iff)
    then have "real ct * 10 powi f \<le> 10 ^ p * 10 powi f" by (simp add: mult_right_mono)
    also have "\<dots> \<le> 10 ^ p * 10 powi (e + int k - 1)"
      using False by (intro mult_left_mono power_int_increasing) simp_all
    also have "\<dots> = real (10 ^ (p - 1)) * 10 powi (e + int k)"
      using p by (cases p) (simp_all add: power_int_diff)
    also have "\<dots> \<le> real q * 10 powi (e + int k)" using q by (intro mult_right_mono) simp_all
    finally show ?thesis .
  qed
  then show ?thesis by (simp only: k_def q_def)
qed

lemma dec_fix_ge:
  assumes p: "0 < p" and fin: "dec_finite x" "dec_finite t" and t: "dec_digits t \<le> p" "0 \<le> dval t"
    and le: "dval t \<le> dval x"
  shows "dval t \<le> dval (dec_fix p x)"
proof -
  obtain s c e ts ct f where x: "x = Dec s c e" and tt: "t = Dec ts ct f"
    using fin by (cases x; cases t) auto
  show ?thesis
  proof (cases "ndigits c \<le> p")
    case True
    with le show ?thesis by (simp add: x)
  next
    case False
    then have n: "p < ndigits c" by simp
    then have "c \<noteq> 0" using p by (intro notI) (simp add: ndigits.simps)
    then have "0 < real c * 10 powi e" by simp
    with le t(2) have s: "\<not> s" by (auto simp: x dval_Dec simp del: zero_less_mult_iff mult_pos_pos)
    then have fx: "dval (dec_fix p x) = real (rhe c (10 ^ (ndigits c - p))) * 10 powi (e + int (ndigits c - p))"
      using dval_fix [OF p n, of s e] by (simp add: x del: dec_fix.simps)
    show ?thesis
    proof (cases "ct = 0")
      case True
      then show ?thesis by (simp only: fx) (simp add: tt dval_Dec)
    next
      case False
      then have "0 < real ct * 10 powi f" by simp
      then have ts: "\<not> ts" using t(2) by (auto simp: tt dval_Dec simp del: zero_less_mult_iff)
      have "real ct * 10 powi f \<le> real c * 10 powi e" using le s ts by (simp add: x tt dval_Dec)
      from dec_fix_ge_pos [OF p n _ _ this] t(1) False
      show ?thesis using fx ts by (simp add: tt dval_Dec dec_digits_def)
    qed
  qed
qed


text \<open>The spelling of a float has at most 18 digits (17 significant ones and the zero of \<open>.0\<close>).\<close>

lemma repr_point_upper:
  assumes "0 < num" "0 < den"
  shows "real num / real den < 10 powi repr_point num den"
proof -
  define a b where "a = ndigits num" and "b = ndigits den"
  have k: "repr_point num den
      = (if 10 powi (int a - int b) \<le> real num / real den then int a - int b + 1 else int a - int b)"
    using scaled10_le_iff [OF assms(2)] by (simp add: repr_point_def Let_def a_def b_def)
  have "0 < b" by (simp add: b_def)
  have "real (10 ^ (b - 1)) \<le> real den"
    using ndigits_lower [OF assms(2)] by (simp only: b_def of_nat_le_iff)
  then have d: "10 powi (int b - 1) \<le> real den"
    using \<open>0 < b\<close> by (simp add: power_int_def nat_diff_distrib)
  have "real num < real (10 ^ a)"
    using ndigits_upper [of num] by (simp only: a_def of_nat_less_iff)
  then have "real num < 10 powi int a" by simp
  also have "int a = int a - int b + 1 + (int b - 1)" by simp
  also have "(10::real) powi (int a - int b + 1 + (int b - 1)) = 10 powi (int a - int b + 1) * 10 powi (int b - 1)"
    by (rule power_int_add) simp
  also have "\<dots> \<le> 10 powi (int a - int b + 1) * real den"
    using d by (intro mult_left_mono) auto
  finally have "real num / real den < 10 powi (int a - int b + 1)"
    using assms by (simp add: field_simps)
  then show ?thesis by (auto simp: k)
qed

lemma repr_scaled_less:
  assumes "0 < num" "0 < den" and q: "q = repr_point num den - int n"
  shows "real (num * 10 ^ nat (- q)) / real (den * 10 ^ nat q) < real (10 ^ n)"
proof -
  have "real (num * 10 ^ nat (- q)) / real (den * 10 ^ nat q) = real num / real den * 10 powi (- q)"
    by (simp add: powi10_split [of "- q"])
  also have "\<dots> < 10 powi repr_point num den * 10 powi (- q)"
    by (intro mult_strict_right_mono repr_point_upper assms) simp
  also have "\<dots> = 10 powi (repr_point num den + (- q))" by (rule power_int_add [symmetric]) simp
  also have "repr_point num den + (- q) = int n" by (simp add: q)
  finally show ?thesis by simp
qed

lemma repr_try_bound:
  assumes "0 < num" "0 < den" "repr_try num den n = Some (c, q)"
  shows "c \<le> 10 ^ n"
proof -
  define k where "k = repr_point num den - int n"
  define a b where "a = num * 10 ^ nat (- k)" and "b = den * 10 ^ nat k"
  have b: "0 < b" using assms by (simp add: b_def)
  have less: "real a / real b < real (10 ^ n)"
    using repr_scaled_less [OF assms(1,2) k_def] by (simp only: a_def b_def)
  have near: "rhe a b \<le> 10 ^ n"
    by (rule rhe_le [OF b]) (use less in simp)
  have "real a < real (10 ^ n * b)" using less b by (simp add: field_simps)
  then have "a < 10 ^ n * b" by (simp only: of_nat_less_iff)
  then have lo: "Suc (a div b) \<le> 10 ^ n" using b by (simp add: Suc_le_eq less_mult_imp_div_less)
  have "c \<in> {rhe a b, Suc (a div b), a div b}"
    using assms(3) by (auto simp: repr_try_def Let_def simp flip: k_def a_def b_def split: if_splits)
  with near lo show ?thesis by auto
qed

lemma repr_search_bound:
  assumes "0 < num" "0 < den" "\<forall>n \<in> set ns. n \<le> 17" "repr_search num den ns = (c, q)"
  shows "c \<le> 10 ^ 17"
  using assms(3,4)
proof (induction ns)
  case Nil
  have "0 < den * 10 ^ nat (repr_point num den - 17)" using assms by simp
  from rhe_le [OF this, of _ "10 ^ 17"] repr_scaled_less [OF assms(1,2), of _ 17] Nil
  show ?case by (auto simp: Let_def intro: less_imp_le)
next
  case (Cons n ns)
  show ?case
  proof (cases "repr_try num den n")
    case None
    with Cons show ?thesis by simp
  next
    case (Some r)
    then have "repr_try num den n = Some (c, q)" using Cons.prems by simp
    then have "c \<le> 10 ^ n" by (rule repr_try_bound [OF assms(1,2)])
    also have "(10::nat) ^ n \<le> 10 ^ 17" using Cons.prems by (intro power_increasing) auto
    finally show ?thesis .
  qed
qed

lemma strip_zeros_le: "strip_zeros c q i = (c', q') \<Longrightarrow> c' \<le> c"
proof (induction c q i rule: strip_zeros.induct)
  case (1 c q i)
  show ?case
  proof (cases "0 < c \<and> q < i \<and> c mod 10 = 0")
    case True
    with 1 have "c' \<le> c div 10" by (subst (asm) (2) strip_zeros.simps) simp
    then show ?thesis by linarith
  next
    case False
    with 1 show ?thesis by (subst (asm) (2) strip_zeros.simps) auto
  qed
qed

lemma dec_digits_of_flt: "dec_digits (dec_of_flt x) \<le> 18"
proof (cases x)
  case (FFin m e)
  show ?thesis
  proof (cases "m = 0")
    case False
    obtain c q where cq: "repr_search (flt_num x) (flt_den x) repr_lengths = (c, q)" by fastforce
    obtain c' q' where cq': "strip_zeros c q 400 = (c', q')" by fastforce
    have pos: "0 < flt_num x" "0 < flt_den x" using False by (simp_all add: FFin)
    have "c \<le> 10 ^ 17"
      by (rule repr_search_bound [OF pos _ cq]) (simp add: repr_lengths_def)
    with strip_zeros_le [OF cq'] have "c' \<le> 10 ^ 17" by simp
    then have c': "ndigits c' \<le> 18" by (simp add: ndigits_le_iff)
    have "ndigits (c' * 10 ^ nat q' * 10) \<le> 18" if "0 \<le> q'" "int (ndigits c') + q' \<le> 16"
    proof -
      have "c' * 10 ^ nat q' < 10 ^ ndigits c' * 10 ^ nat q'" using ndigits_upper [of c'] by simp
      also have "\<dots> = 10 ^ (ndigits c' + nat q')" by (simp add: power_add)
      also have "\<dots> \<le> (10::nat) ^ 16" using that by (intro power_increasing) auto
      finally show ?thesis by (simp add: ndigits_le_iff)
    qed
    with c' False pos cq cq' show ?thesis
      by (auto simp: dec_of_flt_def FFin repr_digits_def Let_def dec_digits_def)
  qed (simp add: FFin dec_of_flt_def dec_digits_def ndigits.simps)
qed (simp_all add: dec_of_flt_def dec_digits_def ndigits.simps)

lemma dec_finite_of_flt [simp]: "dec_finite (dec_of_flt x) = isfinite x"
  by (cases x) (auto simp: dec_of_flt_def Let_def split: prod.splits if_splits)

subsection \<open>Formatted numbers\<close>

text \<open>
  \<^verbatim>\<open>repr\<close> of a float, \<^verbatim>\<open>str\<close> of a decimal, and the format specifications the reports use:
  \<open>fmt_fixed n\<close> is \<^verbatim>\<open>:.nf\<close>, \<open>fmt_g6\<close> is \<^verbatim>\<open>:.6g\<close>, \<open>fmt_pct n\<close> is \<^verbatim>\<open>:.n%\<close>.
\<close>

definition zeros :: "nat \<Rightarrow> string" where
  "zeros n = replicate n (CHR ''0'')"

definition show_pad :: "nat \<Rightarrow> nat \<Rightarrow> string" where
  "show_pad w n = zeros (w - length (show_nat n)) @ show_nat n"

definition show_exp :: "int \<Rightarrow> string" where
  "show_exp e = (if e < 0 then ''e-'' else ''e+'') @ show_pad 2 (nat \<bar>e\<bar>)"

definition minus_sign :: "bool \<Rightarrow> string" where
  "minus_sign s = (if s then ''-'' else [])"

definition place_point :: "string \<Rightarrow> int \<Rightarrow> string" where
  "place_point ds point =
     (if point \<le> 0 then ''0.'' @ zeros (nat (- point)) @ ds
      else if int (length ds) \<le> point then ds @ zeros (nat point - length ds) @ ''.0''
      else take (nat point) ds @ ''.'' @ drop (nat point) ds)"

definition flt_repr :: "flt \<Rightarrow> string" where
  "flt_repr x =
     (case x of
        FNan \<Rightarrow> ''nan''
      | FInf s \<Rightarrow> minus_sign s @ ''inf''
      | FNegZero \<Rightarrow> ''-0.0''
      | FFin m e \<Rightarrow>
          (if m = 0 then ''0.0''
           else case repr_digits x of
             (c, q) \<Rightarrow>
               (let ds = show_nat c; point = int (ndigits c) + q
                in minus_sign (m < 0) @
                   (if -4 < point \<and> point \<le> 16 then place_point ds point
                    else take 1 ds @ (if 1 < length ds then ''.'' @ drop 1 ds else []) @ show_exp (point - 1)))))"

definition dec_str :: "dec \<Rightarrow> string" where
  "dec_str d =
     (case d of
        DNan \<Rightarrow> ''NaN''
      | DInf s \<Rightarrow> minus_sign s @ ''Infinity''
      | Dec s c e \<Rightarrow>
          (let ds = show_nat c;
               left = e + int (length ds);
               dot = (if e \<le> 0 \<and> -6 < left then left else 1);
               body = (if dot \<le> 0 then ''0.'' @ zeros (nat (- dot)) @ ds
                       else if int (length ds) \<le> dot then ds @ zeros (nat dot - length ds)
                       else take (nat dot) ds @ ''.'' @ drop (nat dot) ds);
               ex = (if left = dot then []
                     else ''E'' @ (if left - dot < 0 then ''-'' else ''+'') @ show_nat (nat \<bar>left - dot\<bar>))
           in minus_sign s @ body @ ex))"

definition fmt_fixed :: "nat \<Rightarrow> flt \<Rightarrow> string" where
  "fmt_fixed n x =
     (case x of
        FNan \<Rightarrow> ''nan''
      | FInf s \<Rightarrow> minus_sign s @ ''inf''
      | _ \<Rightarrow>
          (let k = rhe (flt_num x * 10 ^ n) (flt_den x)
           in minus_sign (flt_neg x) @ show_nat (k div 10 ^ n)
              @ (if n = 0 then [] else ''.'' @ show_pad n (k mod 10 ^ n))))"

definition fmt_pct :: "nat \<Rightarrow> flt \<Rightarrow> string" where
  "fmt_pct n x = fmt_fixed n (fmul100 x) @ ''%''"

definition drop_zeros :: "string \<Rightarrow> string" where
  "drop_zeros ds = rev (dropWhile (\<lambda>c. c = CHR ''0'') (rev ds))"

definition with_frac :: "string \<Rightarrow> string \<Rightarrow> string" where
  "with_frac i f = i @ (if drop_zeros f = [] then [] else ''.'' @ drop_zeros f)"

definition fmt_g6 :: "flt \<Rightarrow> string" where
  "fmt_g6 x =
     (case x of
        FNan \<Rightarrow> ''nan''
      | FInf s \<Rightarrow> minus_sign s @ ''inf''
      | _ \<Rightarrow>
          (if flt_num x = 0 then minus_sign (flt_neg x) @ ''0''
           else
             (let p = repr_point (flt_num x) (flt_den x);
                  k = rhe (flt_num x * 10 ^ nat (6 - p)) (flt_den x * 10 ^ nat (p - 6));
                  k' = (if k = 10 ^ 6 then 10 ^ 5 else k);
                  p' = (if k = 10 ^ 6 then p + 1 else p)
              in minus_sign (flt_neg x) @
                 (if -4 < p' \<and> p' \<le> 6
                  then with_frac (show_nat (k' div 10 ^ nat (6 - p')))
                         (if p' = 6 then [] else show_pad (nat (6 - p')) (k' mod 10 ^ nat (6 - p')))
                  else with_frac (take 1 (show_nat k')) (drop 1 (show_nat k')) @ show_exp (p' - 1)))))"

subsection \<open>Floats and decimals as real numbers\<close>

lemma fval_ratio: "isfinite x \<Longrightarrow> fval x = real_of_int (flt_snum x) / real (flt_den x)"
proof (cases x)
  case (FFin m e)
  have "real_of_int (flt_snum x) = real_of_int m * 2 ^ nat e"
    by (auto simp: FFin flt_snum_def sgn_int_def)
  then show ?thesis by (simp add: FFin powi_split [of e])
qed (auto simp: flt_snum_def sgn_int_def)

lemma flt_den_pos [simp]: "0 < flt_den x"
  by (cases x) auto

lemma flt_le_fval:
  assumes "isfinite x" "isfinite y"
  shows "flt_le x y \<longleftrightarrow> fval x \<le> fval y"
proof -
  have "flt_le x y \<longleftrightarrow> flt_snum x * int (flt_den y) \<le> flt_snum y * int (flt_den x)"
    using assms by (cases x; cases y) auto
  also have "\<dots> \<longleftrightarrow> real_of_int (flt_snum x * int (flt_den y)) \<le> real_of_int (flt_snum y * int (flt_den x))"
    by (simp only: of_int_le_iff)
  also have "\<dots> \<longleftrightarrow> fval x \<le> fval y"
    by (simp add: fval_ratio assms frac_le_eq divide_le_eq le_divide_eq field_simps)
  finally show ?thesis .
qed

lemma flt_eq_fval: "isfinite x \<Longrightarrow> isfinite y \<Longrightarrow> flt_eq x y \<longleftrightarrow> fval x = fval y"
  by (auto simp: flt_eq_def flt_le_fval)

lemma flt_lt_fval: "isfinite x \<Longrightarrow> isfinite y \<Longrightarrow> flt_lt x y \<longleftrightarrow> fval x < fval y"
  by (auto simp: flt_lt_def flt_le_fval)

lemma fval_eq_zero: "isfinite x \<Longrightarrow> fval x = 0 \<longleftrightarrow> (\<exists>e. x = FFin 0 e) \<or> x = FNegZero"
  by (cases x) auto

lemma fval_inject:
  assumes wf: "flt_wf x" "flt_wf y" and fin: "isfinite x" "isfinite y"
    and eq: "fval x = fval y" and nz: "fval x \<noteq> 0"
  shows "x = y"
proof -
  obtain m e m' e' where xy: "x = FFin m e" "y = FFin m' e'" "m \<noteq> 0" "m' \<noteq> 0"
  proof -
    obtain m e where x: "x = FFin m e" "m \<noteq> 0" using fin nz by (cases x) auto
    moreover have "fval y \<noteq> 0" using eq nz by simp
    then obtain m' e' where "y = FFin m' e'" "m' \<noteq> 0" using fin by (cases y) auto
    ultimately show ?thesis using that by blast
  qed
  have neg: "real_of_int k * 2 powi l < 0 \<longleftrightarrow> k < 0" for k l
  proof -
    define p where "p = (2::real) powi l"
    have "0 < p" by (simp add: p_def)
    then show ?thesis by (simp add: mult_less_0_iff flip: p_def)
  qed
  have "real_of_int m * 2 powi e = real_of_int m' * 2 powi e'" using eq by (simp add: xy)
  moreover from this have "(m < 0) = (m' < 0)"
  proof -
    have "(real_of_int m * 2 powi e < 0) = (m < 0)" "(real_of_int m' * 2 powi e' < 0) = (m' < 0)"
      using neg [of m e] neg [of m' e'] by simp_all
    with \<open>real_of_int m * 2 powi e = real_of_int m' * 2 powi e'\<close> show ?thesis by simp
  qed
  ultimately have s: "(m < 0) = (m' < 0)"
    and a: "\<bar>real_of_int m\<bar> * 2 powi e = \<bar>real_of_int m'\<bar> * 2 powi e'"
    by (auto simp: abs_if)
  have "x = round_ratio (m < 0) (flt_num x) (flt_den x)"
    using round_ratio_exact [of m e] wf xy by simp
  also have "\<dots> = round_ratio (m' < 0) (flt_num y) (flt_den y)"
    unfolding s by (rule round_ratio_value)
      (use a flt_ratio [of m e] flt_ratio [of m' e'] in \<open>simp_all add: xy(1,2) del: flt_num.simps flt_den.simps\<close>)
  also have "\<dots> = y" using round_ratio_exact [of m' e'] wf xy by simp
  finally show ?thesis .
qed

lemma dval_signs:
  "dval (Dec s c q) < 0 \<longleftrightarrow> s \<and> c \<noteq> 0" (is ?N)
  "0 < dval (Dec s c q) \<longleftrightarrow> \<not> s \<and> c \<noteq> 0" (is ?P)
proof -
  define p where "p = (10::real) powi q"
  have "0 < p" by (simp add: p_def)
  moreover have "dval (Dec s c q) = (if s then - real c else real c) * p" by (simp add: dval_Dec p_def)
  ultimately show ?N ?P by (simp_all add: mult_less_0_iff zero_less_mult_iff)
qed

lemma dval_sign:
  "dval (Dec s c q) = dval (Dec s' c' q') \<Longrightarrow> dval (Dec s c q) \<noteq> 0 \<Longrightarrow> s = s'"
  by (metis dval_signs linorder_neqE_linordered_idom)

lemma float_of_dec_dval:
  assumes "dec_finite d" "dec_finite d'" and "dval d = dval d'" and "dval d \<noteq> 0"
  shows "float_of_dec d = float_of_dec d'"
proof -
  obtain s c q s' c' q' where d: "d = Dec s c q" "d' = Dec s' c' q'"
    using assms by (cases d; cases d') auto
  have ss: "s = s'" using dval_sign assms(3,4) unfolding d by blast
  then have "real c * 10 powi q = real c' * 10 powi q'"
    using assms(3) by (cases s) (simp_all add: d dval_Dec)
  then show ?thesis unfolding d ss by (rule float_of_dec_value)
qed

lemma dec_of_flt_zero: "flt_wf x \<Longrightarrow> isfinite x \<Longrightarrow> dval (dec_of_flt x) = 0 \<longleftrightarrow> fval x = 0"
proof
  assume wf: "flt_wf x" "isfinite x" and z: "dval (dec_of_flt x) = 0"
  obtain s c e where d: "dec_of_flt x = Dec s c e"
    using wf(2) unfolding dec_finite_of_flt [symmetric] by (cases "dec_of_flt x") simp_all
  then have "dec_of_flt x = Dec s 0 e" using z by (auto simp: dval_Dec split: if_splits)
  then have "x = float_of_dec (Dec s 0 e)" using float_of_dec_of_flt [OF wf] by simp
  then show "fval x = 0" by (simp add: round_ratio_def fzero_def)
next
  assume wf: "flt_wf x" "isfinite x" and "fval x = 0"
  then show "dval (dec_of_flt x) = 0" by (auto simp: fval_eq_zero dec_of_flt_def dval_Dec)
qed

lemma dec_of_flt_eq_iff:
  assumes "flt_wf x" "isfinite x" "flt_wf y" "isfinite y"
  shows "dval (dec_of_flt x) = dval (dec_of_flt y) \<longleftrightarrow> fval x = fval y"
proof (cases "fval x = 0 \<or> fval y = 0")
  case True
  then show ?thesis using dec_of_flt_zero assms by metis
next
  case False
  have "fval x = fval y \<Longrightarrow> x = y" using fval_inject assms False by blast
  moreover have "dval (dec_of_flt x) = dval (dec_of_flt y) \<Longrightarrow> x = y"
    using float_of_dec_dval [of "dec_of_flt x" "dec_of_flt y"] dec_of_flt_zero assms False
      float_of_dec_of_flt by auto
  ultimately show ?thesis by blast
qed

lemma round_ratio_wf:
  assumes den: "0 < den"
  shows "flt_wf (round_ratio neg num den)"
proof (cases "num = 0")
  case True
  then show ?thesis by (simp add: round_ratio_def fzero_def)
next
  case False
  define r where "r = real num / real den"
  define e where "e = max (floor_log2 num den - 52) (-1074)"
  define m where "m = rhe (num * 2 ^ nat (- e)) (den * 2 ^ nat e)"
  have r: "2 powi floor_log2 num den \<le> r" "r < 2 powi (floor_log2 num den + 1)"
    using floor_log2_bounds [of num den] False den by (simp_all add: r_def)
  have s: "real (num * 2 ^ nat (- e)) / real (den * 2 ^ nat e) = r * 2 powi (- e)"
    unfolding r_def by (rule scaled_ratio)
  have p: "0 < den * 2 ^ nat e" using den by simp
  have up: "r * 2 powi (- e) \<le> 2 ^ 53"
  proof -
    have "r < 2 powi (e + 53)"
      proof -
      have "(2::real) powi (floor_log2 num den + 1) \<le> 2 powi (e + 53)"
        by (intro power_int_increasing) (auto simp: e_def)
      with r(2) show ?thesis by linarith
    qed
    then have "r * 2 powi (- e) \<le> 2 powi (e + 53) * 2 powi (- e)" by (intro mult_right_mono) auto
    also have "\<dots> = 2 ^ 53" using powi_shift [of "- e" "e + 53"] by simp
    finally show ?thesis .
  qed
  have m53: "m \<le> 2 ^ 53" unfolding m_def by (rule rhe_le [OF p]) (simp only: s, use up in simp)
  have m52: "e = -1074 \<or> 2 ^ 52 \<le> m"
  proof (cases "e = -1074")
    case False
    then have e: "floor_log2 num den = e + 52" by (auto simp: e_def max_def split: if_splits)
    have "2 powi (e + 52) * 2 powi (- e) \<le> r * 2 powi (- e)"
      using r(1) unfolding e by (intro mult_right_mono) auto
    moreover have "2 powi (e + 52) * 2 powi (- e) = (2::real) ^ 52"
      using powi_shift [of "- e" "e + 52"] by simp
    ultimately show ?thesis unfolding m_def by (intro disjI2 rhe_ge [OF p]) (simp only: s, simp)
  qed simp
  have e0: "-1074 \<le> e" by (simp add: e_def)
  have "round_ratio neg num den =
      (let m' = (if m = 2 ^ 53 then 2 ^ 52 else m); e' = (if m = 2 ^ 53 then e + 1 else e)
       in if m' = 0 then (if neg then FNegZero else fzero)
          else if 971 < e' then FInf neg else FFin (sgn_int neg m') e')"
    by (simp only: round_ratio_def Let_def e_def m_def False if_False)
  then show ?thesis
    using m53 m52 e0 by (auto simp: Let_def fzero_def sgn_int_def)
qed

lemma float_of_dec_wf: "flt_wf (float_of_dec d)"
  by (cases d) (auto intro: round_ratio_wf)

end
