(* ===== verification/Models.thy ===== *)
theory Models
  imports PyNumbers
begin

section \<open>Python values and the shared data model\<close>

text \<open>
  The values that decoded YAML and JSON documents hold, with Python's equality, and the data
  model of \<^verbatim>\<open>claimci/models.py\<close>: severities, impacts, verdicts, directions, findings, metric
  summaries, dataset hashes, overlap summaries, the research specification and the audit result.

  A dict is its list of items in insertion order. \<open>POther\<close> stands for the scalars no check
  inspects (dates, timestamps, byte strings), identified by their spelling. The fields of a
  dataclass keep their names; a name that HOL already uses gets a prefix.
\<close>

subsection \<open>Values\<close>

datatype pyval =
    PNone
  | PBool bool
  | PInt int
  | PFloat flt
  | PStr string
  | POther string
  | PList "pyval list"
  | PTuple "pyval list"
  | PSet "pyval list"
  | PDict "(pyval \<times> pyval) list"

text \<open>Numbers compare by value across \<^verbatim>\<open>bool\<close>, \<^verbatim>\<open>int\<close> and \<^verbatim>\<open>float\<close>.\<close>

datatype pnum = NInt int | NFlt flt

fun as_num :: "pyval \<Rightarrow> pnum option" where
  "as_num (PBool b) = Some (NInt (if b then 1 else 0))"
| "as_num (PInt i) = Some (NInt i)"
| "as_num (PFloat x) = Some (NFlt x)"
| "as_num _ = None"

definition int_flt_eq :: "int \<Rightarrow> flt \<Rightarrow> bool" where
  "int_flt_eq i x = (isfinite x \<and> i * int (flt_den x) = flt_snum x)"

fun num_eq :: "pnum \<Rightarrow> pnum option \<Rightarrow> bool" where
  "num_eq _ None = False"
| "num_eq (NInt i) (Some (NInt j)) = (i = j)"
| "num_eq (NInt i) (Some (NFlt y)) = int_flt_eq i y"
| "num_eq (NFlt x) (Some (NInt j)) = int_flt_eq j x"
| "num_eq (NFlt x) (Some (NFlt y)) = flt_eq x y"

function py_eq :: "pyval \<Rightarrow> pyval \<Rightarrow> bool"
  and py_eqs :: "pyval list \<Rightarrow> pyval list \<Rightarrow> bool"
  and py_mems :: "pyval list \<Rightarrow> pyval list \<Rightarrow> bool"
  and py_items :: "(pyval \<times> pyval) list \<Rightarrow> (pyval \<times> pyval) list \<Rightarrow> bool"
where
  "py_eq PNone y = (y = PNone)"
| "py_eq (PBool b) y = num_eq (NInt (if b then 1 else 0)) (as_num y)"
| "py_eq (PInt i) y = num_eq (NInt i) (as_num y)"
| "py_eq (PFloat x) y = num_eq (NFlt x) (as_num y)"
| "py_eq (PStr s) y = (y = PStr s)"
| "py_eq (POther s) y = (y = POther s)"
| "py_eq (PList xs) y = (case y of PList ys \<Rightarrow> py_eqs xs ys | _ \<Rightarrow> False)"
| "py_eq (PTuple xs) y = (case y of PTuple ys \<Rightarrow> py_eqs xs ys | _ \<Rightarrow> False)"
| "py_eq (PSet xs) y = (case y of PSet ys \<Rightarrow> length xs = length ys \<and> py_mems xs ys | _ \<Rightarrow> False)"
| "py_eq (PDict d) y = (case y of PDict d' \<Rightarrow> length d = length d' \<and> py_items d d' | _ \<Rightarrow> False)"
| "py_eqs [] ys = (ys = [])"
| "py_eqs (x # xs) ys = (case ys of [] \<Rightarrow> False | y # ys' \<Rightarrow> py_eq x y \<and> py_eqs xs ys')"
| "py_mems [] ys = True"
| "py_mems (x # xs) ys = (list_ex (py_eq x) ys \<and> py_mems xs ys)"
| "py_items [] d' = True"
| "py_items ((k, v) # d) d' = (list_ex (\<lambda>(k', v'). py_eq k k' \<and> py_eq v v') d' \<and> py_items d d')"
  by pat_completeness auto
termination
  by (relation "measure (case_sum
        (case_sum (\<lambda>(v, _). size v) (\<lambda>(xs, _). size_list size xs))
        (case_sum (\<lambda>(xs, _). size_list size xs) (\<lambda>(d, _). size_list (size_prod size size) d)))")
    auto

text \<open>A mapping, by its items.\<close>

type_synonym config = "(pyval \<times> pyval) list"

text \<open>Reading a string key of a dict, with and without a default.\<close>

definition dget :: "(pyval \<times> pyval) list \<Rightarrow> string \<Rightarrow> pyval option" where
  "dget d k = map_of d (PStr k)"

definition dget_none :: "(pyval \<times> pyval) list \<Rightarrow> string \<Rightarrow> pyval" where
  "dget_none d k = (case dget d k of Some v \<Rightarrow> v | None \<Rightarrow> PNone)"

definition pdict :: "(string \<times> pyval) list \<Rightarrow> pyval" where
  "pdict d = PDict (map (\<lambda>(k, v). (PStr k, v)) d)"

definition is_dict :: "pyval \<Rightarrow> bool" where
  "is_dict v = (case v of PDict _ \<Rightarrow> True | _ \<Rightarrow> False)"

text \<open>Evidence values from optional fields, string lists and counts.\<close>

definition opt_val :: "pyval option \<Rightarrow> pyval" where
  "opt_val v = (case v of None \<Rightarrow> PNone | Some x \<Rightarrow> x)"

definition opt_str :: "string option \<Rightarrow> pyval" where
  "opt_str s = (case s of None \<Rightarrow> PNone | Some x \<Rightarrow> PStr x)"

definition str_list :: "string list \<Rightarrow> pyval" where
  "str_list xs = PList (map PStr xs)"

definition opt_flt :: "flt option \<Rightarrow> pyval" where
  "opt_flt x = (case x of None \<Rightarrow> PNone | Some f \<Rightarrow> PFloat f)"

definition pnat :: "nat \<Rightarrow> pyval" where
  "pnat n = PInt (int n)"

text \<open>The default limit on the decimal digits of an integer that is converted to text.\<close>

definition max_str_digits :: nat where "max_str_digits = 4300"

text \<open>A value that contains no NaN equals itself.\<close>

fun nan_free :: "pyval \<Rightarrow> bool" where
  "nan_free (PFloat x) = (x \<noteq> FNan)"
| "nan_free (PList xs) = list_all nan_free xs"
| "nan_free (PTuple xs) = list_all nan_free xs"
| "nan_free (PSet xs) = list_all nan_free xs"
| "nan_free (PDict d) = list_all (\<lambda>(k, v). nan_free k \<and> nan_free v) d"
| "nan_free _ = True"

lemma flt_le_refl: "flt_le x x \<longleftrightarrow> x \<noteq> FNan"
proof (cases x)
  case (FInf s)
  then show ?thesis by (cases s) auto
qed auto

lemma flt_eq_refl: "flt_eq x x \<longleftrightarrow> x \<noteq> FNan"
  by (simp add: flt_eq_def flt_le_refl)

lemma py_eqs_refl: "\<forall>x \<in> set xs. py_eq x x \<Longrightarrow> py_eqs xs xs"
  by (induction xs) auto

lemma py_mems_refl: "\<forall>x \<in> set xs. py_eq x x \<Longrightarrow> set xs \<subseteq> set ys \<Longrightarrow> py_mems xs ys"
  by (induction xs) (auto simp: list_ex_iff)

lemma py_items_refl:
  "\<forall>(k, v) \<in> set d. py_eq k k \<and> py_eq v v \<Longrightarrow> set d \<subseteq> set d' \<Longrightarrow> py_items d d'"
  by (induction d) (force simp: list_ex_iff)+

lemma py_eq_refl: "nan_free v \<Longrightarrow> py_eq v v"
proof (induction v)
  case (PDict d)
  then have "\<forall>(k, v) \<in> set d. py_eq k k \<and> py_eq v v" by (fastforce simp: list_all_iff)
  then show ?case by (simp add: py_items_refl)
qed (auto simp: flt_eq_refl list_all_iff intro!: py_eqs_refl py_mems_refl)

subsection \<open>Enumerations, findings and results\<close>

datatype severity = CRITICAL | WARNING | VERIFIED | INFO
datatype impact = NONE | INVALIDATES | INSUFFICIENT
datatype verdict = SUPPORTED | NOT_SUPPORTED | INSUFFICIENT_EVIDENCE
datatype direction = HIGHER | LOWER

text \<open>
  The exceptions of the audit layer; \<open>ClaimCIError\<close> is the expected input error, and
  \<open>DecimalOverflow\<close> is \<^verbatim>\<open>decimal.Overflow\<close>.
\<close>

datatype py_error =
    ClaimCIError string
  | TypeError string
  | OSError string
  | AnalysisContractError string
  | MeasurementContractError string
  | ValueError string
  | OverflowError string
  | AssertionError string
  | DecimalOverflow string

fun error_text :: "py_error \<Rightarrow> string" where
  "error_text (ClaimCIError s) = s"
| "error_text (TypeError s) = s"
| "error_text (OSError s) = s"
| "error_text (AnalysisContractError s) = s"
| "error_text (MeasurementContractError s) = s"
| "error_text (ValueError s) = s"
| "error_text (OverflowError s) = s"
| "error_text (AssertionError s) = s"
| "error_text (DecimalOverflow s) = s"

fun is_claimci :: "py_error \<Rightarrow> bool" where
  "is_claimci (ClaimCIError _) = True"
| "is_claimci _ = False"

type_synonym 'a checked = "py_error + 'a"

fun severity_value :: "severity \<Rightarrow> string" where
  "severity_value CRITICAL = ''CRITICAL''"
| "severity_value WARNING = ''WARNING''"
| "severity_value VERIFIED = ''VERIFIED''"
| "severity_value INFO = ''INFO''"

fun impact_value :: "impact \<Rightarrow> string" where
  "impact_value NONE = ''NONE''"
| "impact_value INVALIDATES = ''INVALIDATES''"
| "impact_value INSUFFICIENT = ''INSUFFICIENT''"

fun verdict_value :: "verdict \<Rightarrow> string" where
  "verdict_value SUPPORTED = ''SUPPORTED''"
| "verdict_value NOT_SUPPORTED = ''NOT_SUPPORTED''"
| "verdict_value INSUFFICIENT_EVIDENCE = ''INSUFFICIENT_EVIDENCE''"

fun direction_value :: "direction \<Rightarrow> string" where
  "direction_value HIGHER = ''higher''"
| "direction_value LOWER = ''lower''"

record finding =
  rule_id :: string
  severity :: severity
  title :: string
  explanation :: string
  evidence :: "(string \<times> pyval) list"
  impact :: impact

record metric_summary =
  ms_count :: nat
  ms_mean :: flt
  ms_stdev :: "flt option"

record dataset_hashes =
  ds_path :: string
  hashes :: "string list"

record overlap_summary =
  ov_experiment :: string
  train_count :: nat
  eval_count :: nat
  overlap_count :: nat
  overlap_rate :: flt
  overlapping_hashes :: "string list"

text \<open>
  \<open>coerce_direction\<close> takes an enum member or any other value; a string is trimmed and must then
  be exactly one of the two wire values.
\<close>

datatype direction_input = DirEnum direction | DirRaw pyval

definition parse_direction :: "string \<Rightarrow> direction option" where
  "parse_direction s =
     (if s = ''higher'' then Some HIGHER else if s = ''lower'' then Some LOWER else None)"

definition squote :: string where "squote = [chr_of 39]"

definition coerce_direction :: "direction_input \<Rightarrow> direction checked" where
  "coerce_direction v =
     (let bad = Inl (ClaimCIError (''direction must be either '' @ squote @ ''higher'' @ squote
                       @ '' or '' @ squote @ ''lower'' @ squote))
      in case v of
           DirEnum d \<Rightarrow> Inr d
         | DirRaw (PStr s) \<Rightarrow> (case parse_direction (py_strip s) of Some d \<Rightarrow> Inr d | None \<Rightarrow> bad)
         | DirRaw _ \<Rightarrow> bad)"

lemma direction_value_inject [simp]: "direction_value a = direction_value b \<longleftrightarrow> a = b"
  by (cases a; cases b; simp)

lemma severity_value_inject [simp]: "severity_value a = severity_value b \<longleftrightarrow> a = b"
  by (cases a; cases b; simp)

lemma impact_value_inject [simp]: "impact_value a = impact_value b \<longleftrightarrow> a = b"
  by (cases a; cases b; simp)

lemma verdict_value_inject [simp]: "verdict_value a = verdict_value b \<longleftrightarrow> a = b"
  by (cases a; cases b; simp)

lemma parse_direction_value [simp]: "parse_direction (direction_value d) = Some d"
  by (cases d) (simp_all add: parse_direction_def)

lemma parse_direction_Some: "parse_direction s = Some d \<longleftrightarrow> s = direction_value d"
  by (cases d) (auto simp: parse_direction_def split: if_splits)

lemma coerce_direction_Inr:
  "coerce_direction v = Inr d \<longleftrightarrow>
     v = DirEnum d \<or> (\<exists>s. v = DirRaw (PStr s) \<and> py_strip s = direction_value d)"
  by (auto simp: coerce_direction_def Let_def parse_direction_Some
      split: direction_input.splits pyval.splits option.splits)

subsection \<open>Checks and the verdict\<close>

text \<open>
  A finding is coherent when its severity and its impact agree: only critical findings
  invalidate, only warnings and critical findings make the evidence insufficient, and a verified
  or informative finding decides nothing.
\<close>

definition coherent :: "finding \<Rightarrow> bool" where
  "coherent f =
     ((impact f = INVALIDATES \<longrightarrow> severity f = CRITICAL)
      \<and> (impact f = INSUFFICIENT \<longrightarrow> severity f = WARNING \<or> severity f = CRITICAL)
      \<and> (severity f = CRITICAL \<longrightarrow> impact f \<noteq> NONE))"

text \<open>\<open>determine_verdict\<close> of \<^verbatim>\<open>claimci/audit.py\<close>.\<close>

definition determine_verdict :: "finding list \<Rightarrow> verdict" where
  "determine_verdict fs =
     (if list_ex (\<lambda>f. impact f = INVALIDATES) fs then NOT_SUPPORTED
      else if list_ex (\<lambda>f. impact f = INSUFFICIENT) fs then INSUFFICIENT_EVIDENCE
      else SUPPORTED)"

lemma impact_NONE_iff: "impact f = NONE \<longleftrightarrow> impact f \<noteq> INVALIDATES \<and> impact f \<noteq> INSUFFICIENT"
  by (cases "impact f") auto

lemma determine_verdict_not_supported:
  "determine_verdict fs = NOT_SUPPORTED \<longleftrightarrow> (\<exists>f \<in> set fs. impact f = INVALIDATES)"
  by (auto simp: determine_verdict_def list_ex_iff)

lemma determine_verdict_supported:
  "determine_verdict fs = SUPPORTED \<longleftrightarrow> (\<forall>f \<in> set fs. impact f = NONE)"
  by (auto simp: determine_verdict_def list_ex_iff impact_NONE_iff)

lemma determine_verdict_append:
  "determine_verdict (fs @ gs) =
     (if determine_verdict fs = NOT_SUPPORTED \<or> determine_verdict gs = NOT_SUPPORTED then NOT_SUPPORTED
      else if determine_verdict fs = SUPPORTED then determine_verdict gs
      else INSUFFICIENT_EVIDENCE)"
  by (auto simp: determine_verdict_def)

text \<open>
  What the audit relies on in every check it composes: a check emits findings of its own rule
  table only, and they are coherent.
\<close>

locale rule_check =
  fixes run :: "'i \<Rightarrow> finding list"
    and rules :: "string list"
  assumes run_rules: "f \<in> set (run x) \<Longrightarrow> rule_id f \<in> set rules"
    and run_coherent: "f \<in> set (run x) \<Longrightarrow> coherent f"
begin

lemma rule_ids_known: "set (map rule_id (run x)) \<subseteq> set rules"
  by (auto dest: run_rules)

lemma critical_not_supported:
  assumes "f \<in> set (run x)" "severity f = CRITICAL"
  shows "determine_verdict (run x) \<noteq> SUPPORTED"
  using assms run_coherent [OF assms(1)]
  unfolding determine_verdict_supported coherent_def by blast

lemma not_supported_critical:
  assumes "determine_verdict (run x) = NOT_SUPPORTED"
  shows "\<exists>f \<in> set (run x). severity f = CRITICAL"
  using assms run_coherent unfolding determine_verdict_not_supported coherent_def by blast

end

end
