(* ===== verification/Parsing.thy ===== *)
theory Parsing
  imports Models
begin

section \<open>Strict parsers\<close>

text \<open>
  \<^verbatim>\<open>claimci/parsing.py\<close>: duplicate keys are refused in JSON objects and YAML mappings, YAML
  documents must be trees, and nesting is bounded.

  The two decoders are not part of the repository. The JSON decoder is a function from text to a
  \<open>jtree\<close>, whose objects are still the pair lists it hands to the \<^verbatim>\<open>object_pairs_hook\<close> and whose
  \<^verbatim>\<open>NaN\<close> and \<^verbatim>\<open>Infinity\<close> tokens it hands to \<^verbatim>\<open>parse_constant\<close>. PyYAML builds a graph of
  Python objects: here a store from addresses (\<^verbatim>\<open>id\<close>) to containers.
\<close>

subsection \<open>Files and decoders\<close>

datatype read_failure =
    FileNotFound string
  | UnicodeDecodeFailure string
  | ReadValueError string
  | ReadOSError string

fun failure_text :: "read_failure \<Rightarrow> string" where
  "failure_text (FileNotFound e) = e"
| "failure_text (UnicodeDecodeFailure e) = e"
| "failure_text (ReadValueError e) = e"
| "failure_text (ReadOSError e) = e"

datatype jtree =
    JNull
  | JBool bool
  | JInt int
  | JFloat flt
  | JConst string
  | JStr string
  | JArr "jtree list"
  | JObj "(string \<times> jtree) list"

type_synonym json_decoder = "string \<Rightarrow> string + jtree"

subsection \<open>JSON objects\<close>

text \<open>The loop of \<open>unique_json_object\<close> over the pairs, with the dict built so far.\<close>

fun unique_pairs :: "(string \<times> 'v) list \<Rightarrow> (string \<times> 'v) list \<Rightarrow> string + (string \<times> 'v) list" where
  "unique_pairs acc [] = Inr acc"
| "unique_pairs acc ((k, v) # ps) =
     (if k \<in> fst ` set acc then Inl (''duplicate JSON object key '' @ str_repr k)
      else unique_pairs (al_set k v acc) ps)"

definition unique_json_object :: "(string \<times> 'v) list \<Rightarrow> string + (string \<times> 'v) list" where
  "unique_json_object ps = unique_pairs [] ps"

definition reject_json_constant :: "string \<Rightarrow> string + pyval" where
  "reject_json_constant tok = Inl (''non-finite JSON value '' @ tok)"

text \<open>
  \<^verbatim>\<open>json.loads\<close> with both hooks: containers are completed from the inside out, in document order.
\<close>

fun json_build :: "jtree \<Rightarrow> string + pyval" where
  "json_build JNull = Inr PNone"
| "json_build (JBool b) = Inr (PBool b)"
| "json_build (JInt i) = Inr (PInt i)"
| "json_build (JFloat x) = Inr (PFloat x)"
| "json_build (JConst tok) = reject_json_constant tok"
| "json_build (JStr s) = Inr (PStr s)"
| "json_build (JArr ts) = sbind (smap json_build ts) (\<lambda>vs. Inr (PList vs))"
| "json_build (JObj ps) =
     sbind (smap (\<lambda>(k, t). sbind (json_build t) (\<lambda>v. Inr (k, v))) ps)
       (\<lambda>kvs. sbind (unique_json_object kvs) (\<lambda>d. Inr (pdict d)))"

definition max_nesting_depth :: nat where "max_nesting_depth = 256"

text \<open>
  \<open>validate_json_graph\<close>. The containers of a decoded value are pairwise distinct objects, so a
  container's identity is its position in the value. A dict is visited as key, item, key, item.
\<close>

definition depth_error :: "string \<Rightarrow> string" where
  "depth_error label = label @ '' nesting exceeds maximum supported depth '' @ show_nat max_nesting_depth"

fun json_children :: "pyval \<Rightarrow> pyval list option" where
  "json_children (PList vs) = Some vs"
| "json_children (PTuple vs) = Some vs"
| "json_children (PSet vs) = Some vs"
| "json_children (PDict d) = Some (concat (map (\<lambda>(k, v). [k, v]) d))"
| "json_children _ = None"

lemma json_children_size: "json_children v = Some vs \<Longrightarrow> size_list size vs < size v"
proof (induction v rule: json_children.induct)
  case (4 d)
  have "size_list size (concat (map (\<lambda>(k, v). [k, v]) d)) = size_list (size_prod size size) d"
    for d :: "(pyval \<times> pyval) list" by (induction d) auto
  with 4 show ?case by auto
qed auto

function json_walk :: "string \<Rightarrow> nat \<Rightarrow> nat list set \<Rightarrow> nat list \<Rightarrow> pyval \<Rightarrow> string + unit"
  and json_walks :: "string \<Rightarrow> nat \<Rightarrow> nat list set \<Rightarrow> nat list \<Rightarrow> nat \<Rightarrow> pyval list \<Rightarrow> string + unit"
where
  "json_walk label depth active ident v =
     (if max_nesting_depth < depth then Inl (depth_error label)
      else case json_children v of
             None \<Rightarrow> Inr ()
           | Some vs \<Rightarrow>
               (if ident \<in> active then Inl (''recursive or cyclic '' @ label @ '' value'')
                else json_walks label (Suc depth) (insert ident active) ident 0 vs))"
| "json_walks label depth active ident i [] = Inr ()"
| "json_walks label depth active ident i (v # vs) =
     sbind (json_walk label depth active (ident @ [i]) v)
       (\<lambda>_. json_walks label depth active ident (Suc i) vs)"
  by pat_completeness auto
termination
  by (relation "measure (case_sum (\<lambda>(_, _, _, _, v). size v) (\<lambda>(_, _, _, _, _, vs). size_list size vs))")
    (auto dest: json_children_size)

declare json_walk.simps [simp del]

definition validate_json_graph :: "string \<Rightarrow> pyval \<Rightarrow> string + unit" where
  "validate_json_graph label v = json_walk label 0 {} [] v"

text \<open>Decoding, the hooks and the validation, as the artifact loaders combine them.\<close>

definition load_json :: "json_decoder \<Rightarrow> string \<Rightarrow> string \<Rightarrow> string + pyval" where
  "load_json decode label text =
     sbind (decode text) (\<lambda>t. sbind (json_build t)
       (\<lambda>v. sbind (validate_json_graph label v) (\<lambda>_. Inr v)))"

subsection \<open>YAML graphs\<close>

datatype yref = YAtom pyval | YRef nat

datatype ycontainer =
    YList "yref list"
  | YTuple "yref list"
  | YSet "yref list"
  | YDict "(yref \<times> yref) list"

type_synonym ystore = "nat \<Rightarrow> ycontainer"

text \<open>The order in which the validator visits what a container holds.\<close>

fun ychildren :: "ycontainer \<Rightarrow> yref list" where
  "ychildren (YList rs) = rs"
| "ychildren (YTuple rs) = rs"
| "ychildren (YSet rs) = rs"
| "ychildren (YDict d) = concat (map (\<lambda>(k, v). [k, v]) d)"

text \<open>
  \<open>_validate_yaml_graph\<close>: the sets of active and completed identities are threaded through the
  walk; the result is the completed set.
\<close>

function yaml_walk :: "ystore \<Rightarrow> nat \<Rightarrow> nat set \<Rightarrow> nat set \<Rightarrow> yref \<Rightarrow> string + nat set"
  and yaml_walks :: "ystore \<Rightarrow> nat \<Rightarrow> nat set \<Rightarrow> nat set \<Rightarrow> yref list \<Rightarrow> string + nat set"
where
  "yaml_walk h depth active completed r =
     (if max_nesting_depth < depth then Inl (depth_error ''YAML'')
      else case r of
             YAtom _ \<Rightarrow> Inr completed
           | YRef a \<Rightarrow>
               (if a \<in> active then Inl ''recursive or cyclic YAML alias graph''
                else if a \<in> completed then Inl ''repeated YAML container aliases are not supported''
                else sbind (yaml_walks h (Suc depth) (insert a active) completed (ychildren (h a)))
                       (\<lambda>completed'. Inr (insert a completed'))))"
| "yaml_walks h depth active completed [] = Inr completed"
| "yaml_walks h depth active completed (r # rs) =
     sbind (yaml_walk h depth active completed r)
       (\<lambda>completed'. yaml_walks h depth active completed' rs)"
  by pat_completeness auto
termination
  by (relation "measures
        [case_sum (\<lambda>(_, d, _). 2 * (Suc max_nesting_depth - d)) (\<lambda>(_, d, _). 2 * (Suc max_nesting_depth - d) + 1),
         case_sum (\<lambda>_. 0) (\<lambda>(_, _, _, _, rs). length rs)]")
    auto

declare yaml_walk.simps [simp del]

text \<open>
  The Python value an address denotes, unfolded to a depth; an accepted document never reaches
  the bound.
\<close>

fun read_value :: "ystore \<Rightarrow> nat \<Rightarrow> yref \<Rightarrow> pyval" where
  "read_value h _ (YAtom v) = v"
| "read_value h 0 (YRef a) = PNone"
| "read_value h (Suc n) (YRef a) =
     (case h a of
        YList rs \<Rightarrow> PList (map (read_value h n) rs)
      | YTuple rs \<Rightarrow> PTuple (map (read_value h n) rs)
      | YSet rs \<Rightarrow> PSet (map (read_value h n) rs)
      | YDict d \<Rightarrow> PDict (map (\<lambda>(k, v). (read_value h n k, read_value h n v)) d))"

text \<open>
  How PyYAML refuses a document: with its own error, with the \<^verbatim>\<open>ValueError\<close> of a scalar constructor, or
  by exhausting the interpreter's stack, which is reported as its own error.
\<close>

datatype yaml_failure = YAMLError string | YAMLValueError string | YAMLRecursion

fun yaml_failure_text :: "yaml_failure \<Rightarrow> string" where
  "yaml_failure_text (YAMLError e) = e"
| "yaml_failure_text (YAMLValueError e) = e"
| "yaml_failure_text YAMLRecursion = []"

type_synonym yaml_loader = "string \<Rightarrow> yaml_failure + ystore \<times> yref"

definition load_unique_yaml :: "yaml_loader \<Rightarrow> string \<Rightarrow> yaml_failure + pyval" where
  "load_unique_yaml yaml_load source =
     (case yaml_load source of
        Inl YAMLRecursion \<Rightarrow> Inl (YAMLError (depth_error ''YAML''))
      | Inl e \<Rightarrow> Inl e
      | Inr (h, r) \<Rightarrow>
          (case yaml_walk h 0 {} {} r of
             Inl e \<Rightarrow> Inl (YAMLError e)
           | Inr _ \<Rightarrow> Inr (read_value h (Suc max_nesting_depth) r)))"

text \<open>
  \<open>_construct_unique_mapping\<close>: the constructor of every mapping node. \<open>node_pairs\<close> are the
  key and value nodes after PyYAML has flattened merge keys, \<open>obj\<close> is its
  \<^verbatim>\<open>construct_object\<close>; \<open>None\<close> stands for a node that is not a mapping.
\<close>

fun hashable :: "pyval \<Rightarrow> bool" where
  "hashable (PList _) = False"
| "hashable (PSet _) = False"
| "hashable (PDict _) = False"
| "hashable (PTuple vs) = list_all hashable vs"
| "hashable _ = True"

datatype construct_error = NotMapping | UnhashableKey | DuplicateKey pyval | InnerError string

fun construct_pairs ::
  "('n \<Rightarrow> string + pyval) \<Rightarrow> (pyval \<times> pyval) list \<Rightarrow> ('n \<times> 'n) list \<Rightarrow>
    construct_error + (pyval \<times> pyval) list" where
  "construct_pairs obj acc [] = Inr acc"
| "construct_pairs obj acc ((kn, vn) # ps) =
     (case obj kn of
        Inl e \<Rightarrow> Inl (InnerError e)
      | Inr k \<Rightarrow>
          (if \<not> hashable k then Inl UnhashableKey
           else if list_ex (\<lambda>(k', _). py_eq k' k) acc then Inl (DuplicateKey k)
           else case obj vn of
                  Inl e \<Rightarrow> Inl (InnerError e)
                | Inr v \<Rightarrow> construct_pairs obj (acc @ [(k, v)]) ps))"

definition construct_unique_mapping ::
  "('n \<Rightarrow> string + pyval) \<Rightarrow> ('n \<times> 'n) list option \<Rightarrow> construct_error + (pyval \<times> pyval) list" where
  "construct_unique_mapping obj node_pairs =
     (case node_pairs of None \<Rightarrow> Inl NotMapping | Some ps \<Rightarrow> construct_pairs obj [] ps)"

subsection \<open>The artifact environment\<close>

text \<open>
  What the loaders take from the machine: reading a file as UTF-8 text, resolving a path (an
  error text when the operating system refuses), the two decoders, and SHA-256 as a hexadecimal
  digest of bytes.
\<close>

record io_env =
  read_text :: "string \<Rightarrow> read_failure + string"
  resolve_path :: "string \<Rightarrow> string + string"
  json_text :: json_decoder
  yaml_text :: yaml_loader
  sha256_hex :: "nat list \<Rightarrow> string"

subsection \<open>What the parsers accept\<close>

lemma unique_pairs_append:
  assumes "distinct (map fst acc)"
  shows "unique_pairs acc ps = Inr d \<longleftrightarrow> distinct (map fst (acc @ ps)) \<and> d = acc @ ps"
  using assms
proof (induction ps arbitrary: acc)
  case (Cons p ps)
  obtain k v where p: "p = (k, v)" by (cases p)
  have "k \<notin> fst ` set acc \<Longrightarrow> al_set k v acc = acc @ [(k, v)]" by (induction acc) auto
  with Cons.IH [of "acc @ [(k, v)]"] Cons.prems show ?case by (auto simp: p)
qed auto

lemma unique_json_object_Inr: "unique_json_object ps = Inr d \<longleftrightarrow> distinct (map fst ps) \<and> d = ps"
  by (simp add: unique_json_object_def unique_pairs_append)

text \<open>Every mapping inside a value has distinct keys.\<close>

fun distinct_keys :: "pyval \<Rightarrow> bool" where
  "distinct_keys (PList vs) = list_all distinct_keys vs"
| "distinct_keys (PTuple vs) = list_all distinct_keys vs"
| "distinct_keys (PSet vs) = list_all distinct_keys vs"
| "distinct_keys (PDict d) = (distinct (map fst d) \<and> list_all (\<lambda>(k, v). distinct_keys k \<and> distinct_keys v) d)"
| "distinct_keys _ = True"

lemma map_fst_pdict: "map fst (map (\<lambda>(k, v). (PStr k, v)) d) = map PStr (map fst d)"
  by (induction d) auto

lemma distinct_keys_pdict:
  "distinct_keys (pdict d) \<longleftrightarrow> distinct (map fst d) \<and> list_all (\<lambda>(k, v). distinct_keys v) d"
  by (simp add: pdict_def map_fst_pdict distinct_map inj_on_def list_all_iff split_beta del: map_map)

text \<open>The number of nested values on the deepest path.\<close>

fun nesting :: "pyval \<Rightarrow> nat" where
  "nesting (PList vs) = foldr (\<lambda>v m. max (Suc (nesting v)) m) vs 0"
| "nesting (PTuple vs) = foldr (\<lambda>v m. max (Suc (nesting v)) m) vs 0"
| "nesting (PSet vs) = foldr (\<lambda>v m. max (Suc (nesting v)) m) vs 0"
| "nesting (PDict d) = foldr (\<lambda>(k, v) m. max (Suc (nesting k)) (max (Suc (nesting v)) m)) d 0"
| "nesting _ = 0"

lemma nesting_children:
  "nesting v = (case json_children v of None \<Rightarrow> 0 | Some vs \<Rightarrow> foldr (\<lambda>v m. max (Suc (nesting v)) m) vs 0)"
proof (cases v)
  case (PDict d)
  have "foldr (\<lambda>(k, v) m. max (Suc (nesting k)) (max (Suc (nesting v)) m)) d 0 =
    foldr (\<lambda>v m. max (Suc (nesting v)) m) (concat (map (\<lambda>(k, v). [k, v]) d)) 0"
    by (induction d) auto
  then show ?thesis by (simp add: PDict)
qed auto

definition deep :: "nat list \<Rightarrow> nat list set \<Rightarrow> bool" where
  "deep p A = (\<forall>q \<in> A. length q < length p)"

lemma deep_child: "deep p A \<Longrightarrow> deep (p @ [i]) (insert p A)"
  by (auto simp: deep_def)

lemma json_walk_nesting:
  "deep p A \<Longrightarrow> json_walk label d A p v =
     (if d + nesting v \<le> max_nesting_depth then Inr () else Inl (depth_error label))"
  "(\<And>i. deep (p @ [i]) A) \<Longrightarrow> d \<le> Suc max_nesting_depth \<Longrightarrow> json_walks label d A p i vs =
     (if d + foldr (\<lambda>v m. max (Suc (nesting v)) m) vs 0 \<le> Suc max_nesting_depth then Inr ()
      else Inl (depth_error label))"
proof (induction label d A p v and label d A p i vs rule: json_walk_json_walks.induct)
  case (1 label d A p v)
  then show ?case
  proof (cases "json_children v")
    case None
    then show ?thesis by (subst json_walk.simps) (simp add: nesting_children [of v])
  next
    case (Some vs)
    have "p \<notin> A" using 1(2) by (auto simp: deep_def)
    with 1 Some show ?thesis
      by (subst json_walk.simps) (auto simp: nesting_children [of v] deep_child)
  qed
next
  case (3 label d A p i v vs)
  have 1: "json_walk label d A (p @ [i]) v =
     (if d + nesting v \<le> max_nesting_depth then Inr () else Inl (depth_error label))"
    using 3 by blast
  show ?case
  proof (cases "d + nesting v \<le> max_nesting_depth")
    case True
    with 3 1 show ?thesis by (auto simp: max_def)
  next
    case False
    then show ?thesis using 1 by (auto simp: max_def)
  qed
qed auto

lemma validate_json_graph_nesting:
  "validate_json_graph label v = (if nesting v \<le> max_nesting_depth then Inr () else Inl (depth_error label))"
  using json_walk_nesting(1) [of "[]" "{}"] by (simp add: validate_json_graph_def deep_def)

lemma json_build_keys: "json_build t = Inr v \<Longrightarrow> distinct_keys v"
proof (induction t arbitrary: v)
  case (JArr ts)
  then obtain vs where vs: "list_all2 (\<lambda>t v. json_build t = Inr v) ts vs" "v = PList vs"
    by (auto simp: sbind_eq_Inr smap_Inr_conv)
  have "distinct_keys (vs ! i)" if "i < length vs" for i
    using that vs(1) JArr(1) [of "ts ! i" "vs ! i"] by (auto simp: list_all2_conv_all_nth)
  with vs show ?case by (auto simp: list_all_iff in_set_conv_nth)
next
  case (JObj ps)
  then obtain d where d: "list_all2 (\<lambda>(k, t) y. sbind (json_build t) (\<lambda>v. Inr (k, v)) = Inr y) ps d"
    "distinct (map fst d)" "v = pdict d"
    unfolding json_build.simps sbind_eq_Inr smap_Inr_conv unique_json_object_Inr split_beta
    by (metis (no_types, lifting) sum.inject(2))
  have "distinct_keys (snd (d ! i))" if i: "i < length d" for i
  proof -
    obtain k t where kt: "ps ! i = (k, t)" by fastforce
    have "(k, t) \<in> set ps" using i d(1) kt by (metis list_all2_lengthD nth_mem)
    moreover have "json_build t = Inr (snd (d ! i))"
    proof -
      have "(case ps ! i of (k, t) \<Rightarrow> \<lambda>y. sbind (json_build t) (\<lambda>v. Inr (k, v)) = Inr y) (d ! i)"
        using d(1) i by (simp add: list_all2_conv_all_nth)
      then show ?thesis by (cases "d ! i") (auto simp: kt sbind_eq_Inr)
    qed
    ultimately show ?thesis using JObj(1) [of "(k, t)" t "snd (d ! i)"] by simp
  qed
  then have "list_all (\<lambda>y. distinct_keys (snd y)) d" by (simp add: list_all_length)
  with d(2) show ?case by (fastforce simp: d(3) distinct_keys_pdict list_all_iff)
qed (auto simp: reject_json_constant_def)

text \<open>
  The unfolding of a YAML graph as a tree of bounded depth, with the addresses met on the way.
\<close>

inductive yaml_tree :: "ystore \<Rightarrow> nat \<Rightarrow> yref \<Rightarrow> nat list \<Rightarrow> bool"
  and yaml_trees :: "ystore \<Rightarrow> nat \<Rightarrow> yref list \<Rightarrow> nat list \<Rightarrow> bool"
  for h where
  tree_atom: "d \<le> max_nesting_depth \<Longrightarrow> yaml_tree h d (YAtom v) []"
| tree_node: "d \<le> max_nesting_depth \<Longrightarrow> yaml_trees h (Suc d) (ychildren (h a)) as \<Longrightarrow>
    yaml_tree h d (YRef a) (a # as)"
| trees_Nil: "yaml_trees h d [] []"
| trees_Cons: "yaml_tree h d r as \<Longrightarrow> yaml_trees h d rs bs \<Longrightarrow> yaml_trees h d (r # rs) (as @ bs)"

inductive_simps yaml_tree_atom [simp]: "yaml_tree h d (YAtom v) as"
inductive_simps yaml_tree_ref [simp]: "yaml_tree h d (YRef a) as"
inductive_simps yaml_trees_Nil [simp]: "yaml_trees h d [] as"
inductive_simps yaml_trees_Cons [simp]: "yaml_trees h d (r # rs) as"

lemma yaml_walk_tree:
  "yaml_walk h d active done r = Inr res \<longleftrightarrow>
     (\<exists>as. yaml_tree h d r as \<and> distinct as \<and> set as \<inter> (active \<union> done) = {} \<and> res = done \<union> set as)"
  "yaml_walks h d active done rs = Inr res \<longleftrightarrow>
     (\<exists>as. yaml_trees h d rs as \<and> distinct as \<and> set as \<inter> (active \<union> done) = {} \<and> res = done \<union> set as)"
proof (induction h d active "done" r and h d active "done" rs arbitrary: res and res
    rule: yaml_walk_yaml_walks.induct)
  case (1 h d active dn r)
  show ?case
  proof (cases r)
    case (YAtom v)
    then show ?thesis by (subst yaml_walk.simps) auto
  next
    case (YRef a)
    show ?thesis
    proof (cases "max_nesting_depth < d \<or> a \<in> active \<or> a \<in> dn")
      case True
      then show ?thesis by (subst yaml_walk.simps) (auto simp: YRef)
    next
      case False
      have step: "yaml_walk h d active dn r = Inr res \<longleftrightarrow>
          (\<exists>c. yaml_walks h (Suc d) (insert a active) dn (ychildren (h a)) = Inr c \<and> res = insert a c)"
        using False by (subst yaml_walk.simps) (auto simp: YRef sbind_eq_Inr)
      have IH: "yaml_walks h (Suc d) (insert a active) dn (ychildren (h a)) = Inr c \<longleftrightarrow>
          (\<exists>as. yaml_trees h (Suc d) (ychildren (h a)) as \<and> distinct as \<and>
            set as \<inter> (insert a active \<union> dn) = {} \<and> c = dn \<union> set as)" for c
        using 1 [OF _ YRef] False by blast
      show ?thesis
      proof
        assume "yaml_walk h d active dn r = Inr res"
        then obtain as where "yaml_trees h (Suc d) (ychildren (h a)) as" "distinct as"
          "set as \<inter> (insert a active \<union> dn) = {}" "res = insert a (dn \<union> set as)"
          unfolding step IH by blast
        then show "\<exists>as. yaml_tree h d r as \<and> distinct as \<and> set as \<inter> (active \<union> dn) = {} \<and> res = dn \<union> set as"
          using False by (intro exI [of _ "a # as"]) (auto simp: YRef)
      next
        assume "\<exists>as. yaml_tree h d r as \<and> distinct as \<and> set as \<inter> (active \<union> dn) = {} \<and> res = dn \<union> set as"
        then obtain as where "yaml_trees h (Suc d) (ychildren (h a)) as" "distinct (a # as)"
          "set (a # as) \<inter> (active \<union> dn) = {}" "res = dn \<union> set (a # as)"
          by (auto simp: YRef)
        then show "yaml_walk h d active dn r = Inr res"
          unfolding step IH by (intro exI [of _ "dn \<union> set as"]) auto
      qed
    qed
  qed
next
  case (2 h d active dn)
  then show ?case by auto
next
  case (3 h d active dn r rs)
  note IH1 = 3(1) and IH2 = 3(2)
  show ?case (is "?L \<longleftrightarrow> ?R")
  proof
    assume ?L
    then obtain c where c: "yaml_walk h d active dn r = Inr c" "yaml_walks h d active c rs = Inr res"
      by (auto simp: sbind_eq_Inr)
    obtain as where as: "yaml_tree h d r as" "distinct as" "set as \<inter> (active \<union> dn) = {}" "c = dn \<union> set as"
      using c(1) IH1 by blast
    obtain bs where bs: "yaml_trees h d rs bs" "distinct bs" "set bs \<inter> (active \<union> c) = {}" "res = c \<union> set bs"
      using c(2) IH2 [OF c(1)] by blast
    have "yaml_trees h d (r # rs) (as @ bs)" using as(1) bs(1) by (rule trees_Cons)
    moreover have "distinct (as @ bs)" using as bs by auto
    moreover have "set (as @ bs) \<inter> (active \<union> dn) = {}" using as bs by auto
    moreover have "res = dn \<union> set (as @ bs)" using as bs by auto
    ultimately show ?R by blast
  next
    assume ?R
    then obtain as bs where as: "yaml_tree h d r as" "yaml_trees h d rs bs" "distinct (as @ bs)"
      "set (as @ bs) \<inter> (active \<union> dn) = {}" "res = dn \<union> set (as @ bs)" by auto
    have w: "yaml_walk h d active dn r = Inr (dn \<union> set as)"
      using as(1,3,4) IH1 by auto
    have "set bs \<inter> (active \<union> (dn \<union> set as)) = {}" "distinct bs" "res = (dn \<union> set as) \<union> set bs"
      using as(3-5) by auto
    then have "yaml_walks h d active (dn \<union> set as) rs = Inr res"
      using as(2) IH2 [OF w] by blast
    with w show ?L by simp
  qed
qed

text \<open>Reading a tree that respects the bound does not depend on the bound.\<close>

lemma read_value_cong:
  assumes "\<forall>r \<in> set (ychildren (h a)). read_value h m r = read_value h n r"
  shows "read_value h (Suc m) (YRef a) = read_value h (Suc n) (YRef a)"
proof (cases "h a")
  case (YDict d)
  with assms have "\<forall>(k, v) \<in> set d. read_value h m k = read_value h n k \<and> read_value h m v = read_value h n v"
    by fastforce
  then show ?thesis by (auto simp: YDict)
qed (use assms in auto)

lemma read_value_stable:
  "yaml_tree h d r as \<Longrightarrow> Suc max_nesting_depth \<le> d + n \<Longrightarrow> n \<le> m \<Longrightarrow> read_value h m r = read_value h n r"
  "yaml_trees h d rs as \<Longrightarrow> Suc max_nesting_depth \<le> d + n \<Longrightarrow> n \<le> m \<Longrightarrow>
     \<forall>r \<in> set rs. read_value h m r = read_value h n r"
proof (induction arbitrary: n m and n m rule: yaml_tree_yaml_trees.inducts)
  case (tree_node d a as)
  have "n \<noteq> 0" using tree_node.hyps(1) tree_node.prems(1) by linarith
  then obtain n' m' where n: "n = Suc n'" "m = Suc m'" "n' \<le> m'"
    using tree_node.prems(2) by (metis Suc_le_D Suc_le_mono not0_implies_Suc)
  then have "\<forall>r \<in> set (ychildren (h a)). read_value h m' r = read_value h n' r"
    using tree_node.prems by (intro tree_node.IH) simp_all
  then show ?case unfolding n by (rule read_value_cong)
next
  case (trees_Cons d r as rs bs)
  show ?case using trees_Cons.IH(2) [OF trees_Cons.prems] trees_Cons.IH(4) [OF trees_Cons.prems] by simp
qed simp_all

subsection \<open>Properties\<close>

text \<open>C19: the YAML graph validator accepts a document exactly when its object graph unfolds to a
  tree of nesting at most 256 that visits no container twice: cyclic and repeated container
  aliases and deeper documents are refused, everything else is accepted.\<close>

theorem yaml_validator_accepts_trees:
  "(\<exists>done. yaml_walk h 0 {} {} r = Inr done) \<longleftrightarrow> (\<exists>as. yaml_tree h 0 r as \<and> distinct as)"
  by (auto simp: yaml_walk_tree)


definition sample_store :: ystore where
  "sample_store a = (if a = 0 then YDict [(YAtom (PStr ''k''), YRef 1)] else YList [YAtom (PInt 7)])"


text \<open>C39: a JSON text that loads is one whose decoding has no repeated key in any object,
  no non-finite constant and nesting at most 256; the value has distinct keys at every depth.\<close>

theorem load_json_sound:
  assumes "load_json decode label text = Inr v"
  shows "distinct_keys v \<and> nesting v \<le> max_nesting_depth
    \<and> (\<exists>t. decode text = Inr t \<and> json_build t = Inr v)"
  using assms json_build_keys
  by (auto simp: load_json_def sbind_eq_Inr validate_json_graph_nesting split: if_splits)

theorem load_json_sound_witness:
  "distinct_keys (pdict [(''a'', PInt 1), (''b'', PNone)])"
proof -
  have "load_json (\<lambda>_. Inr (JObj [(''a'', JInt 1), (''b'', JNull)])) ''x'' ''{}'' =
      Inr (pdict [(''a'', PInt 1), (''b'', PNone)])"
    by (simp add: load_json_def unique_json_object_def pdict_def validate_json_graph_nesting max_nesting_depth_def)
  from load_json_sound [OF this] show ?thesis by simp
qed

text \<open>The validation of a decoded value never reports a cycle: it succeeds exactly up to
  nesting 256 and fails with the depth error beyond.\<close>

theorem validate_json_graph_exact:
  "validate_json_graph label v =
     (if nesting v \<le> max_nesting_depth then Inr () else Inl (depth_error label))"
  by (rule validate_json_graph_nesting)

end
