(* ===== verification/ConfigCheck.thy ===== *)
theory ConfigCheck
  imports Parsing
begin

section \<open>Configuration fairness checks\<close>

text \<open>
  \<^verbatim>\<open>claimci/config_check.py\<close>: reading the supported nested fields of the two configs, the
  compute proxies and their exact ratio, and the findings \<^verbatim>\<open>check_configs\<close> derives. A config
  is the item list of a dict; \<open>None\<close> is the module's \<^verbatim>\<open>_MISSING\<close> object.
\<close>

definition load_config :: "'e io_env_scheme \<Rightarrow> string \<Rightarrow> config checked" where
  "load_config env path =
     (let unable = (\<lambda>e. Inl (ClaimCIError (''Unable to load config '' @ path @ '': '' @ e)))
      in case read_text env path of
           Inl f \<Rightarrow> unable (failure_text f)
         | Inr source \<Rightarrow>
             (case load_unique_yaml (yaml_text env) source of
                Inl e \<Rightarrow> unable (yaml_failure_text e)
              | Inr (PDict d) \<Rightarrow> Inr d
              | Inr _ \<Rightarrow> Inl (ClaimCIError (''Config root must be a mapping: '' @ path))))"

subsection \<open>Fields\<close>

text \<open>\<open>_value\<close>: descend along the path as long as the current value is a mapping with the key.\<close>

fun cfg_at :: "pyval \<Rightarrow> string list \<Rightarrow> pyval option" where
  "cfg_at v [] = Some v"
| "cfg_at v (k # ks) =
     (case v of
        PDict d \<Rightarrow> (case dget d k of None \<Rightarrow> None | Some v' \<Rightarrow> cfg_at v' ks)
      | _ \<Rightarrow> None)"

definition cfg_value :: "config \<Rightarrow> string list \<Rightarrow> pyval option" where
  "cfg_value c ks = cfg_at (PDict c) ks"

fun decimal_number :: "pyval option \<Rightarrow> dec option" where
  "decimal_number (Some (PInt i)) =
     (if max_str_digits < ndigits (nat \<bar>i\<bar>) then None else Some (dec_of_int i))"
| "decimal_number (Some (PFloat x)) =
     (let d = dec_of_flt x in if dec_finite d then Some d else None)"
| "decimal_number _ = None"

definition dec_zero :: dec where "dec_zero = Dec False 0 0"

definition positive_number :: "pyval option \<Rightarrow> dec option" where
  "positive_number v =
     (case decimal_number v of
        Some d \<Rightarrow> if dec_lt dec_zero d then Some d else None
      | None \<Rightarrow> None)"

fun present_scalar :: "pyval option \<Rightarrow> bool" where
  "present_scalar (Some (PStr s)) = (\<not> is_blank s)"
| "present_scalar (Some (PInt i)) = (decimal_number (Some (PInt i)) \<noteq> None)"
| "present_scalar (Some (PFloat x)) = (decimal_number (Some (PFloat x)) \<noteq> None)"
| "present_scalar _ = False"

definition required_paths :: "string list list" where
  "required_paths =
     [[''dataset'', ''identifier''], [''dataset'', ''version''],
      [''evaluation'', ''dataset_identifier''], [''evaluation'', ''dataset_version''],
      [''evaluation'', ''split''], [''model'']]"

definition missing_or_invalid_fields :: "config \<Rightarrow> string list" where
  "missing_or_invalid_fields c =
     filter (\<lambda>f. positive_number (cfg_value c [f]) = None) [''training_steps'', ''epochs'', ''batch_size'']
     @ map (join ''.'') (filter (\<lambda>p. \<not> present_scalar (cfg_value c p)) required_paths)
     @ (if positive_number (cfg_value c [''learning_rate'']) = None then [''learning_rate''] else [])"

definition evaluation_mapping_complete :: "config \<Rightarrow> bool" where
  "evaluation_mapping_complete c =
     (case cfg_value c [''evaluation''] of
        Some (PDict e) \<Rightarrow>
          list_all (\<lambda>f. present_scalar (Some (dget_none e f)))
            [''dataset_identifier'', ''dataset_version'', ''split'']
      | _ \<Rightarrow> False)"

subsection \<open>Compute proxies\<close>

definition multiply_exact :: "dec \<Rightarrow> dec \<Rightarrow> dec" where
  "multiply_exact l r = dec_mul (max 1 (dec_digits l + dec_digits r)) l r"

definition ratio_for_evidence :: "dec \<Rightarrow> dec \<Rightarrow> dec" where
  "ratio_for_evidence cand base = dec_div (max 50 (dec_digits cand + dec_digits base + 10)) cand base"

definition evidence_number :: "dec option \<Rightarrow> pyval" where
  "evidence_number v =
     (case v of
        None \<Rightarrow> PNone
      | Some d \<Rightarrow>
          (let x = float_of_dec d
           in if \<not> isfinite x \<or> \<not> dec_eq (dec_of_flt x) d then PStr (dec_str d) else PFloat x))"

text \<open>The proxies in the order the audit prefers them.\<close>

definition basis_order :: "string list" where
  "basis_order = [''training_steps*batch_size'', ''training_steps'', ''epochs*batch_size'', ''epochs'']"

definition compute_proxies :: "config \<Rightarrow> (string \<rightharpoonup> dec)" where
  "compute_proxies c =
     (let steps = positive_number (cfg_value c [''training_steps'']);
          epochs = positive_number (cfg_value c [''epochs'']);
          batch = positive_number (cfg_value c [''batch_size''])
      in (\<lambda>name. if name = ''training_steps*batch_size'' then map2_option multiply_exact steps batch
                 else if name = ''training_steps'' then steps
                 else if name = ''epochs*batch_size'' then map2_option multiply_exact epochs batch
                 else if name = ''epochs'' then epochs
                 else None))"

text \<open>\<^verbatim>\<open>Decimal.as_integer_ratio\<close>, in lowest terms.\<close>

definition as_integer_ratio :: "dec \<Rightarrow> int \<times> int" where
  "as_integer_ratio d =
     (let n = dec_sc d * 10 ^ nat (dec_exp d); m = 10 ^ nat (- dec_exp d); g = gcd n m
      in (n div g, m div g))"

definition at_least_ratio :: "dec \<Rightarrow> dec \<Rightarrow> dec \<Rightarrow> bool" where
  "at_least_ratio cand base thr =
     (case (as_integer_ratio cand, as_integer_ratio base, as_integer_ratio thr) of
        ((cn, cd), (bn, bd), (tn, td)) \<Rightarrow> tn * cd * bn \<le> cn * bd * td)"

definition compute_ratio_threshold :: dec where
  "compute_ratio_threshold = Dec False 15 (-1)"

definition common_basis :: "config \<Rightarrow> config \<Rightarrow> string option" where
  "common_basis b c =
     find (\<lambda>n. compute_proxies b n \<noteq> None \<and> compute_proxies c n \<noteq> None) basis_order"

definition proxy_on :: "config \<Rightarrow> string option \<Rightarrow> dec option" where
  "proxy_on c basis = (case basis of None \<Rightarrow> None | Some n \<Rightarrow> compute_proxies c n)"

definition compute_mismatch :: "config \<Rightarrow> config \<Rightarrow> bool" where
  "compute_mismatch b c =
     (let basis = common_basis b c
      in case (proxy_on b basis, proxy_on c basis) of
           (Some pb, Some pc) \<Rightarrow> at_least_ratio pc pb compute_ratio_threshold
         | _ \<Rightarrow> False)"

subsection \<open>Findings\<close>

text \<open>\<open>!=\<close> on two fields, each a value or the missing marker.\<close>

definition field_differs :: "pyval option \<Rightarrow> pyval option \<Rightarrow> bool" where
  "field_differs a b =
     (case (a, b) of
        (None, None) \<Rightarrow> False
      | (Some x, Some y) \<Rightarrow> \<not> py_eq x y
      | _ \<Rightarrow> True)"

definition evidence_ratio :: "config \<Rightarrow> config \<Rightarrow> pyval" where
  "evidence_ratio b c =
     (let basis = common_basis b c
      in evidence_number (map2_option ratio_for_evidence (proxy_on c basis) (proxy_on b basis)))"

definition missing_fields_finding :: "string list \<Rightarrow> string list \<Rightarrow> finding" where
  "missing_fields_finding bi ci =
     \<lparr>rule_id = ''CONFIG.MISSING_FIELDS'', severity = WARNING,
      title = ''Required fairness config fields are missing or invalid'',
      explanation = ''ClaimCI cannot establish config comparability without every documented Day 1 field.'',
      evidence = [(''baseline'', str_list bi), (''candidate'', str_list ci)],
      impact = INSUFFICIENT\<rparr>"

definition compute_mismatch_finding :: "config \<Rightarrow> config \<Rightarrow> finding" where
  "compute_mismatch_finding b c =
     (let basis = common_basis b c
      in \<lparr>rule_id = ''CONFIG.COMPUTE_MISMATCH'', severity = CRITICAL,
          title = ''Candidate compute proxy is too large'',
          explanation = ''The candidate compute proxy is at least 1.5x the baseline proxy.'',
          evidence =
            [(''baseline_proxy'', evidence_number (proxy_on b basis)),
             (''candidate_proxy'', evidence_number (proxy_on c basis)),
             (''ratio'', evidence_ratio b c),
             (''basis'', opt_str basis), (''baseline_basis'', opt_str basis),
             (''candidate_basis'', opt_str basis),
             (''threshold'', PFloat (float_of_dec compute_ratio_threshold)),
             (''exact_threshold_comparison'', PBool True)],
          impact = INVALIDATES\<rparr>)"

definition evaluation_mismatch_finding :: "config \<Rightarrow> config \<Rightarrow> finding" where
  "evaluation_mismatch_finding b c =
     \<lparr>rule_id = ''CONFIG.EVALUATION_MISMATCH'', severity = CRITICAL,
      title = ''Evaluation mapping differs'',
      explanation = ''Baseline and candidate evaluation mappings must match.'',
      evidence = [(''baseline'', opt_val (cfg_value b [''evaluation''])),
                  (''candidate'', opt_val (cfg_value c [''evaluation'']))],
      impact = INVALIDATES\<rparr>"

definition dataset_evidence :: "config \<Rightarrow> pyval" where
  "dataset_evidence c =
     pdict [(''identifier'', opt_val (cfg_value c [''dataset'', ''identifier''])),
            (''version'', opt_val (cfg_value c [''dataset'', ''version'']))]"

definition training_dataset_differs :: "config \<Rightarrow> config \<Rightarrow> bool" where
  "training_dataset_differs b c =
     (field_differs (cfg_value b [''dataset'', ''identifier'']) (cfg_value c [''dataset'', ''identifier''])
      \<or> field_differs (cfg_value b [''dataset'', ''version'']) (cfg_value c [''dataset'', ''version'']))"

definition training_dataset_finding :: "config \<Rightarrow> config \<Rightarrow> finding" where
  "training_dataset_finding b c =
     \<lparr>rule_id = ''CONFIG.TRAINING_DATASET_MISMATCH'', severity = WARNING,
      title = ''Training dataset differs'',
      explanation = ''Training dataset identifier or version differs between baseline and candidate.'',
      evidence = [(''baseline'', dataset_evidence b), (''candidate'', dataset_evidence c)],
      impact = NONE\<rparr>"

definition parameter_differences :: "config \<Rightarrow> config \<Rightarrow> string list" where
  "parameter_differences b c =
     filter (\<lambda>f. field_differs (cfg_value b [f]) (cfg_value c [f]))
       [''training_steps'', ''epochs'', ''batch_size'']"

definition training_parameter_finding :: "config \<Rightarrow> config \<Rightarrow> finding" where
  "training_parameter_finding b c =
     (let basis = common_basis b c
      in \<lparr>rule_id = ''CONFIG.TRAINING_PARAMETER_DIFFERENCE'', severity = WARNING,
          title = ''Training parameters differ'',
          explanation = ''Training steps, epochs, or batch size differ without reaching the compute invalidation threshold.'',
          evidence =
            [(''differences'',
              pdict (map (\<lambda>f. (f, pdict [(''baseline'', opt_val (cfg_value b [f])),
                                         (''candidate'', opt_val (cfg_value c [f]))]))
                       (parameter_differences b c))),
             (''baseline_proxy'', evidence_number (proxy_on b basis)),
             (''candidate_proxy'', evidence_number (proxy_on c basis)),
             (''ratio'', evidence_ratio b c),
             (''basis'', opt_str basis)],
          impact = NONE\<rparr>)"

definition learning_rate_finding :: "config \<Rightarrow> config \<Rightarrow> finding" where
  "learning_rate_finding b c =
     \<lparr>rule_id = ''CONFIG.LEARNING_RATE_DIFFERENCE'', severity = WARNING,
      title = ''Learning rate differs'',
      explanation = ''Baseline and candidate learning rates differ.'',
      evidence = [(''baseline'', opt_val (cfg_value b [''learning_rate''])),
                  (''candidate'', opt_val (cfg_value c [''learning_rate'']))],
      impact = NONE\<rparr>"

definition model_finding :: "config \<Rightarrow> config \<Rightarrow> finding" where
  "model_finding b c =
     \<lparr>rule_id = ''CONFIG.MODEL_DIFFERENCE'', severity = INFO,
      title = ''Model differs'',
      explanation = ''Baseline and candidate model identifiers differ.'',
      evidence = [(''baseline'', opt_val (cfg_value b [''model''])),
                  (''candidate'', opt_val (cfg_value c [''model'']))],
      impact = NONE\<rparr>"

definition fairness_verified_finding :: "config \<Rightarrow> config \<Rightarrow> finding" where
  "fairness_verified_finding b c =
     (let basis = common_basis b c
      in \<lparr>rule_id = ''CONFIG.FAIRNESS_VERIFIED'', severity = VERIFIED,
          title = ''Supported config fields match'',
          explanation = ''All supported fairness configuration fields match.'',
          evidence =
            [(''baseline_proxy'', evidence_number (proxy_on b basis)),
             (''candidate_proxy'', evidence_number (proxy_on c basis)),
             (''ratio'', evidence_ratio b c),
             (''basis'', opt_str basis)],
          impact = NONE\<rparr>)"

definition evaluation_differs :: "config \<Rightarrow> config \<Rightarrow> bool" where
  "evaluation_differs b c =
     (evaluation_mapping_complete b \<and> evaluation_mapping_complete c
      \<and> field_differs (cfg_value b [''evaluation'']) (cfg_value c [''evaluation'']))"

text \<open>
  The findings in the order they are appended, and the verification finding when there is no
  other. Both arguments are mappings by their type.
\<close>

definition config_issues :: "config \<Rightarrow> config \<Rightarrow> finding list" where
  "config_issues b c =
     (let bi = missing_or_invalid_fields b;
          ci = missing_or_invalid_fields c
      in only_if (bi \<noteq> [] \<or> ci \<noteq> []) (missing_fields_finding bi ci)
         @ only_if (compute_mismatch b c) (compute_mismatch_finding b c)
         @ only_if (evaluation_differs b c) (evaluation_mismatch_finding b c)
         @ only_if (training_dataset_differs b c) (training_dataset_finding b c)
         @ only_if (parameter_differences b c \<noteq> [] \<and> \<not> compute_mismatch b c)
             (training_parameter_finding b c)
         @ only_if (field_differs (cfg_value b [''learning_rate'']) (cfg_value c [''learning_rate'']))
             (learning_rate_finding b c)
         @ only_if (field_differs (cfg_value b [''model'']) (cfg_value c [''model'']))
             (model_finding b c))"

definition check_configs :: "config \<Rightarrow> config \<Rightarrow> finding list" where
  "check_configs b c =
     (let fs = config_issues b c in if fs = [] then [fairness_verified_finding b c] else fs)"

subsection \<open>The findings and their conditions\<close>

lemmas config_findings =
  missing_fields_finding_def compute_mismatch_finding_def evaluation_mismatch_finding_def
  training_dataset_finding_def training_parameter_finding_def learning_rate_finding_def
  model_finding_def fairness_verified_finding_def

lemma config_rule_ids [simp]:
  "rule_id (missing_fields_finding x y) = ''CONFIG.MISSING_FIELDS''"
  "rule_id (compute_mismatch_finding b c) = ''CONFIG.COMPUTE_MISMATCH''"
  "rule_id (evaluation_mismatch_finding b c) = ''CONFIG.EVALUATION_MISMATCH''"
  "rule_id (training_dataset_finding b c) = ''CONFIG.TRAINING_DATASET_MISMATCH''"
  "rule_id (training_parameter_finding b c) = ''CONFIG.TRAINING_PARAMETER_DIFFERENCE''"
  "rule_id (learning_rate_finding b c) = ''CONFIG.LEARNING_RATE_DIFFERENCE''"
  "rule_id (model_finding b c) = ''CONFIG.MODEL_DIFFERENCE''"
  "rule_id (fairness_verified_finding b c) = ''CONFIG.FAIRNESS_VERIFIED''"
  by (simp_all add: config_findings Let_def)

lemma config_impacts [simp]:
  "impact (missing_fields_finding x y) = INSUFFICIENT"
  "impact (compute_mismatch_finding b c) = INVALIDATES"
  "impact (evaluation_mismatch_finding b c) = INVALIDATES"
  "impact (training_dataset_finding b c) = NONE"
  "impact (training_parameter_finding b c) = NONE"
  "impact (learning_rate_finding b c) = NONE"
  "impact (model_finding b c) = NONE"
  "impact (fairness_verified_finding b c) = NONE"
  by (simp_all add: config_findings Let_def)

lemma config_coherent [simp]:
  "coherent (missing_fields_finding x y)"
  "coherent (compute_mismatch_finding b c)"
  "coherent (evaluation_mismatch_finding b c)"
  "coherent (training_dataset_finding b c)"
  "coherent (training_parameter_finding b c)"
  "coherent (learning_rate_finding b c)"
  "coherent (model_finding b c)"
  "coherent (fairness_verified_finding b c)"
  by (simp_all add: config_findings coherent_def Let_def)

definition config_rules :: "string list" where
  "config_rules =
     [''CONFIG.MISSING_FIELDS'', ''CONFIG.COMPUTE_MISMATCH'', ''CONFIG.EVALUATION_MISMATCH'',
      ''CONFIG.TRAINING_DATASET_MISMATCH'', ''CONFIG.TRAINING_PARAMETER_DIFFERENCE'',
      ''CONFIG.LEARNING_RATE_DIFFERENCE'', ''CONFIG.MODEL_DIFFERENCE'', ''CONFIG.FAIRNESS_VERIFIED'']"

text \<open>Membership in the findings, one disjunct per rule.\<close>

lemma config_issues_member:
  "f \<in> set (config_issues b c) \<longleftrightarrow>
     (missing_or_invalid_fields b \<noteq> [] \<or> missing_or_invalid_fields c \<noteq> [])
       \<and> f = missing_fields_finding (missing_or_invalid_fields b) (missing_or_invalid_fields c)
     \<or> compute_mismatch b c \<and> f = compute_mismatch_finding b c
     \<or> evaluation_differs b c \<and> f = evaluation_mismatch_finding b c
     \<or> training_dataset_differs b c \<and> f = training_dataset_finding b c
     \<or> (parameter_differences b c \<noteq> [] \<and> \<not> compute_mismatch b c) \<and> f = training_parameter_finding b c
     \<or> field_differs (cfg_value b [''learning_rate'']) (cfg_value c [''learning_rate''])
       \<and> f = learning_rate_finding b c
     \<or> field_differs (cfg_value b [''model'']) (cfg_value c [''model'']) \<and> f = model_finding b c"
  by (simp only: config_issues_def Let_def set_append Un_iff set_only_if mem_only_if)

lemma check_configs_member:
  "f \<in> set (check_configs b c) \<longleftrightarrow>
     f \<in> set (config_issues b c) \<or> config_issues b c = [] \<and> f = fairness_verified_finding b c"
  by (simp add: check_configs_def Let_def)

lemma config_issues_rule_coherent:
  "f \<in> set (config_issues b c) \<Longrightarrow> rule_id f \<in> set config_rules \<and> coherent f"
  unfolding config_issues_member config_rules_def by (elim disjE conjE; hypsubst; simp)

interpretation config_check: rule_check "\<lambda>(b, c). check_configs b c" config_rules
proof
  fix f and x :: "config \<times> config"
  assume "f \<in> set (case x of (b, c) \<Rightarrow> check_configs b c)"
  then have "rule_id f \<in> set config_rules \<and> coherent f"
    by (cases x) (auto simp: check_configs_member config_rules_def
        dest: config_issues_rule_coherent [unfolded config_rules_def])
  then show "rule_id f \<in> set config_rules" "coherent f" by simp_all
qed

lemma config_issues_invalidates:
  "(\<exists>f \<in> set (config_issues b c). impact f = INVALIDATES)
    \<longleftrightarrow> compute_mismatch b c \<or> evaluation_differs b c"
  unfolding Bex_def config_issues_member by (rule iffI; elim exE conjE disjE; simp; metis config_impacts(2,3))

lemma config_issues_insufficient:
  "(\<exists>f \<in> set (config_issues b c). impact f = INSUFFICIENT)
    \<longleftrightarrow> missing_or_invalid_fields b \<noteq> [] \<or> missing_or_invalid_fields c \<noteq> []"
  unfolding Bex_def config_issues_member by (rule iffI; elim exE conjE disjE; simp; metis config_impacts(1))

lemma check_configs_impact:
  "i \<noteq> NONE \<Longrightarrow> (\<exists>f \<in> set (check_configs b c). impact f = i)
    \<longleftrightarrow> (\<exists>f \<in> set (config_issues b c). impact f = i)"
  by (auto simp: check_configs_member)

lemma ndigits_mult: "ndigits (a * b) \<le> ndigits a + ndigits b"
proof -
  have "a * b < 10 ^ ndigits a * 10 ^ ndigits b"
    using ndigits_upper [of a] ndigits_upper [of b] by (intro mult_strict_mono) auto
  then show ?thesis by (simp add: ndigits_le_iff ndigits_pos flip: power_add)
qed

lemma multiply_exact_value:
  assumes "dec_finite l" "dec_finite r"
  shows "dec_finite (multiply_exact l r)" and "dval (multiply_exact l r) = dval l * dval r"
proof -
  obtain s c e s' c' e' where lr: "l = Dec s c e" "r = Dec s' c' e'"
    using assms by (cases l; cases r) auto
  have fx: "dec_fix (max 1 (ndigits c + ndigits c')) (Dec (s \<noteq> s') (c * c') (e + e'))
      = Dec (s \<noteq> s') (c * c') (e + e')"
    using ndigits_mult [of c c'] by (intro dec_fix_short) (simp add: dec_digits_def le_max_iff_disj)
  show "dec_finite (multiply_exact l r)" by (simp add: lr multiply_exact_def del: dec_fix.simps)
  show "dval (multiply_exact l r) = dval l * dval r"
    using fx by (simp add: lr multiply_exact_def dec_digits_def dval_Dec power_int_add del: dec_fix.simps)
qed

lemma as_integer_ratio_value:
  assumes "dec_finite d" "as_integer_ratio d = (n, m)"
  shows "0 < m" "dval d = real_of_int n / real_of_int m"
proof -
  define N M where "N = dec_sc d * 10 ^ nat (dec_exp d)" and "M = (10::int) ^ nat (- dec_exp d)"
  have M: "0 < M" by (simp add: M_def)
  have nm: "n = N div gcd N M" "m = M div gcd N M"
    using assms by (auto simp: as_integer_ratio_def Let_def N_def M_def)
  have g: "gcd N M > 0" using M by (simp add: gcd_pos_int)
  then show "0 < m" using M nm by (simp add: pos_imp_zdiv_pos_iff zdvd_imp_le)
  have "dval d = real_of_int N / real_of_int M"
    by (simp add: dval_def powi10_split [of "dec_exp d"] N_def M_def)
  also have "\<dots> = real_of_int n / real_of_int m"
    using g by (simp add: nm real_of_int_div)
  finally show "dval d = real_of_int n / real_of_int m" .
qed
lemma at_least_ratio_value:
  assumes fin: "dec_finite cand" "dec_finite base" "dec_finite thr" and pos: "0 < dval base"
  shows "at_least_ratio cand base thr \<longleftrightarrow> dval thr * dval base \<le> dval cand"
proof -
  obtain cn cd bn bd tn td where r: "as_integer_ratio cand = (cn, cd)" "as_integer_ratio base = (bn, bd)"
    "as_integer_ratio thr = (tn, td)" by (meson surj_pair)
  note c = as_integer_ratio_value [OF fin(1) r(1)] and b = as_integer_ratio_value [OF fin(2) r(2)]
    and t = as_integer_ratio_value [OF fin(3) r(3)]
  have "at_least_ratio cand base thr \<longleftrightarrow> real_of_int (tn * cd * bn) \<le> real_of_int (cn * bd * td)"
    unfolding at_least_ratio_def r by (simp only: prod.case of_int_le_iff)
  also have "\<dots> \<longleftrightarrow> dval thr * dval base \<le> dval cand"
    using b(1) c(1) t(1) by (simp add: b(2) c(2) t(2) field_simps)
  finally show ?thesis .
qed

lemma decimal_number_finite: "decimal_number v = Some d \<Longrightarrow> dec_finite d"
  by (cases v rule: decimal_number.cases) (auto simp: Let_def dec_of_int_def split: if_splits)

lemma positive_number_value: "positive_number v = Some d \<Longrightarrow> dec_finite d \<and> 0 < dval d"
  by (auto simp: positive_number_def dec_lt_def dec_le_dval dec_zero_def dval_def sgn_int_def
      dest: decimal_number_finite split: option.splits if_splits)

lemma proxy_value: "compute_proxies c n = Some d \<Longrightarrow> dec_finite d \<and> 0 < dval d"
  by (auto simp: compute_proxies_def Let_def map2_option_Some multiply_exact_value
      dest!: positive_number_value split: if_splits)

lemma threshold_value [simp]: "dval compute_ratio_threshold = 3 / 2" "dec_finite compute_ratio_threshold"
  by (simp_all add: compute_ratio_threshold_def dval_Dec)

lemma at_least_threshold:
  assumes "compute_proxies b n = Some pb" "compute_proxies c n = Some pc"
  shows "at_least_ratio pc pb compute_ratio_threshold \<longleftrightarrow> 3 * dval pb \<le> 2 * dval pc"
proof -
  note b = proxy_value [OF assms(1)] and c = proxy_value [OF assms(2)]
  have "at_least_ratio pc pb compute_ratio_threshold \<longleftrightarrow> 3 / 2 * dval pb \<le> dval pc"
    using at_least_ratio_value [of pc pb compute_ratio_threshold] b c by simp
  then show ?thesis by linarith
qed

lemma compute_mismatch_value:
  "compute_mismatch b c \<longleftrightarrow>
     (\<exists>n pb pc. common_basis b c = Some n \<and> compute_proxies b n = Some pb \<and> compute_proxies c n = Some pc
        \<and> 3 * dval pb \<le> 2 * dval pc)"
  by (auto simp: compute_mismatch_def Let_def proxy_on_def at_least_threshold split: option.splits)

lemma common_basis_first:
  assumes "compute_proxies b ''training_steps*batch_size'' \<noteq> None"
    "compute_proxies c ''training_steps*batch_size'' \<noteq> None"
  shows "common_basis b c = Some ''training_steps*batch_size''"
  using assms by (simp add: common_basis_def basis_order_def)

lemma compute_proxies_first:
  "compute_proxies c ''training_steps*batch_size'' =
     map2_option multiply_exact (positive_number (cfg_value c [''training_steps'']))
       (positive_number (cfg_value c [''batch_size'']))"
  by (simp add: compute_proxies_def Let_def)

lemma field_differs_refl: "(\<And>v. x = Some v \<Longrightarrow> py_eq v v) \<Longrightarrow> \<not> field_differs x x"
  by (auto simp: field_differs_def split: option.splits)

lemma nan_free_dget: "nan_free (PDict d) \<Longrightarrow> dget d k = Some v \<Longrightarrow> nan_free v"
  by (auto simp: dget_def list_all_iff dest!: map_of_SomeD)

lemma cfg_at_nan_free: "nan_free v \<Longrightarrow> cfg_at v ks = Some w \<Longrightarrow> nan_free w"
proof (induction v ks rule: cfg_at.induct)
  case (2 v k ks)
  then show ?case
    by (auto split: pyval.splits option.splits simp del: nan_free.simps dest: nan_free_dget)
qed simp

lemma cfg_value_refl:
  assumes "nan_free (PDict c)"
  shows "\<not> field_differs (cfg_value c ks) (cfg_value c ks)"
  using cfg_at_nan_free [OF assms] by (auto intro!: field_differs_refl py_eq_refl simp: cfg_value_def)

lemma compute_mismatch_self: "\<not> compute_mismatch c c"
  by (auto simp: compute_mismatch_value dest: proxy_value)

lemma config_rule_member:
  "(\<exists>f \<in> set (check_configs b c). rule_id f = ''CONFIG.COMPUTE_MISMATCH'') \<longleftrightarrow> compute_mismatch b c"
proof
  assume "\<exists>f \<in> set (check_configs b c). rule_id f = ''CONFIG.COMPUTE_MISMATCH''"
  then obtain f where "f \<in> set (check_configs b c)" "rule_id f = ''CONFIG.COMPUTE_MISMATCH''" by blast
  then show "compute_mismatch b c"
    unfolding check_configs_member config_issues_member by (elim disjE conjE) simp_all
next
  assume "compute_mismatch b c"
  then have "compute_mismatch_finding b c \<in> set (check_configs b c)"
    unfolding check_configs_member config_issues_member by simp
  then show "\<exists>f \<in> set (check_configs b c). rule_id f = ''CONFIG.COMPUTE_MISMATCH''"
    by (rule bexI [rotated]) simp
qed

subsection \<open>Properties\<close>

text \<open>C10: when both configs give positive training steps and batch sizes, the compute
  mismatch finding is emitted exactly when the candidate's steps times batch size is at least
  one and a half times the baseline's, compared as exact real numbers.\<close>

theorem compute_mismatch_exact:
  assumes "positive_number (cfg_value b [''training_steps'']) = Some bs"
    and "positive_number (cfg_value b [''batch_size'']) = Some bb"
    and "positive_number (cfg_value c [''training_steps'']) = Some cs"
    and "positive_number (cfg_value c [''batch_size'']) = Some cb"
  shows "(\<exists>f \<in> set (check_configs b c). rule_id f = ''CONFIG.COMPUTE_MISMATCH'')
    \<longleftrightarrow> 3 / 2 * (dval bs * dval bb) \<le> dval cs * dval cb"
proof -
  have "compute_mismatch b c \<longleftrightarrow> 3 * (dval bs * dval bb) \<le> 2 * (dval cs * dval cb)"
    using assms positive_number_value
    by (simp add: compute_mismatch_value common_basis_first compute_proxies_first multiply_exact_value)
  then show ?thesis unfolding config_rule_member by linarith
qed

definition steps_batch :: "int \<Rightarrow> int \<Rightarrow> config" where
  "steps_batch s n = [(PStr ''training_steps'', PInt s), (PStr ''batch_size'', PInt n)]"

lemma steps_batch_fields:
  "positive_number (cfg_value (steps_batch 2 2) [''training_steps'']) = Some (Dec False 2 0)"
  "positive_number (cfg_value (steps_batch 2 2) [''batch_size'']) = Some (Dec False 2 0)"
  "positive_number (cfg_value (steps_batch 3 2) [''training_steps'']) = Some (Dec False 3 0)"
  "positive_number (cfg_value (steps_batch 3 2) [''batch_size'']) = Some (Dec False 2 0)"
  by code_simp+

theorem compute_mismatch_exact_witness:
  "(\<exists>f \<in> set (check_configs (steps_batch 2 2) (steps_batch 3 2)). rule_id f = ''CONFIG.COMPUTE_MISMATCH'')"
  using compute_mismatch_exact [OF steps_batch_fields] by (simp add: dval_Dec)

text \<open>A complete config that holds no NaN, compared with itself, gives the fairness
  verification and nothing else.\<close>

theorem check_configs_self:
  assumes "missing_or_invalid_fields c = []" and "nan_free (PDict c)"
  shows "check_configs c c = [fairness_verified_finding c c]"
  using assms(1) cfg_value_refl [OF assms(2)]
  by (simp add: check_configs_def config_issues_def Let_def compute_mismatch_self evaluation_differs_def
      training_dataset_differs_def parameter_differences_def)

definition sample_config :: config where
  "sample_config =
     [(PStr ''training_steps'', PInt 9), (PStr ''epochs'', PInt 1), (PStr ''batch_size'', PInt 4),
      (PStr ''learning_rate'', PInt 1), (PStr ''model'', PStr ''m''),
      (PStr ''dataset'', pdict [(''identifier'', PStr ''d''), (''version'', PInt 1)]),
      (PStr ''evaluation'', pdict [(''dataset_identifier'', PStr ''e''), (''dataset_version'', PInt 1),
                                   (''split'', PStr ''test'')])]"

lemma sample_config_nan_free: "nan_free (PDict sample_config)"
  by (simp add: sample_config_def pdict_def)

lemma sample_config_complete: "missing_or_invalid_fields sample_config = []"
  by code_simp

theorem check_configs_self_witness:
  "check_configs sample_config sample_config = [fairness_verified_finding sample_config sample_config]"
  by (rule check_configs_self [OF sample_config_complete sample_config_nan_free])

text \<open>The verdict the configuration findings alone give: not supported exactly for a compute
  mismatch or differing complete evaluation mappings, otherwise insufficient exactly when a
  required field is missing or invalid on either side.\<close>

lemma check_configs_verdict:
  "determine_verdict (check_configs b c) =
     (if compute_mismatch b c \<or> evaluation_differs b c then NOT_SUPPORTED
      else if missing_or_invalid_fields b = [] \<and> missing_or_invalid_fields c = []
      then SUPPORTED else INSUFFICIENT_EVIDENCE)"
  by (simp add: determine_verdict_def list_ex_iff check_configs_impact config_issues_invalidates
      config_issues_insufficient)



end
