(* ===== verification/ResultCheck.thy ===== *)
theory ResultCheck
  imports Parsing
begin

section \<open>Recomputing the claimed metrics\<close>

text \<open>
  \<^verbatim>\<open>claimci/result_check.py\<close>: loading raw runs, the summary of a list of runs (mean by decimal
  spelling, sample standard deviation), the comparison with the claimed threshold, and the
  findings about summaries and seeds. The statistics follow \<^verbatim>\<open>statistics.fmean\<close>,
  \<^verbatim>\<open>math.fsum\<close> and \<^verbatim>\<open>statistics.stdev\<close>.
\<close>

record loaded_results =
  lr_path :: string
  lr_values :: "flt list"
  lr_seeds :: "int option list"
  claimed_summary :: "flt option"

record result_check =
  baseline_summary :: metric_summary
  candidate_summary :: metric_summary
  absolute_improvement :: flt
  relative_improvement :: "flt option"
  rc_findings :: "finding list"

subsection \<open>Numbers\<close>

fun finite_number :: "pyval \<Rightarrow> flt option" where
  "finite_number (PInt i) = float_of_int i"
| "finite_number (PFloat x) = (if isfinite x then Some x else None)"
| "finite_number _ = None"

definition must_be_finite :: "string \<Rightarrow> py_error" where
  "must_be_finite label = ClaimCIError (label @ '' must be finite'')"

definition result_decimal :: "flt \<Rightarrow> string \<Rightarrow> dec checked" where
  "result_decimal x label =
     (case finite_number (PFloat x) of
        None \<Rightarrow> Inl (must_be_finite label)
      | Some n \<Rightarrow>
          (let d = dec_of_flt n in if dec_finite d then Inr d else Inl (must_be_finite label)))"

definition finite_float :: "dec \<Rightarrow> string \<Rightarrow> flt checked" where
  "finite_float d label =
     (let x = float_of_dec d in if isfinite x then Inr x else Inl (must_be_finite label))"

subsection \<open>Statistics\<close>

text \<open>
  \<^verbatim>\<open>math.fsum\<close> on finite floats: the partials, from the smallest, are updated by exact
  two-sums; an intermediate overflow raises OverflowError, here \<open>None\<close>. The partials are then
  added from the largest, with a correction for ties.
\<close>

definition flt_abs_lt :: "flt \<Rightarrow> flt \<Rightarrow> bool" where
  "flt_abs_lt x y = (flt_num x * flt_den y < flt_num y * flt_den x)"

definition two_sum :: "flt \<Rightarrow> flt \<Rightarrow> flt \<times> flt" where
  "two_sum x y =
     (let (x', y') = (if flt_abs_lt x y then (y, x) else (x, y));
          hi = fadd x' y';
          yr = fsub hi x'
      in (hi, fsub y' yr))"

fun grow_partials :: "flt \<Rightarrow> flt list \<Rightarrow> flt \<times> flt list" where
  "grow_partials x [] = (x, [])"
| "grow_partials x (p # ps) =
     (let (hi, lo) = two_sum x p; (x', kept) = grow_partials hi ps
      in (x', if flt_num lo \<noteq> 0 \<or> \<not> isfinite lo then lo # kept else kept))"

fun fsum_partials :: "flt list \<Rightarrow> flt list \<Rightarrow> flt list option" where
  "fsum_partials ps [] = Some ps"
| "fsum_partials ps (x # xs) =
     (case grow_partials x ps of
        (s, kept) \<Rightarrow>
          if \<not> isfinite s then None
          else fsum_partials (if flt_num s = 0 then kept else kept @ [s]) xs)"

text \<open>Adding the partials from the largest; the list is given largest first.\<close>

fun fsum_tail :: "flt \<Rightarrow> flt list \<Rightarrow> flt" where
  "fsum_tail hi [] = hi"
| "fsum_tail hi (y # ps) =
     (let s = fadd hi y; yr = fsub s hi; lo = fsub y yr
      in if flt_num lo = 0 \<and> isfinite lo then fsum_tail s ps
         else (case ps of
                 [] \<Rightarrow> s
               | q # _ \<Rightarrow>
                   (if flt_neg lo = flt_neg q
                    then (let y' = fadd lo lo; x' = fadd s y'
                          in if flt_eq y' (fsub x' s) then x' else s)
                    else s)))"

definition fsum :: "flt list \<Rightarrow> flt option" where
  "fsum xs =
     map_option (\<lambda>ps. case rev ps of [] \<Rightarrow> fzero | p # r \<Rightarrow> fsum_tail p r) (fsum_partials [] xs)"

text \<open>
  \<^verbatim>\<open>statistics.stdev\<close> of finite floats: the exact variance as a fraction, then the correctly
  rounded square root (an integer square root rounded to odd, and one true division).
\<close>

definition common_den :: "flt list \<Rightarrow> nat" where
  "common_den xs = foldr (\<lambda>x m. max (flt_den x) m) xs 1"

definition scaled_values :: "flt list \<Rightarrow> int list" where
  "scaled_values xs = map (\<lambda>x. flt_snum x * int (common_den xs div flt_den x)) xs"

definition variance_fraction :: "flt list \<Rightarrow> nat \<times> nat" where
  "variance_fraction xs =
     (let n = length xs;
          vs = scaled_values xs;
          num = nat (int n * sum_list (map (\<lambda>v. v * v) vs) - sum_list vs * sum_list vs);
          den = n * (n - 1) * (common_den xs * common_den xs);
          g = gcd num den
      in (num div g, den div g))"

definition isqrt_rto :: "nat \<Rightarrow> nat \<Rightarrow> nat" where
  "isqrt_rto n m =
     (let a = isqrt (n div m)
      in if a * a * m \<noteq> n \<and> even a then a + 1 else a)"

definition sqrt_of_frac :: "nat \<Rightarrow> nat \<Rightarrow> flt option" where
  "sqrt_of_frac n m =
     (let q = (int (bit_length n) - int (bit_length m) - 109) div 2
      in if 0 \<le> q then int_truediv (int (isqrt_rto n (m * 4 ^ nat q) * 2 ^ nat q)) 1
         else int_truediv (int (isqrt_rto (n * 4 ^ nat (- q)) m)) (2 ^ nat (- q)))"

definition stdev :: "flt list \<Rightarrow> flt option" where
  "stdev xs = (case variance_fraction xs of (n, m) \<Rightarrow> sqrt_of_frac n m)"

text \<open>The decimal mean of \<open>summarize_runs\<close>, with its context precision.\<close>

definition mean_precision :: "dec list \<Rightarrow> nat" where
  "mean_precision ds =
     max 28 (foldr (\<lambda>d m. max (dec_digits d) m) ds 0 + length (show_nat (length ds)) + 4)"

definition decimal_mean :: "dec list \<Rightarrow> dec" where
  "decimal_mean ds =
     (let p = mean_precision ds
      in dec_div p (foldl (dec_add p) (dec_of_int 0) ds) (dec_of_int (int (length ds))))"

definition stats_error :: "string \<Rightarrow> py_error" where
  "stats_error s = ClaimCIError (''could not compute finite summary statistics: '' @ s)"

text \<open>The normalisation loop; indices start at one.\<close>

fun normalize_runs :: "nat \<Rightarrow> flt list \<Rightarrow> flt list checked" where
  "normalize_runs i [] = Inr []"
| "normalize_runs i (x # xs) =
     (case finite_number (PFloat x) of
        None \<Rightarrow> Inl (ClaimCIError (''run '' @ show_nat i @ '' metric must be finite''))
      | Some n \<Rightarrow> sbind (normalize_runs (Suc i) xs) (\<lambda>ns. Inr (n # ns)))"

definition finite_fmean :: "flt list \<Rightarrow> unit checked" where
  "finite_fmean xs =
     (case fsum xs of
        None \<Rightarrow> Inl (stats_error ''intermediate overflow in fsum'')
      | Some t \<Rightarrow>
          (let m = (if isfinite t then round_ratio (flt_neg t) (flt_num t) (flt_den t * length xs) else t)
           in if isfinite m then Inr () else Inl (stats_error ''mean is not finite'')))"

definition runs_stdev :: "flt list \<Rightarrow> flt option checked" where
  "runs_stdev xs =
     (if 2 \<le> length xs
      then (case stdev xs of
              None \<Rightarrow> Inl (stats_error ''integer division result too large for a float'')
            | Some s \<Rightarrow> if isfinite s then Inr (Some s)
                        else Inl (stats_error ''standard deviation is not finite''))
      else Inr None)"

definition summarize_runs :: "flt list \<Rightarrow> metric_summary checked" where
  "summarize_runs xs =
     (if xs = [] then Inl (ClaimCIError ''cannot summarize an empty run list'')
      else
        sbind (normalize_runs 1 xs) (\<lambda>ns.
        sbind (finite_fmean ns) (\<lambda>_.
        sbind (finite_float (decimal_mean (map dec_of_flt ns)) ''summary mean'') (\<lambda>mean.
        sbind (runs_stdev ns) (\<lambda>sd.
          Inr \<lparr>ms_count = length ns, ms_mean = mean, ms_stdev = sd\<rparr>)))))"

subsection \<open>Loading a results file\<close>

definition results_error :: "string \<Rightarrow> string \<Rightarrow> py_error" where
  "results_error path msg = ClaimCIError (''results file '' @ path @ msg)"

text \<open>A file that cannot be read, in the words the loader chooses.\<close>

fun results_read_error :: "string \<Rightarrow> read_failure \<Rightarrow> py_error" where
  "results_read_error path (FileNotFound e) = ClaimCIError (''results file not found: '' @ path)"
| "results_read_error path (UnicodeDecodeFailure e) =
     ClaimCIError (''could not decode results file '' @ path @ '': '' @ e)"
| "results_read_error path (ReadValueError e) =
     ClaimCIError (''could not read results file '' @ path @ '': '' @ e)"
| "results_read_error path (ReadOSError e) =
     ClaimCIError (''could not read results file '' @ path @ '': '' @ e)"

fun seed_of :: "pyval option \<Rightarrow> int option" where
  "seed_of (Some (PInt i)) = Some i"
| "seed_of _ = None"

definition load_run :: "string \<Rightarrow> string \<Rightarrow> nat \<Rightarrow> pyval \<Rightarrow> (flt \<times> int option) checked" where
  "load_run path metric i run =
     (case run of
        PDict d \<Rightarrow>
          (case dget d metric of
             None \<Rightarrow> Inl (results_error path ('' run '' @ show_nat i @ '' is missing metric '' @ str_repr metric))
           | Some v \<Rightarrow>
               (case finite_number v of
                  None \<Rightarrow> Inl (results_error path ('' run '' @ show_nat i @ '' metric ''
                                 @ str_repr metric @ '' must be finite''))
                | Some x \<Rightarrow> Inr (x, seed_of (dget d ''seed''))))
      | _ \<Rightarrow> Inl (results_error path ('' run '' @ show_nat i @ '' must be an object'')))"

fun load_runs :: "string \<Rightarrow> string \<Rightarrow> nat \<Rightarrow> pyval list \<Rightarrow> (flt \<times> int option) list checked" where
  "load_runs path metric i [] = Inr []"
| "load_runs path metric i (r # rs) =
     sbind (load_run path metric i r) (\<lambda>x.
     sbind (load_runs path metric (Suc i) rs) (\<lambda>xs. Inr (x # xs)))"

definition load_claimed_summary :: "string \<Rightarrow> string \<Rightarrow> pyval \<Rightarrow> flt option checked" where
  "load_claimed_summary path metric summary =
     (case summary of
        PNone \<Rightarrow> Inr None
      | PDict d \<Rightarrow>
          (case (case dget d metric of Some v \<Rightarrow> v | None \<Rightarrow> dget_none d ''mean'') of
             PNone \<Rightarrow> Inr None
           | v \<Rightarrow>
               (case finite_number v of
                  None \<Rightarrow> Inl (results_error path ('' claimed summary for '' @ str_repr metric
                                 @ '' must be finite''))
                | Some x \<Rightarrow> Inr (Some x)))
      | _ \<Rightarrow> Inl (results_error path '' summary must be an object''))"

definition read_results :: "'e io_env_scheme \<Rightarrow> string \<Rightarrow> pyval checked" where
  "read_results env path =
     (case read_text env path of
        Inl f \<Rightarrow> Inl (results_read_error path f)
      | Inr raw \<Rightarrow>
          (case load_json (json_text env) (''results JSON '' @ path) raw of
             Inl e \<Rightarrow> Inl (ClaimCIError (''invalid JSON in results file '' @ path @ '': '' @ e))
           | Inr v \<Rightarrow> Inr v))"

definition load_results :: "'e io_env_scheme \<Rightarrow> string \<Rightarrow> string \<Rightarrow> loaded_results checked" where
  "load_results env path metric =
     sbind (read_results env path) (\<lambda>payload.
       case payload of
         PDict d \<Rightarrow>
           (case dget_none d ''runs'' of
              PList (r # rs) \<Rightarrow>
                sbind (load_runs path metric 1 (r # rs)) (\<lambda>runs.
                sbind (load_claimed_summary path metric (dget_none d ''summary'')) (\<lambda>claimed.
                sbind (summarize_runs (map fst runs)) (\<lambda>_.
                  case resolve_path env path of
                    Inl e \<Rightarrow> Inl (ClaimCIError (''could not resolve results file '' @ path @ '': '' @ e))
                  | Inr p \<Rightarrow> Inr \<lparr>lr_path = p, lr_values = map fst runs, lr_seeds = map snd runs,
                                 claimed_summary = claimed\<rparr>)))
            | _ \<Rightarrow> Inl (results_error path '' must contain a non-empty runs list''))
       | _ \<Rightarrow> Inl (results_error path '' must contain a JSON object''))"

subsection \<open>Findings about summaries and seeds\<close>

definition summary_evidence :: "metric_summary \<Rightarrow> pyval" where
  "summary_evidence s =
     pdict [(''count'', PInt (int (ms_count s))), (''mean'', PFloat (ms_mean s)),
            (''standard_deviation'', opt_flt (ms_stdev s))]"

definition summary_mismatch :: "string \<Rightarrow> flt \<Rightarrow> metric_summary \<Rightarrow> finding" where
  "summary_mismatch experiment claimed summary =
     \<lparr>rule_id = ''RESULT.SUMMARY_MISMATCH'', severity = CRITICAL,
      title = py_title experiment @ '' claimed summary does not match raw runs'',
      explanation = ''The '' @ experiment @ '' summary reports '' @ fmt_g6 claimed
        @ '', but the raw-run mean recomputes to '' @ fmt_g6 (ms_mean summary) @ ''.'',
      evidence = [(''experiment'', PStr experiment), (''claimed'', PFloat claimed),
                  (''recomputed'', PFloat (ms_mean summary))],
      impact = INVALIDATES\<rparr>"

definition summary_mismatch_finding ::
  "string \<Rightarrow> loaded_results \<Rightarrow> metric_summary \<Rightarrow> finding list checked" where
  "summary_mismatch_finding experiment loaded summary =
     (case claimed_summary loaded of
        None \<Rightarrow> Inr []
      | Some claimed \<Rightarrow>
          sbind (result_decimal claimed ''claimed summary'') (\<lambda>cd.
          sbind (result_decimal (ms_mean summary) ''recomputed mean'') (\<lambda>rd.
            Inr (only_if (\<not> dec_eq cd rd) (summary_mismatch experiment claimed summary)))))"

definition missing_indices :: "int option list \<Rightarrow> nat list" where
  "missing_indices seeds = map fst (filter (\<lambda>(i, s). s = None) (zip [1..<Suc (length seeds)] seeds))"

definition present_seeds :: "int option list \<Rightarrow> int list" where
  "present_seeds seeds = concat (map (\<lambda>s. case s of None \<Rightarrow> [] | Some x \<Rightarrow> [x]) seeds)"

definition duplicate_seeds :: "int list \<Rightarrow> int list" where
  "duplicate_seeds present = sort (filter (\<lambda>s. 1 < count_list present s) (remdups present))"

definition seed_missing_finding :: "string \<Rightarrow> nat list \<Rightarrow> finding" where
  "seed_missing_finding experiment idx =
     \<lparr>rule_id = ''SEED.MISSING_METADATA'', severity = WARNING,
      title = py_title experiment @ '' has missing seed metadata'',
      explanation = ''Every raw run needs an integer seed to establish independent evidence.'',
      evidence = [(''experiment'', PStr experiment), (''run_indices'', PList (map (\<lambda>i. PInt (int i)) idx))],
      impact = INSUFFICIENT\<rparr>"

definition seed_duplicate_finding :: "string \<Rightarrow> int list \<Rightarrow> finding" where
  "seed_duplicate_finding experiment ds =
     \<lparr>rule_id = ''SEED.DUPLICATE'', severity = WARNING,
      title = py_title experiment @ '' repeats seed metadata'',
      explanation = ''Repeated seeds do not constitute independent runs.'',
      evidence = [(''experiment'', PStr experiment), (''duplicate_seeds'', PList (map PInt ds))],
      impact = INSUFFICIENT\<rparr>"

definition seed_single_finding :: "string \<Rightarrow> finding" where
  "seed_single_finding experiment =
     \<lparr>rule_id = ''SEED.SINGLE_RUN'', severity = WARNING,
      title = py_title experiment @ '' has only one run'',
      explanation = ''A single run cannot provide a sample standard deviation.'',
      evidence = [(''experiment'', PStr experiment), (''run_count'', PInt 1)],
      impact = INSUFFICIENT\<rparr>"

definition seed_findings :: "string \<Rightarrow> loaded_results \<Rightarrow> finding list" where
  "seed_findings experiment loaded =
     (let idx = missing_indices (lr_seeds loaded);
          ds = duplicate_seeds (present_seeds (lr_seeds loaded))
      in only_if (idx \<noteq> []) (seed_missing_finding experiment idx)
         @ only_if (ds \<noteq> []) (seed_duplicate_finding experiment ds)
         @ only_if (length (lr_values loaded) = 1) (seed_single_finding experiment))"

definition experiment_findings ::
  "string \<Rightarrow> loaded_results \<Rightarrow> metric_summary \<Rightarrow> finding list checked" where
  "experiment_findings experiment loaded summary =
     sbind (summary_mismatch_finding experiment loaded summary)
       (\<lambda>m. Inr (m @ seed_findings experiment loaded))"

subsection \<open>Comparing two summaries with the threshold\<close>

definition default_precision :: nat where "default_precision = 28"

definition relative_of :: "dec \<Rightarrow> dec \<Rightarrow> flt option" where
  "relative_of absolute baseline =
     (if dec_is_zero baseline then None
      else (let x = float_of_dec (dec_div default_precision absolute
                                   (dec_fix default_precision (dec_abs baseline)))
            in if isfinite x then Some x else None))"

definition claim_evidence :: "flt \<Rightarrow> flt \<Rightarrow> flt option \<Rightarrow> direction \<Rightarrow> (string \<times> pyval) list" where
  "claim_evidence threshold absolute relative dir =
     [(''minimum_improvement'', PFloat threshold), (''absolute_improvement'', PFloat absolute),
      (''relative_improvement'', opt_flt relative), (''direction'', PStr (direction_value dir))]"

definition directional_prefix :: "direction \<Rightarrow> string \<Rightarrow> flt \<Rightarrow> string" where
  "directional_prefix dir metric absolute =
     (case dir of HIGHER \<Rightarrow> ''Candidate minus baseline '' | LOWER \<Rightarrow> ''Baseline minus candidate '')
     @ metric @ '' is '' @ fmt_g6 absolute @ '', ''"

definition claim_supported_finding ::
  "string \<Rightarrow> flt \<Rightarrow> flt \<Rightarrow> flt option \<Rightarrow> direction \<Rightarrow> finding" where
  "claim_supported_finding metric threshold absolute relative dir =
     \<lparr>rule_id = ''RESULT.CLAIM_SUPPORTED'', severity = VERIFIED,
      title = ''Recomputed improvement meets the claim threshold'',
      explanation = directional_prefix dir metric absolute @ ''meeting the required ''
        @ fmt_g6 threshold @ ''.'',
      evidence = claim_evidence threshold absolute relative dir, impact = NONE\<rparr>"

definition claim_not_supported_finding ::
  "string \<Rightarrow> flt \<Rightarrow> flt \<Rightarrow> flt option \<Rightarrow> direction \<Rightarrow> finding" where
  "claim_not_supported_finding metric threshold absolute relative dir =
     \<lparr>rule_id = ''RESULT.CLAIM_NOT_SUPPORTED'', severity = CRITICAL,
      title = ''Recomputed improvement is below the claim threshold'',
      explanation = directional_prefix dir metric absolute @ ''below the required ''
        @ fmt_g6 threshold @ ''.'',
      evidence = claim_evidence threshold absolute relative dir, impact = INVALIDATES\<rparr>"

definition directed_difference :: "direction \<Rightarrow> dec \<Rightarrow> dec \<Rightarrow> dec" where
  "directed_difference dir baseline candidate =
     (case dir of HIGHER \<Rightarrow> dec_sub default_precision candidate baseline
      | LOWER \<Rightarrow> dec_sub default_precision baseline candidate)"

definition threshold_error :: py_error where
  "threshold_error = ClaimCIError ''minimum improvement must be a finite non-negative number''"

definition metric_summary_comparison ::
  "metric_summary \<Rightarrow> metric_summary \<Rightarrow> string \<Rightarrow> flt \<Rightarrow> direction_input
    \<Rightarrow> (flt \<times> flt option \<times> finding) checked" where
  "metric_summary_comparison baseline candidate metric minimum direction =
     sbind (coerce_direction direction) (\<lambda>dir.
     sbind (result_decimal (ms_mean baseline) ''baseline mean'') (\<lambda>bd.
     sbind (result_decimal (ms_mean candidate) ''candidate mean'') (\<lambda>cd.
       case finite_number (PFloat minimum) of
         None \<Rightarrow> Inl threshold_error
       | Some threshold \<Rightarrow>
           if flt_lt threshold fzero then Inl threshold_error
           else
             sbind (result_decimal threshold ''minimum improvement'') (\<lambda>td.
             (let diff = directed_difference dir bd cd
              in sbind (finite_float diff ''absolute improvement'') (\<lambda>absolute.
                   (let relative = relative_of diff bd
                    in Inr (absolute, relative,
                         if dec_le td diff
                         then claim_supported_finding metric threshold absolute relative dir
                         else claim_not_supported_finding metric threshold absolute relative dir))))))))"

subsection \<open>The result checks\<close>

definition recomputed_finding :: "string \<Rightarrow> metric_summary \<Rightarrow> metric_summary \<Rightarrow> finding" where
  "recomputed_finding metric b c =
     \<lparr>rule_id = ''RESULT.RECOMPUTED'', severity = VERIFIED,
      title = ''Raw '' @ metric @ '' recomputed successfully'',
      explanation = ''ClaimCI calculated both experiment summaries from raw run values.'',
      evidence = [(''baseline'', summary_evidence b), (''candidate'', summary_evidence c)],
      impact = NONE\<rparr>"

definition count_ratio :: "nat \<Rightarrow> nat \<Rightarrow> flt" where
  "count_ratio larger smaller = round_ratio False larger smaller"

definition seed_imbalance_finding :: "nat \<Rightarrow> nat \<Rightarrow> finding" where
  "seed_imbalance_finding nb nc =
     \<lparr>rule_id = ''SEED.IMBALANCE'', severity = WARNING,
      title = ''Baseline and candidate evidence counts are severely imbalanced'',
      explanation = ''Baseline has '' @ show_nat nb @ '' runs while candidate has '' @ show_nat nc @ ''.'',
      evidence = [(''baseline_count'', PInt (int nb)), (''candidate_count'', PInt (int nc)),
                  (''ratio'', PFloat (count_ratio (max nb nc) (min nb nc)))],
      impact = NONE\<rparr>"

definition severely_imbalanced :: "nat \<Rightarrow> nat \<Rightarrow> bool" where
  "severely_imbalanced nb nc =
     (let smaller = min nb nc; larger = max nb nc
      in smaller \<noteq> 0 \<and> 2 \<le> larger - smaller
         \<and> flt_le (round_ratio False 3 1) (count_ratio larger smaller))"

definition seed_verified_finding :: "nat \<Rightarrow> nat \<Rightarrow> finding" where
  "seed_verified_finding nb nc =
     \<lparr>rule_id = ''SEED.EVIDENCE_VERIFIED'', severity = VERIFIED,
      title = ''Seed evidence is complete'',
      explanation = ''Both experiments contain multiple runs with unique integer seeds.'',
      evidence = [(''baseline_count'', PInt (int nb)), (''candidate_count'', PInt (int nc))],
      impact = NONE\<rparr>"

text \<open>The list of findings, from those of the two experiments and of the claim.\<close>

definition collect_findings ::
  "string \<Rightarrow> metric_summary \<Rightarrow> metric_summary \<Rightarrow> finding list \<Rightarrow> finding list \<Rightarrow> nat \<Rightarrow> nat \<Rightarrow> finding \<Rightarrow> finding list"
where
  "collect_findings metric bs cs bf cf nb nc claim =
     (let fs = [recomputed_finding metric bs cs] @ bf @ cf
               @ only_if (severely_imbalanced nb nc) (seed_imbalance_finding nb nc)
      in fs @ only_if (\<not> list_ex (\<lambda>f. starts_with ''SEED.'' (rule_id f)) fs) (seed_verified_finding nb nc)
         @ [claim])"

definition check_results ::
  "loaded_results \<Rightarrow> loaded_results \<Rightarrow> string \<Rightarrow> flt \<Rightarrow> direction_input \<Rightarrow> result_check checked" where
  "check_results baseline candidate metric minimum direction =
     sbind (summarize_runs (lr_values baseline)) (\<lambda>bs.
     sbind (summarize_runs (lr_values candidate)) (\<lambda>cs.
     sbind (metric_summary_comparison bs cs metric minimum direction) (\<lambda>(absolute, relative, claim).
     sbind (experiment_findings ''baseline'' baseline bs) (\<lambda>bf.
     sbind (experiment_findings ''candidate'' candidate cs) (\<lambda>cf.
       Inr \<lparr>baseline_summary = bs, candidate_summary = cs, absolute_improvement = absolute,
            relative_improvement = relative,
            rc_findings = collect_findings metric bs cs bf cf (length (lr_values baseline))
              (length (lr_values candidate)) claim\<rparr>)))))"

definition identity_ok :: "string \<Rightarrow> bool" where
  "identity_ok s = (s \<noteq> [] \<and> s = py_strip s \<and> length s \<le> 256 \<and> \<not> has_control s)"

definition aggregate_finding ::
  "string \<Rightarrow> string \<Rightarrow> string \<Rightarrow> metric_summary \<Rightarrow> metric_summary \<Rightarrow> finding" where
  "aggregate_finding metric statistic aggregation b c =
     \<lparr>rule_id = ''RESULT.AGGREGATE_VERIFIED'', severity = VERIFIED,
      title = ''Reported '' @ metric @ '' aggregate loaded successfully'',
      explanation = ''ClaimCI compared the exact represented aggregate values without reinterpreting them as raw runs.'',
      evidence = [(''statistic'', PStr statistic), (''aggregation'', PStr aggregation),
                  (''baseline'', summary_evidence b), (''candidate'', summary_evidence c)],
      impact = NONE\<rparr>"

definition sample_count_ok :: "string \<Rightarrow> pyval \<Rightarrow> nat checked" where
  "sample_count_ok label v =
     (case v of
        PInt n \<Rightarrow> if 1 \<le> n \<and> n \<le> 2 ^ 63 - 1 then Inr (nat n)
                  else Inl (ClaimCIError (label @ '' aggregate sample count must be positive''))
      | _ \<Rightarrow> Inl (ClaimCIError (label @ '' aggregate sample count must be positive'')))"

definition check_reported_aggregates ::
  "pyval \<Rightarrow> pyval \<Rightarrow> pyval \<Rightarrow> pyval \<Rightarrow> string \<Rightarrow> string \<Rightarrow> string \<Rightarrow> flt \<Rightarrow> direction_input
    \<Rightarrow> result_check checked" where
  "check_reported_aggregates bvalue cvalue bcount ccount statistic aggregation metric minimum direction =
     sbind (sample_count_ok ''baseline'' bcount) (\<lambda>bn.
     sbind (sample_count_ok ''candidate'' ccount) (\<lambda>cn.
     sbind (ensure (identity_ok statistic) (ClaimCIError ''aggregate statistic identity is invalid'')) (\<lambda>_.
     sbind (ensure (identity_ok aggregation) (ClaimCIError ''aggregate aggregation identity is invalid'')) (\<lambda>_.
       case (finite_number bvalue, finite_number cvalue) of
         (Some bx, Some cx) \<Rightarrow>
           (let b = \<lparr>ms_count = bn, ms_mean = bx, ms_stdev = None\<rparr>;
                c = \<lparr>ms_count = cn, ms_mean = cx, ms_stdev = None\<rparr>
            in sbind (metric_summary_comparison b c metric minimum direction) (\<lambda>(absolute, relative, claim).
                 Inr \<lparr>baseline_summary = b, candidate_summary = c, absolute_improvement = absolute,
                      relative_improvement = relative,
                      rc_findings = [aggregate_finding metric statistic aggregation b c, claim]\<rparr>))
       | _ \<Rightarrow> Inl (ClaimCIError ''reported aggregate values must be finite'')))))"

subsection \<open>Outcomes of the comparison\<close>

lemma result_decimal_Inr: "result_decimal x label = Inr d \<longleftrightarrow> isfinite x \<and> d = dec_of_flt x"
  by (auto simp: result_decimal_def Let_def)

lemma finite_float_Inr: "finite_float d label = Inr x \<longleftrightarrow> isfinite x \<and> x = float_of_dec d"
  by (auto simp: finite_float_def Let_def)

lemma claim_rule_ids [simp]:
  "rule_id (claim_supported_finding m t a r d) = ''RESULT.CLAIM_SUPPORTED''"
  "rule_id (claim_not_supported_finding m t a r d) = ''RESULT.CLAIM_NOT_SUPPORTED''"
  "impact (claim_supported_finding m t a r d) = NONE"
  "impact (claim_not_supported_finding m t a r d) = INVALIDATES"
  by (simp_all add: claim_supported_finding_def claim_not_supported_finding_def)

text \<open>The comparison, in one statement: what it returns, and the condition that decides.\<close>

lemma result_decimal_if:
  "result_decimal x label = (if isfinite x then Inr (dec_of_flt x) else Inl (must_be_finite label))"
  by (simp add: result_decimal_def Let_def)

lemma finite_float_if:
  "finite_float d label =
     (if isfinite (float_of_dec d) then Inr (float_of_dec d) else Inl (must_be_finite label))"
  by (simp add: finite_float_def Let_def)

lemma metric_summary_comparison_Inr:
  "metric_summary_comparison b c metric t dirin = Inr (a, rel, f) \<longleftrightarrow>
     (\<exists>dir. coerce_direction dirin = Inr dir \<and> isfinite (ms_mean b) \<and> isfinite (ms_mean c)
        \<and> isfinite t \<and> \<not> flt_lt t fzero
        \<and> (let diff = directed_difference dir (dec_of_flt (ms_mean b)) (dec_of_flt (ms_mean c))
           in isfinite (float_of_dec diff) \<and> a = float_of_dec diff \<and> rel = relative_of diff (dec_of_flt (ms_mean b))
              \<and> f = (if dec_le (dec_of_flt t) diff then claim_supported_finding metric t a rel dir
                     else claim_not_supported_finding metric t a rel dir)))"
proof (cases "coerce_direction dirin")
  case (Inr dir)
  define diff where "diff = directed_difference dir (dec_of_flt (ms_mean b)) (dec_of_flt (ms_mean c))"
  define fd where "fd = (if dec_le (dec_of_flt t) diff
      then claim_supported_finding metric t (float_of_dec diff) (relative_of diff (dec_of_flt (ms_mean b))) dir
      else claim_not_supported_finding metric t (float_of_dec diff) (relative_of diff (dec_of_flt (ms_mean b))) dir)"
  have "metric_summary_comparison b c metric t dirin = Inr (a, rel, f) \<longleftrightarrow>
      isfinite (ms_mean b) \<and> isfinite (ms_mean c) \<and> isfinite t \<and> \<not> flt_lt t fzero
      \<and> isfinite (float_of_dec diff) \<and> a = float_of_dec diff
      \<and> rel = relative_of diff (dec_of_flt (ms_mean b)) \<and> f = fd"
    unfolding metric_summary_comparison_def Inr Let_def result_decimal_if finite_float_if sbind_Inr fd_def
    by (simp add: diff_def [symmetric]) blast
  then show ?thesis unfolding Inr Let_def by (auto simp: diff_def fd_def)
qed (simp add: metric_summary_comparison_def)

text \<open>The exact difference in the claimed direction.\<close>

definition exact_improvement :: "direction \<Rightarrow> flt \<Rightarrow> flt \<Rightarrow> real" where
  "exact_improvement dir b c =
     (case dir of HIGHER \<Rightarrow> dval (dec_of_flt c) - dval (dec_of_flt b)
      | LOWER \<Rightarrow> dval (dec_of_flt b) - dval (dec_of_flt c))"

definition exact_difference :: "direction \<Rightarrow> dec \<Rightarrow> dec \<Rightarrow> dec" where
  "exact_difference dir b c =
     (case dir of HIGHER \<Rightarrow> dec_plus c (dec_neg b) | LOWER \<Rightarrow> dec_plus b (dec_neg c))"

lemma directed_difference_fix:
  "directed_difference dir b c = dec_fix default_precision (exact_difference dir b c)"
  by (cases dir) (simp_all add: directed_difference_def exact_difference_def dec_sub_def dec_add_def)

lemma exact_difference_value:
  assumes "isfinite b" "isfinite c"
  shows "dec_finite (exact_difference dir (dec_of_flt b) (dec_of_flt c))"
    "dval (exact_difference dir (dec_of_flt b) (dec_of_flt c)) = exact_improvement dir b c"
  using assms by (cases dir; simp add: exact_difference_def exact_improvement_def dval_plus dval_neg)+

lemma threshold_nonneg:
  assumes "isfinite t" "\<not> flt_lt t fzero" "flt_wf t"
  shows "0 \<le> dval (dec_of_flt t)"
proof (rule ccontr)
  assume "\<not> 0 \<le> dval (dec_of_flt t)"
  then obtain c e where d: "dec_of_flt t = Dec True c e" "c \<noteq> 0"
  proof -
    obtain s c e where "dec_of_flt t = Dec s c e"
      using assms(1) unfolding dec_finite_of_flt [symmetric] by (cases "dec_of_flt t") auto
    then show ?thesis using that dval_signs(1) [of s c e] \<open>\<not> 0 \<le> dval (dec_of_flt t)\<close> by (simp add: not_le)
  qed
  have t: "0 \<le> fval t" using assms(1,2) flt_lt_fval [of t fzero] by (simp add: fzero_def)
  have "dec_of_flt t = Dec (flt_neg t) c e \<or> fval t = 0"
    using d(1) by (cases t) (auto simp: dec_of_flt_def Let_def split: prod.splits if_splits)
  moreover have "flt_neg t \<Longrightarrow> fval t = 0"
  proof (cases t)
    case (FFin m k)
    assume "flt_neg t"
    moreover have "real_of_int m * 2 powi k < 0" if "m < 0"
      using that by (intro mult_neg_pos) simp_all
    ultimately show ?thesis using t by (simp add: FFin)
  qed auto
  ultimately have "fval t = 0" using d(1) by auto
  then show False using dec_of_flt_zero [OF assms(3,1)] \<open>\<not> 0 \<le> dval (dec_of_flt t)\<close> by simp
qed

lemma supported_when_exact:
  assumes "flt_wf t" "isfinite t" "\<not> flt_lt t fzero" "isfinite b" "isfinite c"
    and "dval (dec_of_flt t) \<le> exact_improvement dir b c"
  shows "dec_le (dec_of_flt t) (directed_difference dir (dec_of_flt b) (dec_of_flt c))"
  unfolding dec_le_dval directed_difference_fix
  by (rule dec_fix_ge)
    (use assms dec_digits_of_flt [of t] in \<open>simp_all add: default_precision_def exact_difference_value threshold_nonneg\<close>)

text \<open>The difference is computed without rounding when it fits the context precision.\<close>

definition difference_fits :: "direction \<Rightarrow> flt \<Rightarrow> flt \<Rightarrow> bool" where
  "difference_fits dir b c =
     (dec_digits (exact_difference dir (dec_of_flt b) (dec_of_flt c)) \<le> default_precision)"

lemma supported_iff_exact:
  assumes "difference_fits dir b c" "isfinite b" "isfinite c"
  shows "dec_le (dec_of_flt t) (directed_difference dir (dec_of_flt b) (dec_of_flt c))
    \<longleftrightarrow> dval (dec_of_flt t) \<le> exact_improvement dir b c"
  using assms by (simp add: dec_le_dval directed_difference_fix dec_fix_short difference_fits_def
      exact_difference_value)

subsection \<open>Every failure is an input error\<close>

definition input_error :: "'a checked \<Rightarrow> bool" where
  "input_error r = (case r of Inl e \<Rightarrow> is_claimci e | Inr _ \<Rightarrow> True)"

lemma input_error_Inr [simp]: "input_error (Inr x)"
  and input_error_Inl [simp]: "input_error (Inl e) \<longleftrightarrow> is_claimci e"
  by (simp_all add: input_error_def)

lemma input_error_sbind: "input_error r \<Longrightarrow> (\<And>x. input_error (f x)) \<Longrightarrow> input_error (sbind r f)"
  by (cases r) auto

lemma input_error_result_decimal: "input_error (result_decimal x l)"
  by (auto simp: result_decimal_def Let_def must_be_finite_def split: option.splits)

lemma input_error_finite_float: "input_error (finite_float d l)"
  by (auto simp: finite_float_def Let_def must_be_finite_def)

lemma input_error_normalize: "input_error (normalize_runs i xs)"
  by (induction xs arbitrary: i) (auto intro!: input_error_sbind split: option.splits)

lemma input_error_fmean: "input_error (finite_fmean xs)"
  by (auto simp: finite_fmean_def Let_def stats_error_def split: option.splits)

lemma input_error_stdev: "input_error (runs_stdev xs)"
  by (auto simp: runs_stdev_def stats_error_def split: option.splits)

lemma input_error_summarize: "input_error (summarize_runs xs)"
  by (auto simp: summarize_runs_def intro!: input_error_sbind input_error_normalize input_error_fmean
      input_error_finite_float input_error_stdev)

lemma input_error_coerce: "input_error (coerce_direction d)"
  by (auto simp: coerce_direction_def Let_def split: direction_input.splits pyval.splits option.splits)

lemma input_error_comparison: "input_error (metric_summary_comparison b c m t d)"
  unfolding metric_summary_comparison_def Let_def
  by (intro input_error_sbind input_error_coerce input_error_result_decimal)
    (auto intro!: input_error_sbind input_error_result_decimal input_error_finite_float
      simp: threshold_error_def split: option.splits)

lemma input_error_experiment: "input_error (experiment_findings e l s)"
  by (auto simp: experiment_findings_def summary_mismatch_finding_def
      intro!: input_error_sbind input_error_result_decimal split: option.splits)

lemma input_error_check_results: "input_error (check_results b c m t d)"
  unfolding check_results_def
  by (intro input_error_sbind input_error_summarize input_error_comparison)
    (auto intro!: input_error_sbind input_error_experiment)

lemma input_error_load_run: "input_error (load_run p m i r)"
  by (auto simp: load_run_def results_error_def split: pyval.splits option.splits)

lemma input_error_load_runs: "input_error (load_runs p m i rs)"
  by (induction rs arbitrary: i) (auto intro!: input_error_sbind input_error_load_run)

lemma input_error_claimed: "input_error (load_claimed_summary p m s)"
  by (auto simp: load_claimed_summary_def results_error_def Let_def split: pyval.splits option.splits)

lemma input_error_read: "input_error (read_results env p)"
proof -
  have "is_claimci (results_read_error p f)" for f by (cases f) auto
  then show ?thesis by (auto simp: read_results_def split: sum.splits)
qed

lemma input_error_load: "input_error (load_results env p m)"
  unfolding load_results_def
  by (intro input_error_sbind input_error_read)
    (auto intro!: input_error_sbind input_error_load_run input_error_load_runs input_error_claimed
      input_error_summarize simp: results_error_def split: pyval.splits list.splits sum.splits)

subsection \<open>The rule table\<close>

lemma seed_findings_member:
  "f \<in> set (seed_findings e l) \<longleftrightarrow>
     missing_indices (lr_seeds l) \<noteq> [] \<and> f = seed_missing_finding e (missing_indices (lr_seeds l))
     \<or> duplicate_seeds (present_seeds (lr_seeds l)) \<noteq> []
       \<and> f = seed_duplicate_finding e (duplicate_seeds (present_seeds (lr_seeds l)))
     \<or> length (lr_values l) = 1 \<and> f = seed_single_finding e"
  by (simp only: seed_findings_def Let_def set_append Un_iff set_only_if mem_only_if)

lemma experiment_findings_Inr:
  "experiment_findings e l s = Inr fs \<longleftrightarrow>
     (case claimed_summary l of
        None \<Rightarrow> fs = seed_findings e l
      | Some claimed \<Rightarrow>
          isfinite claimed \<and> isfinite (ms_mean s)
          \<and> fs = only_if (\<not> dec_eq (dec_of_flt claimed) (dec_of_flt (ms_mean s))) (summary_mismatch e claimed s)
                 @ seed_findings e l)"
  by (cases "claimed_summary l")
    (auto simp: experiment_findings_def summary_mismatch_finding_def sbind_eq_Inr result_decimal_if)

lemmas result_findings =
  recomputed_finding_def summary_mismatch_def seed_missing_finding_def seed_duplicate_finding_def
  seed_single_finding_def seed_imbalance_finding_def seed_verified_finding_def
  claim_supported_finding_def claim_not_supported_finding_def aggregate_finding_def

lemma result_rule_ids [simp]:
  "rule_id (recomputed_finding m b c) = ''RESULT.RECOMPUTED''"
  "rule_id (summary_mismatch e x s) = ''RESULT.SUMMARY_MISMATCH''"
  "rule_id (seed_missing_finding e idx) = ''SEED.MISSING_METADATA''"
  "rule_id (seed_duplicate_finding e ds) = ''SEED.DUPLICATE''"
  "rule_id (seed_single_finding e) = ''SEED.SINGLE_RUN''"
  "rule_id (seed_imbalance_finding nb nc) = ''SEED.IMBALANCE''"
  "rule_id (seed_verified_finding nb nc) = ''SEED.EVIDENCE_VERIFIED''"
  "rule_id (aggregate_finding m st ag b c) = ''RESULT.AGGREGATE_VERIFIED''"
  by (simp_all add: result_findings)

lemma result_impacts [simp]:
  "impact (recomputed_finding m b c) = NONE"
  "impact (summary_mismatch e x s) = INVALIDATES"
  "impact (seed_missing_finding e idx) = INSUFFICIENT"
  "impact (seed_duplicate_finding e ds) = INSUFFICIENT"
  "impact (seed_single_finding e) = INSUFFICIENT"
  "impact (seed_imbalance_finding nb nc) = NONE"
  "impact (seed_verified_finding nb nc) = NONE"
  "impact (aggregate_finding m st ag b c) = NONE"
  by (simp_all add: result_findings)

lemma result_coherent [simp]:
  "coherent (recomputed_finding m b c)" "coherent (summary_mismatch e x s)"
  "coherent (seed_missing_finding e idx)" "coherent (seed_duplicate_finding e ds)"
  "coherent (seed_single_finding e)" "coherent (seed_imbalance_finding nb nc)"
  "coherent (seed_verified_finding nb nc)" "coherent (claim_supported_finding m t a r d)"
  "coherent (claim_not_supported_finding m t a r d)" "coherent (aggregate_finding m st ag b c)"
  by (simp_all add: result_findings coherent_def)

definition result_rules :: "string list" where
  "result_rules =
     [''RESULT.RECOMPUTED'', ''RESULT.SUMMARY_MISMATCH'', ''SEED.MISSING_METADATA'', ''SEED.DUPLICATE'',
      ''SEED.SINGLE_RUN'', ''SEED.IMBALANCE'', ''SEED.EVIDENCE_VERIFIED'', ''RESULT.CLAIM_SUPPORTED'',
      ''RESULT.CLAIM_NOT_SUPPORTED'', ''RESULT.AGGREGATE_VERIFIED'']"

text \<open>A successful check, and the members of its findings.\<close>

lemma check_results_Inr:
  "check_results b c metric t dirin = Inr r \<longleftrightarrow>
     (\<exists>bf cf claim.
        summarize_runs (lr_values b) = Inr (baseline_summary r)
        \<and> summarize_runs (lr_values c) = Inr (candidate_summary r)
        \<and> metric_summary_comparison (baseline_summary r) (candidate_summary r) metric t dirin
            = Inr (absolute_improvement r, relative_improvement r, claim)
        \<and> experiment_findings ''baseline'' b (baseline_summary r) = Inr bf
        \<and> experiment_findings ''candidate'' c (candidate_summary r) = Inr cf
        \<and> rc_findings r = collect_findings metric (baseline_summary r) (candidate_summary r) bf cf
            (length (lr_values b)) (length (lr_values c)) claim)"
  unfolding check_results_def by (cases r) (auto simp: sbind_eq_Inr)

lemma collect_findings_member:
  "f \<in> set (collect_findings metric bs cs bf cf nb nc claim) \<Longrightarrow>
     f = recomputed_finding metric bs cs \<or> f \<in> set bf \<or> f \<in> set cf \<or> f = seed_imbalance_finding nb nc
     \<or> f = seed_verified_finding nb nc \<or> f = claim"
  unfolding collect_findings_def Let_def set_append set_only_if Un_iff mem_only_if by auto

lemma collect_findings_parts:
  "set bf \<subseteq> set (collect_findings metric bs cs bf cf nb nc claim)"
  "set cf \<subseteq> set (collect_findings metric bs cs bf cf nb nc claim)"
  "last (collect_findings metric bs cs bf cf nb nc claim) = claim"
  "collect_findings metric bs cs bf cf nb nc claim \<noteq> []"
  unfolding collect_findings_def Let_def by (auto simp del: only_if_Nil set_only_if)

lemma experiment_rules:
  "experiment_findings e l s = Inr fs \<Longrightarrow> f \<in> set fs \<Longrightarrow> rule_id f \<in> set result_rules \<and> coherent f"
  by (auto simp: experiment_findings_Inr seed_findings_member result_rules_def split: option.splits if_splits)

lemma comparison_rules:
  "metric_summary_comparison b c metric t dirin = Inr (a, r, f) \<Longrightarrow>
     rule_id f \<in> set result_rules \<and> coherent f"
  by (auto simp: metric_summary_comparison_Inr Let_def result_rules_def)

lemma check_results_rules:
  assumes "check_results b c metric t dirin = Inr r" and "f \<in> set (rc_findings r)"
  shows "rule_id f \<in> set result_rules \<and> coherent f"
proof -
  obtain bf cf claim where
    m: "metric_summary_comparison (baseline_summary r) (candidate_summary r) metric t dirin
      = Inr (absolute_improvement r, relative_improvement r, claim)"
    and b: "experiment_findings ''baseline'' b (baseline_summary r) = Inr bf"
    and c: "experiment_findings ''candidate'' c (candidate_summary r) = Inr cf"
    and fs: "rc_findings r = collect_findings metric (baseline_summary r) (candidate_summary r) bf cf
      (length (lr_values b)) (length (lr_values c)) claim"
    using assms(1) unfolding check_results_Inr by blast
  from assms(2) [unfolded fs, THEN collect_findings_member] show ?thesis
    using experiment_rules [OF b] experiment_rules [OF c] comparison_rules [OF m]
    by (elim disjE) (simp_all add: result_rules_def)
qed

definition findings_of :: "result_check checked \<Rightarrow> finding list" where
  "findings_of r = (case r of Inl _ \<Rightarrow> [] | Inr c \<Rightarrow> rc_findings c)"

interpretation result_checks: rule_check
  "\<lambda>(b, c, metric, t, d). findings_of (check_results b c metric t d)" result_rules
proof
  fix f and x :: "loaded_results \<times> loaded_results \<times> string \<times> flt \<times> direction_input"
  assume "f \<in> set (case x of (b, c, metric, t, d) \<Rightarrow> findings_of (check_results b c metric t d))"
  then have "rule_id f \<in> set result_rules \<and> coherent f"
    by (auto simp: findings_of_def split: prod.splits sum.splits dest: check_results_rules [OF sym])
  then show "rule_id f \<in> set result_rules" "coherent f" by simp_all
qed

subsection \<open>What a supported result means\<close>

lemma missing_indices_Nil: "missing_indices seeds = [] \<longleftrightarrow> None \<notin> set seeds"
proof -
  have "length [1..<Suc (length seeds)] = length seeds" by (simp only: length_upt diff_Suc_1)
  then have z: "map snd (zip [1..<Suc (length seeds)] seeds) = seeds" by (rule map_snd_zip)
  have "missing_indices seeds = [] \<longleftrightarrow> (\<forall>s \<in> set (map snd (zip [1..<Suc (length seeds)] seeds)). s \<noteq> None)"
    unfolding missing_indices_def set_map by (auto simp: filter_empty_conv split_beta simp del: upt_Suc)
  then show ?thesis unfolding z by auto
qed

lemma present_seeds_all: "None \<notin> set seeds \<Longrightarrow> map Some (present_seeds seeds) = seeds"
proof (induction seeds)
  case (Cons s seeds)
  then show ?case by (cases s) (auto simp: present_seeds_def)
qed (simp add: present_seeds_def)

lemma duplicate_seeds_Nil: "duplicate_seeds present = [] \<longleftrightarrow> distinct present"
proof -
  have "duplicate_seeds present = [] \<longleftrightarrow> (\<forall>s \<in> set present. \<not> 1 < count_list present s)"
    by (auto simp: duplicate_seeds_def filter_empty_conv simp flip: set_empty)
  also have "\<dots> \<longleftrightarrow> distinct present"
  proof (induction present)
    case (Cons x xs)
    have "count_list xs x = 0 \<longleftrightarrow> x \<notin> set xs" by (simp add: count_list_0_iff)
    then show ?case using Cons by (auto simp: count_list_0_iff)
  qed simp
  finally show ?thesis .
qed

definition seeds_complete :: "loaded_results \<Rightarrow> bool" where
  "seeds_complete l =
     (None \<notin> set (lr_seeds l) \<and> distinct (lr_seeds l) \<and> length (lr_values l) \<noteq> 1)"

lemma seed_findings_Nil: "seed_findings e l = [] \<longleftrightarrow> seeds_complete l"
proof (cases "None \<in> set (lr_seeds l)")
  case False
  then have "distinct (lr_seeds l) \<longleftrightarrow> distinct (present_seeds (lr_seeds l))"
    using present_seeds_all [OF False] by (metis distinct_map inj_on_def option.inject)
  with False show ?thesis
    by (simp add: seed_findings_def Let_def missing_indices_Nil duplicate_seeds_Nil seeds_complete_def)
qed (simp add: seed_findings_def Let_def missing_indices_Nil seeds_complete_def)

text \<open>One experiment whose findings decide nothing.\<close>

lemma experiment_findings_clean:
  assumes e: "experiment_findings e l s = Inr fs" and n: "\<forall>f \<in> set fs. impact f = NONE"
  shows "seeds_complete l \<and> (\<forall>claimed. claimed_summary l = Some claimed \<longrightarrow>
    dval (dec_of_flt claimed) = dval (dec_of_flt (ms_mean s)))"
proof -
  have sub: "set (seed_findings e l) \<subseteq> set fs"
    using e by (auto simp: experiment_findings_Inr split: option.splits)
  have "seed_findings e l = []"
  proof (rule ccontr)
    assume "seed_findings e l \<noteq> []"
    then obtain f where f: "f \<in> set (seed_findings e l)" by (cases "seed_findings e l") auto
    then have "impact f = INSUFFICIENT" by (auto simp: seed_findings_member)
    with f sub n show False by auto
  qed
  then show ?thesis
    using e n by (auto simp: experiment_findings_Inr seed_findings_Nil dec_eq_dval split: if_splits)
qed

lemma check_results_Inr_parts:
  assumes "check_results b c metric t dirin = Inr r"
  shows "\<exists>bf. experiment_findings ''baseline'' b (baseline_summary r) = Inr bf \<and> set bf \<subseteq> set (rc_findings r)"
    and "\<exists>cf. experiment_findings ''candidate'' c (candidate_summary r) = Inr cf \<and> set cf \<subseteq> set (rc_findings r)"
    and "rc_findings r \<noteq> []"
    and "metric_summary_comparison (baseline_summary r) (candidate_summary r) metric t dirin
      = Inr (absolute_improvement r, relative_improvement r, last (rc_findings r))"
  using assms collect_findings_parts unfolding check_results_Inr by (metis+)

subsection \<open>Properties\<close>

text \<open>C15: an improvement that truly reaches the claimed threshold is never rejected. Whatever the
  rounding of the decimal subtraction, when the exact difference of the two means (in the claimed
  direction) is at least the exact threshold, the comparison reports the claim as supported.\<close>

theorem exact_improvement_supported:
  assumes "metric_summary_comparison b c metric t (DirEnum dir) = Inr (a, rel, f)" and "flt_wf t"
    and "dval (dec_of_flt t) \<le> exact_improvement dir (ms_mean b) (ms_mean c)"
  shows "rule_id f = ''RESULT.CLAIM_SUPPORTED'' \<and> impact f = NONE"
proof -
  have "isfinite (ms_mean b)" "isfinite (ms_mean c)" "isfinite t" "\<not> flt_lt t fzero"
    and f: "f = (if dec_le (dec_of_flt t) (directed_difference dir (dec_of_flt (ms_mean b)) (dec_of_flt (ms_mean c)))
      then claim_supported_finding metric t a rel dir else claim_not_supported_finding metric t a rel dir)"
    using assms(1) by (auto simp: metric_summary_comparison_Inr Let_def coerce_direction_def)
  with supported_when_exact assms(2,3) show ?thesis by simp
qed

definition zero_summary :: metric_summary where
  "zero_summary = \<lparr>ms_count = 2, ms_mean = fzero, ms_stdev = Some fzero\<rparr>"

definition zero_claim :: finding where
  "zero_claim = claim_supported_finding ''acc'' fzero fzero None HIGHER"

lemma zero_comparison:
  "metric_summary_comparison zero_summary zero_summary ''acc'' fzero (DirEnum HIGHER)
    = Inr (fzero, None, zero_claim)"
  by (simp add: metric_summary_comparison_Inr Let_def coerce_direction_def zero_summary_def zero_claim_def
      fzero_def flt_lt_def dec_of_flt_def directed_difference_def dec_sub_def dec_add_def sgn_int_def
      default_precision_def ndigits.simps round_ratio_def relative_of_def dec_is_zero_def dec_le_def)

theorem exact_improvement_supported_witness:
  "rule_id zero_claim = ''RESULT.CLAIM_SUPPORTED'' \<and> impact zero_claim = NONE"
  by (rule exact_improvement_supported [OF zero_comparison])
    (simp_all add: fzero_def zero_summary_def exact_improvement_def dec_of_flt_def dval_Dec)

text \<open>C25: when the difference of the means fits the 28 digits of the decimal context, the decision
  is exact: the claim is supported if and only if the exact difference reaches the threshold, and
  otherwise the finding is critical and invalidates it.\<close>

theorem claim_decision_exact:
  assumes "metric_summary_comparison b c metric t (DirEnum dir) = Inr (a, rel, f)"
    and "difference_fits dir (ms_mean b) (ms_mean c)"
  shows "(rule_id f = ''RESULT.CLAIM_SUPPORTED''
      \<longleftrightarrow> dval (dec_of_flt t) \<le> exact_improvement dir (ms_mean b) (ms_mean c))
    \<and> (rule_id f \<noteq> ''RESULT.CLAIM_SUPPORTED'' \<longrightarrow> impact f = INVALIDATES)"
proof -
  have "isfinite (ms_mean b)" "isfinite (ms_mean c)"
    and f: "f = (if dec_le (dec_of_flt t) (directed_difference dir (dec_of_flt (ms_mean b)) (dec_of_flt (ms_mean c)))
      then claim_supported_finding metric t a rel dir else claim_not_supported_finding metric t a rel dir)"
    using assms(1) by (auto simp: metric_summary_comparison_Inr Let_def coerce_direction_def)
  with supported_iff_exact [OF assms(2)] show ?thesis by simp
qed

theorem claim_decision_exact_witness:
  "dval (dec_of_flt fzero) \<le> exact_improvement HIGHER fzero fzero"
  using claim_decision_exact [OF zero_comparison]
  by (simp add: zero_claim_def zero_summary_def difference_fits_def exact_difference_def fzero_def
      dec_of_flt_def dec_digits_def sgn_int_def ndigits.simps default_precision_def)

lemma clean_results:
  assumes r: "check_results b c metric t dirin = Inr r"
    and v: "determine_verdict (rc_findings r) = SUPPORTED"
  shows "seeds_complete b \<and> seeds_complete c
    \<and> (\<forall>x. claimed_summary b = Some x \<longrightarrow> dval (dec_of_flt x) = dval (dec_of_flt (ms_mean (baseline_summary r))))
    \<and> (\<forall>x. claimed_summary c = Some x \<longrightarrow> dval (dec_of_flt x) = dval (dec_of_flt (ms_mean (candidate_summary r))))
    \<and> rule_id (last (rc_findings r)) = ''RESULT.CLAIM_SUPPORTED''"
proof -
  note parts = check_results_Inr_parts [OF r]
  have none: "\<forall>f \<in> set (rc_findings r). impact f = NONE"
    using v by (simp add: determine_verdict_supported)
  obtain bf where bf: "experiment_findings ''baseline'' b (baseline_summary r) = Inr bf" "\<forall>f \<in> set bf. impact f = NONE"
    using parts(1) none by blast
  obtain cf where cf: "experiment_findings ''candidate'' c (candidate_summary r) = Inr cf" "\<forall>f \<in> set cf. impact f = NONE"
    using parts(2) none by blast
  have "impact (last (rc_findings r)) = NONE" using none parts(3) by simp
  then have "rule_id (last (rc_findings r)) = ''RESULT.CLAIM_SUPPORTED''"
    using parts(4) by (auto simp: metric_summary_comparison_Inr Let_def split: if_splits)
  then show ?thesis using experiment_findings_clean [OF bf] experiment_findings_clean [OF cf] by blast
qed

text \<open>C2: a result check whose findings alone give the verdict supported has complete and pairwise
  different integer seeds and more than one run on both sides, claimed summaries that equal the
  recomputed means exactly, and a supported claim as its last finding.\<close>

theorem supported_results_sound:
  assumes r: "check_results b c metric t dirin = Inr r"
    and v: "determine_verdict (rc_findings r) = SUPPORTED"
  shows "seeds_complete b \<and> seeds_complete c
    \<and> (\<forall>x. claimed_summary b = Some x \<longrightarrow> dval (dec_of_flt x) = dval (dec_of_flt (ms_mean (baseline_summary r))))
    \<and> (\<forall>x. claimed_summary c = Some x \<longrightarrow> dval (dec_of_flt x) = dval (dec_of_flt (ms_mean (candidate_summary r))))
    \<and> rule_id (last (rc_findings r)) = ''RESULT.CLAIM_SUPPORTED''"
  using assms by (rule clean_results)

definition zero_runs :: loaded_results where
  "zero_runs = \<lparr>lr_path = ''/r.json'', lr_values = [fzero, fzero], lr_seeds = [Some 1, Some 2],
                claimed_summary = Some fzero\<rparr>"

lemma isqrt_0: "isqrt 0 = 0"
  by (simp add: isqrt.simps)

lemma bit_length_01: "bit_length 0 = 0" "bit_length (Suc 0) = 1"
  by (simp_all add: bit_length.simps)

lemma sqrt_of_zero: "sqrt_of_frac 0 1 = Some fzero"
  by (simp add: sqrt_of_frac_def bit_length_01 isqrt_rto_def isqrt_0 int_truediv_def round_ratio_def fzero_def)

lemma zero_decimal_mean: "decimal_mean [Dec False 0 (-1), Dec False 0 (-1)] = Dec False 0 (-1)"
  by code_simp

lemma fzero_simps: "flt_num fzero = 0" "isfinite fzero" "flt_snum fzero = 0" "\<not> flt_neg fzero"
  by (simp_all add: fzero_def flt_snum_def sgn_int_def)

lemma common_den_pos: "0 < common_den xs"
proof -
  have "0 < foldr (\<lambda>x m. max (flt_den x) m) xs 1" by (induction xs) auto
  then show ?thesis by (simp add: common_den_def)
qed

lemma zero_variance: "variance_fraction [fzero, fzero] = (0, 1)"
  using common_den_pos [of "[fzero, fzero]"]
  by (simp add: variance_fraction_def scaled_values_def fzero_simps Let_def)

lemma zero_summarized: "summarize_runs [fzero, fzero] = Inr zero_summary"
proof -
  have f: "fsum [fzero, fzero] = Some fzero" by (simp add: fsum_def fzero_simps)
  have s: "stdev [fzero, fzero] = Some fzero" by (simp add: stdev_def zero_variance sqrt_of_zero [simplified])
  have m: "finite_fmean [fzero, fzero] = Inr ()"
    by (simp add: finite_fmean_def f round_ratio_def Let_def fzero_simps)
  have n: "normalize_runs (Suc 0) [fzero, fzero] = Inr [fzero, fzero]" by (simp add: fzero_def)
  have d: "dec_of_flt fzero = Dec False 0 (-1)" by (simp add: dec_of_flt_def fzero_def)
  have r: "runs_stdev [fzero, fzero] = Inr (Some fzero)"
    by (simp add: runs_stdev_def s) (simp add: fzero_def)
  have x: "finite_float (Dec False 0 (-1)) l = Inr fzero" for l
    by (simp add: finite_float_if round_ratio_def) (simp add: fzero_def)
  show ?thesis
    by (simp add: summarize_runs_def n m d zero_decimal_mean x r zero_summary_def del: normalize_runs.simps)
qed

lemma zero_check:
  "check_results zero_runs zero_runs ''acc'' fzero (DirEnum HIGHER) =
    Inr \<lparr>baseline_summary = zero_summary, candidate_summary = zero_summary, absolute_improvement = fzero,
         relative_improvement = None,
         rc_findings = [recomputed_finding ''acc'' zero_summary zero_summary, seed_verified_finding 2 2, zero_claim]\<rparr>"
proof -
  have e: "experiment_findings n zero_runs zero_summary = Inr []" for n
  proof -
    have "seed_findings n zero_runs = []"
      by (simp add: seed_findings_Nil zero_runs_def seeds_complete_def)
    then show ?thesis
      by (simp add: experiment_findings_Inr zero_runs_def zero_summary_def fzero_def dec_eq_def dec_le_def)
  qed
  have i: "\<not> severely_imbalanced (length [fzero, fzero]) (length [fzero, fzero])"
    by (simp add: severely_imbalanced_def)
  have v: "lr_values zero_runs = [fzero, fzero]" by (simp add: zero_runs_def)
  show ?thesis
    unfolding check_results_def v zero_summarized sbind_Inr zero_comparison prod.case e collect_findings_def Let_def
    using i by (simp add: starts_with_def eval_nat_numeral)
qed

theorem supported_results_sound_witness:
  "seeds_complete zero_runs \<and> rule_id zero_claim = ''RESULT.CLAIM_SUPPORTED''"
  using supported_results_sound [OF zero_check]
  by (simp add: determine_verdict_supported zero_claim_def)

text \<open>C34: loading a results file and checking two loaded results never fail with anything but the
  module's own input error: no overflow, type or value error escapes.\<close>

theorem result_errors_are_input_errors:
  "input_error (load_results env path metric) \<and> input_error (check_results b c metric t dirin)"
  by (simp add: input_error_load input_error_check_results)

end
