(* ===== verification/CanonicalJson.thy ===== *)
theory CanonicalJson
  imports Models
begin

section \<open>Canonical JSON\<close>

text \<open>
  The two canonical renderings of a decoded value that the program hashes: \<^verbatim>\<open>json.dumps\<close> with
  sorted keys and compact separators, with and without \<^verbatim>\<open>ensure_ascii\<close>, and their UTF-8 bytes.
  The lemmas show that the order of keys does not matter.
\<close>

text \<open>\<^verbatim>\<open>json.dumps\<close> of a string with \<^verbatim>\<open>ensure_ascii=False\<close>.\<close>

definition json_escape :: "char \<Rightarrow> string" where
  "json_escape c =
     (let n = char_code c
      in if n = 34 then [bslash, dquote]
         else if n = 92 then [bslash, bslash]
         else if n = 8 then [bslash, CHR ''b'']
         else if n = 9 then [bslash, CHR ''t'']
         else if n = 10 then [bslash, CHR ''n'']
         else if n = 12 then [bslash, CHR ''f'']
         else if n = 13 then [bslash, CHR ''r'']
         else if n < 32 then [bslash, CHR ''u'', CHR ''0'', CHR ''0'', hex_digit (n div 16), hex_digit (n mod 16)]
         else [c])"

text \<open>The same with \<^verbatim>\<open>ensure_ascii=True\<close>: everything outside the printable ASCII range.\<close>

definition json_escape_ascii :: "char \<Rightarrow> string" where
  "json_escape_ascii c =
     (if 127 \<le> char_code c
      then [bslash, CHR ''u'', CHR ''0'', CHR ''0'', hex_digit (char_code c div 16), hex_digit (char_code c mod 16)]
      else json_escape c)"

definition json_quote :: "(char \<Rightarrow> string) \<Rightarrow> string \<Rightarrow> string" where
  "json_quote esc s = [dquote] @ concat (map esc s) @ [dquote]"

definition dict_key :: "pyval \<Rightarrow> string" where
  "dict_key k = (case k of PStr s \<Rightarrow> s | _ \<Rightarrow> [])"

text \<open>
  Compact separators, keys sorted by code point, and no non-finite number. The keys of a decoded
  JSON object are strings. A value JSON has no spelling for is refused.
\<close>

fun json_dumps :: "(char \<Rightarrow> string) \<Rightarrow> pyval \<Rightarrow> string + string" where
  "json_dumps esc PNone = Inr ''null''"
| "json_dumps esc (PBool b) = Inr (if b then ''true'' else ''false'')"
| "json_dumps esc (PInt i) = Inr (show_int i)"
| "json_dumps esc (PFloat x) =
     (if isfinite x then Inr (flt_repr x) else Inl ''Out of range float values are not JSON compliant'')"
| "json_dumps esc (PStr s) = Inr (json_quote esc s)"
| "json_dumps esc (POther s) = Inl ''Object is not JSON serializable''"
| "json_dumps esc (PList vs) = sbind (smap (json_dumps esc) vs) (\<lambda>ts. Inr (''['' @ join '','' ts @ '']''))"
| "json_dumps esc (PTuple vs) = sbind (smap (json_dumps esc) vs) (\<lambda>ts. Inr (''['' @ join '','' ts @ '']''))"
| "json_dumps esc (PSet vs) = Inl ''Object of type set is not JSON serializable''"
| "json_dumps esc (PDict d) =
     sbind (smap (\<lambda>(k, v). sbind (json_dumps esc v) (\<lambda>t. Inr (json_quote esc (dict_key k) @ '':'' @ t)))
              (sort_key (\<lambda>(k, v). dict_key k) d))
       (\<lambda>ts. Inr (''{'' @ join '','' ts @ ''}''))"

text \<open>UTF-8, for the code points the model has.\<close>

definition utf8_char :: "char \<Rightarrow> nat list" where
  "utf8_char c =
     (let n = char_code c in if n < 128 then [n] else [192 + n div 64, 128 + n mod 64])"

definition utf8 :: "string \<Rightarrow> nat list" where
  "utf8 s = concat (map utf8_char s)"

subsection \<open>Key order\<close>

text \<open>The same value with the items of every mapping in key order.\<close>

fun key_normal :: "pyval \<Rightarrow> pyval" where
  "key_normal (PList vs) = PList (map key_normal vs)"
| "key_normal (PTuple vs) = PTuple (map key_normal vs)"
| "key_normal (PDict d) = PDict (sort_key (\<lambda>(k, v). dict_key k) (map (\<lambda>(k, v). (k, key_normal v)) d))"
| "key_normal v = v"

lemma smap_map: "smap f (map g xs) = smap (f \<circ> g) xs"
  by (induction xs) auto

lemma sort_key_map: "sort_key f (map g xs) = map g (sort_key (f \<circ> g) xs)"
proof (induction xs)
  case (Cons x xs)
  have "insort_key f (g x) (map g ys) = map g (insort_key (f \<circ> g) x ys)" for ys
    by (induction ys) auto
  with Cons show ?case by (simp add: comp_def)
qed simp

lemma json_dumps_normal: "json_dumps esc (key_normal v) = json_dumps esc v"
proof (induction v)
  case (PList vs)
  then show ?case by (auto simp: smap_map intro!: arg_cong2 [where f = sbind] smap_cong)
next
  case (PTuple vs)
  then show ?case by (auto simp: smap_map intro!: arg_cong2 [where f = sbind] smap_cong)
next
  case (PDict d)
  let ?g = "\<lambda>(k, v). (k, key_normal v)" and ?f = "\<lambda>(k, v :: pyval). dict_key k"
  let ?r = "\<lambda>(k, v). sbind (json_dumps esc v) (\<lambda>t. Inr (json_quote esc (dict_key k) @ '':'' @ t))"
  have fg: "?f \<circ> ?g = ?f" by auto
  have "smap ?r (sort_key ?f (sort_key ?f (map ?g d))) = smap (?r \<circ> ?g) (sort_key ?f d)"
    by (simp add: sort_key_map fg smap_map sort_key_id_if_sorted)
  also have "\<dots> = smap ?r (sort_key ?f d)"
  proof (rule smap_cong)
    fix p assume "p \<in> set (sort_key ?f d)"
    then have "p \<in> set d" by (simp only: set_sort)
    then have "json_dumps esc (key_normal (snd p)) = json_dumps esc (snd p)"
      by (rule PDict) (cases p, simp)
    then show "(?r \<circ> ?g) p = ?r p" by (cases p) auto
  qed simp
  finally show ?case by simp
qed auto

end
