(* ===== verification/DatasetCheck.thy ===== *)
theory DatasetCheck
  imports ResultCheck CanonicalJson
begin

section \<open>Dataset leakage and evaluation alignment\<close>

text \<open>
  \<^verbatim>\<open>claimci/dataset_check.py\<close>: the canonical JSON text of a sample and its hash, loading a JSON
  Lines dataset, and the two multiset comparisons over hashes: leakage between the training and the
  evaluation split, and alignment of the two evaluation splits. A \<^verbatim>\<open>Counter\<close> is given by its
  keys in digest order and its counts. The interface that the in-memory counters and the streaming
  spill store share is the locale \<open>hash_index\<close>.
\<close>

subsection \<open>Canonical samples\<close>

definition canonicalize_sample :: "pyval \<Rightarrow> nat list checked" where
  "canonicalize_sample v =
     (case json_dumps json_escape v of
        Inl e \<Rightarrow> Inl (ClaimCIError (''sample cannot be represented as finite JSON: '' @ e))
      | Inr t \<Rightarrow> Inr (utf8 t))"

definition hash_sample :: "(nat list \<Rightarrow> string) \<Rightarrow> pyval \<Rightarrow> string checked" where
  "hash_sample sha v = sbind (canonicalize_sample v) (\<lambda>bs. Inr (sha bs))"

subsection \<open>Loading a dataset\<close>

definition dataset_error :: "string \<Rightarrow> nat \<Rightarrow> string \<Rightarrow> py_error" where
  "dataset_error path n e =
     ClaimCIError (''invalid JSON in dataset '' @ path @ '' at line '' @ show_nat n @ '': '' @ e)"

text \<open>One line: decode, validate, hash.\<close>

definition hash_line :: "'e io_env_scheme \<Rightarrow> string \<Rightarrow> nat \<Rightarrow> string \<Rightarrow> string checked" where
  "hash_line env path n line =
     (case load_json (json_text env) (''dataset '' @ path) line of
        Inl e \<Rightarrow> Inl (dataset_error path n e)
      | Inr v \<Rightarrow>
          (case hash_sample (sha256_hex env) v of
             Inl e \<Rightarrow> Inl (dataset_error path n (error_text e))
           | Inr h \<Rightarrow> Inr h))"

fun hash_lines :: "'e io_env_scheme \<Rightarrow> string \<Rightarrow> nat \<Rightarrow> string list \<Rightarrow> string list checked" where
  "hash_lines env path n [] = Inr []"
| "hash_lines env path n (l # ls) =
     (if is_blank l then hash_lines env path (Suc n) ls
      else sbind (hash_line env path n l) (\<lambda>h.
           sbind (hash_lines env path (Suc n) ls) (\<lambda>hs. Inr (h # hs))))"

fun dataset_read_error :: "string \<Rightarrow> read_failure \<Rightarrow> py_error" where
  "dataset_read_error path (FileNotFound e) = ClaimCIError (''dataset file not found: '' @ path)"
| "dataset_read_error path f = ClaimCIError (''could not read dataset file '' @ path @ '': '' @ failure_text f)"

text \<open>
  The last call, \<^verbatim>\<open>path.resolve()\<close>, is not guarded by the loader: its failure is an OSError.
\<close>

definition load_dataset :: "'e io_env_scheme \<Rightarrow> string \<Rightarrow> dataset_hashes checked" where
  "load_dataset env path =
     (case read_text env path of
        Inl f \<Rightarrow> Inl (dataset_read_error path f)
      | Inr text \<Rightarrow>
          sbind (hash_lines env path 1 (split_on lf text)) (\<lambda>hs.
            if hs = [] then Inl (ClaimCIError (''dataset file '' @ path @ '' contains no JSON records''))
            else case resolve_path env path of
                   Inl e \<Rightarrow> Inl (OSError e)
                 | Inr p \<Rightarrow> Inr \<lparr>ds_path = p, hashes = hs\<rparr>))"

subsection \<open>Hash counters\<close>

text \<open>
  A \<^verbatim>\<open>Counter\<close> over a list of digests. The keys are listed in digest order, as every caller
  sorts them; \<open>&\<close> is the pointwise minimum and \<open>-\<close> the positive part of the difference.
\<close>

definition counter_keys :: "string list \<Rightarrow> string list" where
  "counter_keys hs = sort (remdups hs)"

definition min_count :: "(string \<Rightarrow> nat) \<Rightarrow> (string \<Rightarrow> nat) \<Rightarrow> string \<Rightarrow> nat" where
  "min_count a b d = min (a d) (b d)"

definition excess :: "(string \<Rightarrow> nat) \<Rightarrow> (string \<Rightarrow> nat) \<Rightarrow> string \<Rightarrow> nat" where
  "excess a b d = a d - b d"

definition count_total :: "string list \<Rightarrow> (string \<Rightarrow> nat) \<Rightarrow> nat" where
  "count_total ks f = sum_list (map f ks)"

definition positive_keys :: "string list \<Rightarrow> (string \<Rightarrow> nat) \<Rightarrow> string list" where
  "positive_keys ks f = filter (\<lambda>d. 0 < f d) ks"

text \<open>
  What the checks need of an index of digests: its keys, sorted and without repetition, are the
  digests with a positive count, and both present one multiset, the \<open>bag\<close>.
\<close>

locale hash_index =
  fixes ok :: "'i \<Rightarrow> bool"
    and keys :: "'i \<Rightarrow> string list"
    and cnt :: "'i \<Rightarrow> string \<Rightarrow> nat"
    and bag :: "'i \<Rightarrow> string multiset"
  assumes keys_sorted: "ok i \<Longrightarrow> sorted (keys i)"
    and keys_distinct: "ok i \<Longrightarrow> distinct (keys i)"
    and keys_count: "ok i \<Longrightarrow> d \<in> set (keys i) \<longleftrightarrow> 0 < cnt i d"
    and bag_count: "ok i \<Longrightarrow> count (bag i) d = cnt i d"
begin

lemma set_bag: "ok i \<Longrightarrow> set (keys i) = set_mset (bag i)"
  using keys_count bag_count by (metis (no_types, lifting) count_greater_zero_iff subsetI subset_antisym)

lemma total_size:
  assumes "ok i" and m: "set_mset m \<subseteq> set (keys i)"
  shows "count_total (keys i) (count m) = size m"
proof -
  have "size m = sum (count m) (set (keys i))"
    using m by (simp add: size_multiset_overloaded_eq) (rule sum.mono_neutral_left; auto simp: not_in_iff)
  also have "\<dots> = count_total (keys i) (count m)"
    using keys_distinct [OF assms(1)] by (simp add: count_total_def sum_list_distinct_conv_sum_set)
  finally show ?thesis by simp
qed

lemma cnt_bag: "ok i \<Longrightarrow> cnt i = count (bag i)"
  using bag_count by auto

lemma overlap_size:
  assumes "ok i" "ok j"
  shows "count_total (keys i) (min_count (cnt i) (cnt j)) = size (bag i \<inter># bag j)"
proof -
  have "min_count (cnt i) (cnt j) = count (bag i \<inter># bag j)"
    using assms by (auto simp: min_count_def cnt_bag)
  then show ?thesis using assms by (simp add: total_size set_bag)
qed

lemma excess_size:
  assumes "ok i" "ok j"
  shows "count_total (keys i) (excess (cnt i) (cnt j)) = size (bag i - bag j)"
proof -
  have "excess (cnt i) (cnt j) = count (bag i - bag j)"
    using assms by (auto simp: excess_def cnt_bag)
  then show ?thesis using assms by (auto simp: set_bag intro!: total_size dest: in_diffD)
qed

lemma record_total: "ok i \<Longrightarrow> count_total (keys i) (cnt i) = size (bag i)"
  by (simp add: cnt_bag total_size set_bag)

lemma overlap_keys:
  assumes "ok i" "ok j"
  shows "positive_keys (keys i) (min_count (cnt i) (cnt j)) = sorted_list_of_set (set_mset (bag i \<inter># bag j))"
proof -
  let ?ks = "positive_keys (keys i) (min_count (cnt i) (cnt j))"
  have "sorted ?ks" "distinct ?ks"
    using assms keys_sorted keys_distinct by (auto simp: positive_keys_def sorted_filter [where f = id, simplified])
  moreover have "set ?ks = set_mset (bag i \<inter># bag j)"
    using assms by (auto simp: positive_keys_def min_count_def set_bag cnt_bag)
  ultimately show ?thesis
    using sorted_list_of_set.idem_if_sorted_distinct by metis
qed

lemma same_counts:
  assumes "ok i" "ok j"
  shows "(\<forall>d. cnt i d = cnt j d) \<longleftrightarrow> bag i = bag j"
  using assms by (simp add: cnt_bag multiset_eq_iff)

end

interpretation counter: hash_index "\<lambda>_. True" counter_keys count_list mset
  by unfold_locales (auto simp: counter_keys_def count_list_0_iff count_mset neq0_conv [symmetric] simp del: neq0_conv)

subsection \<open>Leakage\<close>

definition rate_of :: "nat \<Rightarrow> nat \<Rightarrow> flt" where
  "rate_of part whole = (if whole = 0 then fzero else round_ratio False part whole)"

definition exact_leakage_finding :: "overlap_summary \<Rightarrow> finding" where
  "exact_leakage_finding s =
     \<lparr>rule_id = ''DATASET.EXACT_LEAKAGE'', severity = CRITICAL,
      title = py_title (ov_experiment s) @ '' evaluation data appears in training data'',
      explanation = ''Found '' @ show_nat (overlap_count s) @ '' exact canonical overlap(s), covering ''
        @ fmt_pct 1 (overlap_rate s) @ '' of evaluation records.'',
      evidence = [(''experiment'', PStr (ov_experiment s)), (''train_count'', pnat (train_count s)),
                  (''eval_count'', pnat (eval_count s)), (''overlap_count'', pnat (overlap_count s)),
                  (''overlap_rate'', PFloat (overlap_rate s)), (''hashes'', str_list (overlapping_hashes s))],
      impact = INVALIDATES\<rparr>"

definition no_leakage_finding :: "overlap_summary \<Rightarrow> finding" where
  "no_leakage_finding s =
     \<lparr>rule_id = ''DATASET.NO_LEAKAGE'', severity = VERIFIED,
      title = py_title (ov_experiment s) @ '' has no exact train/eval leakage'',
      explanation = ''No canonical evaluation record hash appears in the training split.'',
      evidence = [(''experiment'', PStr (ov_experiment s)), (''train_count'', pnat (train_count s)),
                  (''eval_count'', pnat (eval_count s)), (''overlap_count'', PInt 0),
                  (''overlap_rate'', PFloat fzero)],
      impact = NONE\<rparr>"

definition leakage_summary :: "string \<Rightarrow> string list \<Rightarrow> string list \<Rightarrow> overlap_summary" where
  "leakage_summary experiment train eval =
     (let both = min_count (count_list train) (count_list eval);
          ks = counter_keys train;
          n = count_total ks both
      in \<lparr>ov_experiment = experiment, train_count = length train, eval_count = length eval,
          overlap_count = n, overlap_rate = rate_of n (length eval),
          overlapping_hashes = positive_keys ks both\<rparr>)"

definition check_dataset_leakage ::
  "string \<Rightarrow> dataset_hashes \<Rightarrow> dataset_hashes \<Rightarrow> overlap_summary \<times> finding list" where
  "check_dataset_leakage experiment train eval =
     (let s = leakage_summary experiment (hashes train) (hashes eval)
      in (s, [if overlap_count s \<noteq> 0 then exact_leakage_finding s else no_leakage_finding s]))"

subsection \<open>Evaluation alignment\<close>

definition hash_count_evidence :: "(string \<times> nat) list \<Rightarrow> pyval" where
  "hash_count_evidence ps = PList (map (\<lambda>(d, n). pdict [(''hash'', PStr d), (''count'', pnat n)]) ps)"

definition side_only :: "string list \<Rightarrow> (string \<Rightarrow> nat) \<Rightarrow> (string \<times> nat) list" where
  "side_only ks f = map (\<lambda>d. (d, f d)) (positive_keys ks f)"

definition alignment_evidence :: "string list \<Rightarrow> string list \<Rightarrow> (string \<times> pyval) list" where
  "alignment_evidence b c =
     (let cb = count_list b; cc = count_list c; kb = counter_keys b; kc = counter_keys c
      in [(''baseline_eval_count'', pnat (length b)), (''candidate_eval_count'', pnat (length c)),
          (''matching_count'', pnat (count_total kb (min_count cb cc))),
          (''baseline_only_count'', pnat (count_total kb (excess cb cc))),
          (''candidate_only_count'', pnat (count_total kc (excess cc cb))),
          (''baseline_only'', hash_count_evidence (side_only kb (excess cb cc))),
          (''candidate_only'', hash_count_evidence (side_only kc (excess cc cb)))])"

definition aligned_finding :: "(string \<times> pyval) list \<Rightarrow> finding" where
  "aligned_finding ev =
     \<lparr>rule_id = ''DATASET.EVALUATION_ALIGNED'', severity = VERIFIED,
      title = ''Baseline and candidate evaluation records are aligned'',
      explanation = ''Both evaluation datasets contain the same canonical record hash multiset.'',
      evidence = ev, impact = NONE\<rparr>"

definition misaligned_finding :: "(string \<times> pyval) list \<Rightarrow> finding" where
  "misaligned_finding ev =
     \<lparr>rule_id = ''DATASET.EVALUATION_MISMATCH'', severity = CRITICAL,
      title = ''Baseline and candidate evaluation records differ'',
      explanation = ''A valid comparison requires both experiments to use the same canonical evaluation-record multiset.'',
      evidence = ev, impact = INVALIDATES\<rparr>"

text \<open>Equality of two counters: the same keys with the same counts.\<close>

definition counters_equal :: "string list \<Rightarrow> string list \<Rightarrow> bool" where
  "counters_equal b c =
     (counter_keys b = counter_keys c \<and> list_all (\<lambda>d. count_list b d = count_list c d) (counter_keys b))"

definition check_evaluation_alignment :: "dataset_hashes \<Rightarrow> dataset_hashes \<Rightarrow> finding list" where
  "check_evaluation_alignment b c =
     (let ev = alignment_evidence (hashes b) (hashes c)
      in if counters_equal (hashes b) (hashes c) then [aligned_finding ev] else [misaligned_finding ev])"

lemma counters_equal_mset: "counters_equal b c \<longleftrightarrow> mset b = mset c"
proof
  assume e: "counters_equal b c"
  have "count_list b d = count_list c d" for d
    using e counter.keys_count [of d b] counter.keys_count [of d c]
    by (cases "d \<in> set (counter_keys b)") (auto simp: counters_equal_def list_all_iff)
  then show "mset b = mset c" using counter.same_counts [of b c] by simp
next
  assume m: "mset b = mset c"
  then have "set b = set c" by (metis set_mset_mset)
  then have "counter_keys b = counter_keys c"
    using counter.keys_sorted counter.keys_distinct
    by (metis counter_keys_def set_remdups set_sort sorted_distinct_set_unique)
  moreover have "count_list b = count_list c" using m counter.cnt_bag by metis
  ultimately show "counters_equal b c" by (simp add: counters_equal_def list_all_iff)
qed

subsection \<open>Rule tables\<close>

lemma dataset_rule_ids [simp]:
  "rule_id (exact_leakage_finding s) = ''DATASET.EXACT_LEAKAGE''"
  "rule_id (no_leakage_finding s) = ''DATASET.NO_LEAKAGE''"
  "rule_id (aligned_finding ev) = ''DATASET.EVALUATION_ALIGNED''"
  "rule_id (misaligned_finding ev) = ''DATASET.EVALUATION_MISMATCH''"
  and dataset_impacts [simp]:
  "impact (exact_leakage_finding s) = INVALIDATES"
  "impact (no_leakage_finding s) = NONE"
  "impact (aligned_finding ev) = NONE"
  "impact (misaligned_finding ev) = INVALIDATES"
  and dataset_coherent [simp]:
  "coherent (exact_leakage_finding s)" "coherent (no_leakage_finding s)"
  "coherent (aligned_finding ev)" "coherent (misaligned_finding ev)"
  by (simp_all add: exact_leakage_finding_def no_leakage_finding_def aligned_finding_def misaligned_finding_def
      coherent_def)

definition dataset_rules :: "string list" where
  "dataset_rules =
     [''DATASET.EXACT_LEAKAGE'', ''DATASET.NO_LEAKAGE'', ''DATASET.EVALUATION_ALIGNED'',
      ''DATASET.EVALUATION_MISMATCH'', ''DATASET.SCAN_INCOMPLETE'']"

interpretation leakage_check: rule_check
  "\<lambda>(e, t, v). snd (check_dataset_leakage e t v)" dataset_rules
  by unfold_locales (auto simp: check_dataset_leakage_def Let_def dataset_rules_def split: if_splits)

interpretation alignment_check: rule_check
  "\<lambda>(b, c). check_evaluation_alignment b c" dataset_rules
  by unfold_locales (auto simp: check_evaluation_alignment_def Let_def dataset_rules_def split: if_splits)

lemma positive_total: "0 < count_total ks f \<longleftrightarrow> positive_keys ks f \<noteq> []"
  by (induction ks) (auto simp: count_total_def positive_keys_def)

lemma leakage_outcome:
  "check_dataset_leakage experiment train eval = (s, fs) \<Longrightarrow>
     overlap_count s = size (mset (hashes train) \<inter># mset (hashes eval))
     \<and> overlapping_hashes s = sorted_list_of_set (set (hashes train) \<inter> set (hashes eval))
     \<and> determine_verdict fs = (if set (hashes train) \<inter> set (hashes eval) = {} then SUPPORTED else NOT_SUPPORTED)"
proof -
  assume c: "check_dataset_leakage experiment train eval = (s, fs)"
  let ?t = "hashes train" and ?e = "hashes eval"
  have s: "s = leakage_summary experiment ?t ?e"
    and fs: "fs = [if overlap_count s \<noteq> 0 then exact_leakage_finding s else no_leakage_finding s]"
    using c by (auto simp: check_dataset_leakage_def Let_def)
  have n: "overlap_count s = size (mset ?t \<inter># mset ?e)"
    using counter.overlap_size [of ?t ?e] by (simp add: s leakage_summary_def Let_def)
  moreover have "overlapping_hashes s = sorted_list_of_set (set ?t \<inter> set ?e)"
    using counter.overlap_keys [of ?t ?e] by (simp add: s leakage_summary_def Let_def)
  moreover have "overlap_count s = 0 \<longleftrightarrow> set ?t \<inter> set ?e = {}"
    unfolding n by (metis set_mset_eq_empty_iff set_mset_inter set_mset_mset size_eq_0_iff_empty)
  ultimately show ?thesis unfolding fs by (auto simp: determine_verdict_def)
qed

subsection \<open>Properties\<close>

text \<open>C8: leakage is decided on multisets of record hashes: the overlap count is the size of the
  intersection of the two multisets, the reported hashes are its elements in digest order, and the
  finding is critical exactly when some record hash occurs in both splits.\<close>

theorem leakage_multiset:
  "check_dataset_leakage experiment train eval = (s, fs) \<Longrightarrow>
     overlap_count s = size (mset (hashes train) \<inter># mset (hashes eval))
     \<and> overlapping_hashes s = sorted_list_of_set (set (hashes train) \<inter> set (hashes eval))
     \<and> determine_verdict fs = (if set (hashes train) \<inter> set (hashes eval) = {} then SUPPORTED else NOT_SUPPORTED)"
  by (rule leakage_outcome)

theorem leakage_multiset_witness:
  "overlap_count (leakage_summary ''baseline'' [''a'', ''b''] [''a'', ''c'']) = 1"
  using leakage_multiset [of "''baseline''" "\<lparr>ds_path = [], hashes = [''a'', ''b'']\<rparr>"
      "\<lparr>ds_path = [], hashes = [''a'', ''c'']\<rparr>"]
  by (simp add: check_dataset_leakage_def Let_def)

text \<open>C32: evaluation alignment is verified exactly when the two evaluation splits have the same
  multiset of record hashes, and every other pair is a critical mismatch.\<close>

theorem alignment_multiset:
  "check_evaluation_alignment b c =
     (if mset (hashes b) = mset (hashes c) then [aligned_finding (alignment_evidence (hashes b) (hashes c))]
      else [misaligned_finding (alignment_evidence (hashes b) (hashes c))])"
  by (simp add: check_evaluation_alignment_def Let_def counters_equal_mset)

text \<open>The canonical form of a sample, and so its hash, does not depend on the order of the keys
  of any mapping inside it.\<close>

lemma hash_ignores_key_order:
  assumes "key_normal v = key_normal w"
  shows "hash_sample sha v = hash_sample sha w"
  using json_dumps_normal [of json_escape v] json_dumps_normal [of json_escape w] assms
  by (simp add: hash_sample_def canonicalize_sample_def)

theorem hash_ignores_key_order_witness:
  "hash_sample (\<lambda>_. ''0'') (pdict [(''b'', PInt 1), (''a'', PNone)])
   = hash_sample (\<lambda>_. ''0'') (pdict [(''a'', PNone), (''b'', PInt 1)])"
  by (rule hash_ignores_key_order) code_simp

end
