(* ===== verification/Measurement.thy ===== *)
theory Measurement
  imports DatasetCheck ConfigCheck
begin

section \<open>Measurement protocols\<close>

text \<open>
  \<^verbatim>\<open>claimci/measurement.py\<close>: validated source bindings, snapshots and components with canonical
  identities, the recovery of a protocol from the audited configs, and the comparison of two
  protocols. The classes are final and validated when constructed: a constructor is a function
  \<open>mk_*\<close> to the record or to an error. SHA-256 is the parameter \<open>sha\<close>.
\<close>

subsection \<open>Enumerations\<close>

datatype component_kind =
    EVALUATOR_IMPLEMENTATION | METRIC | EVALUATION_DATASET | EVALUATION_CONFIG | PROMPT_TEMPLATE
  | DECODING_PARAMETERS | TEST_SELECTION | RETRY_AGGREGATION | NORMALIZATION_POSTPROCESSING
  | BENCHMARK_VERSION

datatype component_scope = MEASUREMENT_PROCEDURE | SYSTEM_UNDER_TEST | UNKNOWN_SCOPE

datatype coverage = RECOVERED | BYTE_ONLY | MISSING | NOT_APPLICABLE

datatype drift_state = DS_VERIFIED | DS_WARNING | DS_INSUFFICIENT | DS_INVALIDATES | NOT_ASSESSED

datatype reduction = ARITHMETIC_MEAN_V1 | REDUCTION_NOT_APPLICABLE

fun kind_value :: "component_kind \<Rightarrow> string" where
  "kind_value EVALUATOR_IMPLEMENTATION = ''evaluator_implementation''"
| "kind_value METRIC = ''metric''"
| "kind_value EVALUATION_DATASET = ''evaluation_dataset''"
| "kind_value EVALUATION_CONFIG = ''evaluation_config''"
| "kind_value PROMPT_TEMPLATE = ''prompt_template''"
| "kind_value DECODING_PARAMETERS = ''decoding_parameters''"
| "kind_value TEST_SELECTION = ''test_selection''"
| "kind_value RETRY_AGGREGATION = ''retry_aggregation''"
| "kind_value NORMALIZATION_POSTPROCESSING = ''normalization_postprocessing''"
| "kind_value BENCHMARK_VERSION = ''benchmark_version''"

definition all_kinds :: "component_kind list" where
  "all_kinds =
     [EVALUATOR_IMPLEMENTATION, METRIC, EVALUATION_DATASET, EVALUATION_CONFIG, PROMPT_TEMPLATE,
      DECODING_PARAMETERS, TEST_SELECTION, RETRY_AGGREGATION, NORMALIZATION_POSTPROCESSING,
      BENCHMARK_VERSION]"

fun scope_value :: "component_scope \<Rightarrow> string" where
  "scope_value MEASUREMENT_PROCEDURE = ''measurement_procedure''"
| "scope_value SYSTEM_UNDER_TEST = ''system_under_test''"
| "scope_value UNKNOWN_SCOPE = ''unknown''"

fun coverage_value :: "coverage \<Rightarrow> string" where
  "coverage_value RECOVERED = ''recovered''"
| "coverage_value BYTE_ONLY = ''byte_only''"
| "coverage_value MISSING = ''missing''"
| "coverage_value NOT_APPLICABLE = ''not_applicable''"

fun drift_value :: "drift_state \<Rightarrow> string" where
  "drift_value DS_VERIFIED = ''verified''"
| "drift_value DS_WARNING = ''warning''"
| "drift_value DS_INSUFFICIENT = ''insufficient''"
| "drift_value DS_INVALIDATES = ''invalidates''"
| "drift_value NOT_ASSESSED = ''not_assessed''"

fun reduction_value :: "reduction \<Rightarrow> string" where
  "reduction_value ARITHMETIC_MEAN_V1 = ''arithmetic_mean_v1''"
| "reduction_value REDUCTION_NOT_APPLICABLE = ''not_applicable''"

fun component_schema_id :: "component_kind \<Rightarrow> string" where
  "component_schema_id EVALUATOR_IMPLEMENTATION = ''claimci.measurement.evaluator.v1''"
| "component_schema_id METRIC = ''claimci.measurement.metric.v1''"
| "component_schema_id EVALUATION_DATASET = ''claimci.measurement.evaluation-dataset.v1''"
| "component_schema_id EVALUATION_CONFIG = ''claimci.measurement.evaluation-config.v1''"
| "component_schema_id PROMPT_TEMPLATE = ''claimci.measurement.prompt-template.v1''"
| "component_schema_id DECODING_PARAMETERS = ''claimci.measurement.decoding.v1''"
| "component_schema_id TEST_SELECTION = ''claimci.measurement.test-selection.v1''"
| "component_schema_id RETRY_AGGREGATION = ''claimci.measurement.retry-aggregation.v1''"
| "component_schema_id NORMALIZATION_POSTPROCESSING = ''claimci.measurement.normalization.v1''"
| "component_schema_id BENCHMARK_VERSION = ''claimci.measurement.benchmark.v1''"

lemma kind_value_inject [simp]: "kind_value a = kind_value b \<longleftrightarrow> a = b"
  by (cases a; cases b; simp)

lemma all_kinds_complete: "k \<in> set all_kinds"
  by (cases k) (simp_all add: all_kinds_def)

subsection \<open>Canonical text, identifiers and paths\<close>

definition mfail :: "string \<Rightarrow> py_error + 'a" where
  "mfail s = Inl (MeasurementContractError s)"

definition mensure :: "bool \<Rightarrow> string \<Rightarrow> unit checked" where
  "mensure b s = ensure b (MeasurementContractError s)"

definition bounded_text_ok :: "nat \<Rightarrow> bool \<Rightarrow> string \<Rightarrow> bool" where
  "bounded_text_ok maximum canonical s =
     (s \<noteq> [] \<and> length s \<le> maximum \<and> \<not> has_control s \<and> (canonical \<longrightarrow> s = py_strip s))"

definition bounded_text :: "nat \<Rightarrow> bool \<Rightarrow> string \<Rightarrow> string \<Rightarrow> unit checked" where
  "bounded_text maximum canonical label s =
     mensure (bounded_text_ok maximum canonical s) (label @ '' must be bounded canonical text'')"

definition is_alnum :: "char \<Rightarrow> bool" where
  "is_alnum c =
     (let n = char_code c in (48 \<le> n \<and> n \<le> 57) \<or> (65 \<le> n \<and> n \<le> 90) \<or> (97 \<le> n \<and> n \<le> 122))"

definition id_char :: "char \<Rightarrow> bool" where
  "id_char c = (is_alnum c \<or> c \<in> set ''._:/+-'')"

text \<open>The pattern \<^verbatim>\<open>_CANONICAL_ID\<close>.\<close>

definition canonical_id_pattern :: "string \<Rightarrow> bool" where
  "canonical_id_pattern s =
     (case s of [] \<Rightarrow> False | c # r \<Rightarrow> is_alnum c \<and> length r \<le> 255 \<and> list_all id_char r)"

definition canonical_id :: "string \<Rightarrow> string \<Rightarrow> unit checked" where
  "canonical_id label s =
     sbind (bounded_text 256 True label s) (\<lambda>_.
       mensure (canonical_id_pattern s) (label @ '' must be a canonical identifier''))"

definition is_lower_hex :: "char \<Rightarrow> bool" where
  "is_lower_hex c = (let n = char_code c in (48 \<le> n \<and> n \<le> 57) \<or> (97 \<le> n \<and> n \<le> 102))"

definition sha256_pattern :: "string \<Rightarrow> bool" where
  "sha256_pattern s = (length s = 64 \<and> list_all is_lower_hex s)"

text \<open>\<^verbatim>\<open>_GIT_SHA\<close>: 40 or 64 hexadecimal digits, not all zero.\<close>

definition git_sha_pattern :: "string \<Rightarrow> bool" where
  "git_sha_pattern s =
     ((length s = 40 \<or> length s = 64) \<and> list_all is_lower_hex s \<and> \<not> list_all (\<lambda>c. c = CHR ''0'') s)"

definition reserved_basenames :: "string list" where
  "reserved_basenames =
     [''CON'', ''PRN'', ''AUX'', ''NUL'', ''CONIN$'', ''CONOUT$'']
     @ map (\<lambda>n. ''COM'' @ [chr_of n]) ([49..<58] @ [185, 178, 179])
     @ map (\<lambda>n. ''LPT'' @ [chr_of n]) ([49..<58] @ [185, 178, 179])"

definition forbidden_path_char :: "char \<Rightarrow> bool" where
  "forbidden_path_char c = (c \<in> set ''<>:|?*'' \<or> c = dquote)"

definition path_part_ok :: "string \<Rightarrow> bool" where
  "path_part_ok p =
     (p \<noteq> [] \<and> p \<noteq> ''.'' \<and> p \<noteq> ''..'' \<and> p = py_strip p \<and> \<not> ends_with ''.'' p
      \<and> py_upper (hd (split_on (CHR ''.'') p)) \<notin> set reserved_basenames)"

text \<open>
  A Windows drive needs a colon or two leading slashes, both refused by the other conditions; the
  last condition of the code, that the path is its own POSIX normal form, is the absence of empty
  and dot parts.
\<close>

definition repository_path_ok :: "string \<Rightarrow> bool" where
  "repository_path_ok s =
     (bslash \<notin> set s \<and> \<not> starts_with ''/'' s \<and> list_all path_part_ok (split_on (CHR ''/'') s)
      \<and> \<not> list_ex forbidden_path_char s)"

definition repository_path :: "string \<Rightarrow> unit checked" where
  "repository_path s =
     sbind (bounded_text 1024 True ''measurement source path'' s) (\<lambda>_.
       mensure (repository_path_ok s) ''measurement source path must be portable and repository-relative'')"

definition json_scalar :: "string \<Rightarrow> pyval \<Rightarrow> unit checked" where
  "json_scalar label v =
     (case v of
        PStr s \<Rightarrow> bounded_text 4096 False label s
      | PBool b \<Rightarrow> Inr ()
      | PInt i \<Rightarrow> mensure (ndigits (nat \<bar>i\<bar>) \<le> max_str_digits) (label @ '' integer is not JSON-safe'')
      | PFloat x \<Rightarrow> mensure (isfinite x) (label @ '' must be a finite JSON scalar'')
      | _ \<Rightarrow> mfail (label @ '' must be a finite JSON scalar''))"

subsection \<open>Canonical identities\<close>

definition canonical_bytes :: "pyval \<Rightarrow> nat list" where
  "canonical_bytes v = (case json_dumps json_escape_ascii v of Inl _ \<Rightarrow> [] | Inr t \<Rightarrow> utf8 t)"

definition digest :: "(nat list \<Rightarrow> string) \<Rightarrow> string \<Rightarrow> pyval \<Rightarrow> string" where
  "digest sha prefix v = prefix @ ''-'' @ sha (canonical_bytes v)"

record semantic_field =
  sf_key :: string
  sf_value :: pyval

definition mk_field :: "string \<Rightarrow> pyval \<Rightarrow> semantic_field checked" where
  "mk_field key v =
     sbind (canonical_id ''measurement semantic field key'' key) (\<lambda>_.
     sbind (json_scalar ''measurement semantic field value'' v) (\<lambda>_.
       Inr \<lparr>sf_key = key, sf_value = v\<rparr>))"

record source_selector =
  target_field :: string
  sel_kind :: string
  sel_expression :: string

definition mk_selector :: "string \<Rightarrow> string \<Rightarrow> string \<Rightarrow> source_selector checked" where
  "mk_selector target kind expression =
     sbind (canonical_id ''measurement selector target'' target) (\<lambda>_.
     sbind (canonical_id ''measurement selector kind'' kind) (\<lambda>_.
     sbind (bounded_text 1024 True ''measurement selector expression'' expression) (\<lambda>_.
       Inr \<lparr>target_field = target, sel_kind = kind, sel_expression = expression\<rparr>)))"

record source_binding =
  sb_path :: string
  sb_kind :: string
  sb_sha256 :: string
  sb_size :: int
  sb_adapter_id :: string
  sb_adapter_version :: "string option"
  sb_selectors :: "source_selector list"
  sb_role :: string
  sb_split :: "string option"
  binding_id :: string

definition source_kinds :: "string list" where
  "source_kinds =
     [''results'', ''config'', ''dataset'', ''benchmark'', ''document'', ''source'', ''test'', ''manifest'']"

definition source_roles :: "string list" where
  "source_roles = [''baseline'', ''candidate'', ''reference'', ''unspecified'']"

definition source_splits :: "string list" where
  "source_splits = [''train'', ''eval'']"

definition selector_key :: "source_selector \<Rightarrow> string list" where
  "selector_key s = [target_field s, sel_kind s, sel_expression s]"

definition selector_material :: "source_selector \<Rightarrow> pyval" where
  "selector_material s =
     pdict [(''target_field'', PStr (target_field s)), (''kind'', PStr (sel_kind s)),
            (''expression'', PStr (sel_expression s))]"

definition binding_material :: "source_binding \<Rightarrow> pyval" where
  "binding_material b =
     pdict [(''path'', PStr (sb_path b)), (''kind'', PStr (sb_kind b)), (''sha256'', PStr (sb_sha256 b)),
            (''size'', PInt (sb_size b)), (''adapter_id'', PStr (sb_adapter_id b)),
            (''adapter_version'', opt_str (sb_adapter_version b)),
            (''selectors'', PList (map selector_material (sb_selectors b))),
            (''role'', PStr (sb_role b)), (''split'', opt_str (sb_split b))]"

text \<open>
  \<open>MeasurementSourceBinding\<close>: the fields of the argument are checked in the order of the code,
  the selectors are put in canonical order, and the identity is the digest of the material.
\<close>

definition mk_binding :: "(nat list \<Rightarrow> string) \<Rightarrow> source_binding \<Rightarrow> source_binding checked" where
  "mk_binding sha b =
     sbind (repository_path (sb_path b)) (\<lambda>_.
     sbind (mensure (sb_kind b \<in> set source_kinds) ''measurement source kind is unsupported'') (\<lambda>_.
     sbind (mensure (sha256_pattern (sb_sha256 b)) ''measurement source SHA-256 is invalid'') (\<lambda>_.
     sbind (mensure (0 \<le> sb_size b \<and> sb_size b \<le> 2 ^ 63 - 1) ''measurement source size is invalid'') (\<lambda>_.
     sbind (canonical_id ''measurement adapter_id'' (sb_adapter_id b)) (\<lambda>_.
     sbind (case sb_adapter_version b of None \<Rightarrow> Inr () | Some v \<Rightarrow> canonical_id ''measurement adapter version'' v) (\<lambda>_.
     sbind (mensure (length (sb_selectors b) \<le> 32) ''measurement selectors exceed their bound'') (\<lambda>_.
     (let ordered = sort_key selector_key (sb_selectors b)
      in sbind (mensure (distinct ordered) ''measurement selectors must be unique'') (\<lambda>_.
         sbind (mensure (sb_role b \<in> set source_roles) ''measurement source role is invalid'') (\<lambda>_.
         sbind (mensure (case sb_split b of None \<Rightarrow> True | Some s \<Rightarrow> s \<in> set source_splits)
                  ''measurement source split is invalid'') (\<lambda>_.
         sbind (mensure (\<not> (sb_kind b = ''dataset'' \<and> sb_split b = None \<and> sb_role b \<noteq> ''reference''))
                  ''measurement dataset bindings require an exact split'') (\<lambda>_.
         sbind (mensure (\<not> (sb_kind b \<noteq> ''dataset'' \<and> sb_split b \<noteq> None))
                  ''only measurement dataset bindings may carry a split'') (\<lambda>_.
           (let b' = b\<lparr>sb_selectors := ordered\<rparr>
            in Inr (b'\<lparr>binding_id := digest sha ''measurement-binding'' (binding_material b')\<rparr>)))))))))))))))"

record source_snapshot =
  source_snapshot_id :: string
  repository_id :: string
  head_sha :: string
  bindings :: "source_binding list"

definition mk_snapshot ::
  "(nat list \<Rightarrow> string) \<Rightarrow> string \<Rightarrow> string \<Rightarrow> source_binding list \<Rightarrow> source_snapshot checked" where
  "mk_snapshot sha repo head bs =
     sbind (bounded_text 512 True ''measurement repository identity'' repo) (\<lambda>_.
     sbind (mensure (git_sha_pattern head) ''measurement head SHA is invalid'') (\<lambda>_.
     sbind (mensure (bs \<noteq> [] \<and> length bs \<le> 16) ''measurement source bindings exceed their bound'') (\<lambda>_.
     (let ordered = sort_key binding_id bs
      in sbind (mensure (distinct (map binding_id ordered)) ''measurement source bindings must be unique'') (\<lambda>_.
           Inr \<lparr>source_snapshot_id = digest sha ''measurement-source''
                  (pdict [(''repository_id'', PStr repo), (''head_sha'', PStr head),
                          (''bindings'', str_list (map binding_id ordered))]),
                repository_id = repo, head_sha = head, bindings = ordered\<rparr>)))))"

subsection \<open>Protocol components\<close>

record protocol_component =
  pc_kind :: component_kind
  pc_scope :: component_scope
  pc_coverage :: coverage
  pc_schema_id :: string
  semantic_fields :: "semantic_field list"
  source_binding_ids :: "string list"
  semantic_component_id :: string

definition field_material :: "semantic_field \<Rightarrow> pyval" where
  "field_material f = pdict [(''key'', PStr (sf_key f)), (''value'', sf_value f)]"

definition component_material :: "protocol_component \<Rightarrow> pyval" where
  "component_material c =
     pdict [(''kind'', PStr (kind_value (pc_kind c))), (''scope'', PStr (scope_value (pc_scope c))),
            (''coverage'', PStr (coverage_value (pc_coverage c))), (''schema_id'', PStr (pc_schema_id c)),
            (''semantic_fields'', PList (map field_material (semantic_fields c)))]"

fun check_ids :: "string \<Rightarrow> string list \<Rightarrow> unit checked" where
  "check_ids label [] = Inr ()"
| "check_ids label (i # is) = sbind (canonical_id label i) (\<lambda>_. check_ids label is)"

definition mk_component ::
  "(nat list \<Rightarrow> string) \<Rightarrow> component_kind \<Rightarrow> component_scope \<Rightarrow> coverage \<Rightarrow> string \<Rightarrow> semantic_field list
    \<Rightarrow> string list \<Rightarrow> protocol_component checked" where
  "mk_component sha kind scope cov schema fs ids =
     sbind (canonical_id ''measurement component schema_id'' schema) (\<lambda>_.
     sbind (mensure (scope = MEASUREMENT_PROCEDURE)
              ''v1 measurement component scope must come from the fixed policy'') (\<lambda>_.
     sbind (mensure (schema = component_schema_id kind)
              ''measurement component schema must match the fixed v1 policy'') (\<lambda>_.
     sbind (mensure (length fs \<le> 32) ''measurement semantic fields exceed their bound'') (\<lambda>_.
     (let ofields = sort_key sf_key fs
      in sbind (mensure (distinct (map sf_key ofields)) ''measurement semantic field keys must be unique'') (\<lambda>_.
         sbind (mensure (length ids \<le> 16) ''measurement source references exceed their bound'') (\<lambda>_.
         sbind (check_ids ''measurement source binding_id'' ids) (\<lambda>_.
         (let oids = sort ids
          in sbind (mensure (distinct oids) ''measurement source references must be unique'') (\<lambda>_.
             sbind (mensure (\<not> (cov = RECOVERED \<and> ofields = []))
                      ''recovered measurement component needs semantic fields'') (\<lambda>_.
             sbind (mensure (\<not> (cov \<noteq> RECOVERED \<and> ofields \<noteq> []))
                      ''unrecovered measurement component cannot assert semantic fields'') (\<lambda>_.
             sbind (mensure (\<not> (cov = BYTE_ONLY \<and> oids = []))
                      ''byte-only component requires exact source identity'') (\<lambda>_.
               (let c = \<lparr>pc_kind = kind, pc_scope = scope, pc_coverage = cov, pc_schema_id = schema,
                         semantic_fields = ofields, source_binding_ids = oids, semantic_component_id = []\<rparr>
                in Inr (c\<lparr>semantic_component_id :=
                            digest sha ''measurement-component'' (component_material c)\<rparr>)))))))))))))))"

record protocol_identity =
  semantic_protocol_id :: string
  pi_source_snapshot_id :: string
  pi_policy_id :: string
  components :: "protocol_component list"

definition protocol_material :: "string \<Rightarrow> protocol_component list \<Rightarrow> pyval" where
  "protocol_material policy cs =
     pdict [(''domain'', PStr ''claimci.measurement-protocol''), (''schema_version'', PStr ''v1''),
            (''policy_id'', PStr policy),
            (''components'', PList (map (\<lambda>c. pdict [(''kind'', PStr (kind_value (pc_kind c))),
                (''semantic_component_id'', PStr (semantic_component_id c))]) cs))]"

definition mk_protocol ::
  "(nat list \<Rightarrow> string) \<Rightarrow> string \<Rightarrow> source_snapshot \<Rightarrow> protocol_component list \<Rightarrow> protocol_identity checked" where
  "mk_protocol sha policy source cs =
     sbind (canonical_id ''measurement policy_id'' policy) (\<lambda>_.
     sbind (mensure (cs \<noteq> [] \<and> length cs \<le> length all_kinds) ''measurement components exceed their bound'') (\<lambda>_.
     (let ordered = sort_key (\<lambda>c. kind_value (pc_kind c)) cs
      in sbind (mensure (distinct (map pc_kind ordered)) ''measurement component kinds must be unique'') (\<lambda>_.
         sbind (mensure (list_all (\<lambda>c. list_all (\<lambda>i. i \<in> set (map binding_id (bindings source)))
                                        (source_binding_ids c)) ordered)
                  ''measurement component references an unissued source binding'') (\<lambda>_.
           Inr \<lparr>semantic_protocol_id = digest sha ''measurement-semantic'' (protocol_material policy ordered),
                pi_source_snapshot_id = source_snapshot_id source, pi_policy_id = policy,
                components = ordered\<rparr>)))))"

type_synonym protocol_pair = "protocol_identity \<times> protocol_identity"

definition mk_pair :: "protocol_identity \<Rightarrow> protocol_identity \<Rightarrow> protocol_pair checked" where
  "mk_pair b c =
     sbind (mensure (pi_policy_id b = pi_policy_id c) ''measurement protocol policies must match'') (\<lambda>_. Inr (b, c))"

record measurement_context =
  baseline_source :: source_snapshot
  candidate_source :: source_snapshot
  mc_policy_id :: string

definition mk_measurement_context ::
  "source_snapshot \<Rightarrow> source_snapshot \<Rightarrow> string \<Rightarrow> measurement_context checked" where
  "mk_measurement_context b c policy =
     sbind (canonical_id ''measurement Audit policy_id'' policy) (\<lambda>_.
     sbind (mensure (repository_id b = repository_id c \<and> head_sha b = head_sha c)
              ''measurement Audit source snapshots must share repository and head'') (\<lambda>_.
     sbind (mensure (list_all (\<lambda>s. sb_role s = ''baseline'' \<or> sb_role s = ''reference'') (bindings b)
                     \<and> list_all (\<lambda>s. sb_role s = ''candidate'' \<or> sb_role s = ''reference'') (bindings c))
              ''measurement Audit source snapshots must preserve exact experiment roles'') (\<lambda>_.
       Inr \<lparr>baseline_source = b, candidate_source = c, mc_policy_id = policy\<rparr>)))"

subsection \<open>Recovering a protocol\<close>

text \<open>
  \<open>_flatten_evaluation\<close>: an explicit stack, the top first. Items of a mapping are pushed in
  order, so the last one is visited first; a key that is met again is overwritten. The node count
  bounds the loop.
\<close>

definition str_of_key :: "pyval \<Rightarrow> string" where
  "str_of_key k =
     (case k of
        PStr s \<Rightarrow> s
      | PNone \<Rightarrow> ''None''
      | PBool b \<Rightarrow> if b then ''True'' else ''False''
      | PInt i \<Rightarrow> show_int i
      | PFloat x \<Rightarrow> flt_repr x
      | POther s \<Rightarrow> s
      | _ \<Rightarrow> [])"

fun child_items :: "string \<Rightarrow> nat \<Rightarrow> (pyval \<times> pyval) list \<Rightarrow> (string \<times> pyval \<times> nat) list option" where
  "child_items key depth [] = Some []"
| "child_items key depth ((k, v) # d) =
     (case k of
        PStr s \<Rightarrow>
          (if s = [] then None
           else map_option (\<lambda>r. (key @ ''.'' @ s, v, Suc depth) # r) (child_items key depth d))
      | _ \<Rightarrow> None)"

function flatten_loop ::
  "nat \<Rightarrow> (string \<times> pyval) list \<Rightarrow> (string \<times> pyval \<times> nat) list \<Rightarrow> (string \<times> pyval) list option" where
  "flatten_loop nodes acc [] = Some acc"
| "flatten_loop nodes acc ((key, v, depth) # stack) =
     (if 256 < Suc nodes \<or> 8 < depth then None
      else if key = [] \<or> 256 < length key then None
      else case v of
             PDict d \<Rightarrow>
               (case child_items key depth d of
                  None \<Rightarrow> None
                | Some items \<Rightarrow> flatten_loop (Suc nodes) acc (rev items @ stack))
           | _ \<Rightarrow>
               (case json_scalar ''recovered measurement value'' v of
                  Inl _ \<Rightarrow> None
                | Inr _ \<Rightarrow> flatten_loop (Suc nodes) (al_set key v acc) stack))"
  by pat_completeness auto
termination
  by (relation "measures [\<lambda>(nodes, _, stack). 257 - nodes, \<lambda>(_, _, stack). length stack]") auto

definition flatten_evaluation :: "config option \<Rightarrow> (string \<times> pyval) list option" where
  "flatten_evaluation c =
     (case c of
        None \<Rightarrow> None
      | Some d \<Rightarrow>
          (case dget d ''evaluation'' of
             Some (PDict e) \<Rightarrow>
               map_option (sort_key fst)
                 (flatten_loop 0 [] (rev (map (\<lambda>(k, v). (str_of_key k, v, 1)) e)))
           | _ \<Rightarrow> None))"

definition fields_of :: "(string \<times> pyval) list \<Rightarrow> semantic_field list option" where
  "fields_of vs =
     (if 32 < length vs then None
      else case smap (\<lambda>(k, v). mk_field k v) (sort_key fst vs) of
             Inl _ \<Rightarrow> None | Inr fs \<Rightarrow> Some fs)"

definition binding_ids :: "source_snapshot \<Rightarrow> string list \<Rightarrow> string option \<Rightarrow> string list" where
  "binding_ids source kinds split =
     map binding_id
       (filter (\<lambda>b. sb_kind b \<in> set kinds \<and> (split = None \<or> sb_split b = split)) (bindings source))"

definition component_from_values ::
  "(nat list \<Rightarrow> string) \<Rightarrow> component_kind \<Rightarrow> string \<Rightarrow> (string \<times> pyval) list option \<Rightarrow> string list \<Rightarrow> bool
    \<Rightarrow> protocol_component checked" where
  "component_from_values sha kind schema vs ids required =
     (let fds = (case vs of None \<Rightarrow> [] | Some v \<Rightarrow> (case fields_of v of None \<Rightarrow> [] | Some fs \<Rightarrow> fs));
          cov = (if fds \<noteq> [] then RECOVERED else if required then MISSING else NOT_APPLICABLE)
      in mk_component sha kind MEASUREMENT_PROCEDURE cov schema fds
           (if cov \<noteq> NOT_APPLICABLE then ids else []))"

text \<open>The commitment to the multiset of evaluation records.\<close>

record multiset_identity =
  mi_record_count :: int
  canonical_sha256 :: string

definition count_material :: "string list \<Rightarrow> (string \<Rightarrow> nat) \<Rightarrow> pyval" where
  "count_material ks f = PList (map (\<lambda>d. pdict [(''sha256'', PStr d), (''count'', pnat (f d))]) ks)"

definition counter_commitment :: "(nat list \<Rightarrow> string) \<Rightarrow> string list \<Rightarrow> string" where
  "counter_commitment sha hs = sha (canonical_bytes (count_material (counter_keys hs) (count_list hs)))"

definition declared_value_ok :: "pyval \<Rightarrow> bool" where
  "declared_value_ok v =
     (case v of PStr s \<Rightarrow> \<not> is_blank s | PInt _ \<Rightarrow> True | PFloat _ \<Rightarrow> True | _ \<Rightarrow> False)"

definition alist_get :: "(string \<times> pyval) list \<Rightarrow> string \<Rightarrow> pyval" where
  "alist_get d k = (case map_of d k of Some v \<Rightarrow> v | None \<Rightarrow> PNone)"

definition dataset_values ::
  "(nat list \<Rightarrow> string) \<Rightarrow> (string \<times> pyval) list option \<Rightarrow> string list option \<Rightarrow> multiset_identity option
    \<Rightarrow> (string \<times> pyval) list option checked" where
  "dataset_values sha evaluation hs identity =
     (case evaluation of
        None \<Rightarrow> Inr None
      | Some e \<Rightarrow>
          (if hs = None \<and> identity = None then Inr None
           else
             (let di = alist_get e ''dataset_identifier''; dv = alist_get e ''dataset_version'';
                  sp = alist_get e ''split'';
                  out = (\<lambda>n c. Some [(''declared_identifier'', di), (''declared_version'', dv),
                                     (''declared_split'', sp), (''record_count'', PInt n),
                                     (''record_multiset_sha256'', PStr c)])
              in if \<not> (declared_value_ok di \<and> declared_value_ok dv \<and> declared_value_ok sp) then Inr None
                 else case (identity, hs) of
                        (Some i, None) \<Rightarrow> Inr (out (mi_record_count i) (canonical_sha256 i))
                      | (Some i, Some _) \<Rightarrow>
                          Inl (TypeError ''measurement dataset identity must be complete and unambiguous'')
                      | (None, Some h) \<Rightarrow>
                          (if h = [] \<or> \<not> list_all sha256_pattern h then Inr None
                           else Inr (out (int (length h)) (counter_commitment sha h)))
                      | (None, None) \<Rightarrow> Inr None)))"

definition under_prefix :: "string \<Rightarrow> (string \<times> pyval) list \<Rightarrow> (string \<times> pyval) list" where
  "under_prefix p vs = map (\<lambda>(k, v). (p @ k, v)) vs"

definition optional_values :: "string list \<Rightarrow> (string \<times> pyval) list option \<Rightarrow> (string \<times> pyval) list option" where
  "optional_values tokens evaluation =
     (case evaluation of
        None \<Rightarrow> None
      | Some e \<Rightarrow>
          (let sel = filter (\<lambda>(k, v). list_ex (\<lambda>t. k = t \<or> starts_with (t @ ''.'') k) tokens) e
           in if sel = [] then None else Some (under_prefix ''evaluation.'' sel)))"

definition metric_values :: "string \<Rightarrow> (string \<times> pyval) list option \<Rightarrow> (string \<times> pyval) list" where
  "metric_values metric evaluation =
     (''name'', PStr metric) #
     (case evaluation of
        None \<Rightarrow> []
      | Some e \<Rightarrow>
          under_prefix ''evaluation.''
            (filter (\<lambda>(k, v). k \<in> {''metric'', ''metric_name'', ''metric_definition'', ''metric_version''}
                              \<or> starts_with ''metric_config.'' k) e))"

definition optional_components :: "(component_kind \<times> string list) list" where
  "optional_components =
     [(EVALUATOR_IMPLEMENTATION, [''evaluator'', ''scorer'']),
      (PROMPT_TEMPLATE, [''prompt'', ''prompt_template'', ''template'']),
      (DECODING_PARAMETERS, [''decoding'', ''sampling'']),
      (TEST_SELECTION, [''test_selection'', ''selection'', ''subset'', ''filter'']),
      (RETRY_AGGREGATION, [''aggregation'', ''aggregation_procedure'', ''retry'', ''adjudication'']),
      (NORMALIZATION_POSTPROCESSING, [''normalization'', ''postprocessing'', ''postprocess'']),
      (BENCHMARK_VERSION, [''benchmark''])]"

definition recover_protocol ::
  "(nat list \<Rightarrow> string) \<Rightarrow> string \<Rightarrow> source_snapshot \<Rightarrow> string \<Rightarrow> config option \<Rightarrow> string list option
    \<Rightarrow> multiset_identity option \<Rightarrow> protocol_identity checked" where
  "recover_protocol sha policy source metric config hs identity =
     sbind (bounded_text 256 True ''measurement metric'' metric) (\<lambda>_.
     (let evaluation = flatten_evaluation config;
          config_ids = binding_ids source [''config''] None;
          result_ids = binding_ids source [''results''] None;
          eval_ids = binding_ids source [''dataset''] (Some ''eval'')
      in sbind (component_from_values sha METRIC ''claimci.measurement.metric.v1''
                  (Some (metric_values metric evaluation)) (sort (result_ids @ config_ids)) True) (\<lambda>m.
         sbind (dataset_values sha evaluation hs identity) (\<lambda>dvs.
         sbind (component_from_values sha EVALUATION_DATASET ''claimci.measurement.evaluation-dataset.v1''
                  dvs (sort (config_ids @ eval_ids)) True) (\<lambda>d.
         sbind (component_from_values sha EVALUATION_CONFIG ''claimci.measurement.evaluation-config.v1''
                  (map_option (under_prefix ''evaluation.'') evaluation) config_ids True) (\<lambda>c.
         sbind (smap (\<lambda>(kind, tokens). component_from_values sha kind (component_schema_id kind)
                        (optional_values tokens evaluation) config_ids False) optional_components) (\<lambda>os.
           mk_protocol sha policy source ([m, d, c] @ os))))))))"

definition recover_measurement_protocol_pair ::
  "(nat list \<Rightarrow> string) \<Rightarrow> measurement_context \<Rightarrow> string \<Rightarrow> config option \<Rightarrow> config option
    \<Rightarrow> string list option \<Rightarrow> string list option \<Rightarrow> multiset_identity option \<Rightarrow> multiset_identity option
    \<Rightarrow> protocol_pair checked" where
  "recover_measurement_protocol_pair sha ctx metric bconfig cconfig bhs chs bid cid =
     sbind (recover_protocol sha (mc_policy_id ctx) (baseline_source ctx) metric bconfig bhs bid) (\<lambda>b.
     sbind (recover_protocol sha (mc_policy_id ctx) (candidate_source ctx) metric cconfig chs cid) (\<lambda>c.
       mk_pair b c))"

text \<open>The protocol of a benchmark, from fixed component fields of the evidence.\<close>

fun benchmark_spec :: "component_kind \<Rightarrow> (string \<times> bool) option" where
  "benchmark_spec METRIC = Some (''measurement.metric_identity'', True)"
| "benchmark_spec EVALUATION_DATASET = Some (''benchmark.workload'', True)"
| "benchmark_spec EVALUATION_CONFIG = Some (''benchmark.measurement_config'', True)"
| "benchmark_spec EVALUATOR_IMPLEMENTATION = Some (''benchmark.evaluator'', False)"
| "benchmark_spec RETRY_AGGREGATION = Some (''benchmark.run_protocol'', True)"
| "benchmark_spec BENCHMARK_VERSION = Some (''benchmark.environment'', False)"
| "benchmark_spec _ = None"

type_synonym component_values = "(string \<times> (string \<times> pyval) list) list"

definition with_metric_name :: "string \<Rightarrow> (string \<times> pyval) list option \<Rightarrow> (string \<times> pyval) list" where
  "with_metric_name metric vs =
     foldl (\<lambda>d (k, v). al_set k v d) [(''name'', PStr metric)] (case vs of None \<Rightarrow> [] | Some v \<Rightarrow> v)"

definition represented_values ::
  "string \<Rightarrow> component_values \<Rightarrow> component_kind \<Rightarrow> (string \<times> pyval) list option \<times> bool" where
  "represented_values metric cs kind =
     (case benchmark_spec kind of
        None \<Rightarrow> (None, False)
      | Some (key, required) \<Rightarrow>
          (if kind = METRIC then (Some (with_metric_name metric (map_of cs key)), required)
           else (map_of cs key, required)))"

definition recover_benchmark_protocol ::
  "(nat list \<Rightarrow> string) \<Rightarrow> string \<Rightarrow> source_snapshot \<Rightarrow> string \<Rightarrow> component_values \<Rightarrow> protocol_identity checked" where
  "recover_benchmark_protocol sha policy source metric cs =
     sbind (bounded_text 256 True ''measurement metric'' metric) (\<lambda>_.
     sbind (smap (\<lambda>kind. (case represented_values metric cs kind of (vs, required) \<Rightarrow>
                    component_from_values sha kind (component_schema_id kind) vs
                      (map binding_id (bindings source)) required)) all_kinds) (\<lambda>os.
       mk_protocol sha policy source os))"

definition recover_benchmark_measurement_protocol_pair ::
  "(nat list \<Rightarrow> string) \<Rightarrow> measurement_context \<Rightarrow> string \<Rightarrow> string \<Rightarrow> component_values \<Rightarrow> component_values
    \<Rightarrow> protocol_pair checked" where
  "recover_benchmark_measurement_protocol_pair sha ctx bmetric cmetric bcs ccs =
     sbind (recover_benchmark_protocol sha (mc_policy_id ctx) (baseline_source ctx) bmetric bcs) (\<lambda>b.
     sbind (recover_benchmark_protocol sha (mc_policy_id ctx) (candidate_source ctx) cmetric ccs) (\<lambda>c.
       mk_pair b c))"

subsection \<open>Comparing two protocols\<close>

record drift_finding =
  df_kind :: component_kind
  df_state :: drift_state
  reason_code :: string
  baseline_component_id :: "string option"
  candidate_component_id :: "string option"
  native_rule_ids :: "string list"

definition opt_canonical :: "string \<Rightarrow> string option \<Rightarrow> unit checked" where
  "opt_canonical label v = (case v of None \<Rightarrow> Inr () | Some s \<Rightarrow> canonical_id label s)"

definition mk_drift_finding :: "drift_finding \<Rightarrow> drift_finding checked" where
  "mk_drift_finding f =
     sbind (canonical_id ''measurement drift reason_code'' (reason_code f)) (\<lambda>_.
     sbind (opt_canonical ''measurement component identity'' (baseline_component_id f)) (\<lambda>_.
     sbind (opt_canonical ''measurement component identity'' (candidate_component_id f)) (\<lambda>_.
     sbind (mensure (length (native_rule_ids f) \<le> 8) ''measurement native rule references exceed bound'') (\<lambda>_.
     sbind (check_ids ''measurement native rule_id'' (native_rule_ids f)) (\<lambda>_.
     sbind (mensure (distinct (native_rule_ids f)) ''measurement native rule IDs must be unique'') (\<lambda>_.
       Inr f))))))"

record drift_report =
  dr_state :: drift_state
  baseline_protocol_id :: string
  candidate_protocol_id :: string
  baseline_snapshot_id :: string
  candidate_snapshot_id :: string
  dr_findings :: "drift_finding list"
  verification_reduction :: reduction

definition mk_drift_report :: "drift_report \<Rightarrow> drift_report checked" where
  "mk_drift_report r =
     sbind (check_ids ''measurement report identity''
              [baseline_protocol_id r, candidate_protocol_id r, baseline_snapshot_id r, candidate_snapshot_id r]) (\<lambda>_.
     sbind (mensure (length (dr_findings r) \<le> length all_kinds) ''measurement drift findings exceed bound'') (\<lambda>_.
       Inr r))"

text \<open>The native rules that explain missing evidence, and those that make a difference invalidate.\<close>

definition missing_evidence_rule :: "string \<Rightarrow> bool" where
  "missing_evidence_rule r =
     (r = ''CONFIG.MISSING_FIELDS'' \<or> r = ''BENCHMARK.PROCEDURE_INSUFFICIENT''
      \<or> starts_with ''DATASET.MISSING'' r \<or> starts_with ''DATASET.INVALID'' r)"

fun mismatch_rules :: "component_kind \<Rightarrow> string list" where
  "mismatch_rules EVALUATION_DATASET =
     [''DATASET.EVALUATION_MISMATCH'', ''CONFIG.EVALUATION_MISMATCH'', ''BENCHMARK.WORKLOAD_MISMATCH'']"
| "mismatch_rules METRIC = [''CONFIG.EVALUATION_MISMATCH'', ''BENCHMARK.METRIC_MISMATCH'']"
| "mismatch_rules _ = [''CONFIG.EVALUATION_MISMATCH'', ''BENCHMARK.CONFIG_MISMATCH'']"

definition selected_rules :: "(string \<Rightarrow> bool) \<Rightarrow> string list \<Rightarrow> string list" where
  "selected_rules p rules = sort (remdups (filter p rules))"

text \<open>The state, the reason and the native rules of one component; \<open>rules\<close> is the set of native
  rule identifiers, as a list.\<close>

definition component_outcome ::
  "component_kind \<Rightarrow> protocol_component option \<Rightarrow> protocol_component option \<Rightarrow> string list
    \<Rightarrow> drift_state \<times> string \<times> string list" where
  "component_outcome kind b c rules =
     (case (b, c) of
        (Some x, Some y) \<Rightarrow>
          (if pc_coverage x = NOT_APPLICABLE \<and> pc_coverage y = NOT_APPLICABLE
           then (NOT_ASSESSED, ''optional_component_not_represented'', [])
           else if pc_coverage x = MISSING \<or> pc_coverage y = MISSING
           then (DS_INSUFFICIENT, ''required_component_not_recovered'', selected_rules missing_evidence_rule rules)
           else if pc_coverage x = BYTE_ONLY \<or> pc_coverage y = BYTE_ONLY
           then (if source_binding_ids x \<noteq> source_binding_ids y
                 then (DS_WARNING, ''source_snapshot_changed_without_semantic_recovery'', [])
                 else (NOT_ASSESSED, ''byte_identity_only'', []))
           else if semantic_component_id x = semantic_component_id y
           then (DS_VERIFIED, ''recovered_semantics_match'', [])
           else
             (let invalidating = selected_rules (\<lambda>r. r \<in> set (mismatch_rules kind)) rules
              in if invalidating \<noteq> [] then (DS_INVALIDATES, ''recovered_measurement_semantics_differ'', invalidating)
                 else (DS_INSUFFICIENT, ''semantic_difference_has_no_native_comparison'',
                       selected_rules missing_evidence_rule rules)))
      | _ \<Rightarrow> (DS_INSUFFICIENT, ''component_identity_missing'', []))"

definition component_state ::
  "component_kind \<Rightarrow> protocol_component option \<Rightarrow> protocol_component option \<Rightarrow> string list
    \<Rightarrow> drift_finding checked" where
  "component_state kind b c rules =
     (case component_outcome kind b c rules of
        (st, reason, ids) \<Rightarrow>
          mk_drift_finding
            \<lparr>df_kind = kind, df_state = st, reason_code = reason,
             baseline_component_id = map_option semantic_component_id b,
             candidate_component_id = map_option semantic_component_id c, native_rule_ids = ids\<rparr>)"

definition component_of :: "protocol_identity \<Rightarrow> component_kind \<Rightarrow> protocol_component option" where
  "component_of p kind = find (\<lambda>c. pc_kind c = kind) (rev (components p))"

definition compared_kinds :: "protocol_identity \<Rightarrow> protocol_identity \<Rightarrow> component_kind list" where
  "compared_kinds b c =
     sort_key kind_value (filter (\<lambda>k. k \<in> set (map pc_kind (components b)) \<or> k \<in> set (map pc_kind (components c))) all_kinds)"

definition combined_state :: "drift_state list \<Rightarrow> drift_state" where
  "combined_state ss =
     (if DS_INVALIDATES \<in> set ss then DS_INVALIDATES
      else if DS_INSUFFICIENT \<in> set ss then DS_INSUFFICIENT
      else if DS_WARNING \<in> set ss then DS_WARNING
      else if DS_VERIFIED \<in> set ss then DS_VERIFIED
      else NOT_ASSESSED)"

definition compare_measurement_protocols ::
  "protocol_pair \<Rightarrow> string list \<Rightarrow> reduction \<Rightarrow> drift_report checked" where
  "compare_measurement_protocols pair rules red =
     (case pair of (b, c) \<Rightarrow>
        sbind (mensure (length rules \<le> 128) ''measurement native rule set exceeds bound'') (\<lambda>_.
        sbind (check_ids ''measurement native rule_id'' rules) (\<lambda>_.
        sbind (smap (\<lambda>k. component_state k (component_of b k) (component_of c k) rules) (compared_kinds b c)) (\<lambda>fs.
          mk_drift_report
            \<lparr>dr_state = combined_state (map df_state fs),
             baseline_protocol_id = semantic_protocol_id b, candidate_protocol_id = semantic_protocol_id c,
             baseline_snapshot_id = pi_source_snapshot_id b, candidate_snapshot_id = pi_source_snapshot_id c,
             dr_findings = fs, verification_reduction = red\<rparr>))))"

definition drift_finding_jsonable :: "drift_finding \<Rightarrow> pyval" where
  "drift_finding_jsonable f =
     pdict [(''component_kind'', PStr (kind_value (df_kind f))), (''state'', PStr (drift_value (df_state f))),
            (''reason_code'', PStr (reason_code f)),
            (''baseline_component_id'', opt_str (baseline_component_id f)),
            (''candidate_component_id'', opt_str (candidate_component_id f)),
            (''native_rule_ids'', str_list (native_rule_ids f))]"

definition measurement_report_to_jsonable :: "drift_report \<Rightarrow> pyval" where
  "measurement_report_to_jsonable r =
     pdict [(''state'', PStr (drift_value (dr_state r))),
            (''semantic_protocol_ids'', pdict [(''baseline'', PStr (baseline_protocol_id r)),
                                               (''candidate'', PStr (candidate_protocol_id r))]),
            (''source_snapshot_ids'', pdict [(''baseline'', PStr (baseline_snapshot_id r)),
                                             (''candidate'', PStr (candidate_snapshot_id r))]),
            (''claimci_verification_reduction'', PStr (reduction_value (verification_reduction r))),
            (''findings'', PList (map drift_finding_jsonable (dr_findings r)))]"

subsection \<open>Facts about construction\<close>

lemma mensure_Inr [simp]: "mensure b s = Inr u \<longleftrightarrow> b"
  by (simp add: mensure_def ensure_def)

lemma sort_key_Nil_iff [simp]: "sort_key f xs = [] \<longleftrightarrow> xs = []"
  by (metis mset_sort mset_zero_iff)

lemma mk_component_Inr:
  assumes "mk_component sha kind scope cov schema fs ids = Inr c"
  shows "pc_kind c = kind" "pc_coverage c = cov" "sorted (map sf_key (semantic_fields c))"
    "distinct (map sf_key (semantic_fields c))" "sorted (source_binding_ids c)" "distinct (source_binding_ids c)"
    "cov = RECOVERED \<longleftrightarrow> semantic_fields c \<noteq> []" "mset (semantic_fields c) = mset fs"
    "mset (source_binding_ids c) = mset ids"
    "semantic_component_id c = digest sha ''measurement-component'' (component_material c)"
  using assms unfolding mk_component_def Let_def sbind_eq_Inr mensure_Inr
  by (auto simp: component_material_def)

lemma mk_protocol_Inr:
  assumes "mk_protocol sha policy source cs = Inr p"
  shows "mset (components p) = mset cs" "distinct (map pc_kind (components p))"
    "pi_policy_id p = policy" "pi_source_snapshot_id p = source_snapshot_id source"
    "semantic_protocol_id p = digest sha ''measurement-semantic'' (protocol_material policy (components p))"
    "c \<in> set (components p) \<Longrightarrow> set (source_binding_ids c) \<subseteq> binding_id ` set (bindings source)"
  using assms unfolding mk_protocol_def Let_def sbind_eq_Inr mensure_Inr
  by (auto simp: list_all_iff)

lemma mk_drift_finding_Inr: "mk_drift_finding f = Inr g \<Longrightarrow> g = f"
  unfolding mk_drift_finding_def sbind_eq_Inr by auto

lemma component_state_Inr:
  assumes "component_state kind b c rules = Inr f"
  shows "df_kind f = kind" "(df_state f, reason_code f, native_rule_ids f) = component_outcome kind b c rules"
    "baseline_component_id f = map_option semantic_component_id b"
    "candidate_component_id f = map_option semantic_component_id c"
proof -
  obtain st reason ids where o: "component_outcome kind b c rules = (st, reason, ids)"
    by (metis surj_pair)
  have f: "f = \<lparr>df_kind = kind, df_state = st, reason_code = reason,
      baseline_component_id = map_option semantic_component_id b,
      candidate_component_id = map_option semantic_component_id c, native_rule_ids = ids\<rparr>"
    using assms mk_drift_finding_Inr by (simp add: component_state_def o)
  show "df_kind f = kind" "(df_state f, reason_code f, native_rule_ids f) = component_outcome kind b c rules"
    "baseline_component_id f = map_option semantic_component_id b"
    "candidate_component_id f = map_option semantic_component_id c"
    by (simp_all add: f o)
qed

lemma compare_Inr:
  assumes "compare_measurement_protocols (b, c) rules red = Inr r"
  shows "list_all2 (\<lambda>k f. component_state k (component_of b k) (component_of c k) rules = Inr f)
      (compared_kinds b c) (dr_findings r)"
    and "dr_state r = combined_state (map df_state (dr_findings r))"
    and "baseline_protocol_id r = semantic_protocol_id b" "candidate_protocol_id r = semantic_protocol_id c"
  using assms unfolding compare_measurement_protocols_def prod.case sbind_eq_Inr mk_drift_report_def
  by (auto simp: smap_Inr_conv)

subsection \<open>Canonical order\<close>

lemma sort_key_perm:
  assumes "mset xs = mset ys" and "inj_on f (set xs)"
  shows "sort_key f xs = sort_key f ys"
proof (rule sort_key_inj_key_eq)
  show "mset xs = mset (sort_key f ys)" using assms(1) by simp
  show "inj_on f (set xs)" by (rule assms(2))
  show "sorted (map f (sort_key f ys))" by simp
qed

lemma sort_key_perm_distinct:
  assumes m: "mset xs = mset ys"
  shows "distinct (map f (sort_key f xs)) \<longleftrightarrow> distinct (map f (sort_key f ys))"
    and "distinct (map f (sort_key f xs)) \<Longrightarrow> sort_key f xs = sort_key f ys"
proof -
  have "mset (map f (sort_key f xs)) = mset (map f (sort_key f ys))" using m by simp
  then show "distinct (map f (sort_key f xs)) \<longleftrightarrow> distinct (map f (sort_key f ys))"
    by (metis mset_eq_imp_distinct_iff)
  assume d: "distinct (map f (sort_key f xs))"
  then have "inj_on f (set (sort_key f xs))" by (simp add: distinct_map)
  then have "inj_on f (set xs)" by (simp only: set_sort)
  then show "sort_key f xs = sort_key f ys" by (rule sort_key_perm [OF m])
qed

lemma kinds_distinct:
  "distinct (map pc_kind cs) \<longleftrightarrow> distinct (map (\<lambda>c. kind_value (pc_kind c)) cs)"
proof -
  have "map (\<lambda>c. kind_value (pc_kind c)) cs = map kind_value (map pc_kind cs)" by simp
  moreover have "inj_on kind_value (set (map pc_kind cs))" by (simp add: inj_on_def)
  ultimately show ?thesis by (simp only: distinct_map) simp
qed

lemma component_from_values_wf:
  assumes "component_from_values sha kind schema vs ids required = Inr c"
  shows "pc_coverage c = RECOVERED \<longleftrightarrow> semantic_fields c \<noteq> []" "pc_kind c = kind"
    "pc_coverage c \<noteq> BYTE_ONLY" "required \<Longrightarrow> pc_coverage c \<noteq> NOT_APPLICABLE"
  using assms unfolding component_from_values_def Let_def
  by (auto dest: mk_component_Inr(1,2,7) split: if_splits)

subsection \<open>Properties\<close>

text \<open>C22: the measurement companion has no authority of its own to invalidate: its report is in the
  invalidating state only when the native audit itself raised one of the mismatch rules, and the
  report then cites a rule that the audit raised.\<close>

theorem drift_invalidates_only_natively:
  assumes "compare_measurement_protocols pair rules red = Inr r" and "dr_state r = DS_INVALIDATES"
  shows "\<exists>f \<in> set (dr_findings r). \<exists>rule \<in> set (native_rule_ids f).
    rule \<in> set rules \<and> rule \<in> set (mismatch_rules (df_kind f))"
proof -
  obtain b c where p: "pair = (b, c)" by (cases pair)
  note cmp = compare_Inr [OF assms(1) [unfolded p]]
  obtain f where f: "f \<in> set (dr_findings r)" "df_state f = DS_INVALIDATES"
    using cmp(2) assms(2) by (auto simp: combined_state_def split: if_splits)
  then obtain k where k: "component_state k (component_of b k) (component_of c k) rules = Inr f"
    using list_all2_mem2 [OF cmp(1) f(1)] by blast
  note st = component_state_Inr [OF k]
  have "native_rule_ids f \<noteq> [] \<and> set (native_rule_ids f) \<subseteq> set rules \<inter> set (mismatch_rules k)"
    using st(2) f(2) by (auto simp: component_outcome_def Let_def selected_rules_def
        split: option.splits if_splits)
  then obtain rule where "rule \<in> set (native_rule_ids f)" "rule \<in> set rules" "rule \<in> set (mismatch_rules k)"
    by (cases "native_rule_ids f") auto
  then show ?thesis using f(1) st(1) by blast
qed


text \<open>A protocol identity does not depend on the order in which its components are given: two
  orders of the same components give the same identity, or are refused alike.\<close>

lemma protocol_order_irrelevant:
  assumes m: "mset cs = mset cs'"
  shows "mk_protocol sha policy source cs = mk_protocol sha policy source cs'"
proof -
  let ?f = "\<lambda>c. kind_value (pc_kind c)"
  have len: "length cs = length cs'" "cs = [] \<longleftrightarrow> cs' = []"
    using m by (metis size_mset) (metis m mset_zero_iff)
  note s = sort_key_perm_distinct [OF m, of ?f]
  show ?thesis
  proof (cases "distinct (map pc_kind (sort_key ?f cs))")
    case True
    then have "sort_key ?f cs = sort_key ?f cs'" using s(2) by (simp only: kinds_distinct)
    then show ?thesis by (simp add: mk_protocol_def len)
  next
    case False
    then have "\<not> distinct (map pc_kind (sort_key ?f cs'))" using s(1) unfolding kinds_distinct by blast
    with False show ?thesis
      by (simp add: mk_protocol_def len Let_def mensure_def sbind_def split: sum.splits)
  qed
qed

text \<open>C37: a recovered protocol is well formed: its components have pairwise different kinds, each is
  recovered exactly when it asserts semantic fields, none rests on byte identity alone, and each
  refers only to bindings the source snapshot issued.\<close>

theorem recovered_protocol_wf:
  assumes "recover_protocol sha policy source metric config hs identity = Inr p"
  shows "distinct (map pc_kind (components p))
    \<and> (\<forall>c \<in> set (components p).
         (pc_coverage c = RECOVERED \<longleftrightarrow> semantic_fields c \<noteq> []) \<and> pc_coverage c \<noteq> BYTE_ONLY
         \<and> set (source_binding_ids c) \<subseteq> binding_id ` set (bindings source))"
proof -
  obtain m d c os where p: "mk_protocol sha policy source ([m, d, c] @ os) = Inr p"
    and wf: "\<And>x. x \<in> set ([m, d, c] @ os) \<Longrightarrow>
      \<exists>kind schema vs ids required. component_from_values sha kind schema vs ids required = Inr x"
  proof -
    obtain m d c os dvs where
      cs: "component_from_values sha METRIC ''claimci.measurement.metric.v1''
          (Some (metric_values metric (flatten_evaluation config)))
          (sort (binding_ids source [''results''] None @ binding_ids source [''config''] None)) True = Inr m"
        "component_from_values sha EVALUATION_DATASET ''claimci.measurement.evaluation-dataset.v1'' dvs
          (sort (binding_ids source [''config''] None @ binding_ids source [''dataset''] (Some ''eval''))) True = Inr d"
        "component_from_values sha EVALUATION_CONFIG ''claimci.measurement.evaluation-config.v1''
          (map_option (under_prefix ''evaluation.'') (flatten_evaluation config))
          (binding_ids source [''config''] None) True = Inr c"
      and os: "smap (\<lambda>(kind, tokens). component_from_values sha kind (component_schema_id kind)
          (optional_values tokens (flatten_evaluation config)) (binding_ids source [''config''] None) False)
          optional_components = Inr os"
      and p: "mk_protocol sha policy source ([m, d, c] @ os) = Inr p"
      using assms unfolding recover_protocol_def Let_def sbind_eq_Inr by blast
    let ?Q = "\<lambda>x. \<exists>kind schema vs ids required. component_from_values sha kind schema vs ids required = Inr x"
    have q: "?Q m" "?Q d" "?Q c" using cs by blast+
    have os': "\<forall>x \<in> set os. ?Q x"
    proof
      fix x assume "x \<in> set os"
      from smap_mem [OF os this] show "?Q x" by (auto, blast)
    qed
    have "\<forall>x \<in> set ([m, d, c] @ os). ?Q x"
      unfolding set_append list.set Un_insert_left ball_simps Un_empty_left using q os' by (intro conjI)
    then show ?thesis by (intro that [OF p]) (rule bspec)
  qed
  note mp = mk_protocol_Inr [OF p]
  have "(pc_coverage x = RECOVERED \<longleftrightarrow> semantic_fields x \<noteq> []) \<and> pc_coverage x \<noteq> BYTE_ONLY"
    if "x \<in> set (components p)" for x
    using wf [of x] that mp(1) component_from_values_wf by (metis set_mset_mset)
  then show ?thesis using mp(2,6) by blast
qed

definition dotted_config :: "int \<Rightarrow> config" where
  "dotted_config n =
     [(PStr ''evaluation'', pdict [(''a.b'', PInt 1), (''a'', pdict [(''b'', PInt n)])])]"

text \<open>The flattening of the evaluation mapping is not injective: a nested key and a dotted key
  collide, the earlier item wins, and two configs whose evaluation mappings differ are recovered
  with the same flattened values.\<close>

theorem flatten_collision:
  "flatten_evaluation (Some (dotted_config 2)) = flatten_evaluation (Some (dotted_config 3))
    \<and> field_differs (cfg_value (dotted_config 2) [''evaluation'']) (cfg_value (dotted_config 3) [''evaluation''])"
  by (rule conjI; code_simp)

text \<open>A protocol with one metric component, for the witnesses.\<close>

definition metric_protocol :: "string \<Rightarrow> protocol_identity" where
  "metric_protocol i =
     \<lparr>semantic_protocol_id = ''p'', pi_source_snapshot_id = ''s'', pi_policy_id = ''policy'',
      components = [\<lparr>pc_kind = METRIC, pc_scope = MEASUREMENT_PROCEDURE, pc_coverage = RECOVERED,
                     pc_schema_id = ''claimci.measurement.metric.v1'',
                     semantic_fields = [\<lparr>sf_key = ''name'', sf_value = PStr i\<rparr>],
                     source_binding_ids = [], semantic_component_id = i\<rparr>]\<rparr>"

definition metric_drift :: "drift_state \<Rightarrow> string \<Rightarrow> string \<Rightarrow> string list \<Rightarrow> drift_report" where
  "metric_drift st reason i rules =
     \<lparr>dr_state = st, baseline_protocol_id = ''p'', candidate_protocol_id = ''p'',
      baseline_snapshot_id = ''s'', candidate_snapshot_id = ''s'',
      dr_findings = [\<lparr>df_kind = METRIC, df_state = st, reason_code = reason,
         baseline_component_id = Some ''acc'', candidate_component_id = Some i, native_rule_ids = rules\<rparr>],
      verification_reduction = ARITHMETIC_MEAN_V1\<rparr>"

lemma metric_drift_invalidates:
  "compare_measurement_protocols (metric_protocol ''acc'', metric_protocol ''f1'')
     [''CONFIG.EVALUATION_MISMATCH''] ARITHMETIC_MEAN_V1
   = Inr (metric_drift DS_INVALIDATES ''recovered_measurement_semantics_differ'' ''f1'' [''CONFIG.EVALUATION_MISMATCH''])"
  by code_simp

lemma metric_drift_verified:
  "compare_measurement_protocols (metric_protocol ''acc'', metric_protocol ''acc'') [] ARITHMETIC_MEAN_V1
   = Inr (metric_drift DS_VERIFIED ''recovered_semantics_match'' ''acc'' [])"
  by code_simp

definition empty_source :: source_snapshot where
  "empty_source = \<lparr>source_snapshot_id = ''s'', repository_id = ''r'', head_sha = ''h'', bindings = []\<rparr>"

definition is_Inr :: "'a + 'b \<Rightarrow> bool" where
  "is_Inr r = (case r of Inl _ \<Rightarrow> False | Inr _ \<Rightarrow> True)"

lemma metric_recovered:
  "is_Inr (recover_protocol (\<lambda>_. ''0'') ''policy'' empty_source ''acc'' None None None)"
  by code_simp

theorem drift_invalidates_witness:
  "''CONFIG.EVALUATION_MISMATCH'' \<in> set (mismatch_rules METRIC)"
  using drift_invalidates_only_natively [OF metric_drift_invalidates] by (simp add: metric_drift_def)


lemma protocol_order_witness:
  "mk_protocol (\<lambda>_. ''0'') ''policy'' empty_source (components (metric_protocol ''a'') @ components (metric_protocol ''b''))
   = mk_protocol (\<lambda>_. ''0'') ''policy'' empty_source (components (metric_protocol ''b'') @ components (metric_protocol ''a''))"
  by (rule protocol_order_irrelevant) simp

theorem recovered_protocol_witness:
  "\<exists>p. recover_protocol (\<lambda>_. ''0'') ''policy'' empty_source ''acc'' None None None = Inr p
    \<and> distinct (map pc_kind (components p))"
  using metric_recovered recovered_protocol_wf
  by (auto simp: is_Inr_def split: sum.splits)

end
