(* ===== verification/Paths.thy ===== *)
theory Paths
  imports Prelude
begin

section \<open>Path names\<close>

text \<open>
  The parts of \<^verbatim>\<open>pathlib\<close> that the program uses on path names, for POSIX, and the source-path policy
  of \<^verbatim>\<open>claimci/review/path_policy.py\<close>. A path is the text the library prints for it: an anchor (empty,
  one slash or exactly two) and its parts, without empty and dot parts; the empty path prints as a
  dot.
\<close>

subsection \<open>Pure paths\<close>

definition path_root :: "string \<Rightarrow> string" where
  "path_root s =
     (if starts_with ''///'' s then ''/'' else if starts_with ''//'' s then ''//''
      else if starts_with ''/'' s then ''/'' else '''')"

definition path_parts :: "string \<Rightarrow> string list" where
  "path_parts s = filter (\<lambda>p. p \<noteq> '''' \<and> p \<noteq> ''.'') (split_on (CHR ''/'') s)"

definition path_of :: "string \<Rightarrow> string list \<Rightarrow> string" where
  "path_of anc ps = (if anc = '''' \<and> ps = [] then ''.'' else anc @ join ''/'' ps)"

definition pure_path :: "string \<Rightarrow> string" where
  "pure_path s = path_of (path_root s) (path_parts s)"

definition is_absolute :: "string \<Rightarrow> bool" where
  "is_absolute s = starts_with ''/'' s"

definition path_join :: "string \<Rightarrow> string \<Rightarrow> string" where
  "path_join a b =
     (if is_absolute b then pure_path b else path_of (path_root a) (path_parts a @ path_parts b))"

definition path_parent :: "string \<Rightarrow> string" where
  "path_parent s = path_of (path_root s) (butlast (path_parts s))"

definition path_name :: "string \<Rightarrow> string" where
  "path_name s = (case path_parts s of [] \<Rightarrow> '''' | p # ps \<Rightarrow> last (p # ps))"

text \<open>\<open>relative_to\<close>: the parts below another path, when it is one of the parents or the same.\<close>

definition relative_to :: "string \<Rightarrow> string \<Rightarrow> string list option" where
  "relative_to s anc =
     (let n = length (path_parts anc)
      in if path_root s = path_root anc \<and> take n (path_parts s) = path_parts anc
         then Some (drop n (path_parts s)) else None)"

text \<open>The last extension of a name: from its last dot, unless that dot starts or ends the name (the rule
  of Python 3.11 to 3.13).\<close>

definition name_suffix :: "string \<Rightarrow> string" where
  "name_suffix name =
     (case split_on (CHR ''.'') (rev name) of
        ext # rest \<Rightarrow>
          (if ext = [] \<or> join ''.'' rest = [] then '''' else CHR ''.'' # rev ext)
      | [] \<Rightarrow> '''')"

definition path_suffix :: "string \<Rightarrow> string" where
  "path_suffix s = name_suffix (path_name s)"

text \<open>Backslashes as separators, as the callers replace them; an absolute Windows path starts with two
  separators or with a drive and a separator.\<close>

definition portable :: "string \<Rightarrow> string" where
  "portable s = map (\<lambda>c. if c = bslash then CHR ''/'' else c) s"

definition windows_absolute :: "string \<Rightarrow> bool" where
  "windows_absolute s =
     (let p = portable (take 3 s) in starts_with ''//'' p \<or> starts_with '':/'' (drop 1 p))"

subsection \<open>Source files\<close>

definition source_suffixes :: "string list" where
  "source_suffixes = [''.py'', ''.js'', ''.ts'', ''.rs'', ''.go'', ''.java'']"

definition is_source_file :: "string \<Rightarrow> bool" where
  "is_source_file s = (py_lower (path_suffix (portable s)) \<in> set source_suffixes)"

definition is_test_source_file :: "string \<Rightarrow> bool" where
  "is_test_source_file s =
     (let p = py_lower (portable s)
      in is_source_file p
         \<and> (list_ex (\<lambda>q. q = ''test'' \<or> q = ''tests'') ((if path_root p = '''' then [] else [path_root p]) @ path_parts p)
            \<or> starts_with ''test_'' (path_name p)))"

subsection \<open>Facts\<close>

lemma path_parts_no_slash: "p \<in> set (path_parts s) \<Longrightarrow> CHR ''/'' \<notin> set p"
  by (auto simp: path_parts_def dest: split_on_no_sep)

lemma path_parts_clean: "p \<in> set (path_parts s) \<Longrightarrow> p \<noteq> '''' \<and> p \<noteq> ''.''"
  by (auto simp: path_parts_def)

lemma split_on_append: "c \<notin> set p \<Longrightarrow> split_on c (p @ c # s) = p # split_on c s"
  by (induction p) auto

lemma split_on_plain: "c \<notin> set p \<Longrightarrow> split_on c p = [p]"
  by (induction p) auto

lemma split_on_join:
  "ps \<noteq> [] \<Longrightarrow> \<forall>p \<in> set ps. c \<notin> set p \<Longrightarrow> split_on c (join [c] ps) = ps"
proof (induction ps)
  case (Cons p ps)
  then show ?case by (cases ps) (simp_all add: split_on_plain split_on_append)
qed simp

text \<open>Printing clean parts and reading them gives them back.\<close>

lemma path_parts_join:
  assumes "\<forall>p \<in> set ps. CHR ''/'' \<notin> set p \<and> p \<noteq> '''' \<and> p \<noteq> ''.''"
  shows "path_parts (join ''/'' ps) = ps"
proof (cases "ps = []")
  case False
  then show ?thesis using assms by (simp add: path_parts_def split_on_join filter_id_conv)
qed (simp add: path_parts_def)

lemma path_parts_slash: "path_parts (CHR ''/'' # s) = path_parts s"
  by (simp add: path_parts_def)

lemma path_parts_dot: "path_parts ''.'' = []" "path_parts [] = []"
  by (simp_all add: path_parts_def)

lemma path_parts_path_of:
  assumes "\<forall>p \<in> set ps. CHR ''/'' \<notin> set p \<and> p \<noteq> '''' \<and> p \<noteq> ''.''" and "anc \<in> {'''', ''/'', ''//''}"
  shows "path_parts (path_of anc ps) = ps"
proof (cases "anc = '''' \<and> ps = []")
  case True
  then show ?thesis by (simp add: path_of_def path_parts_dot)
next
  case False
  then have "path_of anc ps = anc @ join ''/'' ps" by (auto simp: path_of_def)
  moreover have "path_parts (anc @ x) = path_parts x" for x using assms(2) by (auto simp: path_parts_slash)
  ultimately show ?thesis using path_parts_join [OF assms(1)] by simp
qed

lemma path_root_path_of:
  assumes "\<forall>p \<in> set ps. CHR ''/'' \<notin> set p \<and> p \<noteq> '''' \<and> p \<noteq> ''.''" and "anc \<in> {'''', ''/'', ''//''}"
  shows "path_root (path_of anc ps) = anc"
proof -
  have h: "\<not> starts_with ''/'' (join ''/'' ps)"
  proof (cases ps)
    case (Cons p qs)
    then obtain c cs where "p = c # cs" "c \<noteq> CHR ''/''" using assms(1) by (cases p) auto
    then show ?thesis using Cons by (cases qs) (auto simp: starts_with_def)
  qed (simp add: starts_with_def)
  show ?thesis
    using assms(2) h by (cases "join ''/'' ps") (auto simp: path_of_def path_root_def starts_with_def split: if_splits)
qed

lemma path_root_cases: "path_root s \<in> {'''', ''/'', ''//''}"
  unfolding path_root_def by (simp split: if_split)

lemma pure_path_parts [simp]: "path_parts (pure_path s) = path_parts s"
  unfolding pure_path_def
  by (rule path_parts_path_of [OF _ path_root_cases]) (auto dest: path_parts_no_slash path_parts_clean)

lemma relative_to_Some:
  "relative_to s anc = Some ps \<longleftrightarrow> path_root s = path_root anc \<and> path_parts s = path_parts anc @ ps"
  by (auto simp: relative_to_def Let_def split: if_splits) (metis append_take_drop_id)

end
