(* ===== verification/Contracts.thy ===== *)
theory Contracts
  imports Measurement Paths
begin

section \<open>Analysis contracts\<close>

text \<open>
  \<^verbatim>\<open>claimci/analysis/contracts.py\<close>: the validated values that the analysis layer exchanges. A class
  that validates its arguments is a record with a constructor function \<open>new_*\<close> to the record or to
  an error; a string subclass is the check of its text.
\<close>

subsection \<open>Text, identifiers and digests\<close>

definition afail :: "string \<Rightarrow> py_error + 'a" where
  "afail s = Inl (AnalysisContractError s)"

definition aensure :: "bool \<Rightarrow> string \<Rightarrow> unit checked" where
  "aensure b s = ensure b (AnalysisContractError s)"

definition contract_text :: "nat \<Rightarrow> string \<Rightarrow> string \<Rightarrow> unit checked" where
  "contract_text maximum label s =
     sbind (aensure (\<not> is_blank s) (label @ '' must be a non-empty string'')) (\<lambda>_.
       aensure (length s \<le> maximum) (label @ '' exceeds '' @ show_nat maximum @ '' characters''))"

definition contract_id :: "nat \<Rightarrow> string \<Rightarrow> string \<Rightarrow> unit checked" where
  "contract_id maximum label s =
     sbind (contract_text maximum label s) (\<lambda>_.
       aensure (s = py_strip s \<and> \<not> has_control s) (label @ '' must be a canonical text identifier''))"

definition new_sha256 :: "string \<Rightarrow> string checked" where
  "new_sha256 s =
     sbind (aensure (sha256_pattern s) ''sha256 must be a lowercase 64-character hexadecimal digest'')
       (\<lambda>_. Inr s)"

definition new_commit_sha :: "string \<Rightarrow> string checked" where
  "new_commit_sha s =
     sbind (aensure (git_sha_pattern s) ''commit SHA must be a non-zero lowercase 40- or 64-character digest'')
       (\<lambda>_. Inr s)"

text \<open>
  A repository path. The Windows drive of the code needs a colon or two leading slashes, which the
  other conditions refuse with the same error.
\<close>

definition new_repository_path :: "string \<Rightarrow> string checked" where
  "new_repository_path s =
     sbind (aensure (s \<noteq> [] \<and> s = py_strip s) ''repository path must be non-empty and canonical'') (\<lambda>_.
     sbind (aensure (chr_of 0 \<notin> set s) ''repository path contains NUL'') (\<lambda>_.
     sbind (aensure (bslash \<notin> set s) ''repository path must use forward slashes'') (\<lambda>_.
     sbind (aensure (repository_path_ok s \<and> \<not> has_control s)
              ''repository path must be a canonical confined relative file path'') (\<lambda>_. Inr s))))"

subsection \<open>Enumerations\<close>

datatype artifact_kind = RESULTS | CONFIG | DATASET | BENCHMARK | DOCUMENT | SOURCE | TEST | MANIFEST

datatype snapshot_role = HEAD | BASE

datatype experiment_role = ER_BASELINE | ER_CANDIDATE | ER_REFERENCE | ER_UNSPECIFIED

fun artifact_kind_value :: "artifact_kind \<Rightarrow> string" where
  "artifact_kind_value RESULTS = ''results''"
| "artifact_kind_value CONFIG = ''config''"
| "artifact_kind_value DATASET = ''dataset''"
| "artifact_kind_value BENCHMARK = ''benchmark''"
| "artifact_kind_value DOCUMENT = ''document''"
| "artifact_kind_value SOURCE = ''source''"
| "artifact_kind_value TEST = ''test''"
| "artifact_kind_value MANIFEST = ''manifest''"

fun experiment_role_value :: "experiment_role \<Rightarrow> string" where
  "experiment_role_value ER_BASELINE = ''baseline''"
| "experiment_role_value ER_CANDIDATE = ''candidate''"
| "experiment_role_value ER_REFERENCE = ''reference''"
| "experiment_role_value ER_UNSPECIFIED = ''unspecified''"

lemma artifact_kind_value_inject [simp]: "artifact_kind_value a = artifact_kind_value b \<longleftrightarrow> a = b"
  by (cases a; cases b; simp)

lemma experiment_role_value_inject [simp]:
  "experiment_role_value a = experiment_role_value b \<longleftrightarrow> a = b"
  by (cases a; cases b; simp)

text \<open>A confidence score.\<close>

definition new_confidence :: "pyval \<Rightarrow> flt checked" where
  "new_confidence v =
     (let in_range = (\<lambda>x. if isfinite x \<and> flt_le fzero x \<and> flt_le x (round_ratio False 1 1) then Inr x
                       else Inl (ValueError ''confidence must be finite from 0 through 1''))
      in case v of
           PInt i \<Rightarrow> (case float_of_int i of
                        None \<Rightarrow> Inl (OverflowError ''int too large to convert to float'')
                      | Some x \<Rightarrow> in_range x)
         | PFloat x \<Rightarrow> in_range x
         | _ \<Rightarrow> Inl (TypeError ''confidence must be a number''))"

subsection \<open>Provenance and selectors\<close>

datatype provenance_kind =
    DETERMINISTIC_DISCOVERY | ADAPTER_EXTRACTION | MANIFEST_HINT | PROVIDER_PROPOSAL | USER_APPROVED

record provenance =
  pv_kind :: provenance_kind
  pv_detail :: string
  pv_source_path :: "string option"
  pv_source_id :: "string option"

definition new_provenance :: "provenance \<Rightarrow> provenance checked" where
  "new_provenance p =
     sbind (contract_text 4096 ''provenance detail'' (pv_detail p)) (\<lambda>_.
     sbind (case pv_source_path p of None \<Rightarrow> Inr () | Some s \<Rightarrow> sbind (new_repository_path s) (\<lambda>_. Inr ())) (\<lambda>_.
     sbind (case pv_source_id p of None \<Rightarrow> Inr () | Some s \<Rightarrow> contract_id 256 ''provenance source_id'' s) (\<lambda>_.
       Inr p)))"

datatype selector_kind = JSON_POINTER | DOTTED_PATH | COLUMN

fun selector_kind_value :: "selector_kind \<Rightarrow> string" where
  "selector_kind_value JSON_POINTER = ''json_pointer''"
| "selector_kind_value DOTTED_PATH = ''dotted_path''"
| "selector_kind_value COLUMN = ''column''"

definition is_lower_char :: "char \<Rightarrow> bool" where
  "is_lower_char c = (let n = char_code c in 97 \<le> n \<and> n \<le> 122)"

definition is_digit_char :: "char \<Rightarrow> bool" where
  "is_digit_char c = (let n = char_code c in 48 \<le> n \<and> n \<le> 57)"

text \<open>The patterns of field names, dotted segments and columns.\<close>

definition target_field_ok :: "string \<Rightarrow> bool" where
  "target_field_ok s =
     list_all (\<lambda>p. case p of [] \<Rightarrow> False
                 | c # cs \<Rightarrow> is_lower_char c \<and> list_all (\<lambda>d. is_lower_char d \<or> is_digit_char d \<or> d = CHR ''_'') cs)
       (split_on (CHR ''.'') s)"

definition dotted_segment_ok :: "string \<Rightarrow> bool" where
  "dotted_segment_ok s = (s \<noteq> [] \<and> list_all (\<lambda>c. is_alnum c \<or> c = CHR ''_'' \<or> c = CHR ''-'') s)"

definition column_name_ok :: "string \<Rightarrow> bool" where
  "column_name_ok s =
     (case s of
        [] \<Rightarrow> False
      | c # cs \<Rightarrow> (is_alnum c \<or> c = CHR ''_'') \<and> length cs \<le> 255
                 \<and> list_all (\<lambda>d. is_alnum d \<or> d \<in> set ''_. -'') cs)"

text \<open>A tilde of a JSON pointer must be followed by a zero or a one.\<close>

fun invalid_pointer_escape :: "string \<Rightarrow> bool" where
  "invalid_pointer_escape [] = False"
| "invalid_pointer_escape (c # cs) =
     (if c = CHR ''~'' then (case cs of [] \<Rightarrow> True
                           | d # _ \<Rightarrow> \<not> (d = CHR ''0'' \<or> d = CHR ''1'') \<or> invalid_pointer_escape cs)
      else invalid_pointer_escape cs)"

record evidence_selector =
  es_kind :: selector_kind
  es_expression :: string
  es_provenance :: provenance

definition new_selector :: "evidence_selector \<Rightarrow> evidence_selector checked" where
  "new_selector s =
     (let e = es_expression s
      in sbind (contract_text 1024 ''selector expression'' e) (\<lambda>_.
         sbind (aensure (\<not> has_control e) ''selector expression contains control characters'') (\<lambda>_.
         sbind (aensure (es_kind s = JSON_POINTER \<longrightarrow> starts_with ''/'' e \<and> \<not> invalid_pointer_escape e)
                  (''JSON pointer selector must start with '' @ squote @ ''/'' @ squote @ '' and use valid escapes'')) (\<lambda>_.
         sbind (aensure (es_kind s = DOTTED_PATH \<longrightarrow> list_all dotted_segment_ok (split_on (CHR ''.'') e))
                  ''dotted selector path is invalid'') (\<lambda>_.
         sbind (aensure (es_kind s = COLUMN \<longrightarrow> column_name_ok e) ''column selector name is invalid'') (\<lambda>_.
           Inr s))))))"

subsection \<open>Table selectors\<close>

text \<open>
  The value of a predicate has the type that the predicate declares; a number is an integer or a
  float and is compared in a canonical decimal spelling, computed in the default context of
  \<^verbatim>\<open>decimal\<close> with 28 digits.
\<close>

datatype table_value = TV_STRING string | TV_INT int | TV_FLOAT flt | TV_BOOL bool | TV_NULL

fun table_type_value :: "table_value \<Rightarrow> string" where
  "table_type_value (TV_STRING _) = ''string''"
| "table_type_value (TV_INT _) = ''number''"
| "table_type_value (TV_FLOAT _) = ''number''"
| "table_type_value (TV_BOOL _) = ''boolean''"
| "table_type_value TV_NULL = ''null''"

definition dec_normalize :: "nat \<Rightarrow> dec \<Rightarrow> dec" where
  "dec_normalize p d =
     (case dec_fix p d of
        Dec s c e \<Rightarrow> (if c = 0 then Dec s 0 0 else case strip_zeros c e (e + int (ndigits c)) of (c', e') \<Rightarrow> Dec s c' e')
      | x \<Rightarrow> x)"

definition number_not_finite :: py_error where
  "number_not_finite = AnalysisContractError ''table number predicate must be finite''"

definition canonical_decimal :: "dec \<Rightarrow> string checked" where
  "canonical_decimal d =
     (let n = dec_normalize 28 d;
          text = (if dec_is_zero n then ''0'' else dec_str n)
      in sbind (aensure (length text \<le> 128) ''table number predicate exceeds its canonical bound'')
           (\<lambda>_. Inr text))"

fun canonical_table_number :: "table_value \<Rightarrow> string checked" where
  "canonical_table_number (TV_INT i) =
     (if float_of_int i = None then Inl number_not_finite else canonical_decimal (dec_of_int i))"
| "canonical_table_number (TV_FLOAT x) =
     (if \<not> isfinite x then Inl number_not_finite else canonical_decimal (dec_of_flt x))"
| "canonical_table_number _ = Inl (TypeError ''table number predicate value must be an integer or float'')"

record table_predicate =
  tp_column :: string
  tp_value :: table_value

text \<open>The Unicode categories that start with C, for the characters of the model.\<close>

definition category_c :: "char \<Rightarrow> bool" where
  "category_c ch = (let n = char_code ch in n < 32 \<or> (127 \<le> n \<and> n < 160) \<or> n = 173)"

definition new_table_predicate :: "table_predicate \<Rightarrow> table_predicate checked" where
  "new_table_predicate p =
     sbind (aensure (column_name_ok (tp_column p)) ''table predicate column is invalid'') (\<lambda>_.
     sbind (case tp_value p of
              TV_STRING s \<Rightarrow> aensure (length s \<le> 1024 \<and> \<not> list_ex category_c s) ''table string predicate value is invalid''
            | TV_BOOL _ \<Rightarrow> Inr ()
            | TV_NULL \<Rightarrow> Inr ()
            | v \<Rightarrow> sbind (canonical_table_number v) (\<lambda>_. Inr ())) (\<lambda>_. Inr p))"

fun canonical_value :: "table_value \<Rightarrow> string checked" where
  "canonical_value (TV_STRING s) = Inr s"
| "canonical_value (TV_BOOL b) = Inr (if b then ''true'' else ''false'')"
| "canonical_value TV_NULL = Inr ''null''"
| "canonical_value v = canonical_table_number v"

record table_selector =
  ts_column :: string
  ts_predicates :: "table_predicate list"
  ts_cardinality :: int
  ts_provenance :: provenance

definition new_table_selector :: "table_selector \<Rightarrow> table_selector checked" where
  "new_table_selector s =
     sbind (aensure (column_name_ok (ts_column s)) ''table target column is invalid'') (\<lambda>_.
     sbind (aensure (1 \<le> length (ts_predicates s) \<and> length (ts_predicates s) \<le> 8)
              ''table selector requires one through eight exact predicates'') (\<lambda>_.
     (let ordered = sort_key tp_column (ts_predicates s)
      in sbind (aensure (distinct (map tp_column ordered)) ''table selector predicate columns must be unique'') (\<lambda>_.
         sbind (aensure (1 \<le> ts_cardinality s \<and> ts_cardinality s \<le> 32)
                  ''table selector expected_cardinality must be between one and 32'') (\<lambda>_.
           Inr (s\<lparr>ts_predicates := ordered\<rparr>))))))"

subsection \<open>Field mappings and artifacts\<close>

datatype selector = FieldSelector evidence_selector | TableSelector table_selector

record field_mapping =
  fm_target :: string
  fm_selector :: selector
  fm_provenance :: provenance

definition new_field_mapping :: "field_mapping \<Rightarrow> field_mapping checked" where
  "new_field_mapping m =
     sbind (aensure (length (fm_target m) \<le> 128 \<and> target_field_ok (fm_target m)) ''mapping target_field is invalid'')
       (\<lambda>_. Inr m)"

definition canonical_text :: "table_value \<Rightarrow> string" where
  "canonical_text v = (case canonical_value v of Inl _ \<Rightarrow> [] | Inr s \<Rightarrow> s)"

definition selector_identity :: "selector \<Rightarrow> pyval list" where
  "selector_identity s =
     (case s of
        FieldSelector f \<Rightarrow> [PStr ''field'', PStr (selector_kind_value (es_kind f)), PStr (es_expression f)]
      | TableSelector t \<Rightarrow>
          [PStr ''table'', PStr (ts_column t), PInt (ts_cardinality t),
           PTuple (map (\<lambda>p. PTuple [PStr (tp_column p), PStr (table_type_value (tp_value p)),
                                    PStr (canonical_text (tp_value p))]) (ts_predicates t))])"

definition field_mapping_identity :: "field_mapping \<Rightarrow> pyval list" where
  "field_mapping_identity m =
     (case fm_selector m of
        FieldSelector f \<Rightarrow> [PStr (fm_target m), PStr (selector_kind_value (es_kind f)), PStr (es_expression f)]
      | TableSelector t \<Rightarrow> PStr (fm_target m) # selector_identity (TableSelector t))"

record artifact_candidate =
  ac_path :: string
  ac_kind :: artifact_kind
  ac_sha256 :: string
  ac_size :: int
  ac_confidence :: flt
  discovery_reason :: string
  relevant_claim_ids :: "string list"
  ac_provenance :: provenance

fun contract_ids :: "nat \<Rightarrow> string \<Rightarrow> string list \<Rightarrow> unit checked" where
  "contract_ids n label [] = Inr ()"
| "contract_ids n label (s # ss) = sbind (contract_id n label s) (\<lambda>_. contract_ids n label ss)"

definition new_artifact_candidate :: "artifact_candidate \<Rightarrow> artifact_candidate checked" where
  "new_artifact_candidate a =
     sbind (new_repository_path (ac_path a)) (\<lambda>_.
     sbind (new_sha256 (ac_sha256 a)) (\<lambda>_.
     sbind (aensure (0 \<le> ac_size a) ''artifact size must be a non-negative integer'') (\<lambda>_.
     sbind (contract_text 4096 ''discovery reason'' (discovery_reason a)) (\<lambda>_.
     sbind (contract_ids 128 ''relevant claim ID'' (relevant_claim_ids a)) (\<lambda>_.
     sbind (aensure (distinct (relevant_claim_ids a)) ''relevant_claim_ids must be unique'') (\<lambda>_.
       Inr a))))))"

record repository_identity =
  ri_owner :: string
  ri_name :: string

definition repository_component_ok :: "string \<Rightarrow> bool" where
  "repository_component_ok s =
     (1 \<le> length s \<and> length s \<le> 100 \<and> list_all (\<lambda>c. is_alnum c \<or> c \<in> set ''_.-'') s)"

definition new_repository_identity :: "repository_identity \<Rightarrow> repository_identity checked" where
  "new_repository_identity r =
     sbind (aensure (repository_component_ok (ri_owner r)) ''repository owner is invalid'') (\<lambda>_.
     sbind (aensure (repository_component_ok (ri_name r)) ''repository name is invalid'') (\<lambda>_. Inr r))"

definition full_name :: "repository_identity \<Rightarrow> string" where
  "full_name r = ri_owner r @ ''/'' @ ri_name r"

record artifact_occurrence =
  oc_repository :: repository_identity
  oc_role :: snapshot_role
  oc_commit :: string
  oc_candidate :: artifact_candidate

record passive_artifact =
  pa_occurrence :: artifact_occurrence
  pa_content :: "nat list"

definition new_passive_artifact ::
  "(nat list \<Rightarrow> string) \<Rightarrow> artifact_occurrence \<Rightarrow> nat list \<Rightarrow> passive_artifact checked" where
  "new_passive_artifact sha occ content =
     sbind (aensure (int (length content) = ac_size (oc_candidate occ)) ''passive artifact size does not match candidate'') (\<lambda>_.
     sbind (aensure (sha content = ac_sha256 (oc_candidate occ)) ''passive artifact sha256 digest does not match candidate'') (\<lambda>_.
       Inr \<lparr>pa_occurrence = occ, pa_content = content\<rparr>))"

subsection \<open>Facts\<close>

lemma aensure_Inr [result_simps]: "aensure b s = Inr u \<longleftrightarrow> b"
  by (simp add: aensure_def ensure_eq_Inr)

lemma new_repository_path_Inr:
  "new_repository_path s = Inr p \<longleftrightarrow>
     p = s \<and> s \<noteq> [] \<and> s = py_strip s \<and> chr_of 0 \<notin> set s \<and> bslash \<notin> set s \<and> repository_path_ok s
     \<and> \<not> has_control s"
  unfolding new_repository_path_def sbind_eq_Inr aensure_Inr by auto

text \<open>The parts of an accepted path are its segments, none of them empty, a dot or two dots.\<close>

lemma repository_path_parts:
  assumes "repository_path_ok s"
  shows "path_parts s = split_on (CHR ''/'') s" "path_root s = ''''" "p \<in> set (path_parts s) \<Longrightarrow> path_part_ok p"
proof -
  have ok: "list_all path_part_ok (split_on (CHR ''/'') s)" and abs: "\<not> starts_with ''/'' s"
    using assms by (simp_all add: repository_path_ok_def)
  show "path_parts s = split_on (CHR ''/'') s"
    using ok by (auto simp: path_parts_def list_all_iff path_part_ok_def filter_id_conv)
  then show "p \<in> set (path_parts s) \<Longrightarrow> path_part_ok p" using ok by (auto simp: list_all_iff)
  show "path_root s = ''''" using abs by (cases s) (auto simp: path_root_def starts_with_def split: if_splits)
qed

lemma path_join_relative:
  assumes "path_root s = ''''" "s \<noteq> []"
  shows "path_root (path_join anc s) = path_root anc" "path_parts (path_join anc s) = path_parts anc @ path_parts s"
proof -
  have j: "path_join anc s = path_of (path_root anc) (path_parts anc @ path_parts s)"
    using assms by (auto simp: path_join_def is_absolute_def path_root_def split: if_splits)
  let ?ps = "path_parts anc @ path_parts s"
  have c: "\<forall>p \<in> set ?ps. CHR ''/'' \<notin> set p \<and> p \<noteq> '''' \<and> p \<noteq> ''.''"
    by (auto dest: path_parts_no_slash path_parts_clean)
  then show "path_parts (path_join anc s) = ?ps" unfolding j by (rule path_parts_path_of [OF _ path_root_cases])
  show "path_root (path_join anc s) = path_root anc" unfolding j by (rule path_root_path_of [OF c path_root_cases])
qed

text \<open>C35: a repository path is confined: joined to any root it stays below that root, and none of its
  segments is a parent reference.\<close>

theorem repository_path_confined:
  assumes "new_repository_path s = Inr p"
  shows "relative_to (path_join anc p) anc = Some (path_parts p) \<and> ''..'' \<notin> set (path_parts p)
    \<and> pure_path p = p"
proof -
  have p: "repository_path_ok p" "p \<noteq> []" using assms by (auto simp: new_repository_path_Inr)
  note parts = repository_path_parts [OF p(1)]
  note j = path_join_relative [OF parts(2) p(2), of anc]
  have "relative_to (path_join anc p) anc = Some (path_parts p)"
    by (simp add: relative_to_Some j)
  moreover have "''..'' \<notin> set (path_parts p)"
  proof
    assume "''..'' \<in> set (path_parts p)"
    from parts(3) [OF this] show False by (simp add: path_part_ok_def)
  qed
  moreover have "pure_path p = p"
    using parts p(2) join_split_on [of "CHR ''/''" p] by (simp add: pure_path_def path_of_def)
  ultimately show ?thesis by blast
qed

theorem repository_path_confined_witness:
  "relative_to (path_join ''/srv/repo'' ''d/t'') ''/srv/repo'' = Some [''d'', ''t'']"
proof -
  have p: "new_repository_path ''d/t'' = Inr ''d/t''"
    by (simp add: new_repository_path_Inr repository_path_ok_def path_part_ok_def reserved_basenames_def
        py_strip_def py_lstrip_def is_space_def has_control_def char_code_def bslash_def chr_of_def
        starts_with_def ends_with_def forbidden_path_char_def dquote_def py_upper_def char_upper_def Let_def
        char_of_def bit_numeral_simps bit_0)
  have "path_parts ''d/t'' = [''d'', ''t'']" by code_simp
  with repository_path_confined [OF p, of "''/srv/repo''"] show ?thesis by simp
qed

lemma ndigits_eqI:
  assumes "10 ^ k \<le> n" and "n < 10 ^ Suc k"
  shows "ndigits n = Suc k"
proof (rule antisym)
  have "0 < n" using assms(1) by (cases n) auto
  from ndigits_lower [OF this] assms(2) have "(10::nat) ^ (ndigits n - 1) < 10 ^ Suc k" by linarith
  then have "ndigits n - 1 < Suc k" by (rule power_less_imp_less_exp [rotated]) simp
  then show "ndigits n \<le> Suc k" by simp
  from assms(1) ndigits_upper [of n] have "(10::nat) ^ k < 10 ^ ndigits n" by linarith
  then show "Suc k \<le> ndigits n" by simp
qed

lemma bit_length_eqI:
  assumes "2 ^ k \<le> n" and "n < 2 ^ Suc k"
  shows "bit_length n = Suc k"
proof (rule antisym)
  have "0 < n" using assms(1) by (cases n) auto
  from bit_length_bounds [OF this] assms
  have l: "(2::nat) ^ (bit_length n - 1) < 2 ^ Suc k" "(2::nat) ^ k < 2 ^ bit_length n" by linarith+
  from l(1) have "bit_length n - 1 < Suc k" by (rule power_less_imp_less_exp [rotated]) simp
  then show "bit_length n \<le> Suc k" by simp
  from l(2) show "Suc k \<le> bit_length n" by simp
qed

lemma wide_lengths:
  "ndigits 10000000000000000000000000001 = 29" "ndigits 10000000000000000000000000000 = 29"
  "ndigits 1000000000000000000000000000 = 28"
  "bit_length 10000000000000000000000000001 = 94" "bit_length 10000000000000000000000000000 = 94"
  "bit_length (Suc 0) = 1"
  using ndigits_eqI [of 28 10000000000000000000000000001] ndigits_eqI [of 28 10000000000000000000000000000]
    ndigits_eqI [of 27 1000000000000000000000000000] bit_length_eqI [of 93 10000000000000000000000000001]
    bit_length_eqI [of 93 10000000000000000000000000000] bit_length_eqI [of 0 1]
  by simp_all

lemma strip_zeros_power: "e + int n < i \<Longrightarrow> strip_zeros (10 ^ n) e i = (1, e + int n)"
proof (induction n arbitrary: e)
  case (Suc n)
  then show ?case by (subst strip_zeros.simps) simp
qed (simp add: strip_zeros.simps)

lemma context_rounding:
  "dec_fix 28 (Dec False 10000000000000000000000000001 0) = Dec False 1000000000000000000000000000 1"
  "dec_fix 28 (Dec False 10000000000000000000000000000 0) = Dec False 1000000000000000000000000000 1"
  "strip_zeros 1000000000000000000000000000 1 29 = (1, 28)"
  using strip_zeros_power [of 1 27 29] by (simp_all add: wide_lengths rhe_def)

lemma wide_integers_finite:
  "float_of_int 10000000000000000000000000001 = Some (FFin 4547473508864641 41)"
  "float_of_int 10000000000000000000000000000 = Some (FFin 4547473508864641 41)"
  by (simp_all add: float_of_int_def round_ratio_def floor_log2_def wide_lengths rhe_def sgn_int_def)

lemma normalized_wide:
  "dec_normalize 28 (dec_of_int 10000000000000000000000000001) = Dec False 1 28"
  "dec_normalize 28 (dec_of_int 10000000000000000000000000000) = Dec False 1 28"
  by (simp_all add: dec_of_int_def dec_normalize_def context_rounding wide_lengths del: dec_fix.simps)

lemma spelled_wide: "dec_str (Dec False (Suc 0) 28) = ''1E+28''"
  by (simp add: dec_str_def show_nat.simps minus_sign_def chr_of_def char_of_def zeros_def bit_numeral_simps bit_0)

lemma wide_canonical:
  "canonical_value (TV_INT 10000000000000000000000000001) = Inr ''1E+28''"
  "canonical_value (TV_INT 10000000000000000000000000000) = Inr ''1E+28''"
  using normalized_wide spelled_wide
  by (simp_all add: wide_integers_finite canonical_decimal_def aensure_def Let_def dec_is_zero_def)

text \<open>The canonical spelling of a table number is not injective on integers: it is computed with
  28 digits, so two different integers of 29 digits have the same canonical value, and the
  predicate made from one of them has the value of the other.\<close>

theorem canonical_number_collision:
  "canonical_value (TV_INT 10000000000000000000000000001) = canonical_value (TV_INT 10000000000000000000000000000)
    \<and> new_table_predicate \<lparr>tp_column = ''id'', tp_value = TV_INT 10000000000000000000000000001\<rparr>
        = Inr \<lparr>tp_column = ''id'', tp_value = TV_INT 10000000000000000000000000001\<rparr>"
  using wide_canonical
  by (simp add: new_table_predicate_def column_name_ok_def is_alnum_def char_code_def aensure_def)

end
