(* ===== verification/ArtifactScan.thy ===== *)
theory ArtifactScan
  imports Contracts
begin

section \<open>Descriptor-bound scans\<close>

text \<open>
  \<^verbatim>\<open>claimci/analysis/artifact_source.py\<close>: work budgets, the facts of a finished scan, the confined
  opening of an artifact and the scan object that reads it. What the operating system answers is
  the parameter \<open>os\<close>; every answer depends on the moment it is asked, so that a file or directory
  may change at any time. The moment is a counter of the calls made so far, threaded through the
  operations with the result; an operation that raises keeps the state it has reached.
\<close>

subsection \<open>Failures, purposes, states and reasons\<close>

datatype scan_purpose = INTEGRITY_ONLY | SCHEMA | SELECTED_OBSERVATIONS | DATASET_RECORDS

datatype scan_state = SS_COMPLETE | INCOMPLETE_BUDGET | INCOMPLETE_LIMIT | SS_FAILED

datatype scan_reason =
    SR_COMPLETE | SEMANTIC_BYTE_BUDGET | RECORD_BUDGET | OBSERVATION_BUDGET | LOGICAL_RECORD_LIMIT
  | COLUMN_LIMIT | NODE_LIMIT | DEPTH_LIMIT | CANDIDATE_LIMIT | SCRATCH_BUDGET | MALFORMED
  | INVALID_UTF8 | INTEGRITY_BUDGET | SIZE_MISMATCH | SHA_MISMATCH | SOURCE_CHANGED | SELECTOR_MISMATCH

fun scan_state_value :: "scan_state \<Rightarrow> string" where
  "scan_state_value SS_COMPLETE = ''complete''"
| "scan_state_value INCOMPLETE_BUDGET = ''incomplete_budget''"
| "scan_state_value INCOMPLETE_LIMIT = ''incomplete_limit''"
| "scan_state_value SS_FAILED = ''failed''"

fun scan_reason_value :: "scan_reason \<Rightarrow> string" where
  "scan_reason_value SR_COMPLETE = ''complete''"
| "scan_reason_value SEMANTIC_BYTE_BUDGET = ''semantic_byte_budget''"
| "scan_reason_value RECORD_BUDGET = ''record_budget''"
| "scan_reason_value OBSERVATION_BUDGET = ''observation_budget''"
| "scan_reason_value LOGICAL_RECORD_LIMIT = ''logical_record_limit''"
| "scan_reason_value COLUMN_LIMIT = ''column_limit''"
| "scan_reason_value NODE_LIMIT = ''node_limit''"
| "scan_reason_value DEPTH_LIMIT = ''depth_limit''"
| "scan_reason_value CANDIDATE_LIMIT = ''candidate_limit''"
| "scan_reason_value SCRATCH_BUDGET = ''scratch_budget''"
| "scan_reason_value MALFORMED = ''malformed''"
| "scan_reason_value INVALID_UTF8 = ''invalid_utf8''"
| "scan_reason_value INTEGRITY_BUDGET = ''integrity_budget''"
| "scan_reason_value SIZE_MISMATCH = ''size_mismatch''"
| "scan_reason_value SHA_MISMATCH = ''sha_mismatch''"
| "scan_reason_value SOURCE_CHANGED = ''source_changed''"
| "scan_reason_value SELECTOR_MISMATCH = ''selector_mismatch''"

text \<open>
  The exceptions of the streaming layer: its own three, the spill budget, the controlled stop of a
  scanner, and the contract, type and input errors of what it calls.
\<close>

datatype stream_error =
    ArtifactError string
  | IntegrityError string
  | LimitError string
  | ScratchFull string
  | ScanStop scan_state scan_reason
  | StreamError py_error

subsection \<open>Budgets\<close>

definition max_stream_bytes :: int where "max_stream_bytes = 16 * 1024 * 1024 * 1024"

definition read_chunk_bytes :: int where "read_chunk_bytes = 65536"

record streaming_limits =
  max_integrity_bytes :: int
  max_semantic_bytes :: int
  max_semantic_records :: int
  max_logical_record_bytes :: int
  max_columns :: int
  max_depth :: int
  max_nodes_per_record :: int
  max_metric_candidates :: int
  max_observations :: int
  max_scratch_bytes :: int
  max_hash_previews :: int

definition default_limits :: streaming_limits where
  "default_limits =
     \<lparr>max_integrity_bytes = 1024 * 1024 * 1024, max_semantic_bytes = 512 * 1024 * 1024,
      max_semantic_records = 250000, max_logical_record_bytes = 1024 * 1024, max_columns = 256,
      max_depth = 64, max_nodes_per_record = 100000, max_metric_candidates = 32,
      max_observations = 100000, max_scratch_bytes = 512 * 1024 * 1024, max_hash_previews = 128\<rparr>"

definition limit_table :: "streaming_limits \<Rightarrow> (string \<times> int \<times> int) list" where
  "limit_table l =
     [(''max_integrity_bytes'', max_integrity_bytes l, max_stream_bytes),
      (''max_semantic_bytes'', max_semantic_bytes l, max_stream_bytes),
      (''max_semantic_records'', max_semantic_records l, 10000000),
      (''max_logical_record_bytes'', max_logical_record_bytes l, 16 * 1024 * 1024),
      (''max_columns'', max_columns l, 256),
      (''max_depth'', max_depth l, 64),
      (''max_nodes_per_record'', max_nodes_per_record l, 1000000),
      (''max_metric_candidates'', max_metric_candidates l, 64),
      (''max_observations'', max_observations l, 1000000),
      (''max_scratch_bytes'', max_scratch_bytes l, max_stream_bytes),
      (''max_hash_previews'', max_hash_previews l, 1024)]"

definition positive_int :: "int \<Rightarrow> string \<Rightarrow> int \<Rightarrow> unit checked" where
  "positive_int v label maximum =
     aensure (1 \<le> v \<and> v \<le> maximum) (label @ '' must be between one and '' @ show_int maximum)"

fun check_limits :: "(string \<times> int \<times> int) list \<Rightarrow> unit checked" where
  "check_limits [] = Inr ()"
| "check_limits ((label, v, maximum) # ls) = sbind (positive_int v label maximum) (\<lambda>_. check_limits ls)"

definition new_limits :: "streaming_limits \<Rightarrow> streaming_limits checked" where
  "new_limits l = sbind (check_limits (limit_table l)) (\<lambda>_. Inr l)"

subsection \<open>The facts of a scan\<close>

record scan_completeness =
  sc_purpose :: scan_purpose
  sc_state :: scan_state
  sc_reason :: scan_reason
  records_scanned :: int
  sc_semantic_bytes :: int
  sc_integrity_bytes :: int
  expected_bytes :: int
  integrity_verified :: bool
  peak_buffer_bytes :: int
  scratch_bytes :: int

definition count_fields :: "scan_completeness \<Rightarrow> (string \<times> int) list" where
  "count_fields c =
     [(''records_scanned'', records_scanned c), (''semantic_bytes'', sc_semantic_bytes c),
      (''integrity_bytes'', sc_integrity_bytes c), (''expected_bytes'', expected_bytes c),
      (''peak_buffer_bytes'', peak_buffer_bytes c), (''scratch_bytes'', scratch_bytes c)]"

fun check_counts :: "(string \<times> int) list \<Rightarrow> unit checked" where
  "check_counts [] = Inr ()"
| "check_counts ((label, v) # fs) =
     sbind (aensure (0 \<le> v) (''scan '' @ label @ '' must be a non-negative integer'')) (\<lambda>_. check_counts fs)"

definition new_completeness :: "scan_completeness \<Rightarrow> scan_completeness checked" where
  "new_completeness c =
     sbind (check_counts (count_fields c)) (\<lambda>_.
     sbind (aensure (integrity_verified c \<longrightarrow> sc_integrity_bytes c = expected_bytes c)
              ''verified scan byte count must equal expected bytes'') (\<lambda>_.
     sbind (aensure (sc_semantic_bytes c \<le> sc_integrity_bytes c)
              ''scan semantic bytes cannot exceed integrity bytes'') (\<lambda>_.
     sbind (if sc_state c = SS_COMPLETE
            then aensure (integrity_verified c \<and> sc_reason c = SR_COMPLETE)
                   ''complete scan requires verified integrity and complete reason''
            else aensure (sc_reason c \<noteq> SR_COMPLETE)
                   ''incomplete or failed scan cannot use the complete reason'') (\<lambda>_.
       Inr c))))"

definition scan_is_complete :: "scan_completeness \<Rightarrow> bool" where
  "scan_is_complete c = (sc_state c = SS_COMPLETE)"

subsection \<open>The operating system\<close>

record file_stat =
  st_dev :: int
  st_ino :: int
  st_mode :: int
  st_size :: int
  st_mtime_ns :: int
  st_ctime_ns :: int

text \<open>
  What each call answers at a moment; \<open>None\<close> is an \<^verbatim>\<open>OSError\<close>. \<open>os_open\<close> opens for reading without
  following links, \<open>os_read\<close> reads at most as many bytes as it is asked for and answers the empty
  list at the end of the file.
\<close>

record os_files =
  os_cwd :: string
  os_lstat :: "nat \<Rightarrow> string \<Rightarrow> file_stat option"
  os_realpath :: "nat \<Rightarrow> string \<Rightarrow> string option"
  os_open :: "nat \<Rightarrow> string \<Rightarrow> nat option"
  os_fstat :: "nat \<Rightarrow> nat \<Rightarrow> file_stat option"
  os_read :: "nat \<Rightarrow> nat \<Rightarrow> int \<Rightarrow> nat list option"

text \<open>The file type of a mode, as \<^verbatim>\<open>stat.S_ISLNK\<close>, \<^verbatim>\<open>S_ISDIR\<close> and \<^verbatim>\<open>S_ISREG\<close> read it.\<close>

definition mode_type :: "int \<Rightarrow> int" where "mode_type m = m div 4096 mod 16"

definition is_link :: "file_stat \<Rightarrow> bool" where "is_link s = (mode_type (st_mode s) = 10)"
definition is_directory :: "file_stat \<Rightarrow> bool" where "is_directory s = (mode_type (st_mode s) = 4)"
definition is_regular :: "file_stat \<Rightarrow> bool" where "is_regular s = (mode_type (st_mode s) = 8)"

type_synonym path_id = "int \<times> int \<times> int"

definition path_identity :: "file_stat \<Rightarrow> path_id" where
  "path_identity s = (st_dev s, st_ino s, st_mode s)"

definition file_identity :: "file_stat \<Rightarrow> path_id \<times> int \<times> int \<times> int" where
  "file_identity s = (path_identity s, st_size s, st_mtime_ns s, st_ctime_ns s)"

definition file_open_identity :: "file_stat \<Rightarrow> path_id \<times> int \<times> int" where
  "file_open_identity s = (path_identity s, st_size s, st_mtime_ns s)"

text \<open>Actions: a result and the moment after the calls that were made.\<close>

type_synonym ('e, 'a) action = "nat \<Rightarrow> ('e + 'a) \<times> nat"

type_synonym 'a act = "(stream_error, 'a) action"

definition areturn :: "'a \<Rightarrow> ('e, 'a) action" where "areturn x t = (Inr x, t)"

definition araise :: "'e \<Rightarrow> ('e, 'a) action" where "araise e t = (Inl e, t)"

definition abind :: "('e, 'a) action \<Rightarrow> ('a \<Rightarrow> ('e, 'b) action) \<Rightarrow> ('e, 'b) action" where
  "abind m f t = (case m t of (Inl e, t') \<Rightarrow> (Inl e, t') | (Inr x, t') \<Rightarrow> f x t')"

definition arequire :: "bool \<Rightarrow> 'e \<Rightarrow> ('e, unit) action" where
  "arequire b e = (if b then areturn () else araise e)"

definition ask :: "(nat \<Rightarrow> 'a option) \<Rightarrow> 'e \<Rightarrow> ('e, 'a) action" where
  "ask q e t = (case q t of None \<Rightarrow> Inl e | Some x \<Rightarrow> Inr x, Suc t)"

subsection \<open>Confined opening\<close>

text \<open>
  The root: every component of its path must be a directory and no link, and resolving it must not
  move it. The error raised inside the guarded part is itself a \<^verbatim>\<open>ValueError\<close>, so it is replaced by
  the error of the handler.
\<close>

definition root_unavailable :: stream_error where
  "root_unavailable = IntegrityError ''artifact source root is unavailable''"

definition trusted_directory :: "file_stat \<Rightarrow> bool" where
  "trusted_directory s = (\<not> is_link s \<and> is_directory s)"

fun walk_root :: "os_files \<Rightarrow> string \<Rightarrow> string list \<Rightarrow> unit act" where
  "walk_root os current [] = areturn ()"
| "walk_root os current (p # ps) =
     (let next = path_join current p
      in abind (ask (\<lambda>t. os_lstat os t next) root_unavailable) (\<lambda>observed.
         abind (arequire (trusted_directory observed) root_unavailable) (\<lambda>_.
           walk_root os next ps)))"

definition resolved_root :: "os_files \<Rightarrow> string \<Rightarrow> (string \<times> path_id) act" where
  "resolved_root os raw =
     (let candidate = (if is_absolute raw then pure_path raw else path_join (os_cwd os) raw)
      in abind (walk_root os (path_of (path_root candidate) []) (path_parts candidate)) (\<lambda>_.
         abind (ask (\<lambda>t. os_realpath os t candidate) root_unavailable) (\<lambda>resolved.
         abind (ask (\<lambda>t. os_lstat os t resolved) root_unavailable) (\<lambda>observed.
         abind (arequire (resolved = candidate \<and> trusted_directory observed)
                  (IntegrityError ''artifact source root is not trusted'')) (\<lambda>_.
           areturn (resolved, path_identity observed))))))"

definition canonical_relative :: "string \<Rightarrow> stream_error + string list" where
  "canonical_relative v =
     (if v = [] \<or> bslash \<in> set v then Inl (IntegrityError ''artifact source path is not portable'')
      else if is_absolute v \<or> ''..'' \<in> set (path_parts v)
      then Inl (IntegrityError ''artifact source path is not confined'')
      else Inr (path_parts v))"

record artifact_source =
  src_occurrence :: artifact_occurrence
  src_root :: string
  src_root_identity :: path_id
  src_artifact_identity :: path_id

definition src_candidate :: "artifact_source \<Rightarrow> artifact_candidate" where
  "src_candidate src = oc_candidate (src_occurrence src)"

definition not_opened :: stream_error where
  "not_opened = IntegrityError ''artifact source could not be opened''"

text \<open>The components below the root with their identities; only the last may be no directory.\<close>

fun walk_components :: "os_files \<Rightarrow> string \<Rightarrow> string list \<Rightarrow> (string \<times> (string \<times> path_id) list) act" where
  "walk_components os current [] = areturn (current, [])"
| "walk_components os current (p # ps) =
     (let next = path_join current p
      in abind (ask (\<lambda>t. os_lstat os t next) not_opened) (\<lambda>observed.
         abind (arequire (\<not> is_link observed)
                  (IntegrityError ''artifact source path contains a symbolic link'')) (\<lambda>_.
         abind (arequire (ps = [] \<or> is_directory observed)
                  (IntegrityError ''artifact source parent is not a directory'')) (\<lambda>_.
         abind (walk_components os next ps) (\<lambda>(final, rest).
           areturn (final, (next, path_identity observed) # rest))))))"

type_synonym opened = "nat \<times> string \<times> file_stat \<times> (string \<times> path_id) list"

definition open_descriptor :: "os_files \<Rightarrow> artifact_source \<Rightarrow> bool \<Rightarrow> opened act" where
  "open_descriptor os src enforce =
     abind (resolved_root os (src_root src)) (\<lambda>(base, identity).
     abind (arequire (base = src_root src \<and> identity = src_root_identity src)
              (IntegrityError ''artifact source root identity changed'')) (\<lambda>_.
     (case canonical_relative (ac_path (src_candidate src)) of
        Inl e \<Rightarrow> araise e
      | Inr parts \<Rightarrow>
          abind (walk_components os base parts) (\<lambda>(current, cs).
          abind (ask (\<lambda>t. os_realpath os t current) not_opened) (\<lambda>resolved.
          abind (arequire (relative_to resolved base \<noteq> None) not_opened) (\<lambda>_.
          abind (arequire (resolved = current) (IntegrityError ''artifact source path escaped confinement'')) (\<lambda>_.
          abind (ask (\<lambda>t. os_lstat os t current) not_opened) (\<lambda>before.
          abind (arequire (is_regular before) (IntegrityError ''artifact source is not a regular file'')) (\<lambda>_.
          abind (arequire (st_size before = ac_size (src_candidate src))
                   (IntegrityError ''artifact source size changed'')) (\<lambda>_.
          abind (ask (\<lambda>t. os_open os t current) not_opened) (\<lambda>fd.
          abind (ask (\<lambda>t. os_fstat os t fd) not_opened) (\<lambda>found.
          abind (arequire (is_regular found \<and> file_open_identity found = file_open_identity before)
                   (IntegrityError ''artifact source identity changed during open'')) (\<lambda>_.
          abind (arequire (enforce \<longrightarrow> path_identity found = src_artifact_identity src)
                   (IntegrityError ''artifact source identity changed'')) (\<lambda>_.
            areturn (fd, current, found, cs)))))))))))))))"

text \<open>Issuing a source: the root is resolved, the file opened once, and its identity recorded.\<close>

definition source_from_snapshot :: "os_files \<Rightarrow> artifact_occurrence \<Rightarrow> string \<Rightarrow> artifact_source act" where
  "source_from_snapshot os occ r =
     abind (resolved_root os r) (\<lambda>(base, identity).
       (let src = \<lparr>src_occurrence = occ, src_root = base, src_root_identity = identity,
                   src_artifact_identity = (0, 0, 0)\<rparr>
        in abind (open_descriptor os src False) (\<lambda>(fd, path, found, cs).
             areturn (src\<lparr>src_artifact_identity := path_identity found\<rparr>))))"

definition artifact_source_from_snapshot ::
  "os_files \<Rightarrow> repository_identity \<Rightarrow> string \<Rightarrow> string \<Rightarrow> artifact_candidate \<Rightarrow> snapshot_role
    \<Rightarrow> artifact_source act" where
  "artifact_source_from_snapshot os repository head r candidate role =
     source_from_snapshot os
       \<lparr>oc_repository = repository, oc_role = role, oc_commit = head, oc_candidate = candidate\<rparr> (pure_path r)"

subsection \<open>The scan object\<close>

text \<open>
  \<open>as_bytes\<close> are the bytes that both hash objects have been fed, in order; \<open>as_clock\<close> is the moment
  of the next call.
\<close>

record artifact_scan =
  as_source :: artifact_source
  as_purpose :: scan_purpose
  as_limits :: streaming_limits
  maximum_read_request :: int
  as_descriptor :: nat
  as_path :: string
  as_opened :: file_stat
  as_components :: "(string \<times> path_id) list"
  as_bytes :: "nat list"
  as_integrity :: int
  as_semantic :: int
  as_peak :: int
  as_eof :: bool
  as_finished :: bool
  as_closed :: bool
  as_clock :: nat

type_synonym 'a scan_act = "artifact_scan \<Rightarrow> (stream_error + 'a) \<times> artifact_scan"

definition trace_prefix :: "nat list" where
  "trace_prefix = utf8 ''claimci-evidence-trace-bytes-v1'' @ [0]"

definition open_scan ::
  "os_files \<Rightarrow> artifact_source \<Rightarrow> scan_purpose \<Rightarrow> streaming_limits \<Rightarrow> artifact_scan act" where
  "open_scan os src purpose limits t =
     (case open_descriptor os src True t of
        (Inl e, t') \<Rightarrow> (Inl e, t')
      | (Inr (fd, path, found, cs), t') \<Rightarrow>
          (Inr \<lparr>as_source = src, as_purpose = purpose, as_limits = limits, maximum_read_request = 0,
                as_descriptor = fd, as_path = path, as_opened = found, as_components = cs,
                as_bytes = [], as_integrity = 0, as_semantic = 0, as_peak = 0, as_eof = False,
                as_finished = False, as_closed = False, as_clock = t'\<rparr>, t'))"

definition read_chunk :: "os_files \<Rightarrow> int \<Rightarrow> nat list scan_act" where
  "read_chunk os maximum s =
     (if as_closed s \<or> as_finished s then (Inl (IntegrityError ''artifact scan is not readable''), s)
      else if \<not> (1 \<le> maximum \<and> maximum \<le> read_chunk_bytes)
      then (Inl (LimitError ''stream read request exceeds the chunk bound''), s)
      else
        (let request = min maximum (max 1 (max_integrity_bytes (as_limits s) - as_integrity s));
             s1 = s\<lparr>maximum_read_request := max (maximum_read_request s) request, as_clock := Suc (as_clock s)\<rparr>
         in case os_read os (as_clock s) (as_descriptor s) request of
              None \<Rightarrow> (Inl (IntegrityError ''artifact source read failed''), s1)
            | Some [] \<Rightarrow> (Inr [], s1\<lparr>as_eof := True\<rparr>)
            | Some (b # bs) \<Rightarrow>
                (let s2 = s1\<lparr>as_integrity := as_integrity s + int (length (b # bs)), as_bytes := as_bytes s @ b # bs\<rparr>
                 in if max_integrity_bytes (as_limits s) < as_integrity s2
                    then (Inl (LimitError ''artifact exceeds the integrity-I/O budget''), s2)
                    else (Inr (b # bs), s2))))"

definition note_semantic_bytes :: "int \<Rightarrow> int \<Rightarrow> unit scan_act" where
  "note_semantic_bytes n buffered s =
     (if n < 0 then (Inl (StreamError (TypeError ''semantic byte count must be a non-negative integer'')), s)
      else if buffered < 0
      then (Inl (StreamError (TypeError ''buffered byte count must be a non-negative integer'')), s)
      else (Inr (), s\<lparr>as_semantic := as_semantic s + n, as_peak := max (as_peak s) buffered\<rparr>))"

text \<open>Reading to the end: every block that is not refused shrinks what is left of the budget.\<close>

lemma read_chunk_Inr:
  assumes "read_chunk os m s = (Inr block, s')"
  shows "as_limits s' = as_limits s" "block = [] \<Longrightarrow> as_eof s'"
    "block \<noteq> [] \<Longrightarrow> as_eof s' = as_eof s \<and> as_integrity s < as_integrity s'
       \<and> as_integrity s' \<le> max_integrity_bytes (as_limits s)"
  using assms by (auto simp: read_chunk_def Let_def split: if_splits option.splits list.splits)

function drain :: "os_files \<Rightarrow> unit scan_act" where
  "drain os s =
     (if as_eof s then (Inr (), s)
      else case read_chunk os (read_chunk_bytes) s of
             (Inl e, s') \<Rightarrow> (Inl e, s')
           | (Inr _, s') \<Rightarrow> drain os s')"
  by pat_completeness auto
termination
proof (relation "measure (\<lambda>(os, s). if as_eof s then 0 else
      Suc (nat (max_integrity_bytes (as_limits s) - as_integrity s)))")
  fix os s x s' u
  assume "\<not> as_eof s" and p: "(x, s') = read_chunk os (read_chunk_bytes) s" "x = Inr u"
  from p have rc: "read_chunk os (read_chunk_bytes) s = (Inr u, s')" by simp
  show "((os, s'), os, s) \<in> measure (\<lambda>(os, s). if as_eof s then 0 else
      Suc (nat (max_integrity_bytes (as_limits s) - as_integrity s)))"
    using read_chunk_Inr [OF rc] \<open>\<not> as_eof s\<close> by (cases "u = []") auto
qed simp

declare drain.simps [simp del]

text \<open>The source must still be the one that was opened.\<close>

definition not_revalidated :: stream_error where
  "not_revalidated = IntegrityError ''artifact source identity could not be revalidated''"

fun check_parents :: "os_files \<Rightarrow> (string \<times> path_id) list \<Rightarrow> unit act" where
  "check_parents os [] = areturn ()"
| "check_parents os ((path, identity) # cs) =
     abind (ask (\<lambda>t. os_lstat os t path) not_revalidated) (\<lambda>observed.
     abind (arequire (path_identity observed = identity)
              (IntegrityError ''artifact source parent changed during scan'')) (\<lambda>_.
       check_parents os cs))"

definition verify_stable_source :: "os_files \<Rightarrow> artifact_scan \<Rightarrow> unit act" where
  "verify_stable_source os s =
     abind (ask (\<lambda>t. os_fstat os t (as_descriptor s)) not_revalidated) (\<lambda>after.
     abind (arequire (file_identity after = file_identity (as_opened s))
              (IntegrityError ''artifact source descriptor changed during scan'')) (\<lambda>_.
     abind (resolved_root os (src_root (as_source s))) (\<lambda>(base, identity).
     abind (arequire (base = src_root (as_source s) \<and> identity = src_root_identity (as_source s))
              (IntegrityError ''artifact source root changed during scan'')) (\<lambda>_.
     abind (check_parents os (butlast (as_components s))) (\<lambda>_.
     abind (ask (\<lambda>t. os_lstat os t (as_path s)) not_revalidated) (\<lambda>named.
       arequire (file_open_identity named = file_open_identity (as_opened s))
         (IntegrityError ''artifact source pathname changed during scan'')))))))"

definition final_state ::
  "bool \<Rightarrow> scan_state option \<Rightarrow> scan_reason option \<Rightarrow> stream_error + scan_state \<times> scan_reason" where
  "final_state semantic_complete st reason =
     (if semantic_complete then Inr (SS_COMPLETE, SR_COMPLETE)
      else
        (let st' = (case st of None \<Rightarrow> INCOMPLETE_BUDGET | Some x \<Rightarrow> x);
             reason' = (case reason of None \<Rightarrow> SEMANTIC_BYTE_BUDGET | Some x \<Rightarrow> x)
         in if st' = SS_COMPLETE
            then Inl (StreamError (AnalysisContractError ''an incomplete semantic scan cannot claim complete state''))
            else Inr (st', reason')))"

definition scan_report ::
  "artifact_scan \<Rightarrow> int \<Rightarrow> scan_state \<times> scan_reason \<Rightarrow> int \<Rightarrow> stream_error + scan_completeness" where
  "scan_report s records fin scratch =
     (case new_completeness
        \<lparr>sc_purpose = as_purpose s, sc_state = fst fin, sc_reason = snd fin, records_scanned = records,
         sc_semantic_bytes = as_semantic s, sc_integrity_bytes = as_integrity s,
         expected_bytes = ac_size (src_candidate (as_source s)), integrity_verified = True,
         peak_buffer_bytes = as_peak s, scratch_bytes = scratch\<rparr> of
        Inl e \<Rightarrow> Inl (StreamError e)
      | Inr c \<Rightarrow> Inr c)"

text \<open>What remains to be checked of a drained and stable scan.\<close>

definition conclude ::
  "(nat list \<Rightarrow> string) \<Rightarrow> artifact_scan \<Rightarrow> int \<Rightarrow> bool \<Rightarrow> scan_state option \<Rightarrow> scan_reason option \<Rightarrow> int
    \<Rightarrow> stream_error + scan_completeness" where
  "conclude sha s records semantic_complete st reason scratch =
     (if as_integrity s \<noteq> ac_size (src_candidate (as_source s))
      then Inl (IntegrityError ''artifact integrity size mismatch'')
      else if sha (as_bytes s) \<noteq> ac_sha256 (src_candidate (as_source s))
      then Inl (IntegrityError ''artifact integrity sha256 mismatch'')
      else sbind (final_state semantic_complete st reason) (\<lambda>fin. scan_report s records fin scratch))"

definition finish ::
  "os_files \<Rightarrow> (nat list \<Rightarrow> string) \<Rightarrow> int \<Rightarrow> bool \<Rightarrow> scan_state option \<Rightarrow> scan_reason option \<Rightarrow> int
    \<Rightarrow> scan_completeness scan_act" where
  "finish os sha records semantic_complete st reason scratch s =
     (if as_closed s \<or> as_finished s then (Inl (IntegrityError ''artifact scan cannot be finished twice''), s)
      else case drain os s of
        (Inl e, s1) \<Rightarrow> (Inl e, s1)
      | (Inr _, s1) \<Rightarrow>
          (case verify_stable_source os s1 (as_clock s1) of
             (Inl e, t) \<Rightarrow> (Inl e, s1\<lparr>as_clock := t\<rparr>)
           | (Inr _, t) \<Rightarrow>
               (let s2 = s1\<lparr>as_clock := t\<rparr>
                in case conclude sha s2 records semantic_complete st reason scratch of
                     Inl e \<Rightarrow> (Inl e, s2)
                   | Inr report \<Rightarrow> (Inr report, s2\<lparr>as_finished := True\<rparr>))))"

definition close_scan :: "artifact_scan \<Rightarrow> artifact_scan" where
  "close_scan s = s\<lparr>as_closed := True\<rparr>"

definition trace_sha256 :: "(nat list \<Rightarrow> string) \<Rightarrow> artifact_scan \<Rightarrow> stream_error + string" where
  "trace_sha256 sha s =
     (if \<not> as_finished s then Inl (IntegrityError ''trace digest requires a finished scan'')
      else Inr (sha (trace_prefix @ as_bytes s)))"

subsection \<open>Facts\<close>

lemma new_limits_Inr:
  "new_limits l = Inr l' \<Longrightarrow> l' = l \<and> (\<forall>(label, v, maximum) \<in> set (limit_table l). 1 \<le> v \<and> v \<le> maximum)"
proof -
  have "check_limits ls = Inr u \<Longrightarrow> \<forall>(label, v, maximum) \<in> set ls. 1 \<le> v \<and> v \<le> maximum" for ls u
    by (induction ls rule: check_limits.induct) (auto simp: sbind_eq_Inr positive_int_def aensure_Inr)
  then show "new_limits l = Inr l' \<Longrightarrow> ?thesis" unfolding new_limits_def sbind_eq_Inr by blast
qed

lemma new_completeness_Inr:
  assumes "new_completeness c = Inr r"
  shows "r = c" "integrity_verified c \<Longrightarrow> sc_integrity_bytes c = expected_bytes c"
    "scan_is_complete c \<Longrightarrow> integrity_verified c \<and> sc_reason c = SR_COMPLETE"
    "\<not> scan_is_complete c \<Longrightarrow> sc_reason c \<noteq> SR_COMPLETE" "sc_semantic_bytes c \<le> sc_integrity_bytes c"
  using assms unfolding new_completeness_def sbind_eq_Inr aensure_Inr scan_is_complete_def
  by (auto simp: aensure_Inr split: if_splits)

lemma abind_Inr:
  "abind m f t = (Inr y, t'') \<longleftrightarrow> (\<exists>x t'. m t = (Inr x, t') \<and> f x t' = (Inr y, t''))"
  by (auto simp: abind_def split: prod.splits sum.splits)

lemma arequire_Inr: "arequire b e t = (Inr u, t') \<longleftrightarrow> b \<and> t' = t"
  by (auto simp: arequire_def areturn_def araise_def)

lemma ask_Inr: "ask q e t = (Inr x, t') \<longleftrightarrow> q t = Some x \<and> t' = Suc t"
  by (auto simp: ask_def split: option.splits)

lemma areturn_Inr: "areturn x t = (Inr y, t') \<longleftrightarrow> y = x \<and> t' = t"
  by (auto simp: areturn_def)

lemmas act_simps = abind_Inr arequire_Inr ask_Inr areturn_Inr

text \<open>What an operation leaves of a scan: the source, the budgets and the opening never change.\<close>

definition same_scan :: "artifact_scan \<Rightarrow> artifact_scan \<Rightarrow> bool" where
  "same_scan s s' =
     (as_source s' = as_source s \<and> as_purpose s' = as_purpose s \<and> as_limits s' = as_limits s
      \<and> as_opened s' = as_opened s \<and> as_descriptor s' = as_descriptor s)"

lemma same_scan_refl [simp]: "same_scan s s"
  by (simp add: same_scan_def)

lemma same_scan_trans: "same_scan s s' \<Longrightarrow> same_scan s' s'' \<Longrightarrow> same_scan s s''"
  by (simp add: same_scan_def)

definition hashed_all :: "artifact_scan \<Rightarrow> bool" where
  "hashed_all s = (as_integrity s = int (length (as_bytes s)))"

lemma read_chunk_same:
  assumes "read_chunk os m s = (r, s')"
  shows "same_scan s s' \<and> (hashed_all s \<longrightarrow> hashed_all s') \<and> as_finished s' = as_finished s \<and> as_closed s' = as_closed s
    \<and> as_semantic s' = as_semantic s \<and> as_peak s' = as_peak s \<and> (\<exists>bs. as_bytes s' = as_bytes s @ bs)
    \<and> (as_finished s \<longrightarrow> s' = s) \<and> (as_eof s \<longrightarrow> as_eof s')"
proof (cases "as_closed s \<or> as_finished s \<or> \<not> (1 \<le> m \<and> m \<le> read_chunk_bytes)")
  case True
  then have "s' = s" using assms by (auto simp: read_chunk_def split: if_splits)
  then show ?thesis by simp
next
  case False
  let ?q = "min m (max 1 (max_integrity_bytes (as_limits s) - as_integrity s))"
  show ?thesis
  proof (cases "os_read os (as_clock s) (as_descriptor s) ?q")
    case None
    with False assms show ?thesis by (clarsimp simp: read_chunk_def Let_def same_scan_def hashed_all_def)
  next
    case (Some bs)
    with False assms show ?thesis
      by (cases bs) (clarsimp simp: read_chunk_def Let_def same_scan_def hashed_all_def split: if_splits)+
  qed
qed

lemma drain_same:
  "drain os s = (r, s') \<Longrightarrow> same_scan s s' \<and> (hashed_all s \<longrightarrow> hashed_all s') \<and> as_finished s' = as_finished s
     \<and> as_closed s' = as_closed s \<and> as_semantic s' = as_semantic s \<and> as_peak s' = as_peak s
     \<and> (\<exists>bs. as_bytes s' = as_bytes s @ bs) \<and> (\<forall>u. r = Inr u \<longrightarrow> as_eof s')"
proof (induction os s rule: drain.induct)
  case (1 os s)
  show ?case
  proof (cases "as_eof s")
    case True
    with 1(2) show ?thesis by (subst (asm) drain.simps) auto
  next
    case False
    obtain q s1 where q: "read_chunk os (read_chunk_bytes) s = (q, s1)" by fastforce
    note rc = read_chunk_same [OF q]
    note IH = 1(1) [OF False q [symmetric]]
    show ?thesis
    proof (cases q)
      case (Inl e)
      with 1(2) False q show ?thesis using rc by (subst (asm) drain.simps) auto
    next
      case (Inr b)
      with 1(2) False q have d: "drain os s1 = (r, s')" by (subst (asm) drain.simps) simp
      from IH [OF Inr d] obtain bs where
        "same_scan s1 s' \<and> (hashed_all s1 \<longrightarrow> hashed_all s') \<and> as_finished s' = as_finished s1
           \<and> as_closed s' = as_closed s1 \<and> as_semantic s' = as_semantic s1 \<and> as_peak s' = as_peak s1
           \<and> (\<forall>u. r = Inr u \<longrightarrow> as_eof s') \<and> as_bytes s' = as_bytes s1 @ bs" by blast
      then show ?thesis using rc same_scan_trans by (metis append.assoc)
    qed
  qed
qed

lemma conclude_Inr:
  assumes "conclude sha s records full st reason scratch = Inr report"
  shows "as_integrity s = ac_size (src_candidate (as_source s))"
    "sha (as_bytes s) = ac_sha256 (src_candidate (as_source s))"
    "integrity_verified report" "expected_bytes report = ac_size (src_candidate (as_source s))"
    "sc_integrity_bytes report = as_integrity s" "records_scanned report = records"
    "scan_is_complete report \<longleftrightarrow> full" "sc_semantic_bytes report \<le> sc_integrity_bytes report"
  using assms unfolding conclude_def scan_report_def final_state_def scan_is_complete_def
  by (auto simp: sbind_eq_Inr Let_def dest: new_completeness_Inr(1,5) split: if_splits sum.splits)

lemma finish_Inr:
  assumes "finish os sha records full st reason scratch s = (Inr report, s')"
  obtains s1 t u where "\<not> as_finished s" "drain os s = (Inr u, s1)" "verify_stable_source os s1 (as_clock s1) = (Inr (), t)"
    "conclude sha (s1\<lparr>as_clock := t\<rparr>) records full st reason scratch = Inr report"
    "s' = s1\<lparr>as_clock := t, as_finished := True\<rparr>"
  using assms by (auto simp: finish_def Let_def split: if_splits prod.splits sum.splits)

lemma finish_same:
  assumes "finish os sha records full st reason scratch s = (r, s')"
  shows "same_scan s s' \<and> (hashed_all s \<longrightarrow> hashed_all s') \<and> as_closed s' = as_closed s \<and> as_semantic s' = as_semantic s"
    "r = Inl e \<Longrightarrow> as_finished s' = as_finished s"
proof -
  obtain q s1 where d: "drain os s = (q, s1)" by fastforce
  note same = drain_same [OF d]
  have c: "same_scan s (s1\<lparr>as_clock := t\<rparr>)" "hashed_all (s1\<lparr>as_clock := t\<rparr>) = hashed_all s1"
    "same_scan s (s1\<lparr>as_clock := t, as_finished := True\<rparr>)"
    "hashed_all (s1\<lparr>as_clock := t, as_finished := True\<rparr>) = hashed_all s1" for t
    using same by (simp_all add: same_scan_def hashed_all_def)
  show "same_scan s s' \<and> (hashed_all s \<longrightarrow> hashed_all s') \<and> as_closed s' = as_closed s \<and> as_semantic s' = as_semantic s"
    "r = Inl e \<Longrightarrow> as_finished s' = as_finished s"
    using assms same c by (auto simp: finish_def d Let_def split: if_splits prod.splits sum.splits)
qed

subsection \<open>Reachable scans\<close>

text \<open>Any sequence of operations on a scan, failed ones included.\<close>

inductive scan_reach :: "os_files \<Rightarrow> (nat list \<Rightarrow> string) \<Rightarrow> artifact_scan \<Rightarrow> artifact_scan \<Rightarrow> bool"
  for os sha s0 where
  start: "scan_reach os sha s0 s0"
| read: "scan_reach os sha s0 s \<Longrightarrow> read_chunk os m s = (r, s') \<Longrightarrow> scan_reach os sha s0 s'"
| semantic: "scan_reach os sha s0 s \<Longrightarrow> note_semantic_bytes n b s = (r', s') \<Longrightarrow> scan_reach os sha s0 s'"
| fin: "scan_reach os sha s0 s \<Longrightarrow> finish os sha n full st reason k s = (r'', s') \<Longrightarrow> scan_reach os sha s0 s'"
| close: "scan_reach os sha s0 s \<Longrightarrow> scan_reach os sha s0 (close_scan s)"

definition verified_bytes :: "(nat list \<Rightarrow> string) \<Rightarrow> artifact_scan \<Rightarrow> bool" where
  "verified_bytes sha s =
     (sha (as_bytes s) = ac_sha256 (src_candidate (as_source s))
      \<and> int (length (as_bytes s)) = ac_size (src_candidate (as_source s)) \<and> as_eof s)"

definition scan_inv :: "(nat list \<Rightarrow> string) \<Rightarrow> artifact_scan \<Rightarrow> artifact_scan \<Rightarrow> bool" where
  "scan_inv sha s0 s = (same_scan s0 s \<and> hashed_all s \<and> (as_finished s \<longrightarrow> verified_bytes sha s))"

lemma note_same:
  "note_semantic_bytes n b s = (r, s') \<Longrightarrow>
     same_scan s s' \<and> as_bytes s' = as_bytes s \<and> as_integrity s' = as_integrity s
     \<and> as_finished s' = as_finished s \<and> as_eof s' = as_eof s"
  by (auto simp: note_semantic_bytes_def same_scan_def split: if_splits)

lemma finish_verified:
  assumes "finish os sha n full st reason k s = (Inr report, s')" "hashed_all s"
  shows "verified_bytes sha s'"
proof -
  obtain s1 t u where d: "drain os s = (Inr u, s1)"
    and c: "conclude sha (s1\<lparr>as_clock := t\<rparr>) n full st reason k = Inr report"
    and s': "s' = s1\<lparr>as_clock := t, as_finished := True\<rparr>"
    using assms(1) by (elim finish_Inr) metis
  have "hashed_all s1" "as_eof s1" using drain_same [OF d] assms(2) by auto
  with conclude_Inr(1,2) [OF c] show ?thesis by (simp add: s' verified_bytes_def hashed_all_def)
qed

lemma finish_finished:
  "as_finished s \<Longrightarrow> finish os sha n full st reason k s = (r, s') \<Longrightarrow> s' = s"
  by (auto simp: finish_def)

lemma scan_inv_step:
  assumes "scan_inv sha s0 s" "same_scan s s'" "hashed_all s'" "as_finished s' \<Longrightarrow> verified_bytes sha s'"
  shows "scan_inv sha s0 s'"
  using assms same_scan_trans by (auto simp: scan_inv_def)

lemma scan_reach_inv:
  assumes "scan_reach os sha s0 s" and "scan_inv sha s0 s0"
  shows "scan_inv sha s0 s"
  using assms
proof (induction rule: scan_reach.induct)
  case (read s m r s')
  then have i: "scan_inv sha s0 s" by blast
  show ?case
  proof (rule scan_inv_step [OF i])
    show "same_scan s s'" "hashed_all s'"
      using read_chunk_same [OF read.hyps(2)] i by (auto simp: scan_inv_def)
    show "as_finished s' \<Longrightarrow> verified_bytes sha s'"
      using read_chunk_same [OF read.hyps(2)] i by (auto simp: scan_inv_def)
  qed
next
  case (semantic s n b r' s')
  then have i: "scan_inv sha s0 s" by blast
  show ?case
    using note_same [OF semantic.hyps(2)] i
    by (intro scan_inv_step [OF i]) (auto simp: scan_inv_def hashed_all_def verified_bytes_def same_scan_def)
next
  case (fin s n full st reason k r'' s')
  then have i: "scan_inv sha s0 s" by blast
  show ?case
  proof (cases "as_finished s")
    case True
    with fin.hyps(2) have "s' = s" by (rule finish_finished [rotated])
    with i show ?thesis by simp
  next
    case False
    show ?thesis
    proof (rule scan_inv_step [OF i])
      show "same_scan s s'" "hashed_all s'" using finish_same(1) [OF fin.hyps(2)] i by (auto simp: scan_inv_def)
      show "verified_bytes sha s'" if "as_finished s'"
      proof (cases r'')
        case (Inl e)
        with finish_same(2) [OF fin.hyps(2) Inl] False that show ?thesis by simp
      next
        case (Inr report)
        with fin.hyps(2) i show ?thesis by (auto simp: scan_inv_def intro: finish_verified)
      qed
    qed
  qed
next
  case (close s)
  then show ?case by (auto simp: scan_inv_def close_scan_def same_scan_def hashed_all_def verified_bytes_def)
qed

lemma open_scan_inv:
  "open_scan os src purpose limits t = (Inr s0, t') \<Longrightarrow>
     scan_inv sha s0 s0 \<and> as_source s0 = src \<and> as_limits s0 = limits"
  by (auto simp: open_scan_def scan_inv_def hashed_all_def split: prod.splits sum.splits)

subsection \<open>A small file system\<close>

text \<open>A file of two bytes below the root directory, delivered one byte at a time.\<close>

definition demo_stat :: "int \<Rightarrow> int \<Rightarrow> file_stat" where
  "demo_stat kind sz =
     \<lparr>st_dev = 1, st_ino = kind, st_mode = kind * 4096, st_size = sz, st_mtime_ns = 0, st_ctime_ns = 0\<rparr>"

definition demo_os :: "nat \<Rightarrow> os_files" where
  "demo_os opened_at =
     \<lparr>os_cwd = ''/'',
      os_lstat = (\<lambda>t p. Some (if p = ''/'' then demo_stat 4 0 else demo_stat 8 2)),
      os_realpath = (\<lambda>t p. Some p), os_open = (\<lambda>t p. Some 3), os_fstat = (\<lambda>t fd. Some (demo_stat 8 2)),
      os_read = (\<lambda>t fd n. Some ((if n < 1 then [] else if t = opened_at then [7] else if t = Suc opened_at then [8] else [])))\<rparr>"

definition demo_provenance :: provenance where
  "demo_provenance = \<lparr>pv_kind = DETERMINISTIC_DISCOVERY, pv_detail = ''d'', pv_source_path = None, pv_source_id = None\<rparr>"

definition demo_source :: artifact_source where
  "demo_source =
     \<lparr>src_occurrence =
        \<lparr>oc_repository = \<lparr>ri_owner = ''o'', ri_name = ''r''\<rparr>, oc_role = HEAD, oc_commit = ''c'',
         oc_candidate = \<lparr>ac_path = ''a.jsonl'', ac_kind = DATASET, ac_sha256 = ''0'', ac_size = 2,
           ac_confidence = fzero, discovery_reason = ''d'', relevant_claim_ids = [], ac_provenance = demo_provenance\<rparr>\<rparr>,
      src_root = ''/'', src_root_identity = (1, 4, 16384), src_artifact_identity = (1, 8, 32768)\<rparr>"

definition demo_scan :: "int \<Rightarrow> artifact_scan" where
  "demo_scan budget =
     \<lparr>as_source = demo_source, as_purpose = DATASET_RECORDS,
      as_limits = default_limits\<lparr>max_integrity_bytes := budget\<rparr>, maximum_read_request = 0,
      as_descriptor = 3, as_path = ''/a.jsonl'', as_opened = demo_stat 8 2,
      as_components = [(''/a.jsonl'', (1, 8, 32768))],
      as_bytes = [], as_integrity = 0, as_semantic = 0, as_peak = 0, as_eof = False, as_finished = False,
      as_closed = False, as_clock = 7\<rparr>"

lemma demo_opened:
  "open_scan (demo_os 7) demo_source DATASET_RECORDS (default_limits\<lparr>max_integrity_bytes := 5\<rparr>) 0
     = (Inr (demo_scan 5), 7)"
  by code_simp

lemma demo_finished:
  "case finish (demo_os 7) (\<lambda>_. ''0'') 0 True None None 0 (demo_scan 5) of (r, s) \<Rightarrow> as_finished s \<and> as_bytes s = [7, 8]"
  by code_simp

subsection \<open>Properties\<close>

text \<open>C16: whatever operations are made on an opened scan, in any order and with failures at any of
  them, a scan that is finished has read exactly the bytes of the issued digest and size, to the end
  of the file, and its trace digest is taken over the same bytes.\<close>

theorem finished_scan_verified:
  assumes "open_scan os src purpose limits t = (Inr s0, t')" and "scan_reach os sha s0 s" and "as_finished s"
  shows "sha (as_bytes s) = ac_sha256 (src_candidate src) \<and> int (length (as_bytes s)) = ac_size (src_candidate src)
    \<and> as_eof s \<and> trace_sha256 sha s = Inr (sha (trace_prefix @ as_bytes s))"
proof -
  note o = open_scan_inv [OF assms(1), of sha]
  have i: "scan_inv sha s0 s" using scan_reach_inv [OF assms(2)] o by blast
  then have "as_source s = src" using o by (simp add: scan_inv_def same_scan_def)
  with i assms(3) show ?thesis by (simp add: scan_inv_def verified_bytes_def trace_sha256_def)
qed

theorem finished_scan_verified_witness:
  "\<exists>s :: artifact_scan. as_finished s \<and> as_bytes s = [7, 8] \<and> as_eof s"
proof -
  let ?f = "finish (demo_os 7) (\<lambda>_. ''0'') 0 True None None 0 (demo_scan 5)"
  obtain r s where f: "?f = (r, s)" by fastforce
  then have s: "as_finished s" "as_bytes s = [7, 8]" using demo_finished by simp_all
  have "scan_reach (demo_os 7) (\<lambda>_. ''0'') (demo_scan 5) s"
    using scan_reach.fin [OF scan_reach.start f] .
  from finished_scan_verified [OF demo_opened this s(1)] s show ?thesis by (intro exI [of _ s]) simp
qed



text \<open>The operating system answers at most as many bytes as it is asked for.\<close>

definition honours_requests :: "os_files \<Rightarrow> bool" where
  "honours_requests os = (\<forall>t fd n bs. os_read os t fd n = Some bs \<longrightarrow> int (length bs) \<le> max 0 n)"

lemma read_chunk_budget:
  assumes "honours_requests os" and "read_chunk os m s = (r, s')"
    and "as_integrity s \<le> max_integrity_bytes (as_limits s)"
  shows "as_integrity s' \<le> max_integrity_bytes (as_limits s) + 1
    \<and> (\<forall>b. r = Inr b \<longrightarrow> as_integrity s' \<le> max_integrity_bytes (as_limits s)) \<and> as_limits s' = as_limits s"
proof -
  let ?q = "min m (max 1 (max_integrity_bytes (as_limits s) - as_integrity s))"
  have "int (length bs) \<le> max 1 (max_integrity_bytes (as_limits s) - as_integrity s)" if "os_read os (as_clock s) (as_descriptor s) ?q = Some bs" for bs
  proof -
    have "int (length bs) \<le> max 0 ?q" using assms(1) that by (auto simp: honours_requests_def)
    then show ?thesis by linarith
  qed
  then have "as_integrity s + int (length bs) \<le> max_integrity_bytes (as_limits s) + 1"
    if "os_read os (as_clock s) (as_descriptor s) ?q = Some bs" for bs
    using that assms(3) by fastforce
  then show ?thesis
    using assms(2,3) by (auto simp: read_chunk_def Let_def split: if_splits option.splits list.splits)
qed

text \<open>Reading to the end reads at most one byte more than the integrity budget, whatever the file
  holds or becomes, and succeeds only within the budget.\<close>

lemma drain_budget:
  "honours_requests os \<Longrightarrow> drain os s = (r, s') \<Longrightarrow> as_integrity s \<le> max_integrity_bytes (as_limits s) \<Longrightarrow>
     as_integrity s' \<le> max_integrity_bytes (as_limits s) + 1
     \<and> (r = Inr () \<longrightarrow> as_integrity s' \<le> max_integrity_bytes (as_limits s))"
proof (induction os s rule: drain.induct)
  case (1 os s)
  show ?case
  proof (cases "as_eof s")
    case True
    with 1 show ?thesis by (subst (asm) (2) drain.simps) auto
  next
    case False
    obtain q s1 where q: "read_chunk os (read_chunk_bytes) s = (q, s1)" by fastforce
    note b = read_chunk_budget [OF 1(2) q 1(4)]
    show ?thesis
    proof (cases q)
      case (Inl e)
      with 1(3) False q b show ?thesis by (subst (asm) drain.simps) auto
    next
      case (Inr x)
      with 1(3) False q have d: "drain os s1 = (r, s')" by (subst (asm) drain.simps) simp
      from 1(1) [OF False q [symmetric] Inr 1(2) d] b Inr show ?thesis by simp
    qed
  qed
qed

theorem drain_budget_witness:
  "as_integrity (snd (drain (demo_os 7) (demo_scan 5))) \<le> 6"
proof -
  have h: "honours_requests (demo_os 7)" by (simp add: honours_requests_def demo_os_def)
  obtain r s' where d: "drain (demo_os 7) (demo_scan 5) = (r, s')" by fastforce
  from drain_budget [OF h d] have "as_integrity s' \<le> max_integrity_bytes (as_limits (demo_scan 5)) + 1"
    by (simp add: demo_scan_def default_limits_def)
  moreover have "max_integrity_bytes (as_limits (demo_scan 5)) = 5" by (simp add: demo_scan_def)
  ultimately show ?thesis by (simp add: d)
qed


end
