(* ===== verification/StreamLines.thy ===== *)
theory StreamLines
  imports ArtifactScan
begin

section \<open>Lines and records of a scan\<close>

text \<open>
  The bounded line reader and the record checks of \<^verbatim>\<open>claimci/analysis/adapters/streaming.py\<close>. The
  reader is a generator: its local variables are the record \<open>line_gen\<close>, and \<open>next_line\<close> resumes it
  until it yields a line with its physical length, ends, or raises.
\<close>

subsection \<open>The line reader\<close>

record line_gen =
  lg_line :: "nat list"
  lg_physical :: int
  lg_block :: "nat list"
  lg_done :: bool

definition start_lines :: line_gen where
  "start_lines = \<lparr>lg_line = [], lg_physical = 0, lg_block = [], lg_done = False\<rparr>"

definition ends_cr :: "nat list \<Rightarrow> bool" where
  "ends_cr l = (l \<noteq> [] \<and> last l = 13)"

definition strip_cr :: "nat list \<Rightarrow> nat list" where
  "strip_cr l = (if ends_cr l then butlast l else l)"

definition record_too_long :: stream_error where
  "record_too_long = ScanStop INCOMPLETE_LIMIT LOGICAL_RECORD_LIMIT"

definition noted :: "int \<Rightarrow> int \<Rightarrow> artifact_scan \<Rightarrow> artifact_scan" where
  "noted n buffered s = snd (note_semantic_bytes n buffered s)"

text \<open>The bytes up to the next line feed, and what follows from it on.\<close>

definition segment_of :: "nat list \<Rightarrow> nat list" where
  "segment_of block = takeWhile (\<lambda>b. b \<noteq> 10) block"

definition rest_of :: "nat list \<Rightarrow> nat list" where
  "rest_of block = dropWhile (\<lambda>b. b \<noteq> 10) block"

lemma read_chunk_limits:
  "read_chunk os m s = (Inr (b # bs), s') \<Longrightarrow>
     as_limits s' = as_limits s \<and> as_integrity s' = as_integrity s + int (length (b # bs))
     \<and> as_integrity s' \<le> max_integrity_bytes (as_limits s)"
  by (auto simp: read_chunk_def Let_def split: if_splits option.splits list.splits)

lemma noted_limits [simp]:
  "as_limits (noted n b s) = as_limits s" "as_integrity (noted n b s) = as_integrity s"
  by (simp_all add: noted_def note_semantic_bytes_def)

definition budget_left :: "artifact_scan \<Rightarrow> nat" where
  "budget_left s = nat (max_integrity_bytes (as_limits s) - as_integrity s)"

lemma budget_noted [simp]: "budget_left (noted n b s) = budget_left s"
  by (simp add: budget_left_def)

lemma budget_read:
  "read_chunk os m s = (Inr (b # bs), s') \<Longrightarrow> budget_left s = budget_left s' + length (b # bs)"
  using read_chunk_limits by (fastforce simp: budget_left_def)

function next_line ::
  "os_files \<Rightarrow> int \<Rightarrow> line_gen \<Rightarrow> artifact_scan
    \<Rightarrow> (stream_error + (nat list \<times> int) option) \<times> line_gen \<times> artifact_scan" where
  "next_line os maximum g s =
     (if lg_done g then (Inr None, g, s)
      else case lg_block g of
        [] \<Rightarrow>
          (case read_chunk os read_chunk_bytes s of
             (Inl e, s') \<Rightarrow> (Inl e, g\<lparr>lg_done := True\<rparr>, s')
           | (Inr [], s') \<Rightarrow>
               (if lg_line g = [] then (Inr None, g\<lparr>lg_done := True\<rparr>, s')
                else if maximum < int (length (lg_line g)) then (Inl record_too_long, g\<lparr>lg_done := True\<rparr>, s')
                else (Inr (Some (lg_line g, lg_physical g)), g\<lparr>lg_done := True\<rparr>, s'))
           | (Inr (b # bs), s') \<Rightarrow> next_line os maximum (g\<lparr>lg_block := b # bs\<rparr>) s')
      | b # bs \<Rightarrow>
          (let segment = segment_of (b # bs); rest = rest_of (b # bs); old = int (length (lg_line g))
           in if maximum + 1 < old + int (length segment)
              then (Inl record_too_long, g\<lparr>lg_done := True\<rparr>, noted 0 (min old maximum) s)
              else
                (let line = lg_line g @ segment;
                     physical = lg_physical g + int (length segment);
                     s' = noted 0 (int (length (strip_cr line))) s
                 in case rest of
                      [] \<Rightarrow> next_line os maximum (g\<lparr>lg_line := line, lg_physical := physical, lg_block := []\<rparr>) s'
                    | _ # tail \<Rightarrow>
                        (let raw = strip_cr line
                         in if maximum < int (length raw) then (Inl record_too_long, g\<lparr>lg_done := True\<rparr>, s')
                            else (Inr (Some (raw, physical + 1)),
                                  g\<lparr>lg_line := [], lg_physical := 0, lg_block := tail\<rparr>, s')))))"
  by pat_completeness auto
termination
  by (relation "measure (\<lambda>(os, maximum, g, s). 2 * budget_left s + (if lg_block g = [] then 0 else 1))")
    (auto dest!: budget_read [OF sym])

declare next_line.simps [simp del]

subsection \<open>Record graphs\<close>

text \<open>
  The budget of nodes and depth of one decoded record: a stack of values with their depths; the
  keys of a mapping are visited in order, each before its value.
\<close>

fun is_container :: "pyval \<Rightarrow> bool" where
  "is_container (PList _) = True"
| "is_container (PTuple _) = True"
| "is_container (PDict _) = True"
| "is_container _ = False"

fun key_text :: "pyval \<Rightarrow> string" where
  "key_text (PStr s) = s"
| "key_text _ = []"

fun graph_children :: "pyval \<Rightarrow> pyval list" where
  "graph_children (PList vs) = vs"
| "graph_children (PTuple vs) = vs"
| "graph_children (PDict d) = concat (map (\<lambda>(k, v). [k, v]) (sort_key (\<lambda>(k, v). key_text k) d))"
| "graph_children _ = []"

lemma size_list_mset: "mset xs = mset ys \<Longrightarrow> size_list f xs = size_list f ys"
proof -
  assume m: "mset xs = mset ys"
  have "size_list f zs = sum_mset (image_mset f (mset zs)) + length zs" for zs
    by (induction zs) auto
  moreover have "length xs = length ys" using m by (metis size_mset)
  ultimately show ?thesis by (simp add: m)
qed

lemma graph_children_size: "is_container v \<Longrightarrow> size_list size (graph_children v) < size v"
proof (cases v)
  case (PDict d)
  have "size_list size (concat (map (\<lambda>(k, v). [k, v]) e)) = size_list (size_prod size size) e"
    for e :: "(pyval \<times> pyval) list" by (induction e) auto
  moreover have "size_list (size_prod size size) (sort_key (\<lambda>(k, v). key_text k) d)
      = size_list (size_prod size size) d"
    by (rule size_list_mset) simp
  ultimately show ?thesis using PDict by simp
qed auto

fun float_not_finite :: "pyval \<Rightarrow> bool" where
  "float_not_finite (PFloat x) = (\<not> isfinite x)"
| "float_not_finite _ = False"

text \<open>The sizes of the values on a stack, the measure of the traversal.\<close>

definition stack_size :: "(pyval \<times> int) list \<Rightarrow> nat" where
  "stack_size stack = size_list (\<lambda>(v, depth). size v) stack"

lemma stack_size_push:
  "stack_size (map (\<lambda>c. (c, d)) cs @ stack) = size_list size cs + stack_size stack"
  by (induction cs) (auto simp: stack_size_def)

function graph_loop :: "streaming_limits \<Rightarrow> int \<Rightarrow> (pyval \<times> int) list \<Rightarrow> stream_error + unit" where
  "graph_loop limits nodes [] = Inr ()"
| "graph_loop limits nodes ((current, depth) # stack) =
     (if max_nodes_per_record limits < nodes + 1 then Inl (ScanStop INCOMPLETE_LIMIT NODE_LIMIT)
      else if float_not_finite current then Inl (ScanStop SS_FAILED MALFORMED)
      else if \<not> is_container current then graph_loop limits (nodes + 1) stack
      else if max_depth limits < depth then Inl (ScanStop INCOMPLETE_LIMIT DEPTH_LIMIT)
      else graph_loop limits (nodes + 1) (map (\<lambda>c. (c, depth + 1)) (graph_children current) @ stack))"
  by pat_completeness auto
termination
proof (relation "measure (\<lambda>(limits, nodes, stack). stack_size stack)")
  fix limits nodes current depth stack
  assume "\<not> \<not> is_container current"
  then show "((limits, nodes + 1, map (\<lambda>c. (c, depth + 1)) (graph_children current) @ stack),
      limits, nodes, (current, depth) # stack) \<in> measure (\<lambda>(limits, nodes, stack). stack_size stack)"
    using graph_children_size [of current] by (simp add: stack_size_push) (simp add: stack_size_def)
qed (auto simp: stack_size_def)

definition validate_record_graph :: "streaming_limits \<Rightarrow> pyval \<Rightarrow> stream_error + unit" where
  "validate_record_graph limits v = graph_loop limits 0 [(v, if is_container v then 1 else 0)]"

subsection \<open>Record values\<close>

text \<open>The environment of a scan: the loaders of the in-memory checks and the decoding of UTF-8.\<close>

record stream_env = io_env +
  utf8_text :: "nat list \<Rightarrow> string option"

definition bytes_blank :: "nat list \<Rightarrow> bool" where
  "bytes_blank raw = list_all (\<lambda>b. b = 32 \<or> (9 \<le> b \<and> b \<le> 13)) raw"

text \<open>Decoding one record, the part that all record scanners share.\<close>

definition decode_record :: "'e stream_env_scheme \<Rightarrow> nat list \<Rightarrow> stream_error + pyval" where
  "decode_record env raw =
     (case utf8_text env raw of
        None \<Rightarrow> Inl (ScanStop SS_FAILED INVALID_UTF8)
      | Some text \<Rightarrow>
          (case sbind (json_text env text) json_build of
             Inl _ \<Rightarrow> Inl (ScanStop SS_FAILED MALFORMED)
           | Inr v \<Rightarrow> Inr v))"

definition record_value :: "'e stream_env_scheme \<Rightarrow> streaming_limits \<Rightarrow> nat list \<Rightarrow> stream_error + pyval" where
  "record_value env limits raw =
     (if bytes_blank raw then Inl (ScanStop SS_FAILED MALFORMED)
      else sbind (decode_record env raw) (\<lambda>v.
        if \<not> is_dict v then Inl (ScanStop SS_FAILED MALFORMED)
        else sbind (validate_record_graph limits v) (\<lambda>_. Inr v)))"

subsection \<open>The reference of the line reader\<close>

text \<open>
  The same split of the whole content at once: the lines with their physical lengths, and whether a
  line exceeds the limit.
\<close>

function ref_lines :: "int \<Rightarrow> nat list \<Rightarrow> (nat list \<times> int) list \<times> bool" where
  "ref_lines maximum content =
     (case rest_of content of
        [] \<Rightarrow>
          (if content = [] then ([], True)
           else if maximum < int (length content) then ([], False)
           else ([(content, int (length content))], True))
      | _ # tail \<Rightarrow>
          (let line = segment_of content
           in if maximum < int (length (strip_cr line)) then ([], False)
              else (case ref_lines maximum tail of
                      (ls, ok) \<Rightarrow> ((strip_cr line, int (length line) + 1) # ls, ok))))"
  by pat_completeness auto
termination
proof (relation "measure (\<lambda>(maximum, content). length content)")
  fix maximum :: int and content x tail and line :: "nat list"
  assume "rest_of content = x # tail"
  then have "length (x # tail) \<le> length content" unfolding rest_of_def by (metis length_dropWhile_le)
  then show "((maximum, tail), maximum, content) \<in> measure (\<lambda>(maximum, content). length content)" by simp
qed simp

declare ref_lines.simps [simp del]

text \<open>All lines of a generator, in the order it yields them, and how it ends.\<close>

inductive emits ::
  "os_files \<Rightarrow> int \<Rightarrow> line_gen \<Rightarrow> artifact_scan \<Rightarrow> (nat list \<times> int) list \<Rightarrow> stream_error option \<Rightarrow> bool"
  for os maximum where
  emit_end: "next_line os maximum g s = (Inr None, g', s') \<Longrightarrow> emits os maximum g s [] None"
| emit_stop: "next_line os maximum g s = (Inl e, g', s') \<Longrightarrow> emits os maximum g s [] (Some e)"
| emit_line: "next_line os maximum g s = (Inr (Some l), g', s') \<Longrightarrow> emits os maximum g' s' ls e \<Longrightarrow>
    emits os maximum g s (l # ls) e"

text \<open>The blocks that reading a scan to its end delivers, one after the other.\<close>

inductive delivers :: "os_files \<Rightarrow> artifact_scan \<Rightarrow> nat list \<Rightarrow> bool" for os where
  deliver_end: "read_chunk os read_chunk_bytes s = (Inr [], s') \<Longrightarrow> delivers os s []"
| deliver_block: "read_chunk os read_chunk_bytes s = (Inr (b # bs), s') \<Longrightarrow> delivers os s' content \<Longrightarrow>
    delivers os s (b # bs @ content)"

subsection \<open>The reader against its reference\<close>

lemma segment_append: "10 \<notin> set l \<Longrightarrow> segment_of (l @ c) = l @ segment_of c"
  unfolding segment_of_def by (induction l) auto

lemma rest_append: "10 \<notin> set l \<Longrightarrow> rest_of (l @ c) = rest_of c"
  unfolding rest_of_def by (induction l) auto

lemma rest_Nil: "rest_of c = [] \<longleftrightarrow> 10 \<notin> set c"
  by (auto simp: rest_of_def dropWhile_eq_Nil_conv)

lemma segment_plain: "10 \<notin> set (segment_of c)" "rest_of c = [] \<Longrightarrow> segment_of c = c"
  by (auto simp: segment_of_def rest_of_def dropWhile_eq_Nil_conv takeWhile_eq_all_conv dest: set_takeWhileD)

lemma segment_rest_append:
  "rest_of b = x # tail \<Longrightarrow> segment_of (b @ c) = segment_of b \<and> rest_of (b @ c) = x # tail @ c"
  unfolding segment_of_def rest_of_def by (induction b) (auto split: if_splits)

lemma strip_cr_length: "length l \<le> Suc (length (strip_cr l))"
  by (auto simp: strip_cr_def)

definition renoted :: "int \<Rightarrow> int \<Rightarrow> artifact_scan \<Rightarrow> artifact_scan" where
  "renoted x y s = s\<lparr>as_semantic := x, as_peak := y\<rparr>"

lemma read_renoted:
  "read_chunk os m s = (r, s') \<Longrightarrow> read_chunk os m (renoted x y s) = (r, renoted x y s')"
proof -
  assume r: "read_chunk os m s = (r, s')"
  let ?q = "min m (max 1 (max_integrity_bytes (as_limits s) - as_integrity s))"
  show ?thesis
  proof (cases "as_closed s \<or> as_finished s \<or> \<not> (1 \<le> m \<and> m \<le> read_chunk_bytes)")
    case True
    with r show ?thesis by (auto simp: read_chunk_def renoted_def split: if_splits)
  next
    case False
    then show ?thesis using r
      by (cases "os_read os (as_clock s) (as_descriptor s) ?q"; cases "the (os_read os (as_clock s) (as_descriptor s) ?q)")
        (clarsimp simp: read_chunk_def renoted_def Let_def split: if_splits)+
  qed
qed

lemma delivers_renoted: "delivers os s c \<Longrightarrow> delivers os (renoted x y s) c"
  by (induction rule: delivers.induct) (auto intro: delivers.intros dest: read_renoted)

lemma noted_renoted: "\<exists>x y. noted n b s = renoted x y s"
proof (cases "n < 0 \<or> b < 0")
  case True
  then have "noted n b s = renoted (as_semantic s) (as_peak s) s"
    by (auto simp: noted_def note_semantic_bytes_def renoted_def)
  then show ?thesis by blast
next
  case False
  then have "noted n b s = renoted (as_semantic s + n) (max (as_peak s) b) s"
    by (simp add: noted_def note_semantic_bytes_def renoted_def)
  then show ?thesis by blast
qed

lemma delivers_noted: "delivers os s c \<Longrightarrow> delivers os (noted n b s) c"
  using noted_renoted [of n b s] delivers_renoted by metis

text \<open>What is still to be split: the line so far, the block, and what the scan delivers.\<close>

definition pending_content :: "line_gen \<Rightarrow> nat list \<Rightarrow> nat list" where
  "pending_content g c = lg_line g @ lg_block g @ c"

definition gen_ok :: "int \<Rightarrow> line_gen \<Rightarrow> bool" where
  "gen_ok maximum g =
     (\<not> lg_done g \<and> 10 \<notin> set (lg_line g) \<and> int (length (lg_line g)) \<le> maximum + 1
      \<and> lg_physical g = int (length (lg_line g)))"

text \<open>One resumption of the reader, on the pending content.\<close>

definition line_step ::
  "os_files \<Rightarrow> int \<Rightarrow> nat list \<Rightarrow> (stream_error + (nat list \<times> int) option) \<times> line_gen \<times> artifact_scan \<Rightarrow> bool" where
  "line_step os maximum content out =
     (case rest_of content of
        [] \<Rightarrow>
          (if content = [] then fst out = Inr None
           else if maximum < int (length content) then fst out = Inl record_too_long
           else fst out = Inr (Some (content, int (length content))) \<and> lg_done (fst (snd out)))
      | _ # tail \<Rightarrow>
          (if maximum < int (length (strip_cr (segment_of content))) then fst out = Inl record_too_long
           else fst out = Inr (Some (strip_cr (segment_of content), int (length (segment_of content)) + 1))
             \<and> (\<exists>c. delivers os (snd (snd out)) c \<and> gen_ok maximum (fst (snd out))
                  \<and> pending_content (fst (snd out)) c = tail)))"

lemma next_line_step:
  "gen_ok maximum g \<Longrightarrow> delivers os s c \<Longrightarrow> 0 \<le> maximum \<Longrightarrow>
     line_step os maximum (pending_content g c) (next_line os maximum g s)"
proof (induction os maximum g s arbitrary: c rule: next_line.induct)
  case (1 os maximum g s)
  have IH_read: "line_step os maximum (pending_content (g\<lparr>lg_block := b # bs\<rparr>) c')
      (next_line os maximum (g\<lparr>lg_block := b # bs\<rparr>) s')"
    if "\<not> lg_done g" "lg_block g = []" "read_chunk os read_chunk_bytes s = (Inr (b # bs), s')"
      "gen_ok maximum (g\<lparr>lg_block := b # bs\<rparr>)" "delivers os s' c'" for b bs s' c'
    using 1(1) [OF that(1,2) that(3) [symmetric] refl refl that(4,5) 1(5)] .
  have IH_block: "line_step os maximum (pending_content (g\<lparr>lg_line := l, lg_physical := p, lg_block := []\<rparr>) c)
      (next_line os maximum (g\<lparr>lg_line := l, lg_physical := p, lg_block := []\<rparr>) s')"
    if "\<not> lg_done g" "lg_block g = b # bs" "rest_of (b # bs) = []"
      "\<not> maximum + 1 < int (length (lg_line g)) + int (length (segment_of (b # bs)))"
      "l = lg_line g @ segment_of (b # bs)" "p = lg_physical g + int (length (segment_of (b # bs)))"
      "s' = noted 0 (int (length (strip_cr l))) s"
      "gen_ok maximum (g\<lparr>lg_line := l, lg_physical := p, lg_block := []\<rparr>)" "delivers os s' c" for b bs l p s'
    using 1(2) [OF that(1,2) refl refl refl that(4,5,6,7,3,8,9) 1(5)] .
  have ok: "\<not> lg_done g" "10 \<notin> set (lg_line g)" "int (length (lg_line g)) \<le> maximum + 1"
    "lg_physical g = int (length (lg_line g))" using 1(3) by (auto simp: gen_ok_def)
  show ?case
  proof (cases "lg_block g")
    case Nil
    from 1(4) show ?thesis
    proof (cases rule: delivers.cases)
      case (deliver_end s')
      then have "pending_content g c = lg_line g" using Nil by (simp add: pending_content_def)
      moreover have "rest_of (lg_line g) = []" using ok(2) by (simp add: rest_Nil)
      ultimately show ?thesis
        using deliver_end ok Nil by (subst next_line.simps) (simp add: line_step_def)
    next
      case (deliver_block b bs s' c')
      have "pending_content g c = pending_content (g\<lparr>lg_block := b # bs\<rparr>) c'"
        using Nil deliver_block by (simp add: pending_content_def)
      moreover have "next_line os maximum g s = next_line os maximum (g\<lparr>lg_block := b # bs\<rparr>) s'"
        using ok Nil deliver_block by (subst next_line.simps) simp
      moreover have "gen_ok maximum (g\<lparr>lg_block := b # bs\<rparr>)" using 1(3) by (simp add: gen_ok_def)
      ultimately show ?thesis
        using IH_read [OF ok(1) Nil deliver_block(2) _ deliver_block(3)] by simp
    qed
  next
    case (Cons b bs)
    let ?seg = "segment_of (lg_block g)"
    have R: "segment_of (pending_content g c) = lg_line g @ segment_of (lg_block g @ c)"
      "rest_of (pending_content g c) = rest_of (lg_block g @ c)"
      using ok(2) by (simp_all add: pending_content_def segment_append rest_append)
    show ?thesis
    proof (cases "maximum + 1 < int (length (lg_line g)) + int (length ?seg)")
      case True
      then have out: "fst (next_line os maximum g s) = Inl record_too_long"
        using ok Cons by (subst next_line.simps) simp
      have long: "length (lg_line g) + length ?seg \<le> length (segment_of (pending_content g c))"
      proof (cases "rest_of (lg_block g)")
        case Nil
        then show ?thesis using R segment_plain(2) [OF Nil] rest_Nil segment_append by (metis le_add1 length_append add.assoc)
      next
        case (Cons x t)
        then show ?thesis using R segment_rest_append by (metis length_append order_refl)
      qed
      then have "maximum < int (length (strip_cr (segment_of (pending_content g c))))"
        using True strip_cr_length [of "segment_of (pending_content g c)"] by linarith
      moreover have "maximum < int (length (pending_content g c))" "pending_content g c \<noteq> []"
        if "rest_of (pending_content g c) = []"
        using segment_plain(2) [OF that] long True Cons by (auto simp: pending_content_def)
      ultimately show ?thesis unfolding line_step_def out by (auto split: list.splits)
    next
      case False
      show ?thesis
      proof (cases "rest_of (lg_block g)")
        case Nil
        let ?g = "g\<lparr>lg_line := lg_line g @ lg_block g, lg_physical := lg_physical g + int (length (lg_block g)), lg_block := []\<rparr>"
        let ?s = "noted 0 (int (length (strip_cr (lg_line g @ lg_block g)))) s"
        have seg: "?seg = lg_block g" "10 \<notin> set (lg_block g)" using Nil segment_plain(2) rest_Nil by auto
        have "next_line os maximum g s = next_line os maximum ?g ?s"
          using ok Cons False Nil seg by (subst next_line.simps) (simp add: Let_def)
        moreover have "pending_content ?g c = pending_content g c" by (simp add: pending_content_def)
        moreover have "gen_ok maximum ?g" using ok False seg by (auto simp: gen_ok_def)
        ultimately show ?thesis
          using IH_block [OF ok(1) Cons _ _ _ _ _ _ delivers_noted [OF 1(4)]] False Nil Cons seg by simp
      next
        case (Cons x tail)
        note rest = this
        have "segment_of (pending_content g c) = lg_line g @ ?seg" "rest_of (pending_content g c) = x # tail @ c"
          using R segment_rest_append [OF rest] by simp_all
        moreover have "gen_ok maximum (g\<lparr>lg_line := [], lg_physical := 0, lg_block := tail\<rparr>)"
          using ok 1(5) by (simp add: gen_ok_def)
        moreover have "pending_content (g\<lparr>lg_line := [], lg_physical := 0, lg_block := tail\<rparr>) c = tail @ c"
          by (simp add: pending_content_def)
        ultimately show ?thesis
          using ok False rest \<open>lg_block g = b # bs\<close> delivers_noted [OF 1(4)]
          by (subst next_line.simps) (auto simp: Let_def line_step_def)
      qed
    qed
  qed
qed

text \<open>The emission of a content that is split by the reference.\<close>

lemma emits_reference:
  "gen_ok maximum g \<Longrightarrow> delivers os s c \<Longrightarrow> 0 \<le> maximum \<Longrightarrow> pending_content g c = content \<Longrightarrow>
     ref_lines maximum content = (ls, ok) \<Longrightarrow> emits os maximum g s ls (if ok then None else Some record_too_long)"
proof (induction maximum content arbitrary: g s c ls ok rule: ref_lines.induct)
  case (1 maximum content)
  obtain r g' s' where n: "next_line os maximum g s = (r, g', s')" by (metis surj_pair)
  have st: "line_step os maximum content (r, g', s')"
    using next_line_step [OF 1(2,3,4)] 1(5) n by simp
  show ?case
  proof (cases "rest_of content")
    case Nil
    show ?thesis
    proof (cases "content = [] \<or> maximum < int (length content)")
      case True
      then show ?thesis using st Nil 1(6) n
        by (subst (asm) ref_lines.simps) (auto simp: line_step_def split: if_splits intro: emits.intros)
    next
      case False
      then have o: "r = Inr (Some (content, int (length content)))" "lg_done g'" "ls = [(content, int (length content))]" "ok"
        using st Nil 1(6) by (auto simp: line_step_def ref_lines.simps [of maximum content])
      have "next_line os maximum g' s' = (Inr None, g', s')" using o(2) by (subst next_line.simps) simp
      then have "emits os maximum g' s' [] None" by (rule emit_end)
      with n o show ?thesis by (auto intro: emit_line)
    qed
  next
    case (Cons x tail)
    let ?line = "segment_of content"
    show ?thesis
    proof (cases "maximum < int (length (strip_cr ?line))")
      case True
      then show ?thesis using st Cons 1(6) n
        by (auto simp: line_step_def Let_def ref_lines.simps [of maximum content] intro: emit_stop)
    next
      case False
      obtain ls' ok' where r': "ref_lines maximum tail = (ls', ok')" by fastforce
      have o: "ls = (strip_cr ?line, int (length ?line) + 1) # ls'" "ok = ok'"
        using 1(6) Cons False r' by (auto simp: Let_def ref_lines.simps [of maximum content])
      obtain c' where c': "r = Inr (Some (strip_cr ?line, int (length ?line) + 1))"
        "delivers os s' c'" "gen_ok maximum g'" "pending_content g' c' = tail"
        using st Cons False by (auto simp: line_step_def)
      from 1(1) [OF Cons refl False c'(3,2) 1(4) c'(4) r']
      have "emits os maximum g' s' ls' (if ok' then None else Some record_too_long)" .
      with n c'(1) o show ?thesis by (auto intro: emit_line)
    qed
  qed
qed

lemma emits_functional: "emits os maximum g s ls e \<Longrightarrow> emits os maximum g s ls' e' \<Longrightarrow> ls' = ls \<and> e' = e"
proof (induction arbitrary: ls' e' rule: emits.induct)
  case (emit_line g s l g' s' ls e)
  from emit_line.prems emit_line.hyps show ?case
    by (cases rule: emits.cases) (auto dest: emit_line.IH)
qed (auto elim: emits.cases)

text \<open>The nodes of a value and the bound on its depth, independently of any order of visiting.\<close>

lemma graph_children_smaller: "c \<in> set (graph_children v) \<Longrightarrow> size c < size v"
proof -
  assume c: "c \<in> set (graph_children v)"
  then have "is_container v" by (cases v) auto
  from graph_children_size [OF this] show ?thesis using size_list_estimation [OF c, of "size c - 1" size] 
    by (metis c size_list_estimation' order_refl order.strict_trans1)
qed

function value_nodes :: "pyval \<Rightarrow> int" where
  "value_nodes v = 1 + sum_list (map value_nodes (graph_children v))"
  by pat_completeness auto
termination by (relation "measure size") (auto dest: graph_children_smaller)

function within_depth :: "int \<Rightarrow> int \<Rightarrow> pyval \<Rightarrow> bool" where
  "within_depth limit depth v =
     (is_container v \<longrightarrow> depth \<le> limit \<and> list_all (within_depth limit (depth + 1)) (graph_children v))"
  by pat_completeness auto
termination by (relation "measure (\<lambda>(_, _, v). size v)") (auto dest: graph_children_smaller)

function all_finite :: "pyval \<Rightarrow> bool" where
  "all_finite v = (\<not> float_not_finite v \<and> list_all all_finite (graph_children v))"
  by pat_completeness auto
termination by (relation "measure size") (auto dest: graph_children_smaller)

declare value_nodes.simps [simp del] within_depth.simps [simp del] all_finite.simps [simp del]

lemma value_nodes_pos: "1 \<le> value_nodes v"
proof (induction v rule: value_nodes.induct)
  case (1 v)
  then have "0 \<le> sum_list (map value_nodes (graph_children v))" by (intro sum_list_nonneg) force
  then show ?case by (subst value_nodes.simps) simp
qed

lemma no_children: "\<not> is_container v \<Longrightarrow> graph_children v = []"
  by (cases v) auto

lemma graph_loop_iff:
  "graph_loop limits n stack = Inr () \<longleftrightarrow>
     (stack = [] \<or> n + sum_list (map (\<lambda>(v, d). value_nodes v) stack) \<le> max_nodes_per_record limits)
     \<and> list_all (\<lambda>(v, d). within_depth (max_depth limits) d v \<and> all_finite v) stack"
proof (induction limits n stack rule: graph_loop.induct)
  case (2 limits n v d stack)
  have rest: "0 \<le> sum_list (map (\<lambda>(v, d). value_nodes v) stack)"
  proof (rule sum_list_nonneg)
    fix x assume "x \<in> set (map (\<lambda>(v, d). value_nodes v) stack)"
    then obtain w e where "x = value_nodes w" by auto
    with value_nodes_pos [of w] show "0 \<le> x" by simp
  qed
  have pos: "1 \<le> value_nodes v" by (rule value_nodes_pos)
  consider "max_nodes_per_record limits < n + 1" | "\<not> max_nodes_per_record limits < n + 1" "float_not_finite v"
    | "\<not> max_nodes_per_record limits < n + 1" "\<not> float_not_finite v" "\<not> is_container v"
    | "\<not> max_nodes_per_record limits < n + 1" "\<not> float_not_finite v" "is_container v" "max_depth limits < d"
    | "\<not> max_nodes_per_record limits < n + 1" "\<not> float_not_finite v" "is_container v" "\<not> max_depth limits < d"
    by blast
  then show ?case
  proof cases
    case 1
    then show ?thesis using rest pos by simp
  next
    case 2
    then show ?thesis by (simp add: all_finite.simps [of v])
  next
    case 3
    then have "graph_children v = []" using no_children by blast
    then show ?thesis using 3 "2.IH"(1) rest
      by (auto simp: value_nodes.simps [of v] within_depth.simps [of _ d v] all_finite.simps [of v])
  next
    case 4
    then show ?thesis by (simp add: within_depth.simps [of _ d v])
  next
    case 5
    have s: "map ((\<lambda>(v, d). value_nodes v) \<circ> (\<lambda>c. (c, d + 1))) cs = map value_nodes cs" for cs by simp
    have l: "list_all (\<lambda>(v, d). within_depth (max_depth limits) d v \<and> all_finite v) (map (\<lambda>c. (c, d + 1)) cs)
        = (list_all (within_depth (max_depth limits) (d + 1)) cs \<and> list_all all_finite cs)" for cs
      by (auto simp: list_all_iff)
    show ?thesis using 5 "2.IH"(2) rest
      by (auto simp: value_nodes.simps [of v] within_depth.simps [of _ d v] all_finite.simps [of v] s l)
  qed
qed simp

subsection \<open>Properties\<close>

text \<open>C24: the line reader does not depend on how the content is cut into blocks: the lines it yields,
  their physical lengths and whether it refuses a line are those of the reference split of the
  whole content.\<close>

theorem lines_chunk_independent:
  assumes "delivers os s content" and "0 \<le> maximum" and "ref_lines maximum content = (ls, ok)"
  shows "emits os maximum start_lines s ls' e \<longleftrightarrow> ls' = ls \<and> e = (if ok then None else Some record_too_long)"
proof -
  have "gen_ok maximum start_lines" using assms(2) by (simp add: gen_ok_def start_lines_def)
  then have "emits os maximum start_lines s ls (if ok then None else Some record_too_long)"
    by (rule emits_reference [OF _ assms(1,2) _ assms(3)]) (simp add: pending_content_def start_lines_def)
  then show ?thesis using emits_functional by blast
qed

theorem lines_chunk_independent_witness:
  "emits (demo_os 7) 5 start_lines (demo_scan 5) [([7, 8], 2)] None"
proof -
  have "read_chunk (demo_os 7) read_chunk_bytes (demo_scan 5) = (Inr [7], snd (read_chunk (demo_os 7) read_chunk_bytes (demo_scan 5)))"
    by code_simp
  moreover have "read_chunk (demo_os 7) read_chunk_bytes (snd (read_chunk (demo_os 7) read_chunk_bytes (demo_scan 5)))
     = (Inr [8], snd (read_chunk (demo_os 7) read_chunk_bytes (snd (read_chunk (demo_os 7) read_chunk_bytes (demo_scan 5)))))"
    by code_simp
  moreover have "read_chunk (demo_os 7) read_chunk_bytes
      (snd (read_chunk (demo_os 7) read_chunk_bytes (snd (read_chunk (demo_os 7) read_chunk_bytes (demo_scan 5)))))
     = (Inr [], snd (read_chunk (demo_os 7) read_chunk_bytes
      (snd (read_chunk (demo_os 7) read_chunk_bytes (snd (read_chunk (demo_os 7) read_chunk_bytes (demo_scan 5)))))))"
    by code_simp
  ultimately have "delivers (demo_os 7) (demo_scan 5) (7 # [] @ (8 # [] @ []))"
    by (intro delivers.intros)
  then have d: "delivers (demo_os 7) (demo_scan 5) [7, 8]" by simp
  have r: "ref_lines 5 [7, 8] = ([([7, 8], 2)], True)" by (simp add: ref_lines.simps rest_of_def)
  from lines_chunk_independent [OF d _ r] show ?thesis by simp
qed

text \<open>A decoded record is accepted exactly when it has no more nodes than the budget, no container
  deeper than the limit and no number that is not finite.\<close>

lemma record_graph_exact:
  "validate_record_graph limits v = Inr () \<longleftrightarrow>
     value_nodes v \<le> max_nodes_per_record limits \<and> within_depth (max_depth limits) 1 v \<and> all_finite v"
proof -
  have "within_depth m 0 v = within_depth m 1 v" if "\<not> is_container v" for m
    using that by (simp add: within_depth.simps)
  then show ?thesis unfolding validate_record_graph_def graph_loop_iff by simp
qed

end
