(* ===== verification/DatasetSpill.thy ===== *)
theory DatasetSpill
  imports StreamLines Measurement
begin

section \<open>The spill store of dataset hashes\<close>

text \<open>
  The temporary SQLite index of \<^verbatim>\<open>claimci/analysis/streaming_dataset.py\<close>: a table of multiplicities
  with the key experiment, split and digest, and the queries over it. Rows are an association list
  with distinct keys. Whether the database accepts the statements of a moment, and how large its
  files are afterwards, is the parameter \<open>sos\<close>; the random file name and its creation and removal are
  not modelled.
\<close>

subsection \<open>The table\<close>

type_synonym row_key = "string \<times> string \<times> string"

record spill =
  sp_rows :: "(row_key \<times> nat) list"
  sp_maximum :: int
  sp_peak :: int
  sp_exhausted :: bool
  sp_clock :: nat

record spill_os =
  sql_ok :: "nat \<Rightarrow> bool"
  spill_bytes :: "nat \<Rightarrow> int"

definition measure_spill :: "spill_os \<Rightarrow> spill \<Rightarrow> (stream_error + unit) \<times> spill" where
  "measure_spill sos sp =
     (let bytes = spill_bytes sos (sp_clock sp); sp' = sp\<lparr>sp_peak := max (sp_peak sp) bytes\<rparr>
      in if sp_maximum sp < bytes
         then (Inl (ScratchFull ''dataset spill exceeded its scratch budget''), sp'\<lparr>sp_exhausted := True\<rparr>)
         else (Inr (), sp'))"

definition new_spill :: "spill_os \<Rightarrow> int \<Rightarrow> stream_error + spill" where
  "new_spill sos maximum =
     (if \<not> sql_ok sos 0 then Inl (ScratchFull ''dataset spill scratch budget cannot hold the fixed schema'')
      else case measure_spill sos \<lparr>sp_rows = [], sp_maximum = maximum, sp_peak = 0, sp_exhausted = False,
                                   sp_clock = 0\<rparr> of
             (Inl e, _) \<Rightarrow> Inl e
           | (Inr _, sp) \<Rightarrow> Inr (sp\<lparr>sp_clock := 1\<rparr>))"

text \<open>The scratch directory must be a directory and no link.\<close>

definition spill_root :: "os_files \<Rightarrow> string \<Rightarrow> string act" where
  "spill_root os raw =
     abind (ask (\<lambda>t. os_lstat os t raw) (ArtifactError ''dataset scratch root is unavailable'')) (\<lambda>raw_stat.
     abind (ask (\<lambda>t. os_realpath os t raw) (ArtifactError ''dataset scratch root is unavailable'')) (\<lambda>resolved.
     abind (ask (\<lambda>t. os_lstat os t resolved) (ArtifactError ''dataset scratch root is not trusted'')) (\<lambda>found.
     abind (arequire (\<not> is_link raw_stat \<and> is_directory found) (ArtifactError ''dataset scratch root is not trusted''))
       (\<lambda>_. areturn resolved))))"

text \<open>Inserting a multiplicity, or adding it to the one that is there.\<close>

definition row_count :: "(row_key \<times> nat) list \<Rightarrow> row_key \<Rightarrow> nat" where
  "row_count rows k = (case map_of rows k of None \<Rightarrow> 0 | Some n \<Rightarrow> n)"

definition upsert :: "row_key \<Rightarrow> nat \<Rightarrow> (row_key \<times> nat) list \<Rightarrow> (row_key \<times> nat) list" where
  "upsert k n rows = al_set k (row_count rows k + n) rows"

fun upsert_counts ::
  "string \<Rightarrow> string \<Rightarrow> (string \<times> nat) list \<Rightarrow> (row_key \<times> nat) list \<Rightarrow> (row_key \<times> nat) list" where
  "upsert_counts e s [] rows = rows"
| "upsert_counts e s ((d, n) # ps) rows = upsert_counts e s ps (upsert (e, s, d) n rows)"

definition batch_counts :: "string list \<Rightarrow> (string \<times> nat) list" where
  "batch_counts ds = map (\<lambda>d. (d, count_list ds d)) (counter_keys ds)"

definition spill_exhausted :: stream_error where
  "spill_exhausted = ScratchFull ''dataset spill scratch budget is exhausted''"

text \<open>
  A batch is committed before the size is measured: when the measurement exceeds the budget the
  rollback has nothing left to undo, and the rows stay.
\<close>

definition add_batch :: "spill_os \<Rightarrow> string \<Rightarrow> string \<Rightarrow> string list \<Rightarrow> spill \<Rightarrow> (stream_error + nat) \<times> spill" where
  "add_batch sos e s digests sp =
     (if digests = [] then (Inr 0, sp)
      else if sp_exhausted sp then (Inl spill_exhausted, sp)
      else
        (let sp1 = sp\<lparr>sp_clock := Suc (sp_clock sp)\<rparr>
         in if \<not> sql_ok sos (sp_clock sp) then (Inl spill_exhausted, sp1\<lparr>sp_exhausted := True\<rparr>)
            else
              (case measure_spill sos (sp\<lparr>sp_rows := upsert_counts e s (batch_counts digests) (sp_rows sp)\<rparr>) of
                 (Inl _, sp2) \<Rightarrow> (Inl spill_exhausted, sp2\<lparr>sp_clock := Suc (sp_clock sp), sp_exhausted := True\<rparr>)
               | (Inr _, sp2) \<Rightarrow> (Inr (length digests), sp2\<lparr>sp_clock := Suc (sp_clock sp)\<rparr>))))"

definition delete_split :: "string \<Rightarrow> string \<Rightarrow> spill \<Rightarrow> spill" where
  "delete_split e s sp = sp\<lparr>sp_rows := filter (\<lambda>((e', s', d), n). \<not> (e' = e \<and> s' = s)) (sp_rows sp)\<rparr>"

subsection \<open>Queries\<close>

text \<open>The rows of a split, ordered by digest.\<close>

definition split_rows :: "string \<Rightarrow> string \<Rightarrow> (row_key \<times> nat) list \<Rightarrow> (string \<times> nat) list" where
  "split_rows e s rows =
     sort_key fst (map (\<lambda>((e', s', d), n). (d, n)) (filter (\<lambda>((e', s', d), n). e' = e \<and> s' = s) rows))"

definition spill_count :: "string \<Rightarrow> string \<Rightarrow> spill \<Rightarrow> nat" where
  "spill_count e s sp = sum_list (map snd (split_rows e s (sp_rows sp)))"

definition new_multiset_identity :: "int \<Rightarrow> string \<Rightarrow> multiset_identity checked" where
  "new_multiset_identity n digest_text =
     sbind (aensure (1 \<le> n) ''dataset identity record count is invalid'') (\<lambda>_.
     sbind (aensure (sha256_pattern digest_text) ''dataset identity digest is invalid'') (\<lambda>_.
       Inr \<lparr>mi_record_count = n, canonical_sha256 = digest_text\<rparr>))"

text \<open>The bytes that are hashed row by row: a JSON list of objects, without the list in memory.\<close>

definition row_bytes :: "string \<times> nat \<Rightarrow> nat list" where
  "row_bytes r = canonical_bytes (pdict [(''sha256'', PStr (fst r)), (''count'', pnat (snd r))])"

fun rows_bytes :: "bool \<Rightarrow> (string \<times> nat) list \<Rightarrow> nat list" where
  "rows_bytes first [] = utf8 '']''"
| "rows_bytes first (r # rs) = (if first then [] else utf8 '','') @ row_bytes r @ rows_bytes False rs"

definition spill_identity ::
  "(nat list \<Rightarrow> string) \<Rightarrow> string \<Rightarrow> string \<Rightarrow> spill \<Rightarrow> multiset_identity checked" where
  "spill_identity sha e s sp =
     (let rs = split_rows e s (sp_rows sp)
      in new_multiset_identity (int (sum_list (map snd rs))) (sha (utf8 ''['' @ rows_bytes True rs)))"

text \<open>Inner join on the digest, in digest order, with both multiplicities; the left join counts an
  absent row as zero.\<close>

definition joined :: "(string \<times> nat) list \<Rightarrow> (string \<times> nat) list \<Rightarrow> (string \<times> nat \<times> nat) list" where
  "joined a b =
     concat (map (\<lambda>(d, n). case map_of b d of None \<Rightarrow> [] | Some m \<Rightarrow> [(d, n, m)]) a)"

definition joined_count :: "(string \<times> nat) list \<Rightarrow> (string \<times> nat) list \<Rightarrow> nat" where
  "joined_count a b = sum_list (map (\<lambda>(d, n, m). if n < m then n else m) (joined a b))"

definition other_count :: "(string \<times> nat) list \<Rightarrow> string \<Rightarrow> nat" where
  "other_count b d = (case map_of b d of None \<Rightarrow> 0 | Some m \<Rightarrow> m)"

definition side_count :: "(string \<times> nat) list \<Rightarrow> (string \<times> nat) list \<Rightarrow> nat" where
  "side_count a b =
     sum_list (map (\<lambda>(d, n). if other_count b d < n then n - other_count b d else 0) a)"

definition side_preview :: "nat \<Rightarrow> (string \<times> nat) list \<Rightarrow> (string \<times> nat) list \<Rightarrow> (string \<times> nat) list" where
  "side_preview limit a b =
     take limit (map (\<lambda>(d, n). (d, n - other_count b d)) (filter (\<lambda>(d, n). other_count b d < n) a))"

subsection \<open>The table as an index of digests\<close>

text \<open>
  The rows of a split, in digest order and with positive multiplicities, are an index in the sense of
  \<open>hash_index\<close>; its multiset is \<open>split_bag\<close>.
\<close>

definition split_ok :: "(string \<times> nat) list \<Rightarrow> bool" where
  "split_ok p = (sorted (map fst p) \<and> distinct (map fst p) \<and> (\<forall>(d, n) \<in> set p. 0 < n))"

definition split_bag :: "(string \<times> nat) list \<Rightarrow> string multiset" where
  "split_bag p = sum_list (map (\<lambda>(d, n). replicate_mset n d) p)"

lemma other_count_Cons: "other_count ((d, n) # p) x = (if x = d then n else other_count p x)"
  by (auto simp: other_count_def)

lemma other_count_absent: "x \<notin> fst ` set p \<Longrightarrow> other_count p x = 0"
proof -
  assume "x \<notin> fst ` set p"
  then have "map_of p x = None" by (simp add: map_of_eq_None_iff)
  then show ?thesis by (simp add: other_count_def)
qed

lemma count_split_bag: "distinct (map fst p) \<Longrightarrow> count (split_bag p) x = other_count p x"
proof (induction p)
  case Nil
  then show ?case by (simp add: split_bag_def other_count_def)
next
  case (Cons r p)
  obtain d n where r: "r = (d, n)" by fastforce
  have "split_bag (r # p) = replicate_mset n d + split_bag p" by (simp add: split_bag_def r)
  then show ?case using Cons by (auto simp: r other_count_Cons other_count_absent)
qed

interpretation table: hash_index split_ok "map fst" other_count split_bag
proof
  fix p :: "(string \<times> nat) list" and d
  assume ok: "split_ok p"
  show "sorted (map fst p)" "distinct (map fst p)" using ok by (simp_all add: split_ok_def)
  show "count (split_bag p) d = other_count p d" using ok by (simp add: split_ok_def count_split_bag)
  show "d \<in> set (map fst p) \<longleftrightarrow> 0 < other_count p d"
  proof
    assume "d \<in> set (map fst p)"
    then obtain n where n: "map_of p d = Some n" by (metis map_of_eq_None_iff not_None_eq set_map)
    then have "(d, n) \<in> set p" by (rule map_of_SomeD)
    with ok have "0 < n" by (auto simp: split_ok_def)
    with n show "0 < other_count p d" by (simp add: other_count_def)
  next
    assume "0 < other_count p d"
    then show "d \<in> set (map fst p)" using other_count_absent [of d p] by auto
  qed
qed

lemma split_own: "distinct (map fst p) \<Longrightarrow> (d, n) \<in> set p \<Longrightarrow> other_count p d = n"
  by (simp add: other_count_def)

lemma joined_keys:
  assumes "split_ok a"
  shows "joined a b = map (\<lambda>d. (d, other_count a d, other_count b d))
    (positive_keys (map fst a) (\<lambda>d. if map_of b d = None then 0 else 1))"
proof -
  have "concat (map (\<lambda>(d, n). case map_of b d of None \<Rightarrow> [] | Some m \<Rightarrow> [(d, n, m)]) q)
      = map (\<lambda>d. (d, other_count a d, other_count b d))
          (positive_keys (map fst q) (\<lambda>d. if map_of b d = None then 0 else 1))"
    if "set q \<subseteq> set a" for q
    using that
  proof (induction q)
    case (Cons r q)
    obtain d n where r: "r = (d, n)" by fastforce
    have "other_count a d = n" using Cons.prems assms r by (auto simp: split_ok_def intro: split_own)
    then show ?case using Cons r by (auto simp: positive_keys_def other_count_def split: option.splits)
  qed (simp add: positive_keys_def)
  then show ?thesis by (simp add: joined_def)
qed

lemma table_positive:
  assumes "split_ok a" "split_ok b"
  shows "positive_keys (map fst a) (\<lambda>d. if map_of b d = None then 0 else 1)
    = positive_keys (map fst a) (min_count (other_count a) (other_count b))"
proof -
  have "(map_of b d \<noteq> None) \<longleftrightarrow> 0 < other_count b d" for d
    using table.keys_count [OF assms(2), of d] by (simp add: map_of_eq_None_iff)
  moreover have "0 < other_count a d" if "d \<in> set (map fst a)" for d
    using table.keys_count [OF assms(1), of d] that by simp
  ultimately show ?thesis by (auto simp: positive_keys_def min_count_def intro!: filter_cong)
qed

text \<open>The join lists the common digests; its count is the size of the intersection.\<close>

lemma joined_digests:
  assumes "split_ok a" "split_ok b"
  shows "map fst (joined a b) = sorted_list_of_set (set_mset (split_bag a \<inter># split_bag b))"
  by (simp add: joined_keys [OF assms(1)] table_positive [OF assms] o_def table.overlap_keys [OF assms])

lemma count_total_positive: "count_total (positive_keys ks f) f = count_total ks f"
  by (induction ks) (auto simp: count_total_def positive_keys_def)

lemma min_count_fun: "min_count f g = (\<lambda>d. min (f d) (g d))"
  by (rule ext) (simp add: min_count_def)

lemma joined_size:
  assumes "split_ok a" "split_ok b"
  shows "joined_count a b = size (split_bag a \<inter># split_bag b)"
proof -
  let ?f = "min_count (other_count a) (other_count b)"
  have m: "(if n < m then n else m) = min n m" for n m :: nat by simp
  have "joined_count a b = count_total (positive_keys (map fst a) ?f) ?f"
    unfolding joined_count_def joined_keys [OF assms(1)] table_positive [OF assms] m
    by (simp add: count_total_def o_def min_count_fun)
  then show ?thesis by (simp only: count_total_positive table.overlap_size [OF assms])
qed

lemma side_size:
  assumes "split_ok a" "split_ok b"
  shows "side_count a b = size (split_bag a - split_bag b)"
proof -
  have "side_count a b = count_total (map fst a) (excess (other_count a) (other_count b))"
  proof -
    have "map (\<lambda>(d, n). if other_count b d < n then n - other_count b d else 0) a
        = map (\<lambda>r. excess (other_count a) (other_count b) (fst r)) a"
      using assms(1) by (auto simp: excess_def split_ok_def split_own)
    then show ?thesis by (simp only: side_count_def count_total_def map_map o_def)
  qed
  then show ?thesis by (simp only: table.excess_size [OF assms])
qed

lemma row_total:
  assumes "split_ok a"
  shows "sum_list (map snd a) = size (split_bag a)"
proof -
  have "map snd a = map (other_count a) (map fst a)"
    using assms by (auto simp: split_ok_def split_own)
  then have "sum_list (map snd a) = count_total (map fst a) (other_count a)" by (simp only: count_total_def)
  then show ?thesis by (simp only: table.record_total [OF assms])
qed

subsection \<open>What the statements do to the multisets\<close>

definition table_ok :: "(row_key \<times> nat) list \<Rightarrow> bool" where
  "table_ok rows = (distinct (map fst rows) \<and> (\<forall>(k, n) \<in> set rows. 0 < n))"

lemma split_rows_count: "table_ok rows \<Longrightarrow> other_count (split_rows e s rows) d = row_count rows (e, s, d)"
proof -
  assume ok: "table_ok rows"
  let ?q = "map (\<lambda>((e', s', d), n). (d, n)) (filter (\<lambda>((e', s', d), n). e' = e \<and> s' = s) rows)"
  have m: "map_of (map (\<lambda>((e', s', d), n). (d, n)) (filter (\<lambda>((e', s', d), n). e' = e \<and> s' = s) q)) d
      = map_of q (e, s, d)" for q :: "(row_key \<times> nat) list"
    by (induction q) auto
  have dq: "distinct (map fst ?q)"
  proof -
    have "distinct (map fst q) \<Longrightarrow> distinct (map fst (map (\<lambda>((e', s', d), n). (d, n))
        (filter (\<lambda>((e', s', d), n). e' = e \<and> s' = s) q)))" for q :: "(row_key \<times> nat) list"
      by (induction q) force+
    with ok show ?thesis by (simp add: table_ok_def)
  qed
  have "mset (map fst (split_rows e s rows)) = mset (map fst ?q)" unfolding split_rows_def by (simp only: mset_map mset_sort)
  with dq have "distinct (map fst (split_rows e s rows))" using mset_eq_imp_distinct_iff by metis
  then have "map_of (split_rows e s rows) = map_of ?q"
    using dq map_of_inject_set [of "split_rows e s rows" ?q] by (simp add: split_rows_def)
  then show ?thesis by (simp add: other_count_def row_count_def m)
qed

lemma split_rows_set: "set (split_rows e s rows) = {(d, n). ((e, s, d), n) \<in> set rows}"
  by (force simp: split_rows_def)

lemma split_rows_ok: "table_ok rows \<Longrightarrow> split_ok (split_rows e s rows)"
proof -
  assume ok: "table_ok rows"
  let ?q = "map (\<lambda>((e', s', d), n). (d, n)) (filter (\<lambda>((e', s', d), n). e' = e \<and> s' = s) rows)"
  have "distinct (map fst q) \<Longrightarrow> distinct (map fst (map (\<lambda>((e', s', d), n). (d, n))
      (filter (\<lambda>((e', s', d), n). e' = e \<and> s' = s) q)))" for q :: "(row_key \<times> nat) list"
    by (induction q) force+
  then have "distinct (map fst ?q)" using ok by (simp add: table_ok_def)
  moreover have "mset (map fst (split_rows e s rows)) = mset (map fst ?q)"
    unfolding split_rows_def by (simp only: mset_map mset_sort)
  ultimately have "distinct (map fst (split_rows e s rows))" using mset_eq_imp_distinct_iff by metis
  moreover have "sorted (map fst (split_rows e s rows))" by (simp add: split_rows_def)
  moreover have "\<forall>(d, n) \<in> set (split_rows e s rows). 0 < n"
    using ok by (auto simp: split_rows_set table_ok_def)
  ultimately show ?thesis by (simp add: split_ok_def)
qed

definition bag_of :: "spill \<Rightarrow> string \<Rightarrow> string \<Rightarrow> string multiset" where
  "bag_of sp e s = split_bag (split_rows e s (sp_rows sp))"

lemma count_bag_of: "table_ok (sp_rows sp) \<Longrightarrow> count (bag_of sp e s) d = row_count (sp_rows sp) (e, s, d)"
  using table.bag_count [OF split_rows_ok] split_rows_count by (simp add: bag_of_def)

lemma row_count_al_set: "row_count (al_set k n rows) k' = (if k' = k then n else row_count rows k')"
  by (simp add: row_count_def map_of_al_set)

lemma set_al_set: "set (al_set k n rows) \<subseteq> insert (k, n) (set rows)"
  by (induction k n rows rule: al_set.induct) auto

lemma upsert_ok:
  assumes "table_ok rows" "0 < n"
  shows "table_ok (upsert k n rows)"
proof -
  have "distinct (map fst (upsert k n rows))" using assms(1) distinct_al_set by (auto simp: table_ok_def upsert_def)
  moreover have "0 < m" if "(k', m) \<in> set (upsert k n rows)" for k' m
  proof -
    have "(k', m) \<in> insert (k, row_count rows k + n) (set rows)" using that set_al_set by (fastforce simp: upsert_def)
    then show ?thesis using assms by (auto simp: table_ok_def)
  qed
  ultimately show ?thesis by (auto simp: table_ok_def)
qed

lemma upsert_counts_ok:
  "table_ok rows \<Longrightarrow> \<forall>(d, n) \<in> set ps. 0 < n \<Longrightarrow> table_ok (upsert_counts e s ps rows)"
  by (induction ps arbitrary: rows) (auto simp: upsert_ok)

lemma row_count_upsert_counts:
  "distinct (map fst ps) \<Longrightarrow> row_count (upsert_counts e s ps rows) (e', s', d)
     = row_count rows (e', s', d) + (if e' = e \<and> s' = s then other_count ps d else 0)"
proof (induction ps arbitrary: rows)
  case (Cons r ps)
  obtain x n where r: "r = (x, n)" by fastforce
  have "other_count ps d = 0" if "d = x" using Cons.prems that r by (auto intro: other_count_absent)
  then show ?case
    using Cons.IH [of "upsert (e, s, x) n rows"] Cons.prems
    by (auto simp: r upsert_def row_count_al_set other_count_Cons)
qed (simp add: other_count_def)

lemma batch_counts_props:
  "distinct (map fst (batch_counts ds))" "\<forall>(d, n) \<in> set (batch_counts ds). 0 < n"
  "other_count (batch_counts ds) d = count_list ds d"
proof -
  have m: "map fst (batch_counts ds) = counter_keys ds" by (simp add: batch_counts_def o_def)
  show d: "distinct (map fst (batch_counts ds))" unfolding m using counter.keys_distinct by simp
  show "\<forall>(d, n) \<in> set (batch_counts ds). 0 < n"
    using counter.keys_count [of _ ds] by (auto simp: batch_counts_def)
  show "other_count (batch_counts ds) d = count_list ds d"
  proof (cases "d \<in> set (counter_keys ds)")
    case True
    then have "(d, count_list ds d) \<in> set (batch_counts ds)" by (simp add: batch_counts_def)
    then show ?thesis using split_own [OF d] by blast
  next
    case False
    then have "count_list ds d = 0" using counter.keys_count [of d ds] by simp
    moreover have "other_count (batch_counts ds) d = 0" using False m by (intro other_count_absent) (simp flip: set_map)
    ultimately show ?thesis by simp
  qed
qed

text \<open>A batch adds its multiset to its own split, or nothing; it never touches another split.\<close>

lemma measure_rows: "measure_spill sos sp = (r, sp') \<Longrightarrow> sp_rows sp' = sp_rows sp"
  by (auto simp: measure_spill_def Let_def split: if_splits)

lemma add_batch_rows:
  assumes "add_batch sos e s ds sp = (r, sp')"
  shows "sp_rows sp' = sp_rows sp \<or> sp_rows sp' = upsert_counts e s (batch_counts ds) (sp_rows sp)"
    "r = Inr n \<Longrightarrow> ds \<noteq> [] \<Longrightarrow> sp_rows sp' = upsert_counts e s (batch_counts ds) (sp_rows sp)"
    "r = Inr n \<Longrightarrow> n = length ds"
  using assms by (auto simp: add_batch_def Let_def dest: measure_rows split: if_splits prod.splits sum.splits)

lemma upsert_bag:
  assumes "table_ok (sp_rows sp)" "sp_rows sp' = upsert_counts e s (batch_counts ds) (sp_rows sp)"
  shows "table_ok (sp_rows sp')" "bag_of sp' e' s' = bag_of sp e' s' + (if e' = e \<and> s' = s then mset ds else {#})"
proof -
  show ok: "table_ok (sp_rows sp')" unfolding assms(2) by (rule upsert_counts_ok [OF assms(1) batch_counts_props(2)])
  show "bag_of sp' e' s' = bag_of sp e' s' + (if e' = e \<and> s' = s then mset ds else {#})"
  proof (rule multiset_eqI)
    fix d
    have "count (bag_of sp' e' s') d = row_count (sp_rows sp) (e', s', d) + (if e' = e \<and> s' = s then count_list ds d else 0)"
      using count_bag_of [OF ok] row_count_upsert_counts [OF batch_counts_props(1)] batch_counts_props(3)
      by (simp add: assms(2))
    then show "count (bag_of sp' e' s') d
        = count (bag_of sp e' s' + (if e' = e \<and> s' = s then mset ds else {#})) d"
      using count_bag_of [OF assms(1)] by (simp add: count_mset)
  qed
qed

lemma add_batch_bag:
  assumes "add_batch sos e s ds sp = (r, sp')" "table_ok (sp_rows sp)"
  shows "table_ok (sp_rows sp')"
    "bag_of sp' e' s' = bag_of sp e' s' \<or> bag_of sp' e' s' = bag_of sp e' s' + (if e' = e \<and> s' = s then mset ds else {#})"
    "r = Inr n \<Longrightarrow> bag_of sp' e' s' = bag_of sp e' s' + (if e' = e \<and> s' = s then mset ds else {#})"
proof -
  note rows = add_batch_rows [OF assms(1)]
  have same: "table_ok (sp_rows sp')" "bag_of sp' e' s' = bag_of sp e' s'" if "sp_rows sp' = sp_rows sp"
    using that assms(2) by (simp_all add: bag_of_def)
  show "table_ok (sp_rows sp')" using rows(1) same(1) upsert_bag(1) [OF assms(2)] by blast
  show "bag_of sp' e' s' = bag_of sp e' s' \<or> bag_of sp' e' s' = bag_of sp e' s' + (if e' = e \<and> s' = s then mset ds else {#})"
    using rows(1) same(2) upsert_bag(2) [OF assms(2)] by blast
  show "bag_of sp' e' s' = bag_of sp e' s' + (if e' = e \<and> s' = s then mset ds else {#})" if "r = Inr n"
  proof (cases "ds = []")
    case True
    then have "sp' = sp" using assms(1) by (simp add: add_batch_def)
    then show ?thesis using True by simp
  next
    case False
    from upsert_bag(2) [OF assms(2) rows(2) [OF that False]] show ?thesis .
  qed
qed

lemma delete_split_bag:
  assumes "table_ok (sp_rows sp)"
  shows "table_ok (sp_rows (delete_split e s sp))"
    "bag_of (delete_split e s sp) e' s' = (if e' = e \<and> s' = s then {#} else bag_of sp e' s')"
proof -
  let ?rows = "filter (\<lambda>((e', s', d), n). \<not> (e' = e \<and> s' = s)) (sp_rows sp)"
  have "distinct (map fst rows) \<Longrightarrow> distinct (map fst (filter P rows))" for rows :: "(row_key \<times> nat) list" and P
    by (induction rows) auto
  then have ok: "table_ok ?rows" using assms by (auto simp: table_ok_def)
  then show "table_ok (sp_rows (delete_split e s sp))" by (simp add: delete_split_def)
  have m: "row_count (filter (\<lambda>((e', s', d), n). \<not> (e' = e \<and> s' = s)) rows) (e', s', d)
      = (if e' = e \<and> s' = s then 0 else row_count rows (e', s', d))" for rows d
    by (induction rows) (auto simp: row_count_def)
  show "bag_of (delete_split e s sp) e' s' = (if e' = e \<and> s' = s then {#} else bag_of sp e' s')"
    using ok count_bag_of [OF assms] count_bag_of [of "delete_split e s sp"]
    by (intro multiset_eqI) (simp add: delete_split_def m [simplified])
qed

subsection \<open>The identity of a multiset\<close>

text \<open>Hashing the rows one by one gives the commitment to the whole list.\<close>

lemma pair_dumps:
  "\<exists>t. json_dumps json_escape_ascii (pdict [(''sha256'', PStr d), (''count'', pnat n)]) = Inr t"
  by (simp add: pdict_def pnat_def dict_key_def)

lemma utf8_append [simp]: "utf8 (a @ b) = utf8 a @ utf8 b"
  by (simp add: utf8_def)

lemma utf8_Cons: "utf8 (c # s) = utf8_char c @ utf8 s" "utf8 [] = []"
  by (simp_all add: utf8_def)

lemma rows_bytes_join:
  "rows_bytes first rs = (if rs = [] \<or> first then [] else utf8 '','')
     @ utf8 (join '','' (map (\<lambda>r. case json_dumps json_escape_ascii (pdict [(''sha256'', PStr (fst r)), (''count'', pnat (snd r))])
                               of Inl _ \<Rightarrow> [] | Inr t \<Rightarrow> t) rs)) @ utf8 '']''"
proof (induction rs arbitrary: first)
  case (Cons r rs)
  have "row_bytes r = utf8 (case json_dumps json_escape_ascii (pdict [(''sha256'', PStr (fst r)), (''count'', pnat (snd r))])
      of Inl _ \<Rightarrow> [] | Inr t \<Rightarrow> t)"
    by (simp add: row_bytes_def canonical_bytes_def utf8_def split: sum.splits)
  then show ?case using Cons by (cases rs) (auto simp: utf8_Cons)
qed (simp add: utf8_def)

lemma identity_bytes:
  assumes "split_ok rs" "split_bag rs = mset hs"
  shows "utf8 ''['' @ rows_bytes True rs = canonical_bytes (count_material (counter_keys hs) (count_list hs))"
proof -
  have keys: "counter_keys hs = map fst rs"
  proof (rule sorted_distinct_set_unique)
    show "set (counter_keys hs) = set (map fst rs)"
      using table.set_bag [OF assms(1)] counter.set_bag [of hs] assms(2) by simp
  qed (use table.keys_sorted [OF assms(1)] table.keys_distinct [OF assms(1)] counter.keys_sorted [of hs]
         counter.keys_distinct [of hs] in auto)
  have c: "count_list hs d = other_count rs d" for d
    using table.bag_count [OF assms(1)] assms(2) counter.bag_count [of hs] by metis
  have own: "(d, n) \<in> set rs \<Longrightarrow> count_list hs d = n" for d n
    using c split_own assms(1) by (auto simp: split_ok_def)
  let ?v = "\<lambda>r. pdict [(''sha256'', PStr (fst r)), (''count'', pnat (snd r))]"
  let ?t = "\<lambda>r. case json_dumps json_escape_ascii (?v r) of Inl _ \<Rightarrow> [] | Inr t \<Rightarrow> t"
  have mat: "count_material (counter_keys hs) (count_list hs) = PList (map ?v rs)"
    unfolding count_material_def keys by (auto simp: own)
  have "smap (json_dumps json_escape_ascii) (map ?v rs) = Inr (map ?t rs)"
  proof -
    have "smap (json_dumps json_escape_ascii) (map ?v q) = Inr (map ?t q)" for q
    proof (induction q)
      case (Cons r q)
      obtain t where "json_dumps json_escape_ascii (?v r) = Inr t" using pair_dumps by blast
      with Cons show ?case by simp
    qed simp
    then show ?thesis .
  qed
  then have "canonical_bytes (PList (map ?v rs)) = utf8 (''['' @ join '','' (map ?t rs) @ '']'')"
    by (simp add: canonical_bytes_def)
  then show ?thesis unfolding mat by (simp add: rows_bytes_join utf8_Cons)
qed

subsection \<open>Properties\<close>

text \<open>C31: the identity that the spill computes row by row is the one the in-memory audit computes from
  the list of hashes: the same record count and the same commitment, for every order of the
  records.\<close>

theorem streamed_identity_equal:
  assumes "table_ok (sp_rows sp)" and "bag_of sp e s = mset hs" and "hs \<noteq> []" and "\<And>bs. sha256_pattern (sha bs)"
  shows "spill_identity sha e s sp
    = Inr \<lparr>mi_record_count = int (length hs), canonical_sha256 = counter_commitment sha hs\<rparr>"
proof -
  let ?rs = "split_rows e s (sp_rows sp)"
  have ok: "split_ok ?rs" using assms(1) by (rule split_rows_ok)
  have bag: "split_bag ?rs = mset hs" using assms(2) by (simp add: bag_of_def)
  have n: "sum_list (map snd ?rs) = length hs" using row_total [OF ok] bag by simp
  have c: "sha (utf8 ''['' @ rows_bytes True ?rs) = counter_commitment sha hs"
    using identity_bytes [OF ok bag] by (simp add: counter_commitment_def)
  have "1 \<le> int (length hs)" using assms(3) by (cases hs) auto
  then show ?thesis
    unfolding spill_identity_def Let_def n c new_multiset_identity_def
    by (simp add: aensure_def counter_commitment_def assms(4))
qed

definition zero_sha :: "nat list \<Rightarrow> string" where
  "zero_sha bs = replicate 64 (CHR ''0'')"

lemma zero_sha_pattern: "sha256_pattern (zero_sha bs)"
  by (simp add: zero_sha_def sha256_pattern_def is_lower_hex_def list_all_iff char_code_def)

definition two_rows :: spill where
  "two_rows = \<lparr>sp_rows = [((''baseline'', ''eval'', ''b''), 1), ((''baseline'', ''eval'', ''a''), 2)],
     sp_maximum = 0, sp_peak = 0, sp_exhausted = False, sp_clock = 0\<rparr>"

theorem streamed_identity_witness:
  "spill_identity zero_sha ''baseline'' ''eval'' two_rows
    = Inr \<lparr>mi_record_count = 3, canonical_sha256 = counter_commitment zero_sha [''a'', ''b'', ''a'']\<rparr>"
proof -
  have ok: "table_ok (sp_rows two_rows)" by (simp add: table_ok_def two_rows_def)
  have "bag_of two_rows ''baseline'' ''eval'' = mset [''a'', ''b'', ''a'']"
    unfolding multiset_eq_iff count_bag_of [OF ok] by (simp add: row_count_def two_rows_def)
  from streamed_identity_equal [OF ok this _ zero_sha_pattern] show ?thesis by simp
qed

end
