(* ===== verification/StreamingDataset.thy ===== *)
theory StreamingDataset
  imports DatasetSpill
begin

section \<open>Streaming dataset audits\<close>

text \<open>
  \<^verbatim>\<open>claimci/analysis/streaming_dataset.py\<close>: scanning one dataset split into the spill, the context of
  four scans, and \<^verbatim>\<open>check_streaming_dataset_context\<close> of \<^verbatim>\<open>claimci/dataset_check.py\<close>, which turns the
  facts of a context into findings.
\<close>

subsection \<open>Facts of one split\<close>

record split_scan =
  ss_experiment :: string
  ss_split :: string
  ss_path :: string
  ss_artifact_sha256 :: string
  ss_artifact_size :: int
  ss_trace_sha256 :: string
  ss_completeness :: scan_completeness
  ss_indexed :: int

definition experiments :: "string list" where "experiments = [''baseline'', ''candidate'']"

definition splits :: "string list" where "splits = [''train'', ''eval'']"

definition new_split_scan :: "split_scan \<Rightarrow> split_scan checked" where
  "new_split_scan x =
     sbind (aensure (ss_experiment x \<in> set experiments \<and> ss_split x \<in> set splits) ''dataset scan role is invalid'') (\<lambda>_.
     sbind (aensure (0 \<le> ss_artifact_size x \<and> ss_artifact_size x = expected_bytes (ss_completeness x))
              ''dataset scan artifact size is invalid'') (\<lambda>_.
     sbind (aensure (0 \<le> ss_indexed x \<and> ss_indexed x \<le> records_scanned (ss_completeness x))
              ''dataset indexed record count is invalid'') (\<lambda>_.
     sbind (aensure (integrity_verified (ss_completeness x)) ''dataset scan facts require verified artifact integrity'')
       (\<lambda>_. Inr x))))"

subsection \<open>Scanning a split\<close>

text \<open>The local variables of the scan: counters, the digests not yet flushed, the reader, the scan and
  the spill.\<close>

record scan_vars =
  sv_records :: nat
  sv_indexed :: nat
  sv_pending :: "string list"
  sv_gen :: line_gen
  sv_scan :: artifact_scan
  sv_store :: spill

definition batch_records :: nat where "batch_records = 128"

definition parse_dataset_value :: "'e stream_env_scheme \<Rightarrow> streaming_limits \<Rightarrow> nat list \<Rightarrow> stream_error + pyval" where
  "parse_dataset_value env limits raw =
     sbind (decode_record env raw) (\<lambda>v. sbind (validate_record_graph limits v) (\<lambda>_. Inr v))"

definition record_hash :: "'e stream_env_scheme \<Rightarrow> streaming_limits \<Rightarrow> nat list \<Rightarrow> stream_error + string" where
  "record_hash env limits raw =
     sbind (parse_dataset_value env limits raw) (\<lambda>v.
       case hash_sample (sha256_hex env) v of Inl e \<Rightarrow> Inl (StreamError e) | Inr h \<Rightarrow> Inr h)"

text \<open>Flushing clears the pending digests only when the batch was added.\<close>

definition flush :: "spill_os \<Rightarrow> string \<Rightarrow> string \<Rightarrow> scan_vars \<Rightarrow> (stream_error + unit) \<times> scan_vars" where
  "flush sos e s v =
     (case add_batch sos e s (sv_pending v) (sv_store v) of
        (Inl err, st) \<Rightarrow> (Inl err, v\<lparr>sv_store := st\<rparr>)
      | (Inr n, st) \<Rightarrow> (Inr (), v\<lparr>sv_store := st, sv_indexed := sv_indexed v + n, sv_pending := []\<rparr>))"

definition scan_line ::
  "spill_os \<Rightarrow> 'e stream_env_scheme \<Rightarrow> streaming_limits \<Rightarrow> string \<Rightarrow> string \<Rightarrow> nat list \<times> int \<Rightarrow> scan_vars
    \<Rightarrow> (stream_error + unit) \<times> scan_vars" where
  "scan_line sos env limits e s line v =
     (case line of (raw, physical) \<Rightarrow>
        if max_semantic_bytes limits < as_semantic (sv_scan v) + physical
        then (Inl (ScanStop INCOMPLETE_BUDGET SEMANTIC_BYTE_BUDGET), v)
        else
          (let noted_v = v\<lparr>sv_scan := noted physical (int (length raw)) (sv_scan v)\<rparr>
           in if bytes_blank raw then (Inr (), noted_v)
              else if max_semantic_records limits \<le> int (sv_records v)
              then (Inl (ScanStop INCOMPLETE_BUDGET RECORD_BUDGET), v)
              else case record_hash env limits raw of
                     Inl err \<Rightarrow> (Inl err, noted_v)
                   | Inr h \<Rightarrow>
                       (let v' = noted_v\<lparr>sv_pending := sv_pending v @ [h], sv_records := Suc (sv_records v)\<rparr>
                        in if batch_records \<le> length (sv_pending v') then flush sos e s v' else (Inr (), v'))))"

text \<open>Every line of the reader uses up some of its block or of the budget.\<close>

definition lines_left :: "line_gen \<Rightarrow> artifact_scan \<Rightarrow> nat" where
  "lines_left g s = 2 * budget_left s + length (lg_block g) + (if lg_done g then 0 else 1)"

lemma rest_of_length: "length (rest_of c) \<le> length c"
  by (simp add: rest_of_def length_dropWhile_le)

lemma next_line_progress:
  "next_line os maximum g s = (Inr (Some l), g', s') \<Longrightarrow> lines_left g' s' < lines_left g s"
proof (induction os maximum g s rule: next_line.induct)
  case (1 os maximum g s)
  note now = 1(3) and IH_read = 1(1) and IH_block = 1(2)
  have d: "\<not> lg_done g" using now by (subst (asm) next_line.simps) (auto split: if_splits)
  show ?case
  proof (cases "lg_block g")
    case Nil
    obtain r s1 where rc: "read_chunk os read_chunk_bytes s = (r, s1)" by fastforce
    consider e where "r = Inl e" | "r = Inr []" | b bs where "r = Inr (b # bs)"
      by (metis list.exhaust sum.exhaust_sel)
    then show ?thesis
    proof cases
      case 1
      with now d Nil rc show ?thesis by (subst (asm) next_line.simps) auto
    next
      case 2
      have "budget_left s1 = budget_left s" using rc 2 read_chunk_Inr(1) [OF rc [unfolded 2]]
        by (auto simp: budget_left_def read_chunk_def Let_def split: if_splits option.splits list.splits)
      with now d Nil rc 2 show ?thesis
        by (subst (asm) next_line.simps) (auto simp: lines_left_def split: if_splits)
    next
      case 3
      have n: "next_line os maximum (g\<lparr>lg_block := b # bs\<rparr>) s1 = (Inr (Some l), g', s')"
        using now d Nil rc 3 by (subst (asm) next_line.simps) simp
      have "lines_left g' s' < lines_left (g\<lparr>lg_block := b # bs\<rparr>) s1"
        using IH_read [OF d Nil rc [symmetric] 3 refl n] .
      moreover have "lines_left (g\<lparr>lg_block := b # bs\<rparr>) s1 \<le> lines_left g s"
        using budget_read [of os read_chunk_bytes s b bs s1] rc 3 Nil by (simp add: lines_left_def)
      ultimately show ?thesis by simp
    qed
  next
    case (Cons b bs)
    let ?seg = "segment_of (lg_block g)"
    have short: "\<not> maximum + 1 < int (length (lg_line g)) + int (length ?seg)"
      using now d Cons by (subst (asm) next_line.simps) (auto split: if_splits)
    show ?thesis
    proof (cases "rest_of (lg_block g)")
      case Nil
      let ?l = "lg_line g @ ?seg" and ?p = "lg_physical g + int (length ?seg)"
      let ?s = "noted 0 (int (length (strip_cr ?l))) s"
      have n: "next_line os maximum (g\<lparr>lg_line := ?l, lg_physical := ?p, lg_block := []\<rparr>) ?s = (Inr (Some l), g', s')"
        using now d Cons short Nil by (subst (asm) next_line.simps) (simp add: Let_def)
      have "lines_left g' s' < lines_left (g\<lparr>lg_line := ?l, lg_physical := ?p, lg_block := []\<rparr>) ?s"
        using IH_block [OF d Cons refl refl refl _ refl refl refl _] short Nil Cons n by simp
      then show ?thesis by (simp add: lines_left_def)
    next
      case (Cons x tail)
      have "length (x # tail) \<le> length (lg_block g)" using rest_of_length [of "lg_block g"] Cons by simp
      then show ?thesis
        using now d short Cons \<open>lg_block g = b # bs\<close>
        by (subst (asm) next_line.simps) (auto simp: Let_def lines_left_def split: if_splits)
    qed
  qed
qed

lemma flush_same: "flush sos e s v = (r, v') \<Longrightarrow> sv_gen v' = sv_gen v \<and> sv_scan v' = sv_scan v"
  by (auto simp: flush_def split: prod.splits sum.splits)

lemma scan_line_same:
  "scan_line sos env limits e s l v = (r, v') \<Longrightarrow>
     sv_gen v' = sv_gen v \<and> budget_left (sv_scan v') = budget_left (sv_scan v)"
  by (auto simp: scan_line_def Let_def dest!: flush_same split: prod.splits if_splits sum.splits)

function scan_loop ::
  "os_files \<Rightarrow> spill_os \<Rightarrow> 'e stream_env_scheme \<Rightarrow> streaming_limits \<Rightarrow> string \<Rightarrow> string \<Rightarrow> scan_vars
    \<Rightarrow> (stream_error + unit) \<times> scan_vars" where
  "scan_loop os sos env limits e s v =
     (case next_line os (max_logical_record_bytes limits) (sv_gen v) (sv_scan v) of
        (r, g, sc) \<Rightarrow>
          (case r of
             Inl err \<Rightarrow> (Inl err, v\<lparr>sv_gen := g, sv_scan := sc\<rparr>)
           | Inr None \<Rightarrow> (Inr (), v\<lparr>sv_gen := g, sv_scan := sc\<rparr>)
           | Inr (Some l) \<Rightarrow>
               (case scan_line sos env limits e s l (v\<lparr>sv_gen := g, sv_scan := sc\<rparr>) of
                  (r', v') \<Rightarrow>
                    (case r' of Inl err \<Rightarrow> (Inl err, v') | Inr _ \<Rightarrow> scan_loop os sos env limits e s v'))))"
  by pat_completeness auto
termination
  by (relation "measure (\<lambda>(os, sos, env, limits, e, s, v). lines_left (sv_gen v) (sv_scan v))")
    (auto dest!: next_line_progress [OF sym] scan_line_same [OF sym] simp: lines_left_def)

declare scan_loop.simps [simp del]

text \<open>The guarded part of the scan, and its handlers.\<close>

definition finish_vars ::
  "os_files \<Rightarrow> 'e stream_env_scheme \<Rightarrow> bool \<Rightarrow> scan_state option \<Rightarrow> scan_reason option \<Rightarrow> int \<Rightarrow> scan_vars
    \<Rightarrow> (stream_error + scan_completeness) \<times> scan_vars" where
  "finish_vars os env full st reason scratch v =
     (case finish os (sha256_hex env) (int (sv_records v)) full st reason scratch (sv_scan v) of
        (r, sc) \<Rightarrow> (r, v\<lparr>sv_scan := sc\<rparr>))"

definition scan_body ::
  "os_files \<Rightarrow> spill_os \<Rightarrow> 'e stream_env_scheme \<Rightarrow> streaming_limits \<Rightarrow> string \<Rightarrow> string \<Rightarrow> scan_vars
    \<Rightarrow> (stream_error + scan_completeness) \<times> scan_vars" where
  "scan_body os sos env limits e s v =
     (if sp_exhausted (sv_store v) then (Inl (ScanStop INCOMPLETE_BUDGET SCRATCH_BUDGET), v)
      else case scan_loop os sos env limits e s v of
        (Inl err, v1) \<Rightarrow> (Inl err, v1)
      | (Inr _, v1) \<Rightarrow>
          (case flush sos e s v1 of
             (Inl err, v2) \<Rightarrow> (Inl err, v2)
           | (Inr _, v2) \<Rightarrow>
               (if sv_records v2 = 0 then (Inl (ScanStop SS_FAILED MALFORMED), v2)
                else finish_vars os env True None None (sp_peak (sv_store v2)) v2)))"

definition scratch_used :: "streaming_limits \<Rightarrow> scan_vars \<Rightarrow> int" where
  "scratch_used limits v = min (sp_peak (sv_store v)) (max_scratch_bytes limits)"

text \<open>A failed split leaves nothing in the table.\<close>

definition discard :: "string \<Rightarrow> string \<Rightarrow> scan_vars \<Rightarrow> scan_vars" where
  "discard e s v = v\<lparr>sv_pending := [], sv_store := delete_split e s (sv_store v), sv_indexed := 0\<rparr>"

fun caught_error :: "stream_error \<Rightarrow> bool" where
  "caught_error (StreamError (OSError _)) = False"
| "caught_error (StreamError (OverflowError _)) = False"
| "caught_error (StreamError (AssertionError _)) = False"
| "caught_error _ = True"

definition stop_scan ::
  "os_files \<Rightarrow> 'e stream_env_scheme \<Rightarrow> streaming_limits \<Rightarrow> scan_state \<Rightarrow> scan_reason \<Rightarrow> scan_vars
    \<Rightarrow> (stream_error + scan_completeness) \<times> scan_vars" where
  "stop_scan os env limits st reason v =
     finish_vars os env False (Some st) (Some reason) (scratch_used limits v) v"

definition handle_scan ::
  "os_files \<Rightarrow> spill_os \<Rightarrow> 'e stream_env_scheme \<Rightarrow> streaming_limits \<Rightarrow> string \<Rightarrow> string
    \<Rightarrow> (stream_error + scan_completeness) \<times> scan_vars \<Rightarrow> (stream_error + scan_completeness) \<times> scan_vars" where
  "handle_scan os sos env limits e s out =
     (case out of
        (Inr report, v) \<Rightarrow> (Inr report, v)
      | (Inl err, v) \<Rightarrow>
          (case err of
             ScratchFull _ \<Rightarrow> stop_scan os env limits INCOMPLETE_BUDGET SCRATCH_BUDGET (v\<lparr>sv_pending := []\<rparr>)
           | ScanStop st reason \<Rightarrow>
               (if st = SS_FAILED then stop_scan os env limits st reason (discard e s v)
                else case flush sos e s v of
                       (Inl (ScratchFull _), v') \<Rightarrow> stop_scan os env limits INCOMPLETE_BUDGET SCRATCH_BUDGET v'
                     | (Inl err', v') \<Rightarrow> (Inl err', v')
                     | (Inr _, v') \<Rightarrow> stop_scan os env limits st reason v')
           | _ \<Rightarrow>
               (if caught_error err then stop_scan os env limits SS_FAILED MALFORMED (discard e s v)
                else (Inl err, v))))"

definition start_vars :: "artifact_scan \<Rightarrow> spill \<Rightarrow> scan_vars" where
  "start_vars sc store =
     \<lparr>sv_records = 0, sv_indexed = 0, sv_pending = [], sv_gen = start_lines, sv_scan = sc, sv_store = store\<rparr>"

definition split_facts ::
  "(nat list \<Rightarrow> string) \<Rightarrow> artifact_source \<Rightarrow> string \<Rightarrow> string \<Rightarrow> scan_completeness \<Rightarrow> scan_vars
    \<Rightarrow> stream_error + split_scan" where
  "split_facts sha src e s report v =
     sbind (trace_sha256 sha (sv_scan v)) (\<lambda>trace.
       case sbind (new_sha256 trace) (\<lambda>trace'.
         new_split_scan
           \<lparr>ss_experiment = e, ss_split = s, ss_path = ac_path (src_candidate src),
            ss_artifact_sha256 = ac_sha256 (src_candidate src), ss_artifact_size = ac_size (src_candidate src),
            ss_trace_sha256 = trace', ss_completeness = report, ss_indexed = int (sv_indexed v)\<rparr>) of
         Inl err \<Rightarrow> Inl (StreamError err)
       | Inr x \<Rightarrow> Inr x)"

definition scan_dataset ::
  "os_files \<Rightarrow> spill_os \<Rightarrow> 'e stream_env_scheme \<Rightarrow> streaming_limits \<Rightarrow> string \<Rightarrow> string \<Rightarrow> artifact_source
    \<Rightarrow> spill \<Rightarrow> nat \<Rightarrow> (stream_error + split_scan) \<times> spill \<times> nat" where
  "scan_dataset os sos env limits e s src store t =
     (if ac_kind (src_candidate src) \<noteq> DATASET \<or> py_lower (path_suffix (ac_path (src_candidate src))) \<noteq> ''.jsonl''
      then (Inl (StreamError (AnalysisContractError ''streaming dataset input must be a fixed JSONL dataset source'')), store, t)
      else case open_scan os src DATASET_RECORDS limits t of
        (Inl err, t') \<Rightarrow> (Inl err, store, t')
      | (Inr sc, t') \<Rightarrow>
          (case handle_scan os sos env limits e s (scan_body os sos env limits e s (start_vars sc store)) of
             (Inl err, v) \<Rightarrow> (Inl err, sv_store v, as_clock (sv_scan v))
           | (Inr report, v) \<Rightarrow>
               (split_facts (sha256_hex env) src e s report v, sv_store v, as_clock (sv_scan v))))"

subsection \<open>The context of four scans\<close>

record scan_context =
  cx_repository :: repository_identity
  cx_head :: string
  cx_scans :: "split_scan list"
  cx_store :: spill
  cx_active :: bool
  cx_preview :: nat
  cx_paths :: "((string \<times> string) \<times> string) list"

fun scan_all ::
  "os_files \<Rightarrow> spill_os \<Rightarrow> 'e stream_env_scheme \<Rightarrow> streaming_limits \<Rightarrow> ((string \<times> string) \<times> artifact_source) list
    \<Rightarrow> spill \<Rightarrow> nat \<Rightarrow> stream_error + split_scan list \<times> spill" where
  "scan_all os sos env limits [] store t = Inr ([], store)"
| "scan_all os sos env limits (((e, s), src) # rest) store t =
     (case scan_dataset os sos env limits e s src store t of
        (Inl err, _) \<Rightarrow> Inl err
      | (Inr x, store', t') \<Rightarrow>
          sbind (scan_all os sos env limits rest store' t') (\<lambda>(xs, final). Inr (x # xs, final)))"

definition src_repository :: "artifact_source \<Rightarrow> repository_identity" where
  "src_repository src = oc_repository (src_occurrence src)"

definition src_head :: "artifact_source \<Rightarrow> string" where
  "src_head src = oc_commit (src_occurrence src)"

fun repository_paths :: "((string \<times> string) \<times> string) list \<Rightarrow> ((string \<times> string) \<times> string) list checked" where
  "repository_paths [] = Inr []"
| "repository_paths ((k, p) # ps) =
     sbind (new_repository_path p) (\<lambda>p'. sbind (repository_paths ps) (\<lambda>ps'. Inr ((k, p') # ps')))"

text \<open>The paths of the manifest for the four splits, given or those of the sources.\<close>

definition fixed_paths ::
  "((string \<times> string) \<times> string) list \<Rightarrow> ((string \<times> string) \<times> string) list option
    \<Rightarrow> ((string \<times> string) \<times> string) list checked" where
  "fixed_paths source_paths manifest =
     (case manifest of
        None \<Rightarrow> Inr source_paths
      | Some m \<Rightarrow>
          (if set (map fst m) \<noteq> set (map fst source_paths)
           then Inl (AnalysisContractError ''dataset manifest aliases must cover every exact scan source'')
           else sbind (repository_paths m) (\<lambda>fixed.
                  if \<not> distinct (map snd fixed)
                  then Inl (AnalysisContractError ''dataset manifest aliases must be unique'')
                  else Inr (map (\<lambda>(k, p). (k, the (map_of fixed k))) source_paths))))"

definition stream_dataset_audit_context ::
  "os_files \<Rightarrow> spill_os \<Rightarrow> 'e stream_env_scheme \<Rightarrow> streaming_limits \<Rightarrow> artifact_source \<Rightarrow> artifact_source
    \<Rightarrow> artifact_source \<Rightarrow> artifact_source \<Rightarrow> string \<Rightarrow> ((string \<times> string) \<times> string) list option \<Rightarrow> nat
    \<Rightarrow> stream_error + scan_context" where
  "stream_dataset_audit_context os sos env limits bt be ct ce scratch manifest t =
     (let keyed = [((''baseline'', ''train''), bt), ((''baseline'', ''eval''), be),
                   ((''candidate'', ''train''), ct), ((''candidate'', ''eval''), ce)];
          sources = map snd keyed
      in if length (remdups (map src_repository sources)) \<noteq> 1 \<or> length (remdups (map src_head sources)) \<noteq> 1
         then Inl (StreamError (AnalysisContractError ''streaming dataset sources must share one repository and exact head''))
         else
           (case fixed_paths (map (\<lambda>(k, src). (k, ac_path (src_candidate src))) keyed) manifest of
              Inl err \<Rightarrow> Inl (StreamError err)
            | Inr paths \<Rightarrow>
                (case spill_root os scratch t of
                   (Inl err, _) \<Rightarrow> Inl err
                 | (Inr _, t') \<Rightarrow>
                     sbind (new_spill sos (max_scratch_bytes limits)) (\<lambda>store.
                     sbind (scan_all os sos env limits keyed store t') (\<lambda>(scans, final).
                       Inr \<lparr>cx_repository = src_repository bt, cx_head = src_head bt, cx_scans = scans,
                            cx_store = final, cx_active = True, cx_preview = nat (max_hash_previews limits),
                            cx_paths = paths\<rparr>)))))"

definition deactivate :: "scan_context \<Rightarrow> scan_context" where
  "deactivate cx = cx\<lparr>cx_active := False\<rparr>"

definition require_active :: "scan_context \<Rightarrow> unit checked" where
  "require_active cx = aensure (cx_active cx) ''dataset Audit context is no longer active''"

definition context_scan :: "scan_context \<Rightarrow> string \<Rightarrow> string \<Rightarrow> split_scan checked" where
  "context_scan cx e s =
     sbind (require_active cx) (\<lambda>_.
       case filter (\<lambda>x. ss_experiment x = e \<and> ss_split x = s) (cx_scans cx) of
         [x] \<Rightarrow> Inr x
       | _ \<Rightarrow> Inl (AnalysisContractError ''dataset Audit scan key is invalid''))"

record overlap_fact =
  of_train_scan :: split_scan
  of_eval_scan :: split_scan
  of_train_count :: nat
  of_eval_count :: nat
  of_overlap_count :: nat
  of_hashes :: "string list"
  of_distinct :: nat

definition scan_complete :: "split_scan \<Rightarrow> bool" where
  "scan_complete x = scan_is_complete (ss_completeness x)"

definition fact_complete :: "overlap_fact \<Rightarrow> bool" where
  "fact_complete f = (scan_complete (of_train_scan f) \<and> scan_complete (of_eval_scan f))"

definition overlap_rows :: "spill \<Rightarrow> string \<Rightarrow> (string \<times> nat \<times> nat) list" where
  "overlap_rows sp e = joined (split_rows e ''train'' (sp_rows sp)) (split_rows e ''eval'' (sp_rows sp))"

definition spill_overlap :: "spill \<Rightarrow> string \<Rightarrow> split_scan \<Rightarrow> split_scan \<Rightarrow> nat \<Rightarrow> overlap_fact" where
  "spill_overlap sp e train eval limit =
     \<lparr>of_train_scan = train, of_eval_scan = eval, of_train_count = spill_count e ''train'' sp,
      of_eval_count = spill_count e ''eval'' sp,
      of_overlap_count = joined_count (split_rows e ''train'' (sp_rows sp)) (split_rows e ''eval'' (sp_rows sp)),
      of_hashes = take limit (map fst (overlap_rows sp e)), of_distinct = length (overlap_rows sp e)\<rparr>"

definition context_overlap :: "scan_context \<Rightarrow> string \<Rightarrow> overlap_fact checked" where
  "context_overlap cx e =
     sbind (require_active cx) (\<lambda>_.
     sbind (context_scan cx e ''train'') (\<lambda>train.
     sbind (context_scan cx e ''eval'') (\<lambda>eval.
       Inr (spill_overlap (cx_store cx) e train eval (cx_preview cx)))))"

definition evaluation_identity ::
  "(nat list \<Rightarrow> string) \<Rightarrow> scan_context \<Rightarrow> string \<Rightarrow> multiset_identity option checked" where
  "evaluation_identity sha cx e =
     sbind (require_active cx) (\<lambda>_.
     sbind (context_scan cx e ''eval'') (\<lambda>x.
       if \<not> scan_complete x then Inr None
       else sbind (spill_identity sha e ''eval'' (cx_store cx)) (\<lambda>i. Inr (Some i))))"

record alignment_fact =
  al_baseline :: multiset_identity
  al_candidate :: multiset_identity
  al_matching :: nat
  al_baseline_only_count :: nat
  al_candidate_only_count :: nat
  al_baseline_only :: "(string \<times> nat) list"
  al_candidate_only :: "(string \<times> nat) list"

definition spill_alignment :: "spill \<Rightarrow> multiset_identity \<Rightarrow> multiset_identity \<Rightarrow> nat \<Rightarrow> alignment_fact" where
  "spill_alignment sp b c limit =
     (let br = split_rows ''baseline'' ''eval'' (sp_rows sp); cr = split_rows ''candidate'' ''eval'' (sp_rows sp)
      in \<lparr>al_baseline = b, al_candidate = c, al_matching = joined_count br cr,
          al_baseline_only_count = side_count br cr, al_candidate_only_count = side_count cr br,
          al_baseline_only = side_preview limit br cr, al_candidate_only = side_preview limit cr br\<rparr>)"

definition evaluation_alignment ::
  "(nat list \<Rightarrow> string) \<Rightarrow> scan_context \<Rightarrow> alignment_fact option checked" where
  "evaluation_alignment sha cx =
     sbind (require_active cx) (\<lambda>_.
     sbind (evaluation_identity sha cx ''baseline'') (\<lambda>b.
     sbind (evaluation_identity sha cx ''candidate'') (\<lambda>c.
       case (b, c) of
         (Some bi, Some ci) \<Rightarrow> Inr (Some (spill_alignment (cx_store cx) bi ci (cx_preview cx)))
       | _ \<Rightarrow> Inr None)))"

text \<open>The paths of the audited manifest must be the ones the context was made for.\<close>

definition context_mismatch :: py_error where
  "context_mismatch = ClaimCIError ''dataset scan context does not match the confined manifest''"

fun validate_each ::
  "'e io_env_scheme \<Rightarrow> string \<Rightarrow> ((string \<times> string) \<times> string) list \<Rightarrow> ((string \<times> string) \<times> string) list
    \<Rightarrow> unit checked" where
  "validate_each env base expected [] = Inr ()"
| "validate_each env base expected ((k, p) # ps) =
     (case resolve_path env p of
        Inl _ \<Rightarrow> Inl context_mismatch
      | Inr resolved \<Rightarrow>
          (case relative_to resolved base of
             None \<Rightarrow> Inl context_mismatch
           | Some parts \<Rightarrow>
               sbind (new_repository_path (path_of '''' parts)) (\<lambda>rel.
                 if map_of expected k \<noteq> Some rel then Inl context_mismatch
                 else validate_each env base expected ps)))"

definition validate_paths ::
  "'e io_env_scheme \<Rightarrow> scan_context \<Rightarrow> string \<Rightarrow> ((string \<times> string) \<times> string) list \<Rightarrow> unit checked" where
  "validate_paths env cx base paths =
     sbind (require_active cx) (\<lambda>_.
       case resolve_path env base of
         Inl e \<Rightarrow> Inl (OSError e)
       | Inr resolved \<Rightarrow>
           (if set (map fst paths) \<noteq> set (map fst (cx_paths cx)) then Inl context_mismatch
            else validate_each env resolved (cx_paths cx) paths))"

subsection \<open>Findings of a context\<close>

definition overlap_summary_of :: "string \<Rightarrow> overlap_fact \<Rightarrow> overlap_summary" where
  "overlap_summary_of e f =
     \<lparr>ov_experiment = e, train_count = of_train_count f, eval_count = of_eval_count f,
      overlap_count = of_overlap_count f, overlap_rate = rate_of (of_overlap_count f) (of_eval_count f),
      overlapping_hashes = of_hashes f\<rparr>"

definition state_text :: "split_scan \<Rightarrow> pyval" where
  "state_text x = PStr (scan_state_value (sc_state (ss_completeness x)))"

definition reason_text :: "split_scan \<Rightarrow> pyval" where
  "reason_text x = PStr (scan_reason_value (sc_reason (ss_completeness x)))"

definition records_text :: "split_scan \<Rightarrow> pyval" where
  "records_text x = PInt (records_scanned (ss_completeness x))"

definition artifact_evidence :: "overlap_fact \<Rightarrow> (string \<times> pyval) list" where
  "artifact_evidence f =
     [(''train_artifact_path'', PStr (ss_path (of_train_scan f))),
      (''train_artifact_sha256'', PStr (ss_artifact_sha256 (of_train_scan f))),
      (''eval_artifact_path'', PStr (ss_path (of_eval_scan f))),
      (''eval_artifact_sha256'', PStr (ss_artifact_sha256 (of_eval_scan f))),
      (''train_scan_state'', state_text (of_train_scan f)), (''eval_scan_state'', state_text (of_eval_scan f)),
      (''integrity_verified'', PBool True)]"

definition streamed_leakage_finding :: "string \<Rightarrow> overlap_fact \<Rightarrow> finding" where
  "streamed_leakage_finding e f =
     (let rate = rate_of (of_overlap_count f) (of_eval_count f)
      in \<lparr>rule_id = ''DATASET.EXACT_LEAKAGE'', severity = CRITICAL,
          title = py_title e @ '' evaluation data appears in training data'',
          explanation =
            (if fact_complete f
             then ''Found '' @ show_nat (of_overlap_count f) @ '' exact canonical overlap(s), covering ''
               @ fmt_pct 1 rate @ '' of evaluation records.''
             else ''Found '' @ show_nat (of_overlap_count f) @ '' exact canonical overlap(s) ''
               @ ''among inspected records bound to integrity-verified artifacts. ''
               @ ''No claim is made about unscanned records.''),
          evidence =
            [(''experiment'', PStr e), (''train_count'', pnat (of_train_count f)),
             (''eval_count'', pnat (of_eval_count f)), (''overlap_count'', pnat (of_overlap_count f)),
             (''hashes'', str_list (of_hashes f)),
             (''hash_preview_truncated'', PBool (length (of_hashes f) < of_distinct f))]
            @ artifact_evidence f
            @ (if fact_complete f then [(''overlap_rate'', PFloat rate)]
               else [(''scope'', PStr ''inspected_exact_records_only''),
                     (''train_records_scanned'', records_text (of_train_scan f)),
                     (''eval_records_scanned'', records_text (of_eval_scan f))]),
          impact = INVALIDATES\<rparr>)"

definition streamed_no_leakage_finding :: "string \<Rightarrow> overlap_fact \<Rightarrow> finding" where
  "streamed_no_leakage_finding e f =
     \<lparr>rule_id = ''DATASET.NO_LEAKAGE'', severity = VERIFIED,
      title = py_title e @ '' has no exact train/eval leakage'',
      explanation = ''No canonical evaluation record hash appears in the training split.'',
      evidence =
        [(''experiment'', PStr e), (''train_count'', pnat (of_train_count f)),
         (''eval_count'', pnat (of_eval_count f)), (''overlap_count'', PInt 0), (''overlap_rate'', PFloat fzero)]
        @ artifact_evidence f,
      impact = NONE\<rparr>"

definition scan_incomplete_finding :: "string \<Rightarrow> overlap_fact \<Rightarrow> finding" where
  "scan_incomplete_finding e f =
     \<lparr>rule_id = ''DATASET.SCAN_INCOMPLETE'', severity = WARNING,
      title = py_title e @ '' dataset scan is incomplete'',
      explanation = ''Exact artifact integrity was verified, but bounded ''
        @ ''semantic scanning did not establish complete dataset facts.'',
      evidence =
        [(''experiment'', PStr e),
         (''train_scan_state'', state_text (of_train_scan f)), (''train_scan_reason'', reason_text (of_train_scan f)),
         (''train_records_scanned'', records_text (of_train_scan f)),
         (''eval_scan_state'', state_text (of_eval_scan f)), (''eval_scan_reason'', reason_text (of_eval_scan f)),
         (''eval_records_scanned'', records_text (of_eval_scan f)), (''integrity_verified'', PBool True),
         (''train_artifact_sha256'', PStr (ss_artifact_sha256 (of_train_scan f))),
         (''eval_artifact_sha256'', PStr (ss_artifact_sha256 (of_eval_scan f)))],
      impact = INSUFFICIENT\<rparr>"

definition overlap_findings :: "string \<Rightarrow> overlap_fact \<Rightarrow> finding list" where
  "overlap_findings e f =
     (if of_overlap_count f \<noteq> 0 then [streamed_leakage_finding e f]
      else if fact_complete f then [streamed_no_leakage_finding e f] else [])
     @ (if fact_complete f then [] else [scan_incomplete_finding e f])"

definition streamed_alignment_evidence :: "alignment_fact \<Rightarrow> split_scan \<Rightarrow> split_scan \<Rightarrow> (string \<times> pyval) list" where
  "streamed_alignment_evidence a b c =
     [(''baseline_eval_count'', PInt (mi_record_count (al_baseline a))),
      (''candidate_eval_count'', PInt (mi_record_count (al_candidate a))),
      (''matching_count'', pnat (al_matching a)),
      (''baseline_only_count'', pnat (al_baseline_only_count a)),
      (''candidate_only_count'', pnat (al_candidate_only_count a)),
      (''baseline_only'', hash_count_evidence (al_baseline_only a)),
      (''candidate_only'', hash_count_evidence (al_candidate_only a)),
      (''baseline_eval_sha256'', PStr (ss_artifact_sha256 b)),
      (''candidate_eval_sha256'', PStr (ss_artifact_sha256 c)),
      (''scan_state'', PStr ''complete''), (''integrity_verified'', PBool True)]"

definition check_streaming_dataset_context ::
  "(nat list \<Rightarrow> string) \<Rightarrow> scan_context \<Rightarrow> (overlap_summary list \<times> finding list) checked" where
  "check_streaming_dataset_context sha cx =
     sbind (smap (\<lambda>e. sbind (context_overlap cx e) (\<lambda>f. Inr (e, f))) experiments) (\<lambda>facts.
     sbind (evaluation_alignment sha cx) (\<lambda>alignment.
     sbind (case alignment of
              None \<Rightarrow> Inr []
            | Some a \<Rightarrow>
                sbind (context_scan cx ''baseline'' ''eval'') (\<lambda>b.
                sbind (context_scan cx ''candidate'' ''eval'') (\<lambda>c.
                  (let ev = streamed_alignment_evidence a b c
                   in Inr [if al_baseline a = al_candidate a then aligned_finding ev else misaligned_finding ev]))))
       (\<lambda>aligned.
         Inr (map (\<lambda>(e, f). overlap_summary_of e f) facts,
              concat (map (\<lambda>(e, f). overlap_findings e f) facts) @ aligned))))"

lemma overlap_findings_rules:
  "x \<in> set (overlap_findings e f) \<Longrightarrow> rule_id x \<in> set dataset_rules \<and> coherent x"
  by (auto simp: overlap_findings_def streamed_leakage_finding_def streamed_no_leakage_finding_def
      scan_incomplete_finding_def dataset_rules_def coherent_def Let_def split: if_splits)

lemma alignment_findings_rules:
  "rule_id (aligned_finding ev) \<in> set dataset_rules" "coherent (aligned_finding ev)"
  "rule_id (misaligned_finding ev) \<in> set dataset_rules" "coherent (misaligned_finding ev)"
  by (simp_all add: aligned_finding_def misaligned_finding_def dataset_rules_def coherent_def)

lemma streamed_findings_shape:
  assumes "check_streaming_dataset_context sha cx = Inr (ovs, fs)"
  shows "\<exists>facts al. fs = concat (map (\<lambda>(e, f). overlap_findings e f) facts) @ al \<and>
           (\<forall>y\<in>set al. \<exists>ev. y = aligned_finding ev \<or> y = misaligned_finding ev)"
proof -
  obtain facts al where
    "sbind (evaluation_alignment sha cx) (\<lambda>alignment.
       case alignment of
         None \<Rightarrow> Inr []
       | Some a \<Rightarrow>
           sbind (context_scan cx ''baseline'' ''eval'') (\<lambda>b.
           sbind (context_scan cx ''candidate'' ''eval'') (\<lambda>c.
             let ev = streamed_alignment_evidence a b c
             in Inr [if al_baseline a = al_candidate a then aligned_finding ev else misaligned_finding ev]))) = Inr al"
    and fs: "fs = concat (map (\<lambda>(e, f). overlap_findings e f) facts) @ al"
    using assms unfolding check_streaming_dataset_context_def sbind_eq_Inr by (auto simp: sbind_eq_Inr)
  then have "\<forall>y\<in>set al. \<exists>ev. y = aligned_finding ev \<or> y = misaligned_finding ev"
    by (cases "evaluation_alignment sha cx") (auto simp: sbind_eq_Inr Let_def split: option.splits if_splits; blast)+
  with fs show ?thesis by blast
qed

definition streamed_findings :: "(overlap_summary list \<times> finding list) checked \<Rightarrow> finding list" where
  "streamed_findings r = (case r of Inl _ \<Rightarrow> [] | Inr (_, fs) \<Rightarrow> fs)"

interpretation streaming_check: rule_check
  "\<lambda>(sha, cx). streamed_findings (check_streaming_dataset_context sha cx)" dataset_rules
proof
  fix x and i :: "(nat list \<Rightarrow> string) \<times> scan_context"
  assume x: "x \<in> set (case i of (sha, cx) \<Rightarrow> streamed_findings (check_streaming_dataset_context sha cx))"
  obtain sha cx where i: "i = (sha, cx)" by fastforce
  obtain ovs fs where r: "check_streaming_dataset_context sha cx = Inr (ovs, fs)" and xs: "x \<in> set fs"
  proof (cases "check_streaming_dataset_context sha cx")
    case (Inl e)
    then show ?thesis using x by (simp add: i streamed_findings_def)
  next
    case (Inr p)
    then show ?thesis using x that by (cases p) (simp add: i streamed_findings_def)
  qed
  obtain facts al where fs: "fs = concat (map (\<lambda>(e, f). overlap_findings e f) facts) @ al"
    and al: "\<And>y. y \<in> set al \<Longrightarrow> \<exists>ev. y = aligned_finding ev \<or> y = misaligned_finding ev"
    using streamed_findings_shape [OF r] by blast
  have "rule_id x \<in> set dataset_rules \<and> coherent x"
    using xs al overlap_findings_rules alignment_findings_rules unfolding fs by fastforce
  then show "rule_id x \<in> set dataset_rules" "coherent x" by simp_all
qed

end
