(* ===== verification/StreamedAudit.thy ===== *)
theory StreamedAudit
  imports StreamingDataset
begin

section \<open>Streaming dataset audits against their reference\<close>

text \<open>
  The outcome of a streamed scan in terms of the content of its artifact. The reference is
  \<open>content_hashes\<close>: split the whole content into lines, decode, bound and hash every record that is not
  blank. The lemmas follow one line, the loop, the guarded part and its handlers, a scan, and the four
  scans of a context; the properties say that complete scans are exact and that any other scan never
  overstates.
\<close>


subsection \<open>What the loop reads and stores\<close>

lemma noted_bytes [simp]:
  "as_bytes (noted n b s) = as_bytes s" "as_eof (noted n b s) = as_eof s" "as_finished (noted n b s) = as_finished s"
  "as_source (noted n b s) = as_source s"
  by (simp_all add: noted_def note_semantic_bytes_def)

lemma delivers_unnoted: "delivers os (noted n b s) c \<Longrightarrow> delivers os s c"
proof -
  assume d: "delivers os (noted n b s) c"
  have "renoted (as_semantic s) (as_peak s) (noted n b s) = s"
    by (simp add: renoted_def noted_def note_semantic_bytes_def)
  then show ?thesis using delivers_renoted [OF d] by metis
qed

lemma delivers_functional: "delivers os s c \<Longrightarrow> delivers os s c' \<Longrightarrow> c' = c"
proof (induction arbitrary: c' rule: delivers.induct)
  case (deliver_block s b bs s' content)
  from deliver_block.prems deliver_block.hyps show ?case
    by (cases rule: delivers.cases) (auto dest: deliver_block.IH)
qed (auto elim: delivers.cases)

lemma read_bytes:
  "read_chunk os m s = (Inr block, s') \<Longrightarrow> as_bytes s' = as_bytes s @ block"
  by (auto simp: read_chunk_def Let_def split: if_splits option.splits list.splits)

text \<open>What is still to be read of a scan: nothing once the end was seen.\<close>

definition remains :: "os_files \<Rightarrow> artifact_scan \<Rightarrow> nat list \<Rightarrow> bool" where
  "remains os s c = (if as_eof s then c = [] else delivers os s c)"

fun bounded_stop :: "stream_error \<Rightarrow> bool" where
  "bounded_stop (ScanStop st reason) = True"
| "bounded_stop (ScratchFull t) = True"
| "bounded_stop _ = False"

lemma read_chunk_Inl: "read_chunk os m s = (Inl e, s') \<Longrightarrow> \<not> bounded_stop e"
  by (auto simp: read_chunk_def Let_def split: if_splits option.splits list.splits)

lemma next_line_trace:
  "next_line os maximum g s = (r, g', s') \<Longrightarrow> gen_ok maximum g \<Longrightarrow> \<not> as_eof s \<Longrightarrow>
     (\<And>e. r = Inl e \<Longrightarrow> bounded_stop e) \<Longrightarrow>
     \<exists>bs. as_bytes s' = as_bytes s @ bs \<and> same_scan s s' \<and> (hashed_all s \<longrightarrow> hashed_all s')
       \<and> (\<forall>c. remains os s' c \<longrightarrow> delivers os s (bs @ c))
       \<and> (\<forall>x. r = Inr x \<longrightarrow> lg_done g' = as_eof s' \<and> (\<not> lg_done g' \<longrightarrow> x \<noteq> None \<and> gen_ok maximum g'))"
proof (induction os maximum g s rule: next_line.induct)
  case (1 os maximum g s)
  note now = 1(3) and ok = 1(4) and eof = 1(5) and stop = 1(6) and IH_read = 1(1) and IH_block = 1(2)
  have d: "\<not> lg_done g" using ok by (simp add: gen_ok_def)
  show ?case
  proof (cases "lg_block g")
    case Nil
    obtain q s1 where rc: "read_chunk os read_chunk_bytes s = (q, s1)" by fastforce
    note same = read_chunk_same [OF rc]
    consider e where "q = Inl e" | "q = Inr []" | b bs where "q = Inr (b # bs)"
      by (metis list.exhaust sum.exhaust_sel)
    then show ?thesis
    proof cases
      case 1
      then have "r = Inl e" using now d Nil rc by (subst (asm) next_line.simps) auto
      then show ?thesis using stop read_chunk_Inl [OF rc [unfolded 1]] by blast
    next
      case 2
      have g': "lg_done g'" "s' = s1"
        using now d Nil rc 2 by (subst (asm) next_line.simps; auto split: if_splits)+
      moreover have "as_eof s1" "as_bytes s1 = as_bytes s @ []"
        using read_chunk_Inr(2) [OF rc [unfolded 2]] read_bytes [OF rc [unfolded 2]] by simp_all
      moreover have "delivers os s []" using rc 2 by (auto intro: deliver_end)
      ultimately show ?thesis using same by (intro exI [of _ "[]"]) (auto simp: remains_def)
    next
      case 3
      have n: "next_line os maximum (g\<lparr>lg_block := b # bs\<rparr>) s1 = (r, g', s')"
        using now d Nil rc 3 by (subst (asm) next_line.simps) simp
      have "gen_ok maximum (g\<lparr>lg_block := b # bs\<rparr>)" using ok by (simp add: gen_ok_def)
      moreover have "\<not> as_eof s1" using read_chunk_Inr(3) [OF rc [unfolded 3]] eof by simp
      ultimately obtain bs' where
        b': "as_bytes s' = as_bytes s1 @ bs'" "same_scan s1 s'" "hashed_all s1 \<longrightarrow> hashed_all s'"
        "\<forall>c. remains os s' c \<longrightarrow> delivers os s1 (bs' @ c)"
        "\<forall>x. r = Inr x \<longrightarrow> lg_done g' = as_eof s' \<and> (\<not> lg_done g' \<longrightarrow> x \<noteq> None \<and> gen_ok maximum g')"
        using IH_read [OF d Nil rc [symmetric] 3 refl n _ _ stop] by blast
      have "delivers os s (((b # bs) @ bs') @ c)" if "remains os s' c" for c
        using deliver_block [OF rc [unfolded 3]] b'(4) that by simp
      moreover have "as_bytes s' = as_bytes s @ (b # bs) @ bs'"
        using b'(1) read_bytes [OF rc [unfolded 3]] by simp
      ultimately show ?thesis using b'(2,3,5) same same_scan_trans by blast
    qed
  next
    case (Cons b bs)
    let ?seg = "segment_of (lg_block g)" and ?rest = "rest_of (lg_block g)"
    let ?l = "lg_line g @ ?seg" and ?p = "lg_physical g + int (length ?seg)"
    let ?s = "noted 0 (int (length (strip_cr ?l))) s"
    have same: "same_scan s (noted n b s)" "hashed_all (noted n b s) = hashed_all s" for n b
      by (simp_all add: same_scan_def hashed_all_def noted_def note_semantic_bytes_def)
    have noted_rest: "\<forall>c. remains os (noted n b s) c \<longrightarrow> delivers os s ([] @ c)" for n b
      using eof delivers_unnoted by (simp add: remains_def)
    show ?thesis
    proof (cases "maximum + 1 < int (length (lg_line g)) + int (length ?seg)")
      case True
      then have "r = Inl record_too_long" "s' = noted 0 (min (int (length (lg_line g))) maximum) s"
        using now d Cons by (subst (asm) next_line.simps; simp add: Let_def)+
      then show ?thesis using same noted_rest by (intro exI [of _ "[]"]) simp
    next
      case short: False
      show ?thesis
      proof (cases ?rest)
        case Nil
        have n: "next_line os maximum (g\<lparr>lg_line := ?l, lg_physical := ?p, lg_block := []\<rparr>) ?s = (r, g', s')"
          using now d Cons short Nil by (subst (asm) next_line.simps) (simp add: Let_def)
        have g: "gen_ok maximum (g\<lparr>lg_line := ?l, lg_physical := ?p, lg_block := []\<rparr>)"
          using ok short segment_plain(1) by (auto simp: gen_ok_def)
        have e: "\<not> as_eof ?s" using eof by simp
        from IH_block [OF d Cons refl refl refl _ refl refl refl _ _ _ _ stop] short Nil Cons n g e obtain bs' where
          b': "as_bytes s' = as_bytes s @ bs'" "same_scan ?s s'" "hashed_all ?s \<longrightarrow> hashed_all s'"
          "\<forall>c. remains os s' c \<longrightarrow> delivers os ?s (bs' @ c)"
          "\<forall>x. r = Inr x \<longrightarrow> lg_done g' = as_eof s' \<and> (\<not> lg_done g' \<longrightarrow> x \<noteq> None \<and> gen_ok maximum g')"
          by auto
        then have "\<forall>c. remains os s' c \<longrightarrow> delivers os s (bs' @ c)" "same_scan s s'" "hashed_all s \<longrightarrow> hashed_all s'"
          using same same_scan_trans [OF same(1)] delivers_unnoted by blast+
        then show ?thesis using b'(1,5) by blast
      next
        case (Cons x tail)
        note rest = this
        show ?thesis
        proof (cases "maximum < int (length (strip_cr ?l))")
          case True
          then have "r = Inl record_too_long" "s' = ?s"
            using now d Cons short \<open>lg_block g = b # bs\<close> by (subst (asm) next_line.simps; simp add: Let_def)+
          then show ?thesis using same noted_rest by (intro exI [of _ "[]"]) simp
        next
          case False
          have "next_line os maximum g s = (Inr (Some (strip_cr ?l, ?p + 1)), g\<lparr>lg_line := [], lg_physical := 0, lg_block := tail\<rparr>, ?s)"
            using d short rest False \<open>lg_block g = b # bs\<close> by (subst next_line.simps) (simp add: Let_def)
          then have o: "s' = ?s" "g' = g\<lparr>lg_line := [], lg_physical := 0, lg_block := tail\<rparr>" "\<exists>l. r = Inr (Some l)"
            using now by auto
          have "gen_ok maximum g'" "\<not> lg_done g'" "\<not> as_eof s'" using ok o False eof by (simp_all add: gen_ok_def)
          then show ?thesis using o(1,3) same noted_rest by (intro exI [of _ "[]"]) auto
        qed
      qed
    qed
  qed
qed

subsection \<open>The reference of a scan\<close>

text \<open>The hashes of the records of a whole content: its lines, the blank ones left out, each decoded,
  bounded and hashed.\<close>

fun line_hashes :: "'e stream_env_scheme \<Rightarrow> streaming_limits \<Rightarrow> (nat list \<times> int) list \<Rightarrow> stream_error + string list" where
  "line_hashes env limits [] = Inr []"
| "line_hashes env limits ((raw, physical) # ls) =
     (if bytes_blank raw then line_hashes env limits ls
      else sbind (record_hash env limits raw) (\<lambda>h. sbind (line_hashes env limits ls) (\<lambda>hs. Inr (h # hs))))"

definition content_hashes :: "'e stream_env_scheme \<Rightarrow> streaming_limits \<Rightarrow> nat list \<Rightarrow> stream_error + string list" where
  "content_hashes env limits content =
     (case ref_lines (max_logical_record_bytes limits) content of
        (ls, ok) \<Rightarrow> if ok then line_hashes env limits ls else Inl record_too_long)"

text \<open>What a split holds while it is scanned: its rows and the digests not yet flushed.\<close>

definition held :: "string \<Rightarrow> string \<Rightarrow> scan_vars \<Rightarrow> string multiset" where
  "held e s v = bag_of (sv_store v) e s + mset (sv_pending v)"

definition others_kept :: "string \<Rightarrow> string \<Rightarrow> spill \<Rightarrow> spill \<Rightarrow> bool" where
  "others_kept e s sp sp' = (\<forall>e' s'. (e', s') \<noteq> (e, s) \<longrightarrow> bag_of sp' e' s' = bag_of sp e' s')"

lemma others_kept_refl [simp]: "others_kept e s sp sp"
  by (simp add: others_kept_def)

lemma others_kept_trans: "others_kept e s a b \<Longrightarrow> others_kept e s b c \<Longrightarrow> others_kept e s a c"
  by (simp add: others_kept_def)

definition stored_ok :: "scan_vars \<Rightarrow> bool" where
  "stored_ok v = table_ok (sp_rows (sv_store v))"

lemma add_batch_others: "add_batch sos e s ds sp = (r, sp') \<Longrightarrow> table_ok (sp_rows sp) \<Longrightarrow> others_kept e s sp sp'"
  unfolding others_kept_def
proof (intro allI impI)
  fix e' s' assume a: "add_batch sos e s ds sp = (r, sp')" "table_ok (sp_rows sp)" "(e', s') \<noteq> (e, s)"
  from add_batch_bag(2) [OF a(1,2), of e' s'] a(3) show "bag_of sp' e' s' = bag_of sp e' s'" by auto
qed

lemma add_batch_error: "add_batch sos e s ds sp = (Inl err, sp') \<Longrightarrow> \<exists>t. err = ScratchFull t"
  by (auto simp: add_batch_def Let_def spill_exhausted_def split: if_splits prod.splits sum.splits)

text \<open>Any outcome of a flush: what is stored was held, and a successful one stores all of it.\<close>

lemma flush_effect:
  assumes "flush sos e s v = (r, v')" "stored_ok v"
  shows "stored_ok v'" "others_kept e s (sv_store v) (sv_store v')" "sv_records v' = sv_records v"
    "sv_gen v' = sv_gen v" "sv_scan v' = sv_scan v"
    "r = Inr u \<Longrightarrow> held e s v' = held e s v \<and> sv_pending v' = []"
    "bag_of (sv_store v') e s \<subseteq># held e s v"
proof -
  obtain q st where ab: "add_batch sos e s (sv_pending v) (sv_store v) = (q, st)" by fastforce
  have ok: "table_ok (sp_rows (sv_store v))" using assms(2) by (simp add: stored_ok_def)
  have v': "sv_store v' = st" "sv_records v' = sv_records v" "sv_gen v' = sv_gen v" "sv_scan v' = sv_scan v"
    using assms(1) ab by (auto simp: flush_def split: sum.splits)
  show "stored_ok v'" using add_batch_bag(1) [OF ab ok] v' by (simp add: stored_ok_def)
  show "others_kept e s (sv_store v) (sv_store v')" using add_batch_others [OF ab ok] v' by simp
  show "sv_records v' = sv_records v" "sv_gen v' = sv_gen v" "sv_scan v' = sv_scan v" by (rule v')+
  show "held e s v' = held e s v \<and> sv_pending v' = []" if success: "r = Inr u"
  proof -
    obtain n where q: "q = Inr n" "sv_pending v' = []"
      using assms(1) ab success by (auto simp: flush_def split: sum.splits)
    from add_batch_bag(3) [OF ab ok q(1), of e s] q v' show ?thesis by (simp add: held_def)
  qed
  show "bag_of (sv_store v') e s \<subseteq># held e s v"
    using add_batch_bag(2) [OF ab ok, of e s] v' by (auto simp: held_def)
qed

text \<open>One line, processed or not.\<close>

lemma scan_line_effect:
  assumes "scan_line sos env limits e s (raw, physical) v = (r, v')" "stored_ok v"
  shows "stored_ok v' \<and> others_kept e s (sv_store v) (sv_store v') \<and> sv_gen v' = sv_gen v
     \<and> (\<exists>n b. sv_scan v' = noted n b (sv_scan v) \<or> sv_scan v' = sv_scan v)
     \<and> (\<forall>u. r = Inr u \<longrightarrow> (\<exists>hs. line_hashes env limits [(raw, physical)] = Inr hs \<and> held e s v' = held e s v + mset hs
          \<and> sv_records v' = sv_records v + length hs))
     \<and> (\<exists>hs. (hs = [] \<or> line_hashes env limits [(raw, physical)] = Inr hs)
          \<and> bag_of (sv_store v') e s \<subseteq># held e s v + mset hs)
     \<and> (\<forall>err. r = Inl err \<longrightarrow> (\<forall>t. err \<noteq> ScratchFull t) \<longrightarrow> held e s v' = held e s v)"
  (is "?ok v' r")
proof -
  let ?n = "v\<lparr>sv_scan := noted physical (int (length raw)) (sv_scan v)\<rparr>"
  have st: "stored_ok ?n" "held e s ?n = held e s v" "bag_of (sv_store v) e s \<subseteq># held e s v"
    using assms(2) by (simp_all add: stored_ok_def held_def)
  consider (over) "v' = v" "\<exists>x. r = Inl x" | (blank) "bytes_blank raw" "v' = ?n" "r = Inr ()"
    | (bad) "v' = ?n" "\<exists>x. r = Inl x"
    | (good) h w where "\<not> bytes_blank raw" "record_hash env limits raw = Inr h"
        "w = ?n\<lparr>sv_pending := sv_pending v @ [h], sv_records := Suc (sv_records v)\<rparr>"
        "flush sos e s w = (r, v') \<or> (r = Inr () \<and> v' = w)"
    using assms(1) by (auto simp: scan_line_def Let_def split: if_splits sum.splits)
  then show "?ok v' r"
  proof cases
    case over
    then have "\<And>u. r \<noteq> Inr u" "bag_of (sv_store v') e s \<subseteq># held e s v + mset []" using st(3) by auto
    moreover have "held e s v' = held e s v" using over(1) by simp
    ultimately show ?thesis using assms(2) over(1) by (metis others_kept_refl)
  next
    case blank
    then have "line_hashes env limits [(raw, physical)] = Inr []" "held e s v' = held e s v + mset []"
      "sv_records v' = sv_records v + length []" "sv_store v' = sv_store v" "sv_gen v' = sv_gen v"
      "bag_of (sv_store v') e s \<subseteq># held e s v + mset []" "sv_scan v' = noted physical (int (length raw)) (sv_scan v)"
      using st by simp_all
    then show ?thesis using st(1) blank(2,3) by (metis others_kept_refl Inl_Inr_False)
  next
    case bad
    then have "\<And>u. r \<noteq> Inr u" "bag_of (sv_store v') e s \<subseteq># held e s v + mset []"
      "sv_store v' = sv_store v" "sv_gen v' = sv_gen v" "sv_scan v' = noted physical (int (length raw)) (sv_scan v)"
      "held e s v' = held e s v"
      using st by auto
    then show ?thesis using st(1) bad(1) by (metis others_kept_refl)
  next
    case good
    have w: "stored_ok w" "held e s w = held e s v + mset [h]" "sv_store w = sv_store v" "sv_records w = sv_records v + length [h]"
      "sv_gen w = sv_gen v" "sv_scan w = noted physical (int (length raw)) (sv_scan v)" "bag_of (sv_store w) e s \<subseteq># held e s w"
      using good(3) assms(2) by (simp_all add: stored_ok_def held_def)
    have lh: "line_hashes env limits [(raw, physical)] = Inr [h]" using good(1,2) by simp
    from good(4) show ?thesis
    proof
      assume fl: "flush sos e s w = (r, v')"
      note f = flush_effect [OF fl w(1)]
      have "held e s v' = held e s v + mset [h] \<and> sv_records v' = sv_records v + length [h]" if "r = Inr u" for u
        using f(3,6) that w(2,4) by simp
      moreover have "bag_of (sv_store v') e s \<subseteq># held e s v + mset [h]" using f(7) w(2) by simp
      moreover have "sv_gen v' = sv_gen v" "sv_scan v' = noted physical (int (length raw)) (sv_scan v)"
        "others_kept e s (sv_store v) (sv_store v')" using f w by simp_all
      moreover have "\<exists>t. err = ScratchFull t" if "r = Inl err" for err
        using fl that by (auto simp: flush_def dest: add_batch_error split: prod.splits sum.splits)
      ultimately show ?thesis using f(1) lh by blast
    next
      assume "r = Inr () \<and> v' = w"
      moreover have "bag_of (sv_store w) e s \<subseteq># held e s v + mset [h]" using w(2,7) by simp
      moreover have "r \<noteq> Inl err" for err using \<open>r = Inr () \<and> v' = w\<close> by simp
      ultimately show ?thesis using w lh others_kept_refl by metis
    qed
  qed
qed

text \<open>Whatever happens, the scan stays the same one and hashes every byte it reads.\<close>

definition same_hashed :: "artifact_scan \<Rightarrow> artifact_scan \<Rightarrow> bool" where
  "same_hashed s s' = (same_scan s s' \<and> (hashed_all s \<longrightarrow> hashed_all s'))"

lemma same_hashed_refl [simp]: "same_hashed s s"
  by (simp add: same_hashed_def)

lemma same_hashed_trans: "same_hashed a b \<Longrightarrow> same_hashed b c \<Longrightarrow> same_hashed a c"
  unfolding same_hashed_def using same_scan_trans by blast

lemma same_hashed_noted [simp]: "same_hashed s (noted n b s)"
  by (simp add: same_hashed_def same_scan_def hashed_all_def noted_def note_semantic_bytes_def)

lemma next_line_same: "next_line os maximum g s = (r, g', s') \<Longrightarrow> same_hashed s s'"
proof (induction os maximum g s rule: next_line.induct)
  case (1 os maximum g s)
  note now = 1(3) and IH_read = 1(1) and IH_block = 1(2)
  show ?case
  proof (cases "lg_done g")
    case True
    then show ?thesis using now by (subst (asm) next_line.simps) simp
  next
    case d: False
    show ?thesis
    proof (cases "lg_block g")
      case Nil
      obtain q s1 where rc: "read_chunk os read_chunk_bytes s = (q, s1)" by fastforce
      have same: "same_hashed s s1" using read_chunk_same [OF rc] by (simp add: same_hashed_def)
      show ?thesis
      proof (cases "\<exists>b bs. q = Inr (b # bs)")
        case True
        then obtain b bs where q: "q = Inr (b # bs)" by blast
        have n: "next_line os maximum (g\<lparr>lg_block := b # bs\<rparr>) s1 = (r, g', s')"
          using now d Nil rc q by (subst (asm) next_line.simps) simp
        from IH_read [OF d Nil rc [symmetric] q refl n] same show ?thesis by (rule same_hashed_trans [rotated])
      next
        case False
        then have "s' = s1" using now d Nil rc
          by (subst (asm) next_line.simps) (auto split: if_splits sum.splits list.splits)
        then show ?thesis using same by simp
      qed
    next
      case (Cons b bs)
      let ?seg = "segment_of (lg_block g)"
      let ?l = "lg_line g @ ?seg" and ?p = "lg_physical g + int (length ?seg)"
      let ?s = "noted 0 (int (length (strip_cr ?l))) s"
      show ?thesis
      proof (cases "\<not> maximum + 1 < int (length (lg_line g)) + int (length ?seg) \<and> rest_of (lg_block g) = []")
        case True
        then have n: "next_line os maximum (g\<lparr>lg_line := ?l, lg_physical := ?p, lg_block := []\<rparr>) ?s = (r, g', s')"
          using now d Cons by (subst (asm) next_line.simps) (simp add: Let_def)
        from IH_block [OF d Cons refl refl refl _ refl refl refl _] True Cons n
        have "same_hashed ?s s'" by auto
        then show ?thesis by (rule same_hashed_trans [OF same_hashed_noted])
      next
        case False
        then have "\<exists>n b. s' = noted n b s"
          using now d Cons by (subst (asm) next_line.simps) (auto simp: Let_def split: if_splits list.splits)
        then show ?thesis by auto
      qed
    qed
  qed
qed

text \<open>The loop never touches another split, and keeps the table well formed.\<close>

lemma scan_loop_store:
  "scan_loop os sos env limits e s v = (r, v') \<Longrightarrow> stored_ok v \<Longrightarrow>
     stored_ok v' \<and> others_kept e s (sv_store v) (sv_store v') \<and> same_hashed (sv_scan v) (sv_scan v')"
proof (induction os sos env limits e s v rule: scan_loop.induct)
  case (1 os sos env limits e s v)
  obtain q g sc where nl: "next_line os (max_logical_record_bytes limits) (sv_gen v) (sv_scan v) = (q, g, sc)"
    by (metis surj_pair)
  let ?w = "v\<lparr>sv_gen := g, sv_scan := sc\<rparr>"
  have w: "stored_ok ?w" "same_hashed (sv_scan v) (sv_scan ?w)"
    using 1(3) next_line_same [OF nl] by (simp_all add: stored_ok_def)
  consider "\<And>l. q \<noteq> Inr (Some l)" | l where "q = Inr (Some l)" by blast
  then show ?case
  proof cases
    case 1
    then have "v' = ?w"
      using \<open>scan_loop os sos env limits e s v = (r, v')\<close> nl by (subst (asm) scan_loop.simps) (auto split: sum.splits option.splits)
    then show ?thesis using w by simp
  next
    case (2 l)
    obtain r1 v1 where sl: "scan_line sos env limits e s l ?w = (r1, v1)" by fastforce
    obtain raw physical where lp: "l = (raw, physical)" by fastforce
    note eff = scan_line_effect [OF sl [unfolded lp] w(1)]
    have "same_hashed (sv_scan ?w) (sv_scan v1)" using eff by auto
    then have v1: "stored_ok v1" "others_kept e s (sv_store v) (sv_store v1)" "same_hashed (sv_scan v) (sv_scan v1)"
      using eff same_hashed_trans [OF w(2)] by simp_all
    show ?thesis
    proof (cases r1)
      case (Inl err)
      then have "v' = v1" using 1(2) nl 2 sl by (subst (asm) scan_loop.simps) auto
      then show ?thesis using v1 by simp
    next
      case (Inr u)
      then have l: "scan_loop os sos env limits e s v1 = (r, v')" using 1(2) nl 2 sl by (subst (asm) scan_loop.simps) auto
      have "stored_ok v' \<and> others_kept e s (sv_store v1) (sv_store v') \<and> same_hashed (sv_scan v1) (sv_scan v')"
        by (rule "1.IH" [OF nl [symmetric] refl 2 refl sl [symmetric] Inr l v1(1)])
      then show ?thesis using v1(2,3) others_kept_trans same_hashed_trans by blast
    qed
  qed
qed

lemma delivers_noted_iff [simp]: "delivers os (noted n b s) c \<longleftrightarrow> delivers os s c"
  by (rule iffI) (erule delivers_unnoted, erule delivers_noted)

lemma remains_noted [simp]: "remains os (noted n b s) c = remains os s c"
  by (simp add: remains_def)

lemma step_lines:
  assumes "gen_ok maximum g" "delivers os s c" "0 \<le> maximum" "next_line os maximum g s = (Inr (Some l), g', s')"
  shows "lg_done g' \<Longrightarrow> ref_lines maximum (pending_content g c) = ([l], True)"
    "\<not> lg_done g' \<Longrightarrow> \<exists>c' ls ok. delivers os s' c' \<and> ref_lines maximum (pending_content g' c') = (ls, ok)
       \<and> ref_lines maximum (pending_content g c) = (l # ls, ok)"
proof -
  let ?p = "pending_content g c"
  have st: "line_step os maximum ?p (Inr (Some l), g', s')"
    using next_line_step [OF assms(1-3)] assms(4) by simp
  have "(lg_done g' \<and> ref_lines maximum ?p = ([l], True)) \<or>
    (\<not> lg_done g' \<and> (\<exists>c' ls ok. delivers os s' c' \<and> ref_lines maximum (pending_content g' c') = (ls, ok)
       \<and> ref_lines maximum ?p = (l # ls, ok)))"
  proof (cases "rest_of ?p")
    case Nil
    then show ?thesis using st by (auto simp: line_step_def ref_lines.simps [of maximum ?p] split: if_splits)
  next
    case (Cons x tail)
    obtain ls ok where "ref_lines maximum tail = (ls, ok)" by fastforce
    then show ?thesis using st Cons
      by (auto simp: line_step_def gen_ok_def Let_def ref_lines.simps [of maximum ?p] split: if_splits)
  qed
  then show "lg_done g' \<Longrightarrow> ref_lines maximum ?p = ([l], True)"
    "\<not> lg_done g' \<Longrightarrow> \<exists>c' ls ok. delivers os s' c' \<and> ref_lines maximum (pending_content g' c') = (ls, ok)
       \<and> ref_lines maximum ?p = (l # ls, ok)" by blast+
qed

lemma step_end:
  assumes "gen_ok maximum g" "delivers os s c" "0 \<le> maximum" "next_line os maximum g s = (Inr None, g', s')"
  shows "ref_lines maximum (pending_content g c) = ([], True)"
proof -
  have st: "line_step os maximum (pending_content g c) (Inr None, g', s')"
    using next_line_step [OF assms(1-3)] assms(4) by simp
  then have "pending_content g c = []" by (auto simp: line_step_def split: list.splits if_splits)
  then show ?thesis by (simp add: ref_lines.simps rest_of_def)
qed

lemma line_hashes_Cons:
  "line_hashes env limits [l] = Inr a \<Longrightarrow> line_hashes env limits ls = Inr b \<Longrightarrow> line_hashes env limits (l # ls) = Inr (a @ b)"
  by (cases l) (auto simp: sbind_eq_Inr split: if_splits)

text \<open>What a stopped scan has stored is a part of the records of the whole content: the hashes of its
  first lines.\<close>

definition stores_part ::
  "string \<Rightarrow> string \<Rightarrow> 'e stream_env_scheme \<Rightarrow> streaming_limits \<Rightarrow> scan_vars \<Rightarrow> scan_vars
    \<Rightarrow> stream_error + unit \<Rightarrow> (nat list \<times> int) list \<Rightarrow> bool" where
  "stores_part e s env limits v v' r ls =
     (\<exists>k hs. line_hashes env limits (take k ls) = Inr hs \<and> bag_of (sv_store v') e s \<subseteq># held e s v + mset hs
        \<and> ((\<forall>t. r \<noteq> Inl (ScratchFull t)) \<longrightarrow> held e s v' \<subseteq># held e s v + mset hs))"

lemma stores_part_Cons:
  assumes "line_hashes env limits [l] = Inr a" "held e s v1 = held e s v + mset a"
    "stores_part e s env limits v1 v' r ls"
  shows "stores_part e s env limits v v' r (l # ls)"
proof -
  obtain k hs where k: "line_hashes env limits (take k ls) = Inr hs" "bag_of (sv_store v') e s \<subseteq># held e s v1 + mset hs"
    "(\<forall>t. r \<noteq> Inl (ScratchFull t)) \<longrightarrow> held e s v' \<subseteq># held e s v1 + mset hs"
    using assms(3) by (auto simp: stores_part_def)
  have "line_hashes env limits (take (Suc k) (l # ls)) = Inr (a @ hs)"
    using line_hashes_Cons [OF assms(1) k(1)] by simp
  moreover have "held e s v1 + mset hs = held e s v + mset (a @ hs)" using assms(2) by simp
  ultimately show ?thesis unfolding stores_part_def using k(2,3) by metis
qed

lemma stores_part_none:
  "bag_of (sv_store v') e s \<subseteq># held e s v \<Longrightarrow> held e s v' \<subseteq># held e s v \<Longrightarrow> stores_part e s env limits v v' r ls"
  unfolding stores_part_def by (intro exI [of _ 0] exI [of _ "[]"]) simp

lemma bag_held: "bag_of (sv_store v) e s \<subseteq># held e s v"
  by (simp add: held_def)

text \<open>The whole outcome of the loop on the content of the scan.\<close>

definition loop_result ::
  "os_files \<Rightarrow> 'e stream_env_scheme \<Rightarrow> streaming_limits \<Rightarrow> string \<Rightarrow> string \<Rightarrow> scan_vars
    \<Rightarrow> stream_error + unit \<Rightarrow> scan_vars \<Rightarrow> nat list \<Rightarrow> bool" where
  "loop_result os env limits e s v r v' bs =
     (as_bytes (sv_scan v') = as_bytes (sv_scan v) @ bs \<and> same_scan (sv_scan v) (sv_scan v')
      \<and> (hashed_all (sv_scan v) \<longrightarrow> hashed_all (sv_scan v'))
      \<and> (\<forall>c. remains os (sv_scan v') c \<longrightarrow> delivers os (sv_scan v) (bs @ c)
           \<and> stores_part e s env limits v v' r
               (fst (ref_lines (max_logical_record_bytes limits) (pending_content (sv_gen v) (bs @ c)))))
      \<and> (\<forall>u. r = Inr u \<longrightarrow> as_eof (sv_scan v') \<and>
           (\<exists>hs. content_hashes env limits (pending_content (sv_gen v) bs) = Inr hs
              \<and> held e s v' = held e s v + mset hs \<and> sv_records v' = sv_records v + length hs)))"

lemma scan_loop_done:
  "lg_done (sv_gen v) \<Longrightarrow> scan_loop os sos env limits e s v = (Inr (), v)"
  by (subst scan_loop.simps) (simp add: next_line.simps)

lemma same_noted: "same_scan s (noted n b s)" "hashed_all (noted n b s) = hashed_all s"
  by (simp_all add: same_scan_def hashed_all_def noted_def note_semantic_bytes_def)

text \<open>The three ways in which an iteration ends the loop, and the one in which it goes on.\<close>

lemma loop_stop:
  assumes g: "gen_ok (max_logical_record_bytes limits) (sv_gen v)" "\<not> as_eof (sv_scan v)"
    and nl: "next_line os (max_logical_record_bytes limits) (sv_gen v) (sv_scan v) = (Inl err, g, sc)"
    and b: "bounded_stop err"
  shows "\<exists>bs. loop_result os env limits e s v (Inl err) (v\<lparr>sv_gen := g, sv_scan := sc\<rparr>) bs"
proof -
  obtain bs where bs: "as_bytes sc = as_bytes (sv_scan v) @ bs" "same_scan (sv_scan v) sc"
    "hashed_all (sv_scan v) \<longrightarrow> hashed_all sc" "\<forall>c. remains os sc c \<longrightarrow> delivers os (sv_scan v) (bs @ c)"
    using next_line_trace [OF nl g] b by auto
  have "stores_part e s env limits v (v\<lparr>sv_gen := g, sv_scan := sc\<rparr>) (Inl err) ls" for ls
    by (rule stores_part_none) (simp_all add: held_def)
  with bs have "loop_result os env limits e s v (Inl err) (v\<lparr>sv_gen := g, sv_scan := sc\<rparr>) bs"
    by (simp add: loop_result_def)
  then show ?thesis by blast
qed

lemma loop_end:
  assumes g: "gen_ok (max_logical_record_bytes limits) (sv_gen v)" "\<not> as_eof (sv_scan v)"
    and m: "0 \<le> max_logical_record_bytes limits"
    and nl: "next_line os (max_logical_record_bytes limits) (sv_gen v) (sv_scan v) = (Inr None, g, sc)"
  shows "\<exists>bs. loop_result os env limits e s v (Inr ()) (v\<lparr>sv_gen := g, sv_scan := sc\<rparr>) bs"
proof -
  obtain bs where bs: "as_bytes sc = as_bytes (sv_scan v) @ bs" "same_scan (sv_scan v) sc"
    "hashed_all (sv_scan v) \<longrightarrow> hashed_all sc" "\<forall>c. remains os sc c \<longrightarrow> delivers os (sv_scan v) (bs @ c)"
    and eof: "as_eof sc"
    using next_line_trace [OF nl g] by auto
  have "remains os sc []" using eof by (simp add: remains_def)
  then have "delivers os (sv_scan v) bs" using bs(4) by fastforce
  from step_end [OF g(1) this m nl]
  have "content_hashes env limits (pending_content (sv_gen v) bs) = Inr []" by (simp add: content_hashes_def)
  moreover have "stores_part e s env limits v (v\<lparr>sv_gen := g, sv_scan := sc\<rparr>) (Inr ()) ls" for ls
    by (rule stores_part_none) (simp_all add: held_def)
  ultimately have "loop_result os env limits e s v (Inr ()) (v\<lparr>sv_gen := g, sv_scan := sc\<rparr>) bs"
    using bs eof by (simp add: loop_result_def held_def)
  then show ?thesis by blast
qed

lemma loop_line:
  assumes g: "gen_ok (max_logical_record_bytes limits) (sv_gen v)" "\<not> as_eof (sv_scan v)"
    and m: "0 \<le> max_logical_record_bytes limits" and ok: "stored_ok v"
    and nl: "next_line os (max_logical_record_bytes limits) (sv_gen v) (sv_scan v) = (Inr (Some l), g, sc)"
    and sl: "scan_line sos env limits e s l (v\<lparr>sv_gen := g, sv_scan := sc\<rparr>) = (Inl err, v1)"
  shows "\<exists>bs. loop_result os env limits e s v (Inl err) v1 bs"
proof -
  let ?w = "v\<lparr>sv_gen := g, sv_scan := sc\<rparr>" and ?M = "max_logical_record_bytes limits"
  have w: "stored_ok ?w" "held e s ?w = held e s v" using ok by (simp_all add: stored_ok_def held_def)
  obtain raw physical where lp: "l = (raw, physical)" by fastforce
  note eff = scan_line_effect [OF sl [unfolded lp] w(1)]
  obtain hs where hs: "hs = [] \<or> line_hashes env limits [l] = Inr hs" "bag_of (sv_store v1) e s \<subseteq># held e s v + mset hs"
    using eff w(2) lp by auto
  have kept: "(\<forall>t. err \<noteq> ScratchFull t) \<Longrightarrow> held e s v1 = held e s v" using eff w(2) by simp
  obtain n b where sc1: "sv_scan v1 = noted n b sc \<or> sv_scan v1 = sc" using eff by auto
  obtain bs where bs: "as_bytes sc = as_bytes (sv_scan v) @ bs" "same_scan (sv_scan v) sc"
    "hashed_all (sv_scan v) \<longrightarrow> hashed_all sc" "\<forall>c. remains os sc c \<longrightarrow> delivers os (sv_scan v) (bs @ c)"
    using next_line_trace [OF nl g] by auto
  have "stores_part e s env limits v v1 (Inl err) (fst (ref_lines ?M (pending_content (sv_gen v) (bs @ c))))"
    if dc: "delivers os (sv_scan v) (bs @ c)" for c
  proof -
    obtain ls where ls: "fst (ref_lines ?M (pending_content (sv_gen v) (bs @ c))) = l # ls"
      using step_lines [OF g(1) dc m nl] by (cases "lg_done g") auto
    have "\<exists>k. line_hashes env limits (take k (l # ls)) = Inr hs"
    proof (cases "hs = []")
      case True
      then show ?thesis by (intro exI [of _ 0]) simp
    next
      case False
      then show ?thesis using hs(1) by (intro exI [of _ 1]) simp
    qed
    moreover have "held e s v1 \<subseteq># held e s v + mset hs" if "\<forall>t. err \<noteq> ScratchFull t"
      using kept [OF that] by simp
    ultimately show ?thesis unfolding stores_part_def ls using hs(2) by blast
  qed
  moreover have "remains os (sv_scan v1) c = remains os sc c" for c using sc1 by auto
  moreover have "as_bytes (sv_scan v1) = as_bytes sc" "same_scan sc (sv_scan v1)" "hashed_all (sv_scan v1) = hashed_all sc"
    using sc1 same_noted by auto
  ultimately have "loop_result os env limits e s v (Inl err) v1 bs"
    using bs same_scan_trans by (simp add: loop_result_def)
  then show ?thesis by blast
qed

lemma loop_next:
  assumes g: "gen_ok (max_logical_record_bytes limits) (sv_gen v)" "\<not> as_eof (sv_scan v)"
    and m: "0 \<le> max_logical_record_bytes limits" and ok: "stored_ok v"
    and nl: "next_line os (max_logical_record_bytes limits) (sv_gen v) (sv_scan v) = (Inr (Some l), g, sc)"
    and sl: "scan_line sos env limits e s l (v\<lparr>sv_gen := g, sv_scan := sc\<rparr>) = (Inr u, v1)"
    and rest: "lg_done g \<Longrightarrow> r = Inr () \<and> v' = v1"
      "\<not> lg_done g \<Longrightarrow> gen_ok (max_logical_record_bytes limits) g \<Longrightarrow> \<not> as_eof sc \<Longrightarrow> loop_result os env limits e s v1 r v' bs'"
  shows "\<exists>bs. loop_result os env limits e s v r v' bs"
proof -
  let ?w = "v\<lparr>sv_gen := g, sv_scan := sc\<rparr>" and ?M = "max_logical_record_bytes limits"
  have w: "stored_ok ?w" "held e s ?w = held e s v" "sv_records ?w = sv_records v" using ok by (simp_all add: stored_ok_def held_def)
  obtain raw physical where lp: "l = (raw, physical)" by fastforce
  note eff = scan_line_effect [OF sl [unfolded lp] w(1)]
  obtain a where a: "line_hashes env limits [l] = Inr a" "held e s v1 = held e s v + mset a" "sv_records v1 = sv_records v + length a"
    using eff w(2,3) lp by auto
  have gen1: "sv_gen v1 = g" using eff by simp
  obtain n b where sc1: "sv_scan v1 = noted n b sc \<or> sv_scan v1 = sc" using eff by auto
  then have same1: "remains os (sv_scan v1) c = remains os sc c" "as_bytes (sv_scan v1) = as_bytes sc"
    "same_scan sc (sv_scan v1)" "hashed_all (sv_scan v1) = hashed_all sc" "as_eof (sv_scan v1) = as_eof sc"
    "delivers os (sv_scan v1) c = delivers os sc c" for c
    using same_noted by auto
  obtain bs where bs: "as_bytes sc = as_bytes (sv_scan v) @ bs" "same_scan (sv_scan v) sc"
    "hashed_all (sv_scan v) \<longrightarrow> hashed_all sc" "\<forall>c. remains os sc c \<longrightarrow> delivers os (sv_scan v) (bs @ c)"
    and d: "lg_done g = as_eof sc" "\<not> lg_done g \<longrightarrow> gen_ok ?M g"
    using next_line_trace [OF nl g] by auto
  show ?thesis
  proof (cases "lg_done g")
    case True
    have del: "delivers os (sv_scan v) bs" using bs(4) True d(1) by (auto simp: remains_def)
    have ref: "ref_lines ?M (pending_content (sv_gen v) bs) = ([l], True)" using step_lines(1) [OF g(1) del m nl True] .
    then have "content_hashes env limits (pending_content (sv_gen v) bs) = Inr a" using a(1) by (simp add: content_hashes_def)
    moreover have "stores_part e s env limits v v1 (Inr ()) [l]"
      by (rule stores_part_Cons [OF a(1,2) stores_part_none [OF bag_held]]) simp
    moreover have "same_scan (sv_scan v) (sv_scan v1)" by (rule same_scan_trans [OF bs(2) same1(3)])
    moreover have "as_eof (sv_scan v1)" using same1(5) True d(1) by simp
    ultimately have "loop_result os env limits e s v (Inr ()) v1 bs"
      using bs(1,3) same1(2,4) a(2,3) del ref by (simp add: loop_result_def remains_def)
    then show ?thesis using rest(1) [OF True] by blast
  next
    case False
    note IH = rest(2) [OF False]
    have IH: "loop_result os env limits e s v1 r v' bs'" using rest(2) [OF False] d False by simp
    have step: "delivers os (sv_scan v) (bs @ c) \<and>
        (\<exists>ls ok. ref_lines ?M (pending_content g c) = (ls, ok) \<and>
          ref_lines ?M (pending_content (sv_gen v) (bs @ c)) = (l # ls, ok))" if dc: "delivers os sc c" for c
    proof -
      have del: "delivers os (sv_scan v) (bs @ c)" using bs(4) False d(1) dc by (simp add: remains_def)
      from step_lines(2) [OF g(1) del m nl False] obtain c' ls ok where
        "delivers os sc c'" "ref_lines ?M (pending_content g c') = (ls, ok)"
        "ref_lines ?M (pending_content (sv_gen v) (bs @ c)) = (l # ls, ok)" by blast
      with delivers_functional [OF dc] del show ?thesis by blast
    qed
    have "delivers os (sv_scan v) ((bs @ bs') @ c)
        \<and> stores_part e s env limits v v' r (fst (ref_lines ?M (pending_content (sv_gen v) ((bs @ bs') @ c))))"
      if "remains os (sv_scan v') c" for c
    proof -
      have i: "delivers os sc (bs' @ c)" "stores_part e s env limits v1 v' r (fst (ref_lines ?M (pending_content g (bs' @ c))))"
        using IH that same1(6) gen1 by (auto simp: loop_result_def)
      from step [OF i(1)] obtain ls ok where
        "ref_lines ?M (pending_content g (bs' @ c)) = (ls, ok)" "delivers os (sv_scan v) (bs @ bs' @ c)"
        "ref_lines ?M (pending_content (sv_gen v) (bs @ bs' @ c)) = (l # ls, ok)" by blast
      then show ?thesis using stores_part_Cons [OF a(1,2) i(2)] by simp
    qed
    moreover have "as_eof (sv_scan v') \<and> (\<exists>hs. content_hashes env limits (pending_content (sv_gen v) (bs @ bs')) = Inr hs
        \<and> held e s v' = held e s v + mset hs \<and> sv_records v' = sv_records v + length hs)" if success: "r = Inr u" for u
    proof -
      obtain hs where hs: "as_eof (sv_scan v')" "content_hashes env limits (pending_content g bs') = Inr hs"
        "held e s v' = held e s v1 + mset hs" "sv_records v' = sv_records v1 + length hs"
        using IH success gen1 by (auto simp: loop_result_def)
      have "delivers os sc bs'" using IH hs(1) same1(6) by (auto simp: loop_result_def remains_def)
      from step [OF this] obtain ls ok where
        r: "ref_lines ?M (pending_content g bs') = (ls, ok)" "ref_lines ?M (pending_content (sv_gen v) (bs @ bs')) = (l # ls, ok)"
        by blast
      have "ok" "line_hashes env limits ls = Inr hs" using hs(2) r(1) by (auto simp: content_hashes_def split: if_splits)
      then have "content_hashes env limits (pending_content (sv_gen v) (bs @ bs')) = Inr (a @ hs)"
        using r(2) line_hashes_Cons [OF a(1)] by (simp add: content_hashes_def)
      then show ?thesis using hs a(2,3) by (intro conjI exI [of _ "a @ hs"]) simp_all
    qed
    moreover have "as_bytes (sv_scan v') = as_bytes (sv_scan v) @ bs @ bs'" "same_scan (sv_scan v) (sv_scan v')"
      "hashed_all (sv_scan v) \<longrightarrow> hashed_all (sv_scan v')"
      using IH bs same1 same_scan_trans by (auto simp: loop_result_def)
    ultimately have "loop_result os env limits e s v r v' (bs @ bs')" by (simp add: loop_result_def)
    then show ?thesis by blast
  qed
qed

lemma scan_loop_result:
  "scan_loop os sos env limits e s v = (r, v') \<Longrightarrow> gen_ok (max_logical_record_bytes limits) (sv_gen v) \<Longrightarrow>
     \<not> as_eof (sv_scan v) \<Longrightarrow> 0 \<le> max_logical_record_bytes limits \<Longrightarrow> stored_ok v \<Longrightarrow>
     (\<And>err. r = Inl err \<Longrightarrow> bounded_stop err) \<Longrightarrow> \<exists>bs. loop_result os env limits e s v r v' bs"
proof (induction os sos env limits e s v rule: scan_loop.induct)
  case (1 os sos env limits e s v)
  note now = 1(2) and g = 1(3,4) and m = 1(5) and ok = 1(6) and stop = 1(7)
  let ?M = "max_logical_record_bytes limits"
  obtain q g' sc where nl: "next_line os ?M (sv_gen v) (sv_scan v) = (q, g', sc)" by (metis surj_pair)
  let ?w = "v\<lparr>sv_gen := g', sv_scan := sc\<rparr>"
  consider (halt) err where "q = Inl err" | (ends) "q = Inr None" | (line) l where "q = Inr (Some l)"
    by (metis option.exhaust_sel sum.exhaust_sel)
  then show ?case
  proof cases
    case (halt err)
    then have "r = Inl err" "v' = ?w" using now nl by (subst (asm) scan_loop.simps; simp)+
    then show ?thesis using loop_stop [OF g nl [unfolded halt]] stop by blast
  next
    case ends
    then have "r = Inr ()" "v' = ?w" using now nl by (subst (asm) scan_loop.simps; simp)+
    then show ?thesis using loop_end [OF g m nl [unfolded ends]] by blast
  next
    case (line l)
    obtain r1 v1 where sl: "scan_line sos env limits e s l ?w = (r1, v1)" by fastforce
    have w: "stored_ok ?w" using ok by (simp add: stored_ok_def)
    show ?thesis
    proof (cases r1)
      case (Inl err)
      then have "r = Inl err" "v' = v1" using now nl line sl by (subst (asm) scan_loop.simps; simp)+
      then show ?thesis using loop_line [OF g m ok nl [unfolded line] sl [unfolded Inl]] by blast
    next
      case (Inr u)
      have l: "scan_loop os sos env limits e s v1 = (r, v')"
        using now nl line sl Inr by (subst (asm) scan_loop.simps) simp
      obtain raw physical where lp: "l = (raw, physical)" by fastforce
      note eff = scan_line_effect [OF sl [unfolded lp] w]
      have v1: "sv_gen v1 = g'" "stored_ok v1" "as_eof (sv_scan v1) = as_eof sc" using eff by auto
      have finished: "r = Inr () \<and> v' = v1" if "lg_done g'"
        using scan_loop_done [of v1 os sos env limits e s] l v1(1) that by auto
      have more: "\<exists>bs. loop_result os env limits e s v1 r v' bs" if "\<not> lg_done g'" "gen_ok ?M g'" "\<not> as_eof sc"
        using "1.IH" [OF nl [symmetric] refl line refl sl [symmetric] Inr l _ _ m v1(2) stop] v1(1,3) that by simp
      show ?thesis
        using loop_next [OF g m ok nl [unfolded line] sl [unfolded Inr] finished] more by blast
    qed
  qed
qed

subsection \<open>The outcome of a scan\<close>

lemma drain_remains:
  "drain os s = (Inr u, s') \<Longrightarrow> \<exists>c. as_bytes s' = as_bytes s @ c \<and> remains os s c"
proof (induction os s rule: drain.induct)
  case (1 os s)
  show ?case
  proof (cases "as_eof s")
    case True
    with 1(2) have "s' = s" by (subst (asm) drain.simps) auto
    then show ?thesis using True by (simp add: remains_def)
  next
    case False
    obtain q s1 where q: "read_chunk os read_chunk_bytes s = (q, s1)" by fastforce
    with 1(2) False obtain b where b: "q = Inr b" and d: "drain os s1 = (Inr u, s')"
      by (subst (asm) drain.simps) (auto split: sum.splits)
    note rc = q [unfolded b]
    from "1.IH" [OF False q [symmetric] b d] obtain c where c: "as_bytes s' = as_bytes s1 @ c" "remains os s1 c" by blast
    have bytes: "as_bytes s1 = as_bytes s @ b" by (rule read_bytes [OF rc])
    show ?thesis
    proof (cases b)
      case Nil
      then have "c = []" using c(2) read_chunk_Inr(2) [OF rc] by (simp add: remains_def)
      moreover have "delivers os s []" using rc Nil by (auto intro: deliver_end)
      ultimately show ?thesis using c(1) bytes Nil False by (simp add: remains_def)
    next
      case (Cons x xs)
      then have "\<not> as_eof s1" using read_chunk_Inr(3) [OF rc] False by simp
      then have "delivers os s ((x # xs) @ c)" using deliver_block [OF rc [unfolded Cons]] c(2) by (simp add: remains_def)
      then show ?thesis using c(1) bytes Cons False by (simp add: remains_def)
    qed
  qed
qed

lemma finish_vars_Inr:
  assumes "finish_vars os env full st reason scratch v = (Inr report, v')" "hashed_all (sv_scan v)"
  shows "sv_store v' = sv_store v" "sv_records v' = sv_records v" "records_scanned report = int (sv_records v)"
    "scan_is_complete report \<longleftrightarrow> full" "\<not> full \<Longrightarrow> st = Some q \<Longrightarrow> sc_state report = q"
    "same_scan (sv_scan v) (sv_scan v')" "verified_bytes (sha256_hex env) (sv_scan v')"
    "\<exists>c. as_bytes (sv_scan v') = as_bytes (sv_scan v) @ c \<and> remains os (sv_scan v) c"
proof -
  obtain sc where f: "finish os (sha256_hex env) (int (sv_records v)) full st reason scratch (sv_scan v) = (Inr report, sc)"
    and v': "v' = v\<lparr>sv_scan := sc\<rparr>" using assms(1) by (auto simp: finish_vars_def split: prod.splits)
  obtain s1 t u where d: "drain os (sv_scan v) = (Inr u, s1)"
    and c: "conclude (sha256_hex env) (s1\<lparr>as_clock := t\<rparr>) (int (sv_records v)) full st reason scratch = Inr report"
    and sc: "sc = s1\<lparr>as_clock := t, as_finished := True\<rparr>" using f by (elim finish_Inr) metis
  show "sv_store v' = sv_store v" "sv_records v' = sv_records v" by (simp_all add: v')
  show "records_scanned report = int (sv_records v)" "scan_is_complete report \<longleftrightarrow> full"
    using conclude_Inr(6,7) [OF c] by simp_all
  show "sc_state report = q" if "\<not> full" "st = Some q"
    using c that unfolding conclude_def scan_report_def final_state_def
    by (auto simp: sbind_eq_Inr Let_def dest: new_completeness_Inr(1) split: if_splits sum.splits)
  show "same_scan (sv_scan v) (sv_scan v')" using finish_same(1) [OF f] by (simp add: v')
  show "verified_bytes (sha256_hex env) (sv_scan v')" using finish_verified [OF f assms(2)] by (simp add: v')
  show "\<exists>c. as_bytes (sv_scan v') = as_bytes (sv_scan v) @ c \<and> remains os (sv_scan v) c"
    using drain_remains [OF d] by (simp add: v' sc)
qed

text \<open>Finishing never stops with a bounded reason.\<close>

lemma abind_Inl: "abind m f t = (Inl e, t') \<Longrightarrow> m t = (Inl e, t') \<or> (\<exists>x t1. m t = (Inr x, t1) \<and> f x t1 = (Inl e, t'))"
  by (auto simp: abind_def split: prod.splits sum.splits)

lemma arequire_Inl: "arequire b e t = (Inl e', t') \<Longrightarrow> e' = e"
  by (auto simp: arequire_def areturn_def araise_def split: if_splits)

lemma ask_Inl: "ask q e t = (Inl e', t') \<Longrightarrow> e' = e"
  by (auto simp: ask_def split: option.splits)

lemma check_parents_Inl: "check_parents os cs t = (Inl e, t') \<Longrightarrow> \<not> bounded_stop e"
proof (induction cs arbitrary: t)
  case Nil
  then show ?case by (simp add: areturn_def)
next
  case (Cons c cs)
  obtain path identity where c: "c = (path, identity)" by (cases c)
  from Cons show ?case
    by (auto simp: c not_revalidated_def dest!: abind_Inl ask_Inl arequire_Inl)
qed

lemma walk_root_Inl: "walk_root os cur ps t = (Inl e, t') \<Longrightarrow> e = root_unavailable"
proof (induction ps arbitrary: cur t)
  case Nil
  then show ?case by (simp add: areturn_def)
next
  case (Cons p ps)
  from Cons.prems show ?case
    by (auto simp: Let_def dest!: abind_Inl ask_Inl arequire_Inl dest: Cons.IH)
qed

lemma resolved_root_Inl: "resolved_root os raw t = (Inl e, t') \<Longrightarrow> \<not> bounded_stop e"
  unfolding resolved_root_def Let_def
  by (auto simp: root_unavailable_def areturn_def dest!: abind_Inl walk_root_Inl ask_Inl arequire_Inl)

lemma verify_Inl: "verify_stable_source os s t = (Inl e, t') \<Longrightarrow> \<not> bounded_stop e"
  unfolding verify_stable_source_def
  by (auto simp: not_revalidated_def dest!: abind_Inl ask_Inl arequire_Inl resolved_root_Inl check_parents_Inl)

lemma drain_Inl: "drain os s = (Inl e, s') \<Longrightarrow> \<not> bounded_stop e"
proof (induction os s rule: drain.induct)
  case (1 os s)
  obtain q s1 where q: "read_chunk os read_chunk_bytes s = (q, s1)" by fastforce
  show ?case
  proof (cases q)
    case (Inl err)
    then show ?thesis using 1(2) q read_chunk_Inl [OF q [unfolded Inl]]
      by (subst (asm) drain.simps) (auto split: if_splits)
  next
    case (Inr b)
    then have "\<not> as_eof s" "drain os s1 = (Inl e, s')" using 1(2) q by (subst (asm) drain.simps; auto split: if_splits)+
    then show ?thesis using "1.IH" [OF _ q [symmetric] Inr] by blast
  qed
qed

lemma conclude_Inl: "conclude sha s n full st reason k = Inl e \<Longrightarrow> \<not> bounded_stop e"
  by (auto simp: conclude_def final_state_def scan_report_def sbind_eq_Inl Let_def split: if_splits sum.splits option.splits)

lemma finish_Inl: "finish os sha n full st reason k s = (Inl e, s') \<Longrightarrow> \<not> bounded_stop e"
  by (auto simp: finish_def Let_def dest: drain_Inl verify_Inl conclude_Inl split: if_splits prod.splits sum.splits)

text \<open>The guarded part: a complete report stands for the whole content, a bounded stop for a part of it.\<close>

definition fresh :: "scan_vars \<Rightarrow> bool" where
  "fresh v = (sv_records v = 0 \<and> sv_pending v = [] \<and> sv_gen v = start_lines \<and> as_bytes (sv_scan v) = []
     \<and> \<not> as_eof (sv_scan v) \<and> hashed_all (sv_scan v) \<and> stored_ok v)"

lemma fresh_gen: "0 \<le> maximum \<Longrightarrow> fresh v \<Longrightarrow> gen_ok maximum (sv_gen v)"
  by (simp add: fresh_def gen_ok_def start_lines_def)

lemma fresh_pending: "fresh v \<Longrightarrow> pending_content (sv_gen v) c = c"
  by (simp add: fresh_def pending_content_def start_lines_def)

lemma scan_body_complete:
  assumes "scan_body os sos env limits e s v = (Inr report, v')" "fresh v" "0 \<le> max_logical_record_bytes limits"
  shows "\<exists>hs. content_hashes env limits (as_bytes (sv_scan v')) = Inr hs \<and> hs \<noteq> []
      \<and> bag_of (sv_store v') e s = bag_of (sv_store v) e s + mset hs
      \<and> records_scanned report = int (length hs) \<and> others_kept e s (sv_store v) (sv_store v') \<and> stored_ok v'
      \<and> same_scan (sv_scan v) (sv_scan v') \<and> verified_bytes (sha256_hex env) (sv_scan v') \<and> scan_is_complete report"
proof -
  obtain v1 v2 u u' where l: "scan_loop os sos env limits e s v = (Inr u, v1)" and f: "flush sos e s v1 = (Inr u', v2)"
    and r: "sv_records v2 \<noteq> 0" and fin: "finish_vars os env True None None (sp_peak (sv_store v2)) v2 = (Inr report, v')"
    using assms(1) by (auto simp: scan_body_def split: if_splits prod.splits sum.splits)
  have fr: "stored_ok v" "\<not> as_eof (sv_scan v)" using assms(2) by (simp_all add: fresh_def)
  obtain bs where lr: "loop_result os env limits e s v (Inr u) v1 bs"
    using scan_loop_result [OF l fresh_gen [OF assms(3,2)] fr(2) assms(3) fr(1)] by auto
  then obtain hs where hs: "as_eof (sv_scan v1)" "content_hashes env limits bs = Inr hs"
    "held e s v1 = held e s v + mset hs" "sv_records v1 = length hs"
    using fresh_pending [OF assms(2)] assms(2) by (auto simp: loop_result_def fresh_def)
  have b: "as_bytes (sv_scan v1) = bs" "hashed_all (sv_scan v1)" "same_scan (sv_scan v) (sv_scan v1)"
    using lr assms(2) by (auto simp: loop_result_def fresh_def)
  have st1: "stored_ok v1" "others_kept e s (sv_store v) (sv_store v1)" using scan_loop_store [OF l fr(1)] by simp_all
  note fl = flush_effect [OF f st1(1)]
  have h2: "hashed_all (sv_scan v2)" using fl(5) b(2) by simp
  note fi = finish_vars_Inr [OF fin h2]
  have "as_bytes (sv_scan v') = bs" using fi(8) fl(5) hs(1) b(1) by (auto simp: remains_def)
  moreover have "bag_of (sv_store v') e s = bag_of (sv_store v) e s + mset hs"
    using fi(1) fl(6) hs(3) assms(2) by (clarsimp simp: held_def fresh_def)
  moreover have "hs \<noteq> []" "records_scanned report = int (length hs)" using r fl(3) hs(4) fi(3) by auto
  moreover have "others_kept e s (sv_store v) (sv_store v')" using others_kept_trans [OF st1(2) fl(2)] fi(1) by simp
  moreover have "stored_ok v'" using fl(1) fi(1) by (simp add: stored_ok_def)
  moreover have "same_scan (sv_scan v) (sv_scan v')" using same_scan_trans [OF b(3)] fi(6) fl(5) by simp
  ultimately show ?thesis using hs(2) fi(4,7) by simp
qed

definition part_of_content ::
  "'e stream_env_scheme \<Rightarrow> streaming_limits \<Rightarrow> nat list \<Rightarrow> string multiset \<Rightarrow> bool" where
  "part_of_content env limits content bag =
     (\<exists>k hs. line_hashes env limits (take k (fst (ref_lines (max_logical_record_bytes limits) content))) = Inr hs
        \<and> bag \<subseteq># mset hs)"

lemma finish_vars_same:
  "finish_vars os env full st reason scratch v = (r, v') \<Longrightarrow>
     sv_store v' = sv_store v \<and> same_hashed (sv_scan v) (sv_scan v') \<and> sv_pending v' = sv_pending v"
  by (auto simp: finish_vars_def same_hashed_def dest: finish_same(1) split: prod.splits)

lemma scan_body_store:
  assumes "scan_body os sos env limits e s v = (r, v')" "fresh v"
  shows "stored_ok v' \<and> others_kept e s (sv_store v) (sv_store v') \<and> same_hashed (sv_scan v) (sv_scan v')"
proof (cases "sp_exhausted (sv_store v)")
  case True
  then show ?thesis using assms by (simp add: scan_body_def fresh_def)
next
  case False
  obtain q v1 where l: "scan_loop os sos env limits e s v = (q, v1)" by fastforce
  have st1: "stored_ok v1" "others_kept e s (sv_store v) (sv_store v1)" "same_hashed (sv_scan v) (sv_scan v1)"
    using scan_loop_store [OF l] assms(2) by (simp_all add: fresh_def)
  show ?thesis
  proof (cases q)
    case (Inl err)
    then show ?thesis using assms(1) False l st1 by (simp add: scan_body_def)
  next
    case (Inr u)
    obtain q2 v2 where f: "flush sos e s v1 = (q2, v2)" by fastforce
    note fl = flush_effect [OF f st1(1)]
    have "v' = v2 \<or> (\<exists>k. finish_vars os env True None None k v2 = (r, v'))"
      using assms(1) False l Inr f by (auto simp: scan_body_def split: sum.splits if_splits)
    then have "sv_store v' = sv_store v2" "same_hashed (sv_scan v2) (sv_scan v')" by (auto dest: finish_vars_same)
    then show ?thesis using fl(1,2,5) others_kept_trans [OF st1(2)] same_hashed_trans [OF st1(3)] by (simp add: stored_ok_def)
  qed
qed

lemma finish_vars_Inl: "finish_vars os env full st reason k v = (Inl e, v') \<Longrightarrow> \<not> bounded_stop e"
  by (auto simp: finish_vars_def dest: finish_Inl split: prod.splits)

text \<open>What a bounded stop leaves, before its handler runs.\<close>

definition stopped_part ::
  "os_files \<Rightarrow> 'e stream_env_scheme \<Rightarrow> streaming_limits \<Rightarrow> string \<Rightarrow> string \<Rightarrow> scan_vars \<Rightarrow> stream_error
    \<Rightarrow> scan_vars \<Rightarrow> bool" where
  "stopped_part os env limits e s v err v' =
     (\<forall>c. remains os (sv_scan v') c \<longrightarrow>
        (\<exists>k hs. line_hashes env limits
              (take k (fst (ref_lines (max_logical_record_bytes limits) (as_bytes (sv_scan v') @ c)))) = Inr hs
           \<and> bag_of (sv_store v') e s \<subseteq># bag_of (sv_store v) e s + mset hs
           \<and> ((\<forall>t. err \<noteq> ScratchFull t) \<longrightarrow> held e s v' \<subseteq># bag_of (sv_store v) e s + mset hs)))"

lemma loop_stopped_part:
  assumes "loop_result os env limits e s v (Inl err) v' bs" "fresh v"
  shows "stopped_part os env limits e s v err v'"
proof -
  have "as_bytes (sv_scan v') = bs" "held e s v = bag_of (sv_store v) e s"
    using assms by (auto simp: loop_result_def fresh_def held_def)
  then show ?thesis using assms fresh_pending [OF assms(2)]
    by (auto simp: stopped_part_def loop_result_def stores_part_def)
qed

lemma scan_body_stop:
  assumes "scan_body os sos env limits e s v = (Inl err, v')" "fresh v" "0 \<le> max_logical_record_bytes limits"
    "bounded_stop err"
  shows "(\<exists>reason. err = ScanStop SS_FAILED reason) \<or> stopped_part os env limits e s v err v'"
proof (cases "sp_exhausted (sv_store v)")
  case True
  then have "v' = v" using assms(1) by (simp add: scan_body_def)
  then show ?thesis using assms(2)
    by (auto simp: stopped_part_def held_def fresh_def intro!: exI [of _ 0])
next
  case False
  have fr: "stored_ok v" "\<not> as_eof (sv_scan v)" using assms(2) by (simp_all add: fresh_def)
  obtain q v1 where l: "scan_loop os sos env limits e s v = (q, v1)" by fastforce
  show ?thesis
  proof (cases q)
    case (Inl err')
    then have "err = err'" "v' = v1" using assms(1) False l by (simp_all add: scan_body_def)
    then show ?thesis
      using scan_loop_result [OF l fresh_gen [OF assms(3,2)] fr(2) assms(3) fr(1)] assms(4) Inl loop_stopped_part [OF _ assms(2)]
      by blast
  next
    case (Inr u)
    obtain bs where lr: "loop_result os env limits e s v (Inr u) v1 bs"
      using scan_loop_result [OF l fresh_gen [OF assms(3,2)] fr(2) assms(3) fr(1)] Inr by auto
    then obtain hs where hs: "as_eof (sv_scan v1)" "content_hashes env limits bs = Inr hs"
      "held e s v1 = held e s v + mset hs" "as_bytes (sv_scan v1) = bs"
      using fresh_pending [OF assms(2)] assms(2) by (auto simp: loop_result_def fresh_def)
    have st1: "stored_ok v1" using scan_loop_store [OF l fr(1)] by simp
    obtain q2 v2 where f: "flush sos e s v1 = (q2, v2)" by fastforce
    note fl = flush_effect [OF f st1]
    show ?thesis
    proof (cases q2)
      case full: (Inl err')
      then have o: "err = err'" "v' = v2" using assms(1) False l Inr f by (simp_all add: scan_body_def)
      obtain t where t: "err = ScratchFull t"
        using f full o by (auto simp: flush_def dest: add_batch_error split: prod.splits sum.splits)
      obtain ls where ls: "ref_lines (max_logical_record_bytes limits) bs = (ls, True)" "line_hashes env limits ls = Inr hs"
        using hs(2) by (auto simp: content_hashes_def split: prod.splits if_splits)
      have stored: "bag_of (sv_store v2) e s \<subseteq># bag_of (sv_store v) e s + mset hs"
        using fl(7) hs(3) assms(2) by (simp add: held_def fresh_def)
      have "remains os (sv_scan v') c \<longleftrightarrow> c = []" for c using o(2) fl(5) hs(1) by (simp add: remains_def)
      then have "stopped_part os env limits e s v err v'"
        unfolding stopped_part_def
      proof (intro allI impI)
        fix c assume "remains os (sv_scan v') c"
        then have "c = []" using \<open>\<And>c. remains os (sv_scan v') c \<longleftrightarrow> c = []\<close> by simp
        then show "\<exists>k hs. line_hashes env limits
              (take k (fst (ref_lines (max_logical_record_bytes limits) (as_bytes (sv_scan v') @ c)))) = Inr hs
           \<and> bag_of (sv_store v') e s \<subseteq># bag_of (sv_store v) e s + mset hs
           \<and> ((\<forall>t. err \<noteq> ScratchFull t) \<longrightarrow> held e s v' \<subseteq># bag_of (sv_store v) e s + mset hs)"
          using stored ls o(2) fl(5) hs(4) t by (intro exI [of _ "length ls"] exI [of _ hs]) simp
      qed
      then show ?thesis ..
    next
      case ok: (Inr u2)
      then consider "err = ScanStop SS_FAILED MALFORMED" | k where "finish_vars os env True None None k v2 = (Inl err, v')"
        using assms(1) False l Inr f by (auto simp: scan_body_def split: if_splits)
      then show ?thesis using finish_vars_Inl assms(4) by cases blast+
    qed
  qed
qed

subsection \<open>Reports of a scanned split\<close>

lemma discard_effect:
  assumes "stored_ok v"
  shows "stored_ok (discard e s v)" "others_kept e s (sv_store v) (sv_store (discard e s v))"
    "bag_of (sv_store (discard e s v)) e s = {#}" "sv_scan (discard e s v) = sv_scan v"
  using delete_split_bag [of "sv_store v" e s] assms
  by (auto simp: discard_def stored_ok_def others_kept_def)

definition handled :: "string \<Rightarrow> string \<Rightarrow> stream_error \<Rightarrow> scan_state \<Rightarrow> scan_vars \<Rightarrow> scan_vars \<Rightarrow> bool" where
  "handled e s err st v w =
     (sv_scan w = sv_scan v \<and> stored_ok w \<and> others_kept e s (sv_store v) (sv_store w)
      \<and> (if st = SS_FAILED then bag_of (sv_store w) e s = {#}
         else bounded_stop err \<and> (\<forall>reason. err \<noteq> ScanStop SS_FAILED reason)
           \<and> (if \<exists>t. err = ScratchFull t then bag_of (sv_store w) e s = bag_of (sv_store v) e s
              else bag_of (sv_store w) e s \<subseteq># held e s v)))"

lemma handle_stop:
  assumes "handle_scan os sos env limits e s (Inl err, v) = (Inr report, v')" "stored_ok v"
  shows "\<exists>st reason w. stop_scan os env limits st reason w = (Inr report, v') \<and> handled e s err st v w"
proof -
  have failed: "handled e s err SS_FAILED v (discard e s v)" for err
    using discard_effect [OF assms(2)] by (simp add: handled_def)
  have cleared: "stored_ok (v\<lparr>sv_pending := []\<rparr>)" using assms(2) by (simp add: stored_ok_def)
  show ?thesis
  proof (cases err)
    case (ScratchFull t)
    then have "stop_scan os env limits INCOMPLETE_BUDGET SCRATCH_BUDGET (v\<lparr>sv_pending := []\<rparr>) = (Inr report, v')"
      using assms(1) by (simp add: handle_scan_def)
    moreover have "handled e s err INCOMPLETE_BUDGET v (v\<lparr>sv_pending := []\<rparr>)"
      using ScratchFull cleared by (simp add: handled_def)
    ultimately show ?thesis by blast
  next
    case (ScanStop st reason)
    show ?thesis
    proof (cases "st = SS_FAILED")
      case True
      then have "stop_scan os env limits SS_FAILED reason (discard e s v) = (Inr report, v')"
        using assms(1) ScanStop by (simp add: handle_scan_def)
      then show ?thesis using failed by blast
    next
      case False
      obtain q w where f: "flush sos e s v = (q, w)" by fastforce
      note fl = flush_effect [OF f assms(2)]
      have h: "handled e s err st' v w" if "st' \<noteq> SS_FAILED" for st'
        using that fl False ScanStop by (simp add: handled_def)
      have "\<exists>st' reason'. st' \<noteq> SS_FAILED \<and> stop_scan os env limits st' reason' w = (Inr report, v')"
      proof (cases q)
        case (Inl err')
        then obtain t where "err' = ScratchFull t"
          using f by (auto simp: flush_def dest: add_batch_error split: prod.splits sum.splits)
        then have "stop_scan os env limits INCOMPLETE_BUDGET SCRATCH_BUDGET w = (Inr report, v')"
          using assms(1) ScanStop False f Inl by (simp add: handle_scan_def)
        then show ?thesis by blast
      next
        case (Inr u)
        then have "stop_scan os env limits st reason w = (Inr report, v')"
          using assms(1) ScanStop False f by (simp add: handle_scan_def)
        then show ?thesis using False by blast
      qed
      then show ?thesis using h by blast
    qed
  next
    case (StreamError x)
    then have "stop_scan os env limits SS_FAILED MALFORMED (discard e s v) = (Inr report, v')"
      using assms(1) by (simp add: handle_scan_def split: if_splits)
    then show ?thesis using failed by blast
  qed (use assms(1) failed in \<open>auto simp: handle_scan_def split: if_splits\<close>)
qed

definition split_report ::
  "'e stream_env_scheme \<Rightarrow> split_scan \<Rightarrow> nat list \<Rightarrow> bool" where
  "split_report env x content =
     (sha256_hex env content = ss_artifact_sha256 x \<and> int (length content) = ss_artifact_size x)"

lemma new_split_scan_Inr: "new_split_scan y = Inr x \<Longrightarrow> x = y"
  by (auto simp: new_split_scan_def sbind_eq_Inr)

lemma split_facts_Inr:
  assumes "split_facts sha src e s report v = Inr x"
  shows "ss_completeness x = report \<and> ss_artifact_sha256 x = ac_sha256 (src_candidate src)
    \<and> ss_artifact_size x = ac_size (src_candidate src) \<and> ss_experiment x = e \<and> ss_split x = s"
proof -
  obtain trace where "(case sbind (new_sha256 trace) (\<lambda>trace'.
         new_split_scan
           \<lparr>ss_experiment = e, ss_split = s, ss_path = ac_path (src_candidate src),
            ss_artifact_sha256 = ac_sha256 (src_candidate src), ss_artifact_size = ac_size (src_candidate src),
            ss_trace_sha256 = trace', ss_completeness = report, ss_indexed = int (sv_indexed v)\<rparr>) of
         Inl err \<Rightarrow> Inl (StreamError err)
       | Inr x \<Rightarrow> Inr x) = Inr x"
    using assms unfolding split_facts_def sbind_eq_Inr by blast
  then obtain trace' where "new_split_scan
           \<lparr>ss_experiment = e, ss_split = s, ss_path = ac_path (src_candidate src),
            ss_artifact_sha256 = ac_sha256 (src_candidate src), ss_artifact_size = ac_size (src_candidate src),
            ss_trace_sha256 = trace', ss_completeness = report, ss_indexed = int (sv_indexed v)\<rparr> = Inr x"
    by (cases "sbind (new_sha256 trace) (\<lambda>trace'.
         new_split_scan
           \<lparr>ss_experiment = e, ss_split = s, ss_path = ac_path (src_candidate src),
            ss_artifact_sha256 = ac_sha256 (src_candidate src), ss_artifact_size = ac_size (src_candidate src),
            ss_trace_sha256 = trace', ss_completeness = report, ss_indexed = int (sv_indexed v)\<rparr>)")
      (simp_all add: sbind_eq_Inr, blast)
  from new_split_scan_Inr [OF this] show ?thesis by simp
qed

lemma scan_dataset_Inr:
  assumes "scan_dataset os sos env limits e s src store t = (Inr x, store', t')" "table_ok (sp_rows store)"
  obtains v r v1 v' where "fresh v" "sv_store v = store" "scan_body os sos env limits e s v = (r, v1)"
    "handle_scan os sos env limits e s (r, v1) = (Inr (ss_completeness x), v')" "store' = sv_store v'"
    "as_source (sv_scan v) = src" "ss_artifact_sha256 x = ac_sha256 (src_candidate src)"
    "ss_artifact_size x = ac_size (src_candidate src)" "ss_experiment x = e" "ss_split x = s"
proof -
  obtain sc t1 where o: "open_scan os src DATASET_RECORDS limits t = (Inr sc, t1)"
    using assms(1) by (auto simp: scan_dataset_def split: if_splits prod.splits sum.splits)
  obtain r v1 where b: "scan_body os sos env limits e s (start_vars sc store) = (r, v1)" by fastforce
  obtain report v' where h: "handle_scan os sos env limits e s (r, v1) = (Inr report, v')"
    and sf: "split_facts (sha256_hex env) src e s report v' = Inr x" and st: "store' = sv_store v'"
    using assms(1) o b by (auto simp: scan_dataset_def split: if_splits prod.splits sum.splits)
  have x: "ss_completeness x = report" "ss_artifact_sha256 x = ac_sha256 (src_candidate src)"
    "ss_artifact_size x = ac_size (src_candidate src)" "ss_experiment x = e" "ss_split x = s"
    using split_facts_Inr [OF sf] by simp_all
  have f: "fresh (start_vars sc store)" "as_source sc = src"
    using o assms(2) by (auto simp: open_scan_def fresh_def start_vars_def stored_ok_def hashed_all_def split: prod.splits sum.splits)
  show ?thesis by (rule that [OF f(1) _ b h [folded x(1)] st _ x(2-5)]) (use f(2) in \<open>simp_all add: start_vars_def\<close>)
qed

lemma scan_exact:
  assumes "scan_dataset os sos env limits e s src store t = (Inr x, store', t')" and "scan_complete x"
    and "table_ok (sp_rows store)" and "0 \<le> max_logical_record_bytes limits"
  shows "\<exists>content hs. split_report env x content \<and> content_hashes env limits content = Inr hs \<and> hs \<noteq> []
    \<and> records_scanned (ss_completeness x) = int (length hs)
    \<and> bag_of store' e s = bag_of store e s + mset hs \<and> others_kept e s store store' \<and> table_ok (sp_rows store')"
proof -
  obtain v r v1 v' where f: "fresh v" and v: "sv_store v = store" "store' = sv_store v'" "as_source (sv_scan v) = src"
    and b: "scan_body os sos env limits e s v = (r, v1)"
    and h: "handle_scan os sos env limits e s (r, v1) = (Inr (ss_completeness x), v')"
    and x: "ss_artifact_sha256 x = ac_sha256 (src_candidate src)" "ss_artifact_size x = ac_size (src_candidate src)"
    using scan_dataset_Inr [OF assms(1,3)] by metis
  have st: "stored_ok v1" "same_hashed (sv_scan v) (sv_scan v1)" using scan_body_store [OF b f] by simp_all
  then have hashed: "hashed_all (sv_scan v1)" using f by (simp add: same_hashed_def fresh_def)
  obtain report where r: "r = Inr report"
  proof (cases r)
    case (Inl err)
    from handle_stop [OF h [unfolded Inl] st(1)] obtain st' reason w
      where "stop_scan os env limits st' reason w = (Inr (ss_completeness x), v')" "handled e s err st' v1 w" by blast
    then show ?thesis using finish_vars_Inr(4) [of os env False "Some st'"] hashed assms(2)
      by (auto simp: stop_scan_def handled_def scan_complete_def)
  qed (use that in blast)
  then have same: "report = ss_completeness x" "v' = v1" using h by (simp_all add: handle_scan_def)
  show ?thesis
    using scan_body_complete [OF b [unfolded r] f assms(4)] v x
    by (auto simp: same split_report_def verified_bytes_def same_scan_def stored_ok_def)
qed

lemma scan_partial:
  assumes "scan_dataset os sos env limits e s src store t = (Inr x, store', t')" and "\<not> scan_complete x"
    and "table_ok (sp_rows store)" and "0 \<le> max_logical_record_bytes limits"
  shows "(\<exists>content. split_report env x content
      \<and> (if sc_state (ss_completeness x) = SS_FAILED then bag_of store' e s = {#}
         else \<exists>k hs. line_hashes env limits (take k (fst (ref_lines (max_logical_record_bytes limits) content))) = Inr hs
                \<and> bag_of store' e s \<subseteq># bag_of store e s + mset hs))
    \<and> others_kept e s store store' \<and> table_ok (sp_rows store')"
proof -
  obtain v r v1 v' where f: "fresh v" and v: "sv_store v = store" "store' = sv_store v'" "as_source (sv_scan v) = src"
    and b: "scan_body os sos env limits e s v = (r, v1)"
    and h: "handle_scan os sos env limits e s (r, v1) = (Inr (ss_completeness x), v')"
    and x: "ss_artifact_sha256 x = ac_sha256 (src_candidate src)" "ss_artifact_size x = ac_size (src_candidate src)"
    using scan_dataset_Inr [OF assms(1,3)] by metis
  have st: "stored_ok v1" "others_kept e s (sv_store v) (sv_store v1)" "same_hashed (sv_scan v) (sv_scan v1)"
    using scan_body_store [OF b f] by simp_all
  then have hashed: "hashed_all (sv_scan v1)" using f by (simp add: same_hashed_def fresh_def)
  obtain err where r: "r = Inl err"
  proof (cases r)
    case (Inr report)
    then have "report = ss_completeness x" using h by (simp add: handle_scan_def)
    then show ?thesis using scan_body_complete [OF b [unfolded Inr] f assms(4)] assms(2) by (simp add: scan_complete_def)
  qed (use that in blast)
  obtain q reason w where stop: "stop_scan os env limits q reason w = (Inr (ss_completeness x), v')"
    and hd: "handled e s err q v1 w" using handle_stop [OF h [unfolded r] st(1)] by blast
  have w: "sv_scan w = sv_scan v1" "stored_ok w" "others_kept e s (sv_store v1) (sv_store w)"
    using hd by (simp_all add: handled_def)
  note fi = finish_vars_Inr [OF stop [unfolded stop_scan_def], unfolded w(1), OF hashed]
  have state: "sc_state (ss_completeness x) = q" using fi(5) by simp
  obtain c where c: "as_bytes (sv_scan v') = as_bytes (sv_scan v1) @ c" "remains os (sv_scan v1) c" using fi(8) by blast
  have rep: "split_report env x (as_bytes (sv_scan v'))"
    using fi(6,7) st(3) v(3) x by (simp add: split_report_def verified_bytes_def same_hashed_def same_scan_def)
  moreover have "if q = SS_FAILED then bag_of store' e s = {#}
      else \<exists>k hs. line_hashes env limits
          (take k (fst (ref_lines (max_logical_record_bytes limits) (as_bytes (sv_scan v'))))) = Inr hs
          \<and> bag_of store' e s \<subseteq># bag_of store e s + mset hs"
  proof (cases "q = SS_FAILED")
    case True
    then show ?thesis using hd fi(1) v(2) by (simp add: handled_def)
  next
    case False
    have e: "bounded_stop err" "\<forall>reason. err \<noteq> ScanStop SS_FAILED reason"
      and stored: "if \<exists>t. err = ScratchFull t then bag_of (sv_store w) e s = bag_of (sv_store v1) e s
              else bag_of (sv_store w) e s \<subseteq># held e s v1" using hd False by (auto simp: handled_def)
    have "stopped_part os env limits e s v err v1" using scan_body_stop [OF b [unfolded r] f assms(4) e(1)] e(2) by blast
    then obtain k hs where "line_hashes env limits
          (take k (fst (ref_lines (max_logical_record_bytes limits) (as_bytes (sv_scan v1) @ c)))) = Inr hs"
      "bag_of (sv_store v1) e s \<subseteq># bag_of (sv_store v) e s + mset hs"
      "(\<forall>t. err \<noteq> ScratchFull t) \<longrightarrow> held e s v1 \<subseteq># bag_of (sv_store v) e s + mset hs"
      using c(2) unfolding stopped_part_def by blast
    moreover from this(2,3) have "bag_of store' e s \<subseteq># bag_of store e s + mset hs"
      using stored v fi(1) by (auto split: if_splits)
    ultimately show ?thesis using False c(1) by auto
  qed
  moreover have "others_kept e s store store'" "table_ok (sp_rows store')"
    using v fi(1) w(2,3) st(2) others_kept_trans by (auto simp: stored_ok_def)
  ultimately show ?thesis unfolding state by blast
qed

text \<open>What the rows of a split say of its artifact.\<close>

definition rows_sound :: "'e stream_env_scheme \<Rightarrow> streaming_limits \<Rightarrow> split_scan \<Rightarrow> string multiset \<Rightarrow> bool" where
  "rows_sound env limits x bag =
     (\<exists>content. split_report env x content
       \<and> (if scan_complete x then \<exists>hs. content_hashes env limits content = Inr hs \<and> bag = mset hs
          else \<exists>k hs. line_hashes env limits (take k (fst (ref_lines (max_logical_record_bytes limits) content))) = Inr hs
                 \<and> bag \<subseteq># mset hs))"

lemma line_hashes_none [simp]: "line_hashes env limits (take 0 ls) = Inr []"
  by simp

lemma scan_dataset_sound:
  assumes "scan_dataset os sos env limits e s src store t = (Inr x, store', t')"
    and "table_ok (sp_rows store)" and "0 \<le> max_logical_record_bytes limits" and "bag_of store e s = {#}"
  shows "rows_sound env limits x (bag_of store' e s) \<and> others_kept e s store store' \<and> table_ok (sp_rows store')"
proof (cases "scan_complete x")
  case True
  from scan_exact [OF assms(1) True assms(2,3)] show ?thesis
    using True assms(4) by (auto simp: rows_sound_def)
next
  case False
  from scan_partial [OF assms(1) False assms(2,3)] obtain content where
    c: "split_report env x content" "if sc_state (ss_completeness x) = SS_FAILED then bag_of store' e s = {#}
         else \<exists>k hs. line_hashes env limits (take k (fst (ref_lines (max_logical_record_bytes limits) content))) = Inr hs
                \<and> bag_of store' e s \<subseteq># bag_of store e s + mset hs"
    and o: "others_kept e s store store'" "table_ok (sp_rows store')" by blast
  have "\<exists>k hs. line_hashes env limits (take k (fst (ref_lines (max_logical_record_bytes limits) content))) = Inr hs
      \<and> bag_of store' e s \<subseteq># mset hs"
  proof (cases "sc_state (ss_completeness x) = SS_FAILED")
    case True
    then show ?thesis using c(2) line_hashes_none by (metis empty_le)
  next
    case False
    then show ?thesis using c(2) assms(4) by auto
  qed
  then show ?thesis using False c(1) o by (auto simp: rows_sound_def)
qed

lemma scan_dataset_role:
  "scan_dataset os sos env limits e s src store t = (Inr x, store', t') \<Longrightarrow> table_ok (sp_rows store) \<Longrightarrow>
     ss_experiment x = e \<and> ss_split x = s"
  using scan_dataset_Inr by metis

lemma scan_all_sound:
  "scan_all os sos env limits keyed store t = Inr (xs, final) \<Longrightarrow> distinct (map fst keyed) \<Longrightarrow>
     table_ok (sp_rows store) \<Longrightarrow> 0 \<le> max_logical_record_bytes limits \<Longrightarrow>
     \<forall>(e, s) \<in> set (map fst keyed). bag_of store e s = {#} \<Longrightarrow>
     table_ok (sp_rows final)
     \<and> (\<forall>x \<in> set xs. (ss_experiment x, ss_split x) \<in> set (map fst keyed)
           \<and> rows_sound env limits x (bag_of final (ss_experiment x) (ss_split x)))
     \<and> (\<forall>e s. (e, s) \<notin> set (map fst keyed) \<longrightarrow> bag_of final e s = bag_of store e s)"
proof (induction os sos env limits keyed store t arbitrary: xs rule: scan_all.induct)
  case (2 os sos env limits e s src rest store t)
  obtain x store' t' where sd: "scan_dataset os sos env limits e s src store t = (Inr x, store', t')"
    using "2.prems"(1) by (auto split: prod.splits sum.splits)
  then obtain ys where ys: "scan_all os sos env limits rest store' t' = Inr (ys, final)" "xs = x # ys"
    using "2.prems"(1) by (auto simp: sbind_eq_Inr)
  have e: "bag_of store e s = {#}" using "2.prems"(5) by simp
  note ok = scan_dataset_sound [OF sd "2.prems"(3,4) e]
  note role = scan_dataset_role [OF sd "2.prems"(3)]
  have "bag_of store' e' s' = {#}" if k: "(e', s') \<in> set (map fst rest)" for e' s'
  proof -
    have "(e', s') \<noteq> (e, s)" using k "2.prems"(2) by auto
    moreover have "bag_of store e' s' = {#}" using k "2.prems"(5) by auto
    ultimately show ?thesis using ok by (auto simp: others_kept_def)
  qed
  then have fresh': "\<forall>(e', s') \<in> set (map fst rest). bag_of store' e' s' = {#}" by blast
  have IH: "table_ok (sp_rows final)
     \<and> (\<forall>x \<in> set ys. (ss_experiment x, ss_split x) \<in> set (map fst rest)
           \<and> rows_sound env limits x (bag_of final (ss_experiment x) (ss_split x)))
     \<and> (\<forall>e s. (e, s) \<notin> set (map fst rest) \<longrightarrow> bag_of final e s = bag_of store' e s)"
    using "2.IH" [OF sd [symmetric] refl refl ys(1) _ _ "2.prems"(4) fresh'] "2.prems"(2) ok by simp
  have "(e, s) \<notin> set (map fst rest)" using "2.prems"(2) by simp
  then have "bag_of final e s = bag_of store' e s" using IH by blast
  then have "rows_sound env limits x (bag_of final (ss_experiment x) (ss_split x))" using ok role by simp
  then show ?case using IH ok role ys(2) by (auto simp: others_kept_def)
qed simp

lemma rows_sound_part:
  assumes "rows_sound env limits x bag" "h \<in># bag"
  shows "\<exists>content k hs. split_report env x content
    \<and> line_hashes env limits (take k (fst (ref_lines (max_logical_record_bytes limits) content))) = Inr hs \<and> h \<in> set hs"
proof (cases "scan_complete x")
  case True
  then obtain content hs where c: "split_report env x content" "content_hashes env limits content = Inr hs" "bag = mset hs"
    using assms(1) by (auto simp: rows_sound_def)
  let ?ls = "fst (ref_lines (max_logical_record_bytes limits) content)"
  have "line_hashes env limits (take (length ?ls) ?ls) = Inr hs"
    using c(2) by (auto simp: content_hashes_def split: prod.splits if_splits)
  then show ?thesis using c(1,3) assms(2) by (metis set_mset_mset)
next
  case False
  then obtain content k hs where "split_report env x content"
    "line_hashes env limits (take k (fst (ref_lines (max_logical_record_bytes limits) content))) = Inr hs" "bag \<subseteq># mset hs"
    using assms(1) by (auto simp: rows_sound_def)
  then show ?thesis using assms(2) mset_subset_eqD by (metis set_mset_mset)
qed

text \<open>A context that was just made: every scan it holds is sound for the rows of its split.\<close>

definition context_sound :: "'e stream_env_scheme \<Rightarrow> streaming_limits \<Rightarrow> scan_context \<Rightarrow> bool" where
  "context_sound env limits cx =
     (table_ok (sp_rows (cx_store cx))
      \<and> (\<forall>x \<in> set (cx_scans cx). rows_sound env limits x (bag_of (cx_store cx) (ss_experiment x) (ss_split x))))"

lemma new_spill_rows: "new_spill sos m = Inr sp \<Longrightarrow> sp_rows sp = []"
  by (auto simp: new_spill_def dest: measure_rows split: if_splits prod.splits sum.splits)

lemma made_context_sound:
  assumes "stream_dataset_audit_context os sos env limits bt be ct ce scratch manifest t = Inr cx"
    and "0 \<le> max_logical_record_bytes limits"
  shows "context_sound env limits cx"
proof -
  let ?keyed = "[((''baseline'', ''train''), bt), ((''baseline'', ''eval''), be),
                 ((''candidate'', ''train''), ct), ((''candidate'', ''eval''), ce)]"
  obtain store t' scans where sp: "new_spill sos (max_scratch_bytes limits) = Inr store"
    and sa: "scan_all os sos env limits ?keyed store t' = Inr (scans, cx_store cx)" and sc: "cx_scans cx = scans"
    using assms(1) unfolding stream_dataset_audit_context_def
    by (auto simp: Let_def sbind_eq_Inr simp del: scan_all.simps split: if_splits sum.splits prod.splits)
  have rows: "sp_rows store = []" by (rule new_spill_rows [OF sp])
  have "table_ok (sp_rows store)" by (simp add: rows table_ok_def)
  moreover have "bag_of store e s = {#}" for e s by (simp add: bag_of_def rows split_rows_def split_bag_def)
  ultimately show ?thesis
    using scan_all_sound [OF sa _ _ assms(2)] sc by (simp add: context_sound_def)
qed

lemma context_scan_Inr:
  "context_scan cx e s = Inr x \<Longrightarrow> x \<in> set (cx_scans cx) \<and> ss_experiment x = e \<and> ss_split x = s"
proof -
  assume a: "context_scan cx e s = Inr x"
  then have "filter (\<lambda>x. ss_experiment x = e \<and> ss_split x = s) (cx_scans cx) = [x]"
    by (auto simp: context_scan_def sbind_eq_Inr split: list.splits)
  then have "x \<in> set (filter (\<lambda>x. ss_experiment x = e \<and> ss_split x = s) (cx_scans cx))" by simp
  then show ?thesis by simp
qed

lemma context_overlap_Inr:
  assumes "context_overlap cx e = Inr f" "context_sound env limits cx"
  shows "rows_sound env limits (of_train_scan f) (bag_of (cx_store cx) e ''train'')"
    "rows_sound env limits (of_eval_scan f) (bag_of (cx_store cx) e ''eval'')"
    "of_train_count f = size (bag_of (cx_store cx) e ''train'')" "of_eval_count f = size (bag_of (cx_store cx) e ''eval'')"
    "of_overlap_count f = size (bag_of (cx_store cx) e ''train'' \<inter># bag_of (cx_store cx) e ''eval'')"
    "of_hashes f = take (cx_preview cx)
       (sorted_list_of_set (set_mset (bag_of (cx_store cx) e ''train'' \<inter># bag_of (cx_store cx) e ''eval'')))"
proof -
  let ?r = "\<lambda>s. split_rows e s (sp_rows (cx_store cx))"
  obtain tr ev where s: "context_scan cx e ''train'' = Inr tr" "context_scan cx e ''eval'' = Inr ev"
    and f: "f = spill_overlap (cx_store cx) e tr ev (cx_preview cx)"
    using assms(1) by (auto simp: context_overlap_def sbind_eq_Inr)
  have rows: "split_ok (?r s)" for s using assms(2) by (intro split_rows_ok) (simp add: context_sound_def)
  show "rows_sound env limits (of_train_scan f) (bag_of (cx_store cx) e ''train'')"
    "rows_sound env limits (of_eval_scan f) (bag_of (cx_store cx) e ''eval'')"
    using context_scan_Inr [OF s(1)] context_scan_Inr [OF s(2)] assms(2)
    by (auto simp: context_sound_def f spill_overlap_def)
  show "of_train_count f = size (bag_of (cx_store cx) e ''train'')" "of_eval_count f = size (bag_of (cx_store cx) e ''eval'')"
    by (simp_all add: f spill_overlap_def spill_count_def bag_of_def row_total [OF rows])
  show "of_overlap_count f = size (bag_of (cx_store cx) e ''train'' \<inter># bag_of (cx_store cx) e ''eval'')"
    by (simp add: f spill_overlap_def bag_of_def joined_size [OF rows rows])
  show "of_hashes f = take (cx_preview cx)
       (sorted_list_of_set (set_mset (bag_of (cx_store cx) e ''train'' \<inter># bag_of (cx_store cx) e ''eval'')))"
    by (simp add: f spill_overlap_def overlap_rows_def bag_of_def joined_digests [OF rows rows])
qed

subsection \<open>Properties\<close>

text \<open>C3: a complete scan is exact: the artifact with the declared digest and size splits into lines whose
  records all decode, and the multiset of the split has grown by exactly their hashes; no other split
  has changed.\<close>

theorem complete_scan_exact:
  assumes "scan_dataset os sos env limits e s src store t = (Inr x, store', t')" and "scan_complete x"
    and "table_ok (sp_rows store)" and "0 \<le> max_logical_record_bytes limits"
  shows "\<exists>content hs. split_report env x content \<and> content_hashes env limits content = Inr hs \<and> hs \<noteq> []
    \<and> records_scanned (ss_completeness x) = int (length hs)
    \<and> bag_of store' e s = bag_of store e s + mset hs \<and> others_kept e s store store' \<and> table_ok (sp_rows store')"
  using assms by (rule scan_exact)

text \<open>C14: a scan that is not complete never overstates: a failed one leaves nothing of the split, and any
  other has stored at most the hashes of a first part of the lines of the artifact with the
  declared digest and size.\<close>

theorem partial_scan_sound:
  assumes "scan_dataset os sos env limits e s src store t = (Inr x, store', t')" and "\<not> scan_complete x"
    and "table_ok (sp_rows store)" and "0 \<le> max_logical_record_bytes limits"
  shows "(\<exists>content. split_report env x content
      \<and> (if sc_state (ss_completeness x) = SS_FAILED then bag_of store' e s = {#}
         else \<exists>k hs. line_hashes env limits (take k (fst (ref_lines (max_logical_record_bytes limits) content))) = Inr hs
                \<and> bag_of store' e s \<subseteq># bag_of store e s + mset hs))
    \<and> others_kept e s store store' \<and> table_ok (sp_rows store')"
  using assms by (rule scan_partial)

text \<open>C20: with four complete scans, the facts of an experiment are those of the record hashes of its two
  artifacts: the counts, the number of overlapping records as the size of the multiset
  intersection, and the preview as the first common digests.\<close>

theorem streamed_overlap_exact:
  assumes "stream_dataset_audit_context os sos env limits bt be ct ce scratch manifest t = Inr cx"
    and "0 \<le> max_logical_record_bytes limits" and "context_overlap cx e = Inr f" and "fact_complete f"
  shows "\<exists>train ht eval he. split_report env (of_train_scan f) train \<and> content_hashes env limits train = Inr ht
    \<and> split_report env (of_eval_scan f) eval \<and> content_hashes env limits eval = Inr he
    \<and> of_train_count f = length ht \<and> of_eval_count f = length he
    \<and> of_overlap_count f = size (mset ht \<inter># mset he)
    \<and> of_hashes f = take (cx_preview cx) (sorted_list_of_set (set ht \<inter> set he))"
proof -
  note o = context_overlap_Inr [OF assms(3) made_context_sound [OF assms(1,2)]]
  obtain train ht where t: "split_report env (of_train_scan f) train" "content_hashes env limits train = Inr ht"
    "bag_of (cx_store cx) e ''train'' = mset ht"
    using o(1) assms(4) by (auto simp: rows_sound_def fact_complete_def)
  obtain eval he where v: "split_report env (of_eval_scan f) eval" "content_hashes env limits eval = Inr he"
    "bag_of (cx_store cx) e ''eval'' = mset he"
    using o(2) assms(4) by (auto simp: rows_sound_def fact_complete_def)
  show ?thesis using t v o(3-6) by (intro exI conjI) (simp_all add: size_mset)
qed


text \<open>A small run: one artifact of two bytes stands for all four splits.\<close>

definition tiny_stat :: "int \<Rightarrow> int \<Rightarrow> file_stat" where
  "tiny_stat kind sz =
     \<lparr>st_dev = 1, st_ino = kind, st_mode = kind * 4096, st_size = sz, st_mtime_ns = 0, st_ctime_ns = 0\<rparr>"

definition tiny_os :: os_files where
  "tiny_os =
     \<lparr>os_cwd = ''/'',
      os_lstat = (\<lambda>t p. Some (if p = ''/'' then tiny_stat 4 0 else tiny_stat 8 2)),
      os_realpath = (\<lambda>t p. Some p), os_open = (\<lambda>t p. Some t), os_fstat = (\<lambda>t fd. Some (tiny_stat 8 2)),
      os_read = (\<lambda>t fd n. Some (if 2 \<le> n \<and> t = fd + 2 then [123, 125] else []))\<rparr>"

definition tiny_env :: stream_env where
  "tiny_env =
     \<lparr>read_text = (\<lambda>p. Inl (FileNotFound p)), resolve_path = Inr, json_text = (\<lambda>s. Inr (JObj [])),
      yaml_text = (\<lambda>s. Inl YAMLRecursion), sha256_hex = zero_sha, utf8_text = (\<lambda>bs. Some ''{}'')\<rparr>"

definition tiny_source :: artifact_source where
  "tiny_source = demo_source\<lparr>src_occurrence :=
     (src_occurrence demo_source)\<lparr>oc_candidate := (oc_candidate (src_occurrence demo_source))\<lparr>ac_sha256 := zero_sha []\<rparr>\<rparr>\<rparr>"

definition tiny_sql :: spill_os where
  "tiny_sql = \<lparr>sql_ok = (\<lambda>t. True), spill_bytes = (\<lambda>t. 0)\<rparr>"

definition zeros :: string where
  "zeros = replicate 64 (CHR ''0'')"

definition tiny_split :: "string \<Rightarrow> string \<Rightarrow> split_scan" where
  "tiny_split e s =
     \<lparr>ss_experiment = e, ss_split = s, ss_path = ''a.jsonl'', ss_artifact_sha256 = zeros, ss_artifact_size = 2,
      ss_trace_sha256 = zeros,
      ss_completeness =
        \<lparr>sc_purpose = DATASET_RECORDS, sc_state = SS_COMPLETE, sc_reason = SR_COMPLETE, records_scanned = 1,
         sc_semantic_bytes = 2, sc_integrity_bytes = 2, expected_bytes = 2, integrity_verified = True,
         peak_buffer_bytes = 2, scratch_bytes = 0\<rparr>,
      ss_indexed = 1\<rparr>"

definition tiny_cx :: scan_context where
  "tiny_cx =
     \<lparr>cx_repository = \<lparr>ri_owner = ''o'', ri_name = ''r''\<rparr>, cx_head = ''c'',
      cx_scans = [tiny_split ''baseline'' ''train'', tiny_split ''baseline'' ''eval'',
                  tiny_split ''candidate'' ''train'', tiny_split ''candidate'' ''eval''],
      cx_store =
        \<lparr>sp_rows = [((''baseline'', ''train'', zeros), 1), ((''baseline'', ''eval'', zeros), 1),
                    ((''candidate'', ''train'', zeros), 1), ((''candidate'', ''eval'', zeros), 1)],
         sp_maximum = 536870912, sp_peak = 0, sp_exhausted = False, sp_clock = 5\<rparr>,
      cx_active = True, cx_preview = 128,
      cx_paths = [((''baseline'', ''train''), ''a.jsonl''), ((''baseline'', ''eval''), ''a.jsonl''),
                  ((''candidate'', ''train''), ''a.jsonl''), ((''candidate'', ''eval''), ''a.jsonl'')]\<rparr>"

definition tiny_fact :: overlap_fact where
  "tiny_fact =
     \<lparr>of_train_scan = tiny_split ''baseline'' ''train'', of_eval_scan = tiny_split ''baseline'' ''eval'',
      of_train_count = 1, of_eval_count = 1, of_overlap_count = 1, of_hashes = [zeros], of_distinct = 1\<rparr>"

definition empty_spill :: spill where
  "empty_spill = \<lparr>sp_rows = [], sp_maximum = 1, sp_peak = 0, sp_exhausted = False, sp_clock = 1\<rparr>"

definition one_row :: spill where
  "one_row = \<lparr>sp_rows = [((''baseline'', ''train'', zeros), 1)], sp_maximum = 1, sp_peak = 0,
     sp_exhausted = False, sp_clock = 2\<rparr>"

definition one_byte :: streaming_limits where
  "one_byte = default_limits\<lparr>max_semantic_bytes := 1\<rparr>"

definition stopped_split :: split_scan where
  "stopped_split = (tiny_split ''baseline'' ''train'')
     \<lparr>ss_completeness :=
        \<lparr>sc_purpose = DATASET_RECORDS, sc_state = INCOMPLETE_BUDGET, sc_reason = SEMANTIC_BYTE_BUDGET,
         records_scanned = 0, sc_semantic_bytes = 0, sc_integrity_bytes = 2, expected_bytes = 2,
         integrity_verified = True, peak_buffer_bytes = 2, scratch_bytes = 0\<rparr>,
      ss_indexed := 0\<rparr>"

lemma tiny_made:
  "stream_dataset_audit_context tiny_os tiny_sql tiny_env default_limits tiny_source tiny_source
     tiny_source tiny_source ''/'' None 0 = Inr tiny_cx"
  by code_simp

lemma tiny_overlap: "context_overlap tiny_cx ''baseline'' = Inr tiny_fact" "fact_complete tiny_fact"
  by code_simp+

lemma tiny_scanned:
  "scan_dataset tiny_os tiny_sql tiny_env default_limits ''baseline'' ''train'' tiny_source empty_spill 0
     = (Inr (tiny_split ''baseline'' ''train''), one_row, 13)"
  by code_simp

lemma tiny_stopped:
  "scan_dataset tiny_os tiny_sql tiny_env one_byte ''baseline'' ''train'' tiny_source empty_spill 0
     = (Inr stopped_split, empty_spill, 13)"
  by code_simp

lemma tiny_states: "scan_complete (tiny_split e s)" "\<not> scan_complete stopped_split"
  "table_ok (sp_rows empty_spill)" "bag_of empty_spill e s = {#}"
  "0 \<le> max_logical_record_bytes default_limits" "0 \<le> max_logical_record_bytes one_byte"
  by (simp_all add: scan_complete_def scan_is_complete_def tiny_split_def stopped_split_def empty_spill_def
      table_ok_def bag_of_def split_rows_def split_bag_def one_byte_def default_limits_def)

theorem complete_scan_exact_witness:
  "\<exists>content hs. split_report tiny_env (tiny_split ''baseline'' ''train'') content
     \<and> content_hashes tiny_env default_limits content = Inr hs \<and> hs \<noteq> []
     \<and> bag_of one_row ''baseline'' ''train'' = mset hs"
  using complete_scan_exact [OF tiny_scanned tiny_states(1,3,5)] by (auto simp: tiny_states(4))

theorem partial_scan_sound_witness:
  "\<exists>content. split_report tiny_env stopped_split content"
  using partial_scan_sound [OF tiny_stopped tiny_states(2,3,6)] by blast

theorem streamed_overlap_exact_witness:
  "\<exists>train ht eval he. content_hashes tiny_env default_limits train = Inr ht
     \<and> content_hashes tiny_env default_limits eval = Inr he \<and> 1 = size (mset ht \<inter># mset he)"
  using streamed_overlap_exact [OF tiny_made tiny_states(5) tiny_overlap]
  by (auto simp: tiny_fact_def)


end
