(* ===== verification/MetricIdentity.thy ===== *)
theory MetricIdentity
  imports Contracts
begin

section \<open>Metric identities and bindings\<close>

text \<open>
  \<^verbatim>\<open>claimci/analysis/metric_identity.py\<close>: a metric found in an artifact is a candidate; recognising its
  name only proposes pairs of a baseline and a candidate metric; a pair becomes a binding when both
  names are exact and no other pair exists, or when a user approves it. The extraction of the
  candidates from artifacts is not modelled. \<open>sha\<close> is SHA-256 as a hexadecimal digest.
\<close>

subsection \<open>Candidates\<close>

record metric_candidate =
  mcd_id :: string
  mcd_role :: experiment_role
  mcd_path :: string
  mcd_sha256 :: string
  mcd_adapter :: string
  mcd_selector :: selector
  mcd_raw :: string
  mcd_provenance :: provenance

definition short_digest :: "(nat list \<Rightarrow> string) \<Rightarrow> string \<Rightarrow> pyval \<Rightarrow> string" where
  "short_digest sha prefix v = prefix @ take 24 (sha (canonical_bytes v))"

definition candidate_id ::
  "(nat list \<Rightarrow> string) \<Rightarrow> experiment_role \<Rightarrow> string \<Rightarrow> string \<Rightarrow> string \<Rightarrow> selector \<Rightarrow> string \<Rightarrow> string" where
  "candidate_id sha role path sha256 adapter sel raw =
     short_digest sha ''metric-candidate-''
       (pdict [(''role'', PStr (experiment_role_value role)), (''path'', PStr path), (''sha256'', PStr sha256),
               (''adapter_id'', PStr adapter), (''selector'', PTuple (selector_identity sel)),
               (''raw_metric_name'', PStr raw)])"

text \<open>The patterns \<^verbatim>\<open>_ADAPTER_ID\<close>, \<^verbatim>\<open>_CANONICAL_METRIC\<close> and those of derived identifiers.\<close>

definition adapter_id_ok :: "string \<Rightarrow> bool" where
  "adapter_id_ok s =
     (case s of
        [] \<Rightarrow> False
      | c # cs \<Rightarrow> (is_lower_char c \<or> is_digit_char c) \<and> length cs \<le> 127
                 \<and> list_all (\<lambda>d. is_lower_char d \<or> is_digit_char d \<or> d \<in> set ''._-'') cs)"

definition canonical_metric_ok :: "string \<Rightarrow> bool" where
  "canonical_metric_ok s =
     (case s of
        [] \<Rightarrow> False
      | c # cs \<Rightarrow> is_lower_char c \<and> length cs \<le> 255
                 \<and> list_all (\<lambda>d. is_lower_char d \<or> is_digit_char d \<or> d \<in> set ''_.-'') cs)"

definition derived_id_ok :: "string \<Rightarrow> string \<Rightarrow> bool" where
  "derived_id_ok prefix s =
     (starts_with prefix s \<and> length s = length prefix + 24 \<and> list_all is_lower_hex (drop (length prefix) s))"

definition derived_id :: "string \<Rightarrow> string \<Rightarrow> string \<Rightarrow> unit checked" where
  "derived_id prefix what s =
     ensure (derived_id_ok prefix s) (AssertionError (''derived '' @ what @ '' ID is not canonical''))"

definition bounded_name :: "string \<Rightarrow> bool" where
  "bounded_name s = (s \<noteq> [] \<and> s = py_strip s \<and> length s \<le> 256 \<and> \<not> has_control s)"

definition new_metric_candidate ::
  "(nat list \<Rightarrow> string) \<Rightarrow> experiment_role \<Rightarrow> string \<Rightarrow> string \<Rightarrow> string \<Rightarrow> selector \<Rightarrow> string \<Rightarrow> provenance
    \<Rightarrow> metric_candidate checked" where
  "new_metric_candidate sha role path sha256 adapter sel raw prov =
     sbind (aensure (role \<in> {ER_BASELINE, ER_CANDIDATE}) ''metric candidate role must be baseline or candidate'') (\<lambda>_.
     sbind (new_repository_path path) (\<lambda>p.
     sbind (new_sha256 sha256) (\<lambda>h.
     sbind (aensure (adapter_id_ok adapter) ''metric candidate adapter ID is invalid'') (\<lambda>_.
     sbind (aensure (bounded_name raw) ''metric candidate raw name is invalid'') (\<lambda>_.
     sbind (aensure (pv_kind prov = ADAPTER_EXTRACTION)
              ''metric candidates require fixed adapter extraction provenance'') (\<lambda>_.
     (let cid = candidate_id sha role p h adapter sel raw
      in sbind (derived_id ''metric-candidate-'' ''metric candidate'' cid) (\<lambda>_.
           Inr \<lparr>mcd_id = cid, mcd_role = role, mcd_path = p, mcd_sha256 = h, mcd_adapter = adapter,
                mcd_selector = sel, mcd_raw = raw, mcd_provenance = prov\<rparr>))))))))"

subsection \<open>Identities\<close>

datatype identity_kind = EXACT | LEXICAL_ALIAS

fun identity_kind_value :: "identity_kind \<Rightarrow> string" where
  "identity_kind_value EXACT = ''exact''"
| "identity_kind_value LEXICAL_ALIAS = ''lexical_alias''"

record metric_identity =
  mid_id :: string
  mid_candidate :: metric_candidate
  mid_metric :: string
  mid_kind :: identity_kind

definition new_metric_identity ::
  "(nat list \<Rightarrow> string) \<Rightarrow> metric_candidate \<Rightarrow> string \<Rightarrow> identity_kind \<Rightarrow> metric_identity checked" where
  "new_metric_identity sha c metric k =
     (let i = short_digest sha ''metric-identity-''
                (pdict [(''candidate_id'', PStr (mcd_id c)), (''canonical_metric'', PStr metric),
                        (''kind'', PStr (identity_kind_value k))])
      in sbind (derived_id ''metric-identity-'' ''metric identity'' i) (\<lambda>_.
           Inr \<lparr>mid_id = i, mid_candidate = c, mid_metric = metric, mid_kind = k\<rparr>))"

text \<open>\<^verbatim>\<open>str.casefold\<close>. The micro sign folds to a letter outside the characters of the model; it stays
  itself, and no canonical metric contains either.\<close>

definition casefold :: "string \<Rightarrow> string" where
  "casefold s = concat (map (\<lambda>c. if char_code c = 223 then ''ss'' else [char_lower c]) s)"

definition lexical_aliases :: "string \<Rightarrow> string list" where
  "lexical_aliases metric = (if metric = ''accuracy'' then [''acc''] else [])"

definition recognised :: "string \<Rightarrow> string \<Rightarrow> identity_kind option" where
  "recognised raw metric =
     (if casefold raw = metric then Some EXACT
      else if casefold raw \<in> set (lexical_aliases metric) then Some LEXICAL_ALIAS
      else None)"

definition invalid_metric :: string where "invalid_metric = ''canonical metric name is invalid''"

definition identify_metric_candidate ::
  "(nat list \<Rightarrow> string) \<Rightarrow> metric_candidate \<Rightarrow> string \<Rightarrow> metric_identity option checked" where
  "identify_metric_candidate sha c metric =
     sbind (aensure (canonical_metric_ok metric) invalid_metric) (\<lambda>_.
       case recognised (mcd_raw c) metric of
         None \<Rightarrow> Inr None
       | Some k \<Rightarrow> sbind (new_metric_identity sha c metric k) (\<lambda>i. Inr (Some i)))"

subsection \<open>Pairs, questions and bindings\<close>

datatype binding_authority = DETERMINISTIC_EXACT | MB_USER_APPROVED

fun authority_value :: "binding_authority \<Rightarrow> string" where
  "authority_value DETERMINISTIC_EXACT = ''deterministic_exact''"
| "authority_value MB_USER_APPROVED = ''user_approved''"

definition bounded_identifier :: "nat \<Rightarrow> string \<Rightarrow> string \<Rightarrow> unit checked" where
  "bounded_identifier maximum label s =
     aensure (s \<noteq> [] \<and> s = py_strip s \<and> length s \<le> maximum \<and> \<not> has_control s) (label @ '' is invalid'')"

definition validate_pair :: "metric_identity \<Rightarrow> metric_identity \<Rightarrow> string \<Rightarrow> unit checked" where
  "validate_pair b c metric =
     sbind (aensure (mcd_role (mid_candidate b) = ER_BASELINE \<and> mcd_role (mid_candidate c) = ER_CANDIDATE)
              ''metric binding pair requires one baseline and one candidate'') (\<lambda>_.
       aensure (mid_metric b = metric \<and> mid_metric c = metric)
         ''metric binding pair identities must share the canonical metric'')"

record binding_proposal =
  bp_id :: string
  bp_label :: string
  bp_baseline :: metric_identity
  bp_candidate :: metric_identity

definition new_proposal ::
  "(nat list \<Rightarrow> string) \<Rightarrow> metric_identity \<Rightarrow> metric_identity \<Rightarrow> binding_proposal checked" where
  "new_proposal sha b c =
     (let metric = mid_metric b; br = mcd_raw (mid_candidate b); cr = mcd_raw (mid_candidate c)
      in sbind (validate_pair b c metric) (\<lambda>_.
           Inr \<lparr>bp_id = short_digest sha ''metric-pair-''
                  (pdict [(''canonical_metric'', PStr metric), (''baseline_identity_id'', PStr (mid_id b)),
                          (''candidate_identity_id'', PStr (mid_id c))]),
                bp_label = (if br = cr then ''['' @ br @ '']''
                            else ''[baseline: '' @ br @ ''; candidate: '' @ cr @ '']''),
                bp_baseline = b, bp_candidate = c\<rparr>))"

record binding_question =
  bq_id :: string
  bq_prompt :: string
  bq_repository :: repository_identity
  bq_head :: string
  bq_metric :: string
  bq_proposals :: "binding_proposal list"
  bq_claim :: "string option"

definition new_question ::
  "(nat list \<Rightarrow> string) \<Rightarrow> repository_identity \<Rightarrow> string \<Rightarrow> string \<Rightarrow> binding_proposal list \<Rightarrow> string option
    \<Rightarrow> bool \<Rightarrow> binding_question checked" where
  "new_question sha repo head metric ps claim stale =
     sbind (aensure (1 \<le> length ps \<and> length ps \<le> 8)
              ''metric binding question requires one through eight exact pairs'') (\<lambda>_.
     sbind (aensure (distinct (map bp_id ps)) ''metric binding proposals must be unique'') (\<lambda>_.
     sbind (case claim of None \<Rightarrow> Inr () | Some i \<Rightarrow> bounded_identifier 128 ''relevant metric claim ID'' i) (\<lambda>_.
       Inr \<lparr>bq_id = short_digest sha ''metric-question-''
              (pdict [(''repository'', PStr (full_name repo)), (''head_sha'', PStr head),
                      (''canonical_metric'', PStr metric),
                      (''proposal_ids'', PTuple (map (\<lambda>p. PStr (bp_id p)) ps)),
                      (''relevant_claim_id'', opt_str claim), (''stale'', PBool stale)]),
            bq_prompt = (if stale then ''Re-approve'' else ''Approve'')
              @ '' the exact baseline and candidate pair for '' @ metric @ ''.'',
            bq_repository = repo, bq_head = head, bq_metric = metric, bq_proposals = ps, bq_claim = claim\<rparr>)))"

record metric_binding =
  mb_id :: string
  mb_repository :: repository_identity
  mb_head :: string
  mb_metric :: string
  mb_baseline :: metric_identity
  mb_candidate :: metric_identity
  mb_authority :: binding_authority
  mb_approved_by :: "string option"
  mb_provenance :: "provenance option"

text \<open>The approver of an authority: nobody for an exact pair, a bounded identifier for a user.\<close>

definition approver ::
  "binding_authority \<Rightarrow> metric_identity \<Rightarrow> metric_identity \<Rightarrow> string option \<Rightarrow> provenance option checked" where
  "approver authority b c approved_by =
     (case authority of
        DETERMINISTIC_EXACT \<Rightarrow>
          sbind (aensure (approved_by = None \<and> mid_kind b = EXACT \<and> mid_kind c = EXACT)
                   ''deterministic metric binding requires an exact/exact pair'') (\<lambda>_. Inr None)
      | MB_USER_APPROVED \<Rightarrow>
          (case approved_by of
             None \<Rightarrow> afail ''metric binding approver is invalid''
           | Some who \<Rightarrow>
               sbind (bounded_identifier 256 ''metric binding approver'' who) (\<lambda>_.
               sbind (new_provenance
                        \<lparr>pv_kind = USER_APPROVED,
                         pv_detail = ''exact metric candidate pair explicitly approved by '' @ who,
                         pv_source_path = None, pv_source_id = Some who\<rparr>) (\<lambda>p. Inr (Some p)))))"

definition new_binding ::
  "(nat list \<Rightarrow> string) \<Rightarrow> repository_identity \<Rightarrow> string \<Rightarrow> string \<Rightarrow> metric_identity \<Rightarrow> metric_identity
    \<Rightarrow> binding_authority \<Rightarrow> string option \<Rightarrow> metric_binding checked" where
  "new_binding sha repo head metric b c authority approved_by =
     sbind (validate_pair b c metric) (\<lambda>_.
     sbind (approver authority b c approved_by) (\<lambda>prov.
       Inr \<lparr>mb_id = short_digest sha ''metric-binding-''
              (pdict [(''repository'', PStr (full_name repo)), (''head_sha'', PStr head),
                      (''canonical_metric'', PStr metric), (''baseline_identity_id'', PStr (mid_id b)),
                      (''candidate_identity_id'', PStr (mid_id c)),
                      (''authority'', PStr (authority_value authority)), (''approved_by'', opt_str approved_by)]),
            mb_repository = repo, mb_head = head, mb_metric = metric, mb_baseline = b, mb_candidate = c,
            mb_authority = authority, mb_approved_by = approved_by, mb_provenance = prov\<rparr>))"

subsection \<open>Resolution\<close>

datatype binding_state = BOUND | APPROVAL_REQUIRED | UNRESOLVED

record metric_resolution =
  mr_state :: binding_state
  mr_binding :: "metric_binding option"
  mr_question :: "binding_question option"
  mr_reason :: "string option"

definition new_resolution :: "metric_resolution \<Rightarrow> metric_resolution checked" where
  "new_resolution r =
     sbind (case mr_state r of
              BOUND \<Rightarrow> aensure (mr_binding r \<noteq> None \<and> mr_question r = None \<and> mr_reason r = None)
                         ''bound metric resolution requires only a binding''
            | APPROVAL_REQUIRED \<Rightarrow> aensure (mr_binding r = None \<and> mr_question r \<noteq> None \<and> mr_reason r = None)
                         ''approval-required metric resolution requires only a question''
            | UNRESOLVED \<Rightarrow> aensure (mr_binding r = None \<and> mr_question r = None \<and> mr_reason r \<noteq> None)
                         ''unresolved metric resolution requires only a reason'') (\<lambda>_. Inr r)"

definition bound_to :: "metric_binding \<Rightarrow> metric_resolution checked" where
  "bound_to b = new_resolution \<lparr>mr_state = BOUND, mr_binding = Some b, mr_question = None, mr_reason = None\<rparr>"

definition unresolved :: "string \<Rightarrow> metric_resolution checked" where
  "unresolved reason =
     new_resolution \<lparr>mr_state = UNRESOLVED, mr_binding = None, mr_question = None, mr_reason = Some reason\<rparr>"

definition approval_required :: "binding_question \<Rightarrow> metric_resolution checked" where
  "approval_required q =
     new_resolution \<lparr>mr_state = APPROVAL_REQUIRED, mr_binding = None, mr_question = Some q, mr_reason = None\<rparr>"

definition binding_is_current ::
  "metric_binding \<Rightarrow> repository_identity \<Rightarrow> string \<Rightarrow> string \<Rightarrow> binding_proposal list \<Rightarrow> bool" where
  "binding_is_current b repo head metric ps =
     (mb_repository b = repo \<and> mb_head b = head \<and> mb_metric b = metric
      \<and> list_ex (\<lambda>p. bp_baseline p = mb_baseline b \<and> bp_candidate p = mb_candidate b) ps)"

definition some_items :: "'a option list \<Rightarrow> 'a list" where
  "some_items xs = map the (filter (\<lambda>x. x \<noteq> None) xs)"

definition of_role :: "experiment_role \<Rightarrow> metric_identity list \<Rightarrow> metric_identity list" where
  "of_role role is = filter (\<lambda>i. mcd_role (mid_candidate i) = role) is"

definition identity_pairs :: "metric_identity list \<Rightarrow> (metric_identity \<times> metric_identity) list" where
  "identity_pairs is = concat (map (\<lambda>b. map (\<lambda>c. (b, c)) (of_role ER_CANDIDATE is)) (of_role ER_BASELINE is))"

definition all_proposals ::
  "(nat list \<Rightarrow> string) \<Rightarrow> metric_identity list \<Rightarrow> binding_proposal list checked" where
  "all_proposals sha is =
     sbind (smap (\<lambda>(b, c). new_proposal sha b c) (identity_pairs is)) (\<lambda>ps. Inr (sort_key bp_id ps))"

text \<open>What the recognised identities decide.\<close>

definition decide ::
  "(nat list \<Rightarrow> string) \<Rightarrow> repository_identity \<Rightarrow> string \<Rightarrow> string \<Rightarrow> string option \<Rightarrow> metric_binding option
    \<Rightarrow> binding_proposal list \<Rightarrow> metric_resolution checked" where
  "decide sha repo head metric claim approved ps =
     (if 8 < length ps then unresolved ''metric_candidate_pair_ambiguity_exceeds_bound''
      else if (case approved of None \<Rightarrow> False | Some a \<Rightarrow> binding_is_current a repo head metric ps)
      then bound_to (the approved)
      else if approved = None \<and> length ps = 1 \<and> mid_kind (bp_baseline (hd ps)) = EXACT
              \<and> mid_kind (bp_candidate (hd ps)) = EXACT
      then sbind (new_binding sha repo head metric (bp_baseline (hd ps)) (bp_candidate (hd ps))
                    DETERMINISTIC_EXACT None) bound_to
      else sbind (new_question sha repo head metric ps claim (approved \<noteq> None)) approval_required)"

definition resolve_metric_binding ::
  "(nat list \<Rightarrow> string) \<Rightarrow> metric_candidate list \<Rightarrow> repository_identity \<Rightarrow> string \<Rightarrow> string \<Rightarrow> string option
    \<Rightarrow> metric_binding option \<Rightarrow> metric_resolution checked" where
  "resolve_metric_binding sha cs repo head metric claim approved =
     sbind (aensure (distinct (map mcd_id cs)) ''metric candidate identifiers must be unique'') (\<lambda>_.
     sbind (new_commit_sha head) (\<lambda>head'.
     sbind (aensure (canonical_metric_ok metric) invalid_metric) (\<lambda>_.
     sbind (smap (\<lambda>c. identify_metric_candidate sha c metric) cs) (\<lambda>found.
     (let is = some_items found
      in if of_role ER_BASELINE is = [] \<or> of_role ER_CANDIDATE is = []
         then unresolved (if approved \<noteq> None then ''approved_metric_binding_stale_reapproval_required''
                          else ''matching_baseline_and_candidate_metric_candidates_not_recovered'')
         else sbind (all_proposals sha is) (\<lambda>ps. decide sha repo head' metric claim approved ps))))))"

definition approve_metric_binding ::
  "(nat list \<Rightarrow> string) \<Rightarrow> binding_question \<Rightarrow> string \<Rightarrow> string \<Rightarrow> metric_binding checked" where
  "approve_metric_binding sha q proposal_id approved_by =
     (case filter (\<lambda>p. bp_id p = proposal_id) (bq_proposals q) of
        [p] \<Rightarrow> new_binding sha (bq_repository q) (bq_head q) (bq_metric q) (bp_baseline p) (bp_candidate p)
                 MB_USER_APPROVED (Some approved_by)
      | _ \<Rightarrow> afail ''metric binding approval must select one issued exact pair'')"

subsection \<open>Commitments\<close>

definition metric_candidate_material :: "metric_candidate \<Rightarrow> pyval" where
  "metric_candidate_material c =
     pdict [(''candidate_id'', PStr (mcd_id c)), (''experiment_role'', PStr (experiment_role_value (mcd_role c))),
            (''artifact_path'', PStr (mcd_path c)), (''artifact_sha256'', PStr (mcd_sha256 c)),
            (''adapter_id'', PStr (mcd_adapter c)), (''selector'', PTuple (selector_identity (mcd_selector c))),
            (''raw_metric_name'', PStr (mcd_raw c))]"

definition metric_binding_material :: "metric_binding \<Rightarrow> (string \<times> pyval) list" where
  "metric_binding_material b =
     [(''binding_id'', PStr (mb_id b)), (''repository'', PStr (full_name (mb_repository b))),
      (''head_sha'', PStr (mb_head b)), (''canonical_metric'', PStr (mb_metric b)),
      (''authority'', PStr (authority_value (mb_authority b))), (''approved_by'', opt_str (mb_approved_by b)),
      (''baseline'', metric_candidate_material (mid_candidate (mb_baseline b))),
      (''candidate'', metric_candidate_material (mid_candidate (mb_candidate b)))]"

definition endpoint :: "metric_binding \<Rightarrow> experiment_role \<Rightarrow> metric_candidate checked" where
  "endpoint b role =
     (case role of
        ER_BASELINE \<Rightarrow> Inr (mid_candidate (mb_baseline b))
      | ER_CANDIDATE \<Rightarrow> Inr (mid_candidate (mb_candidate b))
      | _ \<Rightarrow> afail ''bound metric evidence role must be baseline or candidate'')"

subsection \<open>Facts\<close>

lemma new_identity_Inr:
  "new_metric_identity sha c metric k = Inr i \<Longrightarrow> mid_candidate i = c \<and> mid_metric i = metric \<and> mid_kind i = k"
  by (auto simp: new_metric_identity_def Let_def sbind_eq_Inr)

lemma identify_Some:
  "identify_metric_candidate sha c metric = Inr (Some i) \<Longrightarrow>
     mid_candidate i = c \<and> mid_metric i = metric \<and> recognised (mcd_raw c) metric = Some (mid_kind i)"
  by (auto simp: identify_metric_candidate_def sbind_eq_Inr dest: new_identity_Inr split: option.splits)

lemma identify_None:
  "identify_metric_candidate sha c metric = Inr None \<Longrightarrow> recognised (mcd_raw c) metric = None"
  by (auto simp: identify_metric_candidate_def sbind_eq_Inr split: option.splits)

lemma recognised_exact: "recognised raw metric = Some EXACT \<longleftrightarrow> casefold raw = metric"
  by (simp add: recognised_def)

lemma set_some_items: "set (some_items xs) = {x. Some x \<in> set xs}"
  by (force simp: some_items_def)

text \<open>The identities that a list of candidates gives.\<close>

lemma found_identities:
  assumes "smap (\<lambda>c. identify_metric_candidate sha c metric) cs = Inr found"
  shows "i \<in> set (some_items found) \<Longrightarrow>
      mid_candidate i \<in> set cs \<and> mid_metric i = metric \<and> recognised (mcd_raw (mid_candidate i)) metric = Some (mid_kind i)"
    "c \<in> set cs \<Longrightarrow> recognised (mcd_raw c) metric \<noteq> None \<Longrightarrow> \<exists>i \<in> set (some_items found). mid_candidate i = c"
proof -
  have l: "list_all2 (\<lambda>c i. identify_metric_candidate sha c metric = Inr i) cs found"
    using assms by (simp add: smap_Inr_conv)
  show "mid_candidate i \<in> set cs \<and> mid_metric i = metric \<and> recognised (mcd_raw (mid_candidate i)) metric = Some (mid_kind i)"
    if "i \<in> set (some_items found)"
  proof -
    have "Some i \<in> set found" using that by (simp add: set_some_items)
    from list_all2_mem2 [OF l this] obtain c where "c \<in> set cs" "identify_metric_candidate sha c metric = Inr (Some i)"
      by blast
    then show ?thesis using identify_Some by blast
  qed
  show "\<exists>i \<in> set (some_items found). mid_candidate i = c" if mem: "c \<in> set cs" and known: "recognised (mcd_raw c) metric \<noteq> None"
  proof -
    from list_all2_mem1 [OF l mem] obtain x where x: "x \<in> set found" "identify_metric_candidate sha c metric = Inr x"
      by blast
    have "x \<noteq> None"
    proof
      assume "x = None"
      then show False using identify_None [of sha c metric] known x(2) by simp
    qed
    then obtain i where "x = Some i" by blast
    then show ?thesis using x identify_Some by (force simp: set_some_items)
  qed
qed

lemma new_proposal_Inr:
  "new_proposal sha b c = Inr p \<Longrightarrow> bp_baseline p = b \<and> bp_candidate p = c"
  by (auto simp: new_proposal_def Let_def sbind_eq_Inr)

text \<open>The proposals are the pairs of an identity of either role, each once.\<close>

lemma all_proposals_Inr:
  assumes "all_proposals sha is = Inr ps"
  shows "length ps = length (of_role ER_BASELINE is) * length (of_role ER_CANDIDATE is)"
    "p \<in> set ps \<Longrightarrow> bp_baseline p \<in> set (of_role ER_BASELINE is) \<and> bp_candidate p \<in> set (of_role ER_CANDIDATE is)"
proof -
  obtain qs where q: "smap (\<lambda>(b, c). new_proposal sha b c) (identity_pairs is) = Inr qs" "ps = sort_key bp_id qs"
    using assms by (auto simp: all_proposals_def sbind_eq_Inr)
  have l: "list_all2 (\<lambda>(b, c) p. new_proposal sha b c = Inr p) (identity_pairs is) qs"
    using q(1) by (auto simp: smap_Inr_conv split_def)
  have "length (identity_pairs is) = length (of_role ER_BASELINE is) * length (of_role ER_CANDIDATE is)"
    by (simp add: identity_pairs_def length_concat o_def sum_list_triv)
  then show "length ps = length (of_role ER_BASELINE is) * length (of_role ER_CANDIDATE is)"
    using l q(2) by (simp add: list_all2_lengthD [symmetric])
  show "bp_baseline p \<in> set (of_role ER_BASELINE is) \<and> bp_candidate p \<in> set (of_role ER_CANDIDATE is)" if "p \<in> set ps"
  proof -
    have "p \<in> set qs" using that q(2) by simp
    from list_all2_mem2 [OF l this] obtain x where "x \<in> set (identity_pairs is)" "case x of (b, c) \<Rightarrow> new_proposal sha b c = Inr p"
      by blast
    then show ?thesis using new_proposal_Inr by (auto simp: identity_pairs_def)
  qed
qed

lemma new_binding_Inr:
  "new_binding sha repo head metric b c authority who = Inr m \<Longrightarrow>
     mb_repository m = repo \<and> mb_head m = head \<and> mb_metric m = metric \<and> mb_baseline m = b \<and> mb_candidate m = c
     \<and> mb_authority m = authority"
  by (auto simp: new_binding_def sbind_eq_Inr)

lemma new_question_Inr:
  "new_question sha repo head metric ps claim stale = Inr q \<Longrightarrow>
     bq_repository q = repo \<and> bq_head q = head \<and> bq_metric q = metric \<and> bq_proposals q = ps \<and> length ps \<le> 8"
  by (auto simp: new_question_def sbind_eq_Inr aensure_Inr)

lemma resolution_Inr:
  "bound_to b = Inr r \<longleftrightarrow> r = \<lparr>mr_state = BOUND, mr_binding = Some b, mr_question = None, mr_reason = None\<rparr>"
  "unresolved t = Inr r \<longleftrightarrow> r = \<lparr>mr_state = UNRESOLVED, mr_binding = None, mr_question = None, mr_reason = Some t\<rparr>"
  "approval_required q = Inr r \<longleftrightarrow>
     r = \<lparr>mr_state = APPROVAL_REQUIRED, mr_binding = None, mr_question = Some q, mr_reason = None\<rparr>"
  by (auto simp: bound_to_def unresolved_def approval_required_def new_resolution_def sbind_eq_Inr aensure_Inr)

text \<open>How a resolution comes to decide: the identities it recognised and the pairs they form.\<close>

lemma resolve_decides:
  assumes "resolve_metric_binding sha cs repo head metric claim approved = Inr r" "mr_state r \<noteq> UNRESOLVED"
  obtains found ps where "distinct (map mcd_id cs)" "canonical_metric_ok metric" "new_commit_sha head = Inr head"
    "smap (\<lambda>c. identify_metric_candidate sha c metric) cs = Inr found"
    "of_role ER_BASELINE (some_items found) \<noteq> []" "of_role ER_CANDIDATE (some_items found) \<noteq> []"
    "all_proposals sha (some_items found) = Inr ps" "decide sha repo head metric claim approved ps = Inr r"
proof -
  obtain found where f: "smap (\<lambda>c. identify_metric_candidate sha c metric) cs = Inr found"
    and pre: "distinct (map mcd_id cs)" "canonical_metric_ok metric" "new_commit_sha head = Inr head"
    and rest: "(if of_role ER_BASELINE (some_items found) = [] \<or> of_role ER_CANDIDATE (some_items found) = []
         then unresolved (if approved \<noteq> None then ''approved_metric_binding_stale_reapproval_required''
                          else ''matching_baseline_and_candidate_metric_candidates_not_recovered'')
         else sbind (all_proposals sha (some_items found)) (\<lambda>ps. decide sha repo head metric claim approved ps)) = Inr r"
    using assms(1) by (auto simp: resolve_metric_binding_def Let_def sbind_eq_Inr aensure_Inr new_commit_sha_def)
  have "of_role ER_BASELINE (some_items found) \<noteq> []" "of_role ER_CANDIDATE (some_items found) \<noteq> []"
    using rest assms(2) by (auto simp: resolution_Inr split: if_splits)
  moreover from this rest obtain ps where "all_proposals sha (some_items found) = Inr ps"
    "decide sha repo head metric claim approved ps = Inr r" by (auto simp: sbind_eq_Inr)
  ultimately show ?thesis using that f pre by blast
qed

subsection \<open>Properties\<close>


text \<open>C26: an approval takes effect: a question that was asked about the candidates, once one of its pairs
  is approved, resolves on the same candidates to that approved pair.\<close>

theorem approve_then_bound:
  assumes "resolve_metric_binding sha cs repo head metric claim approved = Inr r" and "mr_question r = Some q"
    and "approve_metric_binding sha q pid who = Inr b"
  shows "resolve_metric_binding sha cs repo head metric claim' (Some b)
    = Inr \<lparr>mr_state = BOUND, mr_binding = Some b, mr_question = None, mr_reason = None\<rparr>"
proof -
  have "mr_state r \<noteq> UNRESOLVED"
    using assms(1,2) by (auto simp: resolve_metric_binding_def decide_def Let_def sbind_eq_Inr resolution_Inr split: if_splits)
  then obtain found ps where pre: "distinct (map mcd_id cs)" "canonical_metric_ok metric" "new_commit_sha head = Inr head"
    and f: "smap (\<lambda>c. identify_metric_candidate sha c metric) cs = Inr found"
    and ne: "of_role ER_BASELINE (some_items found) \<noteq> []" "of_role ER_CANDIDATE (some_items found) \<noteq> []"
    and p: "all_proposals sha (some_items found) = Inr ps"
    and d: "decide sha repo head metric claim approved ps = Inr r"
    using assms(1) by (elim resolve_decides)
  obtain stale where "new_question sha repo head metric ps claim stale = Inr q"
    using d assms(2) by (auto simp: decide_def resolution_Inr sbind_eq_Inr split: if_splits)
  note q = new_question_Inr [OF this]
  obtain x where x: "x \<in> set ps"
    and n: "new_binding sha repo head metric (bp_baseline x) (bp_candidate x) MB_USER_APPROVED (Some who) = Inr b"
  proof -
    have "\<exists>x. filter (\<lambda>p. bp_id p = pid) ps = [x] \<and>
        new_binding sha repo head metric (bp_baseline x) (bp_candidate x) MB_USER_APPROVED (Some who) = Inr b"
      using assms(3) q by (auto simp: approve_metric_binding_def afail_def split: list.splits)
    then obtain x where "filter (\<lambda>p. bp_id p = pid) ps = [x]"
      "new_binding sha repo head metric (bp_baseline x) (bp_candidate x) MB_USER_APPROVED (Some who) = Inr b" by blast
    moreover from this(1) have "x \<in> set (filter (\<lambda>p. bp_id p = pid) ps)" by simp
    then have "x \<in> set ps" by (simp only: set_filter mem_Collect_eq)
    ultimately show ?thesis using that by blast
  qed
  have "binding_is_current b repo head metric ps"
    using new_binding_Inr [OF n] x by (auto simp: binding_is_current_def list_ex_iff)
  then have "decide sha repo head metric claim' (Some b) ps = bound_to b" using q by (simp add: decide_def)
  then show ?thesis
    using pre f ne p by (simp add: resolve_metric_binding_def Let_def resolution_Inr aensure_def)
qed

text \<open>Two small candidates, with a digest that is always the same.\<close>

definition tiny_sha :: "nat list \<Rightarrow> string" where
  "tiny_sha bs = replicate 64 (CHR ''0'')"

lemma tiny_digest: "short_digest tiny_sha prefix v = prefix @ replicate 24 (CHR ''0'')"
  by (simp add: short_digest_def tiny_sha_def)

definition tiny_candidate :: "string \<Rightarrow> experiment_role \<Rightarrow> string \<Rightarrow> metric_candidate" where
  "tiny_candidate i role raw =
     \<lparr>mcd_id = i, mcd_role = role, mcd_path = ''r.json'', mcd_sha256 = replicate 64 (CHR ''1''), mcd_adapter = ''json'',
      mcd_selector = FieldSelector \<lparr>es_kind = COLUMN, es_expression = ''v'',
        es_provenance = \<lparr>pv_kind = ADAPTER_EXTRACTION, pv_detail = ''d'', pv_source_path = None, pv_source_id = None\<rparr>\<rparr>,
      mcd_raw = raw,
      mcd_provenance = \<lparr>pv_kind = ADAPTER_EXTRACTION, pv_detail = ''d'', pv_source_path = None, pv_source_id = None\<rparr>\<rparr>"

definition tiny_pair :: "string \<Rightarrow> metric_candidate list" where
  "tiny_pair raw = [tiny_candidate ''b'' ER_BASELINE raw, tiny_candidate ''c'' ER_CANDIDATE ''Accuracy'']"

definition tiny_resolve :: "string \<Rightarrow> metric_binding option \<Rightarrow> metric_resolution checked" where
  "tiny_resolve raw approved =
     resolve_metric_binding tiny_sha (tiny_pair raw) \<lparr>ri_owner = ''o'', ri_name = ''r''\<rparr> (replicate 40 (CHR ''a''))
       ''accuracy'' None approved"

lemma tiny_facts:
  "canonical_metric_ok ''accuracy''" "recognised ''accuracy'' ''accuracy'' = Some EXACT"
  "recognised ''acc'' ''accuracy'' = Some LEXICAL_ALIAS" "recognised ''Accuracy'' ''accuracy'' = Some EXACT"
  "new_commit_sha (replicate 40 (CHR ''a'')) = Inr (replicate 40 (CHR ''a''))"
  "bounded_identifier 256 ''metric binding approver'' ''me'' = Inr ()"
  by code_simp+

lemma tiny_id: "derived_id_ok ''metric-identity-'' (''metric-identity-'' @ replicate 24 (CHR ''0''))"
  by code_simp

definition tiny_identity :: "metric_candidate \<Rightarrow> identity_kind \<Rightarrow> metric_identity" where
  "tiny_identity c k =
     \<lparr>mid_id = ''metric-identity-'' @ replicate 24 (CHR ''0''), mid_candidate = c, mid_metric = ''accuracy'', mid_kind = k\<rparr>"

lemma tiny_new_identity: "new_metric_identity tiny_sha c ''accuracy'' k = Inr (tiny_identity c k)"
  unfolding new_metric_identity_def tiny_digest Let_def derived_id_def
  using tiny_id by (simp only: ensure_True sbind_Inr tiny_identity_def)

lemma tiny_identify:
  "recognised (mcd_raw c) ''accuracy'' = Some k \<Longrightarrow>
     identify_metric_candidate tiny_sha c ''accuracy'' = Inr (Some (tiny_identity c k))"
  by (simp add: identify_metric_candidate_def tiny_facts(1) tiny_new_identity aensure_def)

lemma tiny_resolves:
  assumes "recognised raw ''accuracy'' = Some k"
  shows "\<exists>p. bp_id p = ''metric-pair-'' @ replicate 24 (CHR ''0'')
    \<and> mid_kind (bp_baseline p) = k \<and> mid_kind (bp_candidate p) = EXACT
    \<and> tiny_resolve raw approved = decide tiny_sha \<lparr>ri_owner = ''o'', ri_name = ''r''\<rparr> (replicate 40 (CHR ''a''))
         ''accuracy'' None approved [p]
    \<and> validate_pair (bp_baseline p) (bp_candidate p) ''accuracy'' = Inr ()"
proof -
  let ?b = "tiny_identity (tiny_candidate ''b'' ER_BASELINE raw) k"
  let ?c = "tiny_identity (tiny_candidate ''c'' ER_CANDIDATE ''Accuracy'') EXACT"
  have v: "validate_pair ?b ?c ''accuracy'' = Inr ()"
    by (simp add: validate_pair_def tiny_identity_def tiny_candidate_def aensure_def)
  obtain p where p: "new_proposal tiny_sha ?b ?c = Inr p" "bp_id p = ''metric-pair-'' @ replicate 24 (CHR ''0'')"
    using v by (auto simp: new_proposal_def Let_def tiny_digest tiny_identity_def)
  note q = new_proposal_Inr [OF p(1)]
  have "identify_metric_candidate tiny_sha (tiny_candidate ''b'' ER_BASELINE raw) ''accuracy'' = Inr (Some ?b)"
    "identify_metric_candidate tiny_sha (tiny_candidate ''c'' ER_CANDIDATE ''Accuracy'') ''accuracy'' = Inr (Some ?c)"
    using assms tiny_facts(4) by (intro tiny_identify; simp add: tiny_candidate_def)+
  moreover have "of_role ER_BASELINE [?b, ?c] = [?b]" "of_role ER_CANDIDATE [?b, ?c] = [?c]"
    by (simp_all add: of_role_def tiny_identity_def tiny_candidate_def)
  moreover have "mcd_id (tiny_candidate i r w) = i" for i r w by (simp add: tiny_candidate_def)
  ultimately have "tiny_resolve raw approved = decide tiny_sha \<lparr>ri_owner = ''o'', ri_name = ''r''\<rparr>
      (replicate 40 (CHR ''a'')) ''accuracy'' None approved [p]"
    using p(1) by (simp add: tiny_resolve_def resolve_metric_binding_def tiny_pair_def tiny_facts aensure_def
        some_items_def all_proposals_def identity_pairs_def)
  moreover have "mid_kind (bp_baseline p) = k" "mid_kind (bp_candidate p) = EXACT" using q by (simp_all add: tiny_identity_def)
  ultimately show ?thesis using p(2) v q by auto
qed

lemma tiny_bound: "\<exists>r b. tiny_resolve ''accuracy'' None = Inr r \<and> mr_binding r = Some b"
proof -
  obtain p where p: "mid_kind (bp_baseline p) = EXACT" "mid_kind (bp_candidate p) = EXACT"
    "tiny_resolve ''accuracy'' None = decide tiny_sha \<lparr>ri_owner = ''o'', ri_name = ''r''\<rparr> (replicate 40 (CHR ''a''))
         ''accuracy'' None None [p]" "validate_pair (bp_baseline p) (bp_candidate p) ''accuracy'' = Inr ()"
    using tiny_resolves [OF tiny_facts(2)] by blast
  then show ?thesis
    by (auto simp: decide_def new_binding_def approver_def aensure_def bound_to_def new_resolution_def)
qed


lemma tiny_text:
  "contract_text 4096 ''provenance detail'' ''exact metric candidate pair explicitly approved by me'' = Inr ()"
  "contract_id 256 ''provenance source_id'' ''me'' = Inr ()"
proof -
  have "\<not> is_blank ''exact metric candidate pair explicitly approved by me''" by code_simp
  then show "contract_text 4096 ''provenance detail'' ''exact metric candidate pair explicitly approved by me'' = Inr ()"
    by (simp add: contract_text_def aensure_def)
  show "contract_id 256 ''provenance source_id'' ''me'' = Inr ()" by code_simp
qed

theorem approve_then_bound_witness:
  "\<exists>b. tiny_resolve ''acc'' (Some b) = Inr \<lparr>mr_state = BOUND, mr_binding = Some b, mr_question = None, mr_reason = None\<rparr>"
proof -
  obtain p where p: "mid_kind (bp_baseline p) = LEXICAL_ALIAS" "bp_id p = ''metric-pair-'' @ replicate 24 (CHR ''0'')"
    "tiny_resolve ''acc'' None = decide tiny_sha \<lparr>ri_owner = ''o'', ri_name = ''r''\<rparr> (replicate 40 (CHR ''a''))
         ''accuracy'' None None [p]" "validate_pair (bp_baseline p) (bp_candidate p) ''accuracy'' = Inr ()"
    using tiny_resolves [OF tiny_facts(3)] by blast
  then obtain r q where r: "tiny_resolve ''acc'' None = Inr r" "mr_question r = Some q" and q: "bq_proposals q = [p]"
    "bq_metric q = ''accuracy''"
    by (auto simp: decide_def new_question_def aensure_def approval_required_def new_resolution_def)
  have "\<not> isl (approver MB_USER_APPROVED (bp_baseline p) (bp_candidate p) (Some ''me''))"
  proof -
    have "new_provenance
        \<lparr>pv_kind = USER_APPROVED, pv_detail = ''exact metric candidate pair explicitly approved by '' @ ''me'',
         pv_source_path = None, pv_source_id = Some ''me''\<rparr>
      = Inr \<lparr>pv_kind = USER_APPROVED, pv_detail = ''exact metric candidate pair explicitly approved by '' @ ''me'',
         pv_source_path = None, pv_source_id = Some ''me''\<rparr>"
      using tiny_text by (simp add: new_provenance_def)
    then show ?thesis by (simp only: approver_def tiny_facts(6) sbind_Inr binding_authority.case option.case sum.disc not_False_eq_True)
  qed
  then obtain prov where prov: "approver MB_USER_APPROVED (bp_baseline p) (bp_candidate p) (Some ''me'') = Inr prov"
    by (cases "approver MB_USER_APPROVED (bp_baseline p) (bp_candidate p) (Some ''me'')") simp_all
  have "approve_metric_binding tiny_sha q (bp_id p) ''me''
      = new_binding tiny_sha (bq_repository q) (bq_head q) (bq_metric q) (bp_baseline p) (bp_candidate p)
          MB_USER_APPROVED (Some ''me'')"
    by (simp add: approve_metric_binding_def q(1))
  then obtain b where "approve_metric_binding tiny_sha q (bp_id p) ''me'' = Inr b"
    using prov p(4) by (simp add: new_binding_def q(2))
  from approve_then_bound [OF r(1) [unfolded tiny_resolve_def] r(2) this] show ?thesis
    unfolding tiny_resolve_def by blast
qed

end
