(* ===== verification/ResearchAudit.thy ===== *)
theory ResearchAudit
  imports StreamingDataset MetricIdentity
begin

section \<open>The audit\<close>

text \<open>
  \<^verbatim>\<open>claimci/audit.py\<close> and the result records of \<^verbatim>\<open>claimci/models.py\<close>: the research manifest with its
  confined artifact paths, and \<open>audit_research\<close>, which runs every check, turns artifacts that cannot
  be used into findings, decides the verdict and compares the measurement protocols. \<open>audit_profiled\<close>
  is with the benchmark audit, its second branch.
\<close>

subsection \<open>Specifications and results\<close>

record experiment_paths =
  ep_config :: string
  ep_results :: string
  ep_train :: string
  ep_eval :: string

record research_spec =
  rs_manifest :: string
  rs_metric :: string
  rs_minimum :: flt
  rs_baseline :: experiment_paths
  rs_candidate :: experiment_paths
  rs_direction :: direction

record audit_result =
  ar_verdict :: verdict
  ar_findings :: "finding list"
  ar_manifest :: string
  ar_metric :: string
  ar_minimum :: flt
  ar_baseline :: "metric_summary option"
  ar_candidate :: "metric_summary option"
  ar_absolute :: "flt option"
  ar_relative :: "flt option"
  ar_overlaps :: "overlap_summary list"
  ar_direction :: direction
  ar_drift :: "drift_report option"

text \<open>The environment of an audit: that of the loaders, and whether a path exists.\<close>

record audit_env = io_env +
  path_exists :: "string \<Rightarrow> bool"

subsection \<open>The research manifest\<close>

definition path_error :: "string \<Rightarrow> string \<Rightarrow> string \<Rightarrow> 'a checked" where
  "path_error label field message = Inl (ClaimCIError (label @ ''.'' @ field @ message))"

text \<open>Below an artifact root, a path must be relative and without parent references, on either system.\<close>

definition portable_path :: "string \<Rightarrow> string \<Rightarrow> string option \<Rightarrow> string \<Rightarrow> unit checked" where
  "portable_path label field anc raw =
     (if anc = None then Inr ()
      else if ''..'' \<in> set (split_on (CHR ''/'') (portable raw))
      then path_error label field '' contains parent traversal outside artifact root''
      else if is_absolute raw \<or> windows_absolute raw
      then path_error label field '' must be relative to the artifact root''
      else Inr ())"

definition confined_path :: "string \<Rightarrow> string \<Rightarrow> string option \<Rightarrow> string \<Rightarrow> string checked" where
  "confined_path label field anc resolved =
     (case anc of
        None \<Rightarrow> Inr resolved
      | Some r \<Rightarrow>
          (if relative_to resolved r = None
           then path_error label field ('' resolves outside artifact root '' @ r) else Inr resolved))"

definition artifact_path ::
  "'e io_env_scheme \<Rightarrow> string \<Rightarrow> config \<Rightarrow> string \<Rightarrow> string option \<Rightarrow> string \<Rightarrow> string checked" where
  "artifact_path env label d dir anc field =
     (case dget_none d field of
        PStr raw \<Rightarrow>
          (if is_blank raw then path_error label field '' must be a non-empty path string''
           else sbind (portable_path label field anc raw) (\<lambda>_.
             case resolve_path env (path_join dir raw) of
               Inl e \<Rightarrow> path_error label field ('' is not a valid path: '' @ e)
             | Inr resolved \<Rightarrow> confined_path label field anc resolved))
      | _ \<Rightarrow> path_error label field '' must be a non-empty path string'')"

definition experiment_paths_of ::
  "'e io_env_scheme \<Rightarrow> string \<Rightarrow> pyval \<Rightarrow> string \<Rightarrow> string option \<Rightarrow> experiment_paths checked" where
  "experiment_paths_of env label v dir anc =
     (case v of
        PDict d \<Rightarrow>
          sbind (artifact_path env label d dir anc ''config'') (\<lambda>c.
          sbind (artifact_path env label d dir anc ''results'') (\<lambda>r.
          sbind (artifact_path env label d dir anc ''train_dataset'') (\<lambda>t.
          sbind (artifact_path env label d dir anc ''eval_dataset'') (\<lambda>e.
            Inr \<lparr>ep_config = c, ep_results = r, ep_train = t, ep_eval = e\<rparr>))))
      | _ \<Rightarrow> Inl (ClaimCIError (label @ '' must be a mapping'')))"

definition claimci :: "string \<Rightarrow> 'a checked" where
  "claimci s = Inl (ClaimCIError s)"

text \<open>The manifest path, and the artifact root it must lie below.\<close>

definition resolved_manifest :: "'e io_env_scheme \<Rightarrow> string \<Rightarrow> string option \<Rightarrow> (string \<times> string option) checked" where
  "resolved_manifest env path anc =
     (case resolve_path env path of
        Inl e \<Rightarrow> claimci (''invalid research manifest path: '' @ e)
      | Inr manifest \<Rightarrow>
          (case anc of
             None \<Rightarrow> Inr (manifest, None)
           | Some r \<Rightarrow>
               (case resolve_path env r of
                  Inl e \<Rightarrow> claimci (''research manifest resolves outside artifact root '' @ r)
                | Inr r' \<Rightarrow>
                    (if relative_to manifest r' = None
                     then claimci (''research manifest resolves outside artifact root '' @ r)
                     else Inr (manifest, Some r')))))"

definition read_manifest :: "'e io_env_scheme \<Rightarrow> string \<Rightarrow> pyval checked" where
  "read_manifest env manifest =
     (let unreadable = (\<lambda>e. claimci (''could not read research manifest '' @ manifest @ '': '' @ e))
      in case read_text env manifest of
           Inl (FileNotFound e) \<Rightarrow> claimci (''research manifest not found: '' @ manifest)
         | Inl f \<Rightarrow> unreadable (failure_text f)
         | Inr source \<Rightarrow>
             (case load_unique_yaml (yaml_text env) source of
                Inl (YAMLValueError e) \<Rightarrow> unreadable e
              | Inl f \<Rightarrow> claimci (''invalid YAML in research manifest '' @ manifest @ '': '' @ yaml_failure_text f)
              | Inr v \<Rightarrow> Inr v))"

definition claim_direction :: "config \<Rightarrow> direction checked" where
  "claim_direction claim =
     (case coerce_direction (case dget claim ''direction'' of None \<Rightarrow> DirEnum HIGHER | Some v \<Rightarrow> DirRaw v) of
        Inl (ClaimCIError e) \<Rightarrow> claimci (''claim.direction '' @ e)
      | r \<Rightarrow> r)"

definition claim_threshold :: "config \<Rightarrow> flt checked" where
  "claim_threshold claim =
     (case finite_number (dget_none claim ''minimum_improvement'') of
        Some x \<Rightarrow> (if flt_lt x fzero then claimci ''claim.minimum_improvement must be a finite non-negative number'' else Inr x)
      | None \<Rightarrow> claimci ''claim.minimum_improvement must be a finite non-negative number'')"

definition claim_metric :: "config \<Rightarrow> string checked" where
  "claim_metric claim =
     (case dget_none claim ''metric'' of
        PStr s \<Rightarrow> (if is_blank s then claimci ''claim.metric must be a non-empty string'' else Inr s)
      | _ \<Rightarrow> claimci ''claim.metric must be a non-empty string'')"

text \<open>The two declared experiments of the manifest.\<close>

definition declared_experiments ::
  "'e io_env_scheme \<Rightarrow> config \<Rightarrow> string \<Rightarrow> string option \<Rightarrow> (experiment_paths \<times> experiment_paths) checked" where
  "declared_experiments env d manifest anc =
     (case (dget d ''baseline'', dget d ''candidate'') of
        (None, _) \<Rightarrow> claimci ''research manifest is missing baseline''
      | (_, None) \<Rightarrow> claimci ''research manifest is missing candidate''
      | (Some b, Some c) \<Rightarrow>
          sbind (experiment_paths_of env ''baseline'' b (path_parent manifest) anc) (\<lambda>bp.
          sbind (experiment_paths_of env ''candidate'' c (path_parent manifest) anc) (\<lambda>cp. Inr (bp, cp))))"

definition claimed_spec ::
  "'e io_env_scheme \<Rightarrow> string \<Rightarrow> string option \<Rightarrow> config \<Rightarrow> config \<Rightarrow> research_spec checked" where
  "claimed_spec env manifest anc d claim =
     sbind (claim_metric claim) (\<lambda>metric.
     sbind (claim_threshold claim) (\<lambda>threshold.
     sbind (claim_direction claim) (\<lambda>direction.
     sbind (declared_experiments env d manifest anc) (\<lambda>(bp, cp).
       Inr \<lparr>rs_manifest = manifest, rs_metric = py_strip metric, rs_minimum = threshold,
            rs_baseline = bp, rs_candidate = cp, rs_direction = direction\<rparr>))))"

definition load_research_spec :: "'e io_env_scheme \<Rightarrow> string \<Rightarrow> string option \<Rightarrow> research_spec checked" where
  "load_research_spec env path anc =
     sbind (resolved_manifest env path anc) (\<lambda>(manifest, anc').
     sbind (read_manifest env manifest) (\<lambda>payload.
       case payload of
         PDict d \<Rightarrow>
           (case dget_none d ''claim'' of
              PDict claim \<Rightarrow> claimed_spec env manifest anc' d claim
            | _ \<Rightarrow> claimci ''claim must be a mapping'')
       | _ \<Rightarrow> claimci ''research manifest root must be a mapping''))"

subsection \<open>Artifacts that cannot be used\<close>

definition artifact_failure :: "audit_env \<Rightarrow> string \<Rightarrow> string \<Rightarrow> string \<Rightarrow> py_error \<Rightarrow> finding" where
  "artifact_failure env category experiment path e =
     \<lparr>rule_id = category @ (if path_exists env path then ''.INVALID'' else ''.MISSING''),
      severity = CRITICAL,
      title = py_title experiment @ '' '' @ py_lower category @ '' artifact is unavailable'',
      explanation = error_text e,
      evidence = [(''experiment'', PStr experiment), (''path'', PStr path)],
      impact = INSUFFICIENT\<rparr>"

text \<open>Loading an artifact: only the input error is turned into a finding.\<close>

definition attempt ::
  "audit_env \<Rightarrow> string \<Rightarrow> string \<Rightarrow> string \<Rightarrow> 'a checked \<Rightarrow> ('a option \<times> finding list) checked" where
  "attempt env category experiment path r =
     (case r of
        Inr x \<Rightarrow> Inr (Some x, [])
      | Inl e \<Rightarrow> if is_claimci e then Inr (None, [artifact_failure env category experiment path e]) else Inl e)"

subsection \<open>The checks of the audit\<close>

definition configs_loaded_finding :: "research_spec \<Rightarrow> finding" where
  "configs_loaded_finding spec =
     \<lparr>rule_id = ''CONFIG.LOADED'', severity = VERIFIED, title = ''Config files loaded successfully'',
      explanation = ''Both declared YAML config artifacts were parsed as mappings.'',
      evidence = [(''baseline'', PStr (ep_config (rs_baseline spec))), (''candidate'', PStr (ep_config (rs_candidate spec)))],
      impact = NONE\<rparr>"

definition audit_configs ::
  "audit_env \<Rightarrow> research_spec \<Rightarrow> (config option \<times> config option \<times> finding list) checked" where
  "audit_configs env spec =
     (let bp = ep_config (rs_baseline spec); cp = ep_config (rs_candidate spec)
      in sbind (attempt env ''CONFIG'' ''baseline'' bp (load_config env bp)) (\<lambda>(b, bf).
         sbind (attempt env ''CONFIG'' ''candidate'' cp (load_config env cp)) (\<lambda>(c, cf).
           Inr (b, c, bf @ cf @
             (case (b, c) of (Some x, Some y) \<Rightarrow> configs_loaded_finding spec # check_configs x y | _ \<Rightarrow> [])))))"

definition comparison_invalid_finding :: "research_spec \<Rightarrow> py_error \<Rightarrow> finding" where
  "comparison_invalid_finding spec e =
     \<lparr>rule_id = ''RESULT.INVALID'', severity = CRITICAL, title = ''Result comparison could not be computed'',
      explanation = error_text e,
      evidence = [(''experiment'', PStr ''comparison''),
                  (''baseline_path'', PStr (ep_results (rs_baseline spec))),
                  (''candidate_path'', PStr (ep_results (rs_candidate spec)))],
      impact = INSUFFICIENT\<rparr>"

definition compare_loaded ::
  "research_spec \<Rightarrow> loaded_results option \<Rightarrow> loaded_results option \<Rightarrow> (result_check option \<times> finding list) checked" where
  "compare_loaded spec b c =
     (case (b, c) of
        (Some x, Some y) \<Rightarrow>
          (case check_results x y (rs_metric spec) (rs_minimum spec) (DirEnum (rs_direction spec)) of
             Inl e \<Rightarrow> if is_claimci e then Inr (None, [comparison_invalid_finding spec e]) else Inl e
           | Inr r \<Rightarrow> Inr (Some r, rc_findings r))
      | _ \<Rightarrow> Inr (None, []))"

definition audit_results :: "audit_env \<Rightarrow> research_spec \<Rightarrow> (result_check option \<times> finding list) checked" where
  "audit_results env spec =
     (let bp = ep_results (rs_baseline spec); cp = ep_results (rs_candidate spec); metric = rs_metric spec
      in sbind (attempt env ''RESULT'' ''baseline'' bp (load_results env bp metric)) (\<lambda>(b, bf).
         sbind (attempt env ''RESULT'' ''candidate'' cp (load_results env cp metric)) (\<lambda>(c, cf).
         sbind (compare_loaded spec b c) (\<lambda>(r, fs). Inr (r, bf @ cf @ fs)))))"

text \<open>The datasets of one experiment: the evaluation split when it loaded, the overlap when both did.\<close>

definition audit_splits ::
  "audit_env \<Rightarrow> string \<Rightarrow> experiment_paths \<Rightarrow> (dataset_hashes option \<times> overlap_summary list \<times> finding list) checked" where
  "audit_splits env experiment paths =
     sbind (attempt env ''DATASET'' experiment (ep_train paths) (load_dataset env (ep_train paths))) (\<lambda>(t, tf).
     sbind (attempt env ''DATASET'' experiment (ep_eval paths) (load_dataset env (ep_eval paths))) (\<lambda>(v, vf).
       Inr (case (t, v) of
              (Some x, Some y) \<Rightarrow> (case check_dataset_leakage experiment x y of (s, fs) \<Rightarrow> (v, [s], tf @ vf @ fs))
            | _ \<Rightarrow> (v, [], tf @ vf))))"

text \<open>What the datasets leave for the rest of the audit.\<close>

record dataset_facts =
  df_overlaps :: "overlap_summary list"
  df_findings :: "finding list"
  df_baseline_hashes :: "string list option"
  df_candidate_hashes :: "string list option"
  df_baseline_identity :: "multiset_identity option"
  df_candidate_identity :: "multiset_identity option"

definition audit_datasets :: "audit_env \<Rightarrow> research_spec \<Rightarrow> dataset_facts checked" where
  "audit_datasets env spec =
     sbind (audit_splits env ''baseline'' (rs_baseline spec)) (\<lambda>(b, bo, bf).
     sbind (audit_splits env ''candidate'' (rs_candidate spec)) (\<lambda>(c, co, cf).
       Inr \<lparr>df_overlaps = bo @ co,
            df_findings = bf @ cf @ (case (b, c) of (Some x, Some y) \<Rightarrow> check_evaluation_alignment x y | _ \<Rightarrow> []),
            df_baseline_hashes = map_option hashes b, df_candidate_hashes = map_option hashes c,
            df_baseline_identity = None, df_candidate_identity = None\<rparr>))"

definition stream_datasets ::
  "audit_env \<Rightarrow> string option \<Rightarrow> research_spec \<Rightarrow> scan_context \<Rightarrow> dataset_facts checked" where
  "stream_datasets env anc spec cx =
     (let base = (case anc of Some r \<Rightarrow> r | None \<Rightarrow> path_parent (rs_manifest spec))
      in sbind (validate_paths env cx base
                  [((''baseline'', ''train''), ep_train (rs_baseline spec)), ((''baseline'', ''eval''), ep_eval (rs_baseline spec)),
                   ((''candidate'', ''train''), ep_train (rs_candidate spec)), ((''candidate'', ''eval''), ep_eval (rs_candidate spec))])
           (\<lambda>_.
         sbind (check_streaming_dataset_context (sha256_hex env) cx) (\<lambda>(overlaps, fs).
         sbind (evaluation_identity (sha256_hex env) cx ''baseline'') (\<lambda>bi.
         sbind (evaluation_identity (sha256_hex env) cx ''candidate'') (\<lambda>ci.
           Inr \<lparr>df_overlaps = overlaps, df_findings = fs, df_baseline_hashes = None, df_candidate_hashes = None,
                df_baseline_identity = bi, df_candidate_identity = ci\<rparr>)))))"

definition metric_identity_finding :: "metric_binding \<Rightarrow> string \<Rightarrow> finding checked" where
  "metric_identity_finding b metric =
     (if mb_metric b \<noteq> metric then claimci ''exact-head metric binding does not match the audited metric''
      else Inr \<lparr>rule_id = ''RESULT.METRIC_IDENTITY_VERIFIED'', severity = VERIFIED,
                title = ''Exact baseline and candidate metric identities verified'',
                explanation = ''ClaimCI independently revalidated both bound raw metric selectors ''
                  @ ''against the exact-head passive artifacts.'',
                evidence = metric_binding_material b, impact = NONE\<rparr>)"

definition metric_findings :: "metric_binding option \<Rightarrow> string \<Rightarrow> finding list checked" where
  "metric_findings binding metric =
     (case binding of None \<Rightarrow> Inr [] | Some b \<Rightarrow> sbind (metric_identity_finding b metric) (\<lambda>f. Inr [f]))"

definition measurement_drift ::
  "audit_env \<Rightarrow> measurement_context option \<Rightarrow> string \<Rightarrow> config option \<Rightarrow> config option \<Rightarrow> dataset_facts
    \<Rightarrow> finding list \<Rightarrow> drift_report option checked" where
  "measurement_drift env context metric b c facts fs =
     (case context of
        None \<Rightarrow> Inr None
      | Some m \<Rightarrow>
          sbind (recover_measurement_protocol_pair (sha256_hex env) m metric b c (df_baseline_hashes facts)
                   (df_candidate_hashes facts) (df_baseline_identity facts) (df_candidate_identity facts)) (\<lambda>protocols.
          sbind (compare_measurement_protocols protocols (map rule_id fs) ARITHMETIC_MEAN_V1) (\<lambda>r. Inr (Some r))))"

definition audit_research ::
  "audit_env \<Rightarrow> string \<Rightarrow> string option \<Rightarrow> measurement_context option \<Rightarrow> metric_binding option \<Rightarrow> scan_context option
    \<Rightarrow> audit_result checked" where
  "audit_research env path anc context binding cx =
     sbind (load_research_spec env path anc) (\<lambda>spec.
     sbind (audit_configs env spec) (\<lambda>(b, c, cfs).
     sbind (audit_results env spec) (\<lambda>(checked_results, rfs).
     sbind (case cx of None \<Rightarrow> audit_datasets env spec | Some x \<Rightarrow> stream_datasets env anc spec x) (\<lambda>facts.
     sbind (metric_findings binding (rs_metric spec)) (\<lambda>mfs.
     (let fs = cfs @ rfs @ df_findings facts @ mfs
      in sbind (measurement_drift env context (rs_metric spec) b c facts fs) (\<lambda>drift.
           Inr \<lparr>ar_verdict = determine_verdict fs, ar_findings = fs, ar_manifest = rs_manifest spec,
                ar_metric = rs_metric spec, ar_minimum = rs_minimum spec,
                ar_baseline = map_option baseline_summary checked_results,
                ar_candidate = map_option candidate_summary checked_results,
                ar_absolute = map_option absolute_improvement checked_results,
                ar_relative = (case checked_results of None \<Rightarrow> None | Some r \<Rightarrow> relative_improvement r),
                ar_overlaps = df_overlaps facts, ar_direction = rs_direction spec, ar_drift = drift\<rparr>)))))))"

subsection \<open>What the verdict says\<close>

lemma attempt_Inr [result_simps]:
  "attempt env category experiment path r = Inr (v, fs) \<longleftrightarrow>
     (\<exists>x. r = Inr x \<and> v = Some x \<and> fs = [])
     \<or> (\<exists>e. r = Inl e \<and> is_claimci e \<and> v = None \<and> fs = [artifact_failure env category experiment path e])"
  by (cases r) (auto simp: attempt_def)

lemma supported_append:
  "determine_verdict (fs @ gs) = SUPPORTED \<longleftrightarrow> determine_verdict fs = SUPPORTED \<and> determine_verdict gs = SUPPORTED"
  by (auto simp: determine_verdict_supported)

lemma supported_Cons:
  "determine_verdict (f # fs) = SUPPORTED \<longleftrightarrow> impact f = NONE \<and> determine_verdict fs = SUPPORTED"
  by (auto simp: determine_verdict_supported)

lemma supported_Nil: "determine_verdict [] = SUPPORTED"
  by (simp add: determine_verdict_supported)

lemma failure_impact: "impact (artifact_failure env category experiment path e) = INSUFFICIENT"
  by (simp add: artifact_failure_def)

lemmas supported_simps = supported_append supported_Cons supported_Nil failure_impact

lemma configs_loaded_impact: "impact (configs_loaded_finding spec) = NONE"
  by (simp add: configs_loaded_finding_def)

lemma audit_configs_supported:
  assumes "audit_configs env spec = Inr (b, c, fs)"
  shows "determine_verdict fs = SUPPORTED \<longleftrightarrow>
    (\<exists>x y. load_config env (ep_config (rs_baseline spec)) = Inr x \<and> load_config env (ep_config (rs_candidate spec)) = Inr y
      \<and> determine_verdict (check_configs x y) = SUPPORTED)"
  using assms by (auto simp: audit_configs_def Let_def result_simps supported_simps configs_loaded_impact)

lemma comparison_impact: "impact (comparison_invalid_finding spec e) = INSUFFICIENT"
  by (simp add: comparison_invalid_finding_def)

lemma compare_loaded_supported:
  assumes "compare_loaded spec (Some x) (Some y) = Inr (v, fs)"
  shows "determine_verdict fs = SUPPORTED \<longleftrightarrow>
    (\<exists>rc. check_results x y (rs_metric spec) (rs_minimum spec) (DirEnum (rs_direction spec)) = Inr rc
      \<and> determine_verdict (rc_findings rc) = SUPPORTED)"
  using assms by (auto simp: compare_loaded_def supported_simps comparison_impact split: sum.splits if_splits)

lemma audit_results_supported:
  assumes "audit_results env spec = Inr (v, fs)"
  shows "determine_verdict fs = SUPPORTED \<longleftrightarrow>
    (\<exists>x y rc. load_results env (ep_results (rs_baseline spec)) (rs_metric spec) = Inr x
      \<and> load_results env (ep_results (rs_candidate spec)) (rs_metric spec) = Inr y
      \<and> check_results x y (rs_metric spec) (rs_minimum spec) (DirEnum (rs_direction spec)) = Inr rc
      \<and> determine_verdict (rc_findings rc) = SUPPORTED)"
  using assms
  by (auto simp: audit_results_def Let_def result_simps supported_simps dest: compare_loaded_supported)

lemma audit_splits_supported:
  assumes "audit_splits env experiment paths = Inr (v, os, fs)"
  shows "determine_verdict fs = SUPPORTED \<longleftrightarrow>
    (\<exists>x y. load_dataset env (ep_train paths) = Inr x \<and> load_dataset env (ep_eval paths) = Inr y \<and> v = Some y
      \<and> set (hashes x) \<inter> set (hashes y) = {})"
  using assms
  by (auto simp: audit_splits_def result_simps supported_simps leakage_outcome split: prod.splits if_splits)

lemma audit_splits_eval:
  assumes "audit_splits env experiment paths = Inr (v, os, fs)" and "load_dataset env (ep_eval paths) = Inr y"
  shows "v = Some y"
  using assms by (auto simp: audit_splits_def result_simps split_beta split: option.splits)

lemma alignment_supported:
  "determine_verdict (check_evaluation_alignment b c) = SUPPORTED \<longleftrightarrow> mset (hashes b) = mset (hashes c)"
  by (auto simp: check_evaluation_alignment_def Let_def counters_equal_mset determine_verdict_supported
      aligned_finding_def misaligned_finding_def)

lemma audit_datasets_supported:
  assumes "audit_datasets env spec = Inr facts"
  shows "determine_verdict (df_findings facts) = SUPPORTED \<longleftrightarrow>
    (\<exists>t v t' v'. load_dataset env (ep_train (rs_baseline spec)) = Inr t \<and> load_dataset env (ep_eval (rs_baseline spec)) = Inr v
      \<and> load_dataset env (ep_train (rs_candidate spec)) = Inr t' \<and> load_dataset env (ep_eval (rs_candidate spec)) = Inr v'
      \<and> set (hashes t) \<inter> set (hashes v) = {} \<and> set (hashes t') \<inter> set (hashes v') = {} \<and> mset (hashes v) = mset (hashes v'))"
proof -
  obtain b bo bf c co cf where s: "audit_splits env ''baseline'' (rs_baseline spec) = Inr (b, bo, bf)"
      "audit_splits env ''candidate'' (rs_candidate spec) = Inr (c, co, cf)"
    and f: "df_findings facts = bf @ cf @ (case (b, c) of (Some x, Some y) \<Rightarrow> check_evaluation_alignment x y | _ \<Rightarrow> [])"
    using assms by (auto simp: audit_datasets_def result_simps)
  show ?thesis
    unfolding f supported_append audit_splits_supported [OF s(1)] audit_splits_supported [OF s(2)]
    using audit_splits_eval [OF s(1)] audit_splits_eval [OF s(2)] by (auto simp: alignment_supported)
qed

lemma metric_findings_supported: "metric_findings binding metric = Inr fs \<Longrightarrow> determine_verdict fs = SUPPORTED"
  by (auto simp: metric_findings_def metric_identity_finding_def claimci_def result_simps supported_simps
      split: option.splits if_splits)

text \<open>What a supported in-memory audit has loaded and compared.\<close>

definition audit_evidence ::
  "audit_env \<Rightarrow> research_spec \<Rightarrow> config \<Rightarrow> config \<Rightarrow> loaded_results \<Rightarrow> loaded_results \<Rightarrow> result_check
    \<Rightarrow> dataset_hashes list \<Rightarrow> bool" where
  "audit_evidence env spec x y p q rc ds \<longleftrightarrow>
     load_config env (ep_config (rs_baseline spec)) = Inr x \<and> load_config env (ep_config (rs_candidate spec)) = Inr y
     \<and> load_results env (ep_results (rs_baseline spec)) (rs_metric spec) = Inr p
     \<and> load_results env (ep_results (rs_candidate spec)) (rs_metric spec) = Inr q
     \<and> check_results p q (rs_metric spec) (rs_minimum spec) (DirEnum (rs_direction spec)) = Inr rc
     \<and> map (load_dataset env) [ep_train (rs_baseline spec), ep_eval (rs_baseline spec),
          ep_train (rs_candidate spec), ep_eval (rs_candidate spec)] = map Inr ds"

lemma audit_outcome:
  assumes "audit_research env path anc context binding None = Inr r"
  shows "ar_verdict r = SUPPORTED \<longleftrightarrow>
    (\<exists>spec x y p q rc t v t' v'. load_research_spec env path anc = Inr spec
      \<and> audit_evidence env spec x y p q rc [t, v, t', v']
      \<and> determine_verdict (check_configs x y) = SUPPORTED \<and> determine_verdict (rc_findings rc) = SUPPORTED
      \<and> set (hashes t) \<inter> set (hashes v) = {} \<and> set (hashes t') \<inter> set (hashes v') = {} \<and> mset (hashes v) = mset (hashes v'))"
proof -
  obtain spec b c cfs cr rfs facts mfs where s: "load_research_spec env path anc = Inr spec"
    and p: "audit_configs env spec = Inr (b, c, cfs)" "audit_results env spec = Inr (cr, rfs)"
      "audit_datasets env spec = Inr facts" "metric_findings binding (rs_metric spec) = Inr mfs"
    and v: "ar_verdict r = determine_verdict (cfs @ rfs @ df_findings facts @ mfs)"
    using assms by (auto simp: audit_research_def Let_def result_simps)
  show ?thesis
    unfolding v supported_append audit_configs_supported [OF p(1)] audit_results_supported [OF p(2)]
      audit_datasets_supported [OF p(3)] s audit_evidence_def
    using metric_findings_supported [OF p(4)] by auto
qed

subsection \<open>Confinement\<close>

definition below :: "string \<Rightarrow> string \<Rightarrow> bool" where
  "below r p \<longleftrightarrow> relative_to p r \<noteq> None"

definition paths_list :: "experiment_paths \<Rightarrow> string list" where
  "paths_list e = [ep_config e, ep_results e, ep_train e, ep_eval e]"

lemma artifact_path_below:
  assumes "artifact_path env label d dir (Some r) field = Inr p"
  shows "below r p"
  using assms
  by (auto simp: artifact_path_def confined_path_def below_def path_error_def result_simps
      split: pyval.splits if_splits sum.splits)

lemma experiment_paths_below:
  assumes "experiment_paths_of env label v dir (Some r) = Inr e"
  shows "\<forall>p \<in> set (paths_list e). below r p"
  using assms by (cases v) (auto simp: experiment_paths_of_def paths_list_def result_simps dest!: artifact_path_below)

lemma resolved_manifest_below:
  assumes "resolved_manifest env path (Some anc) = Inr (manifest, anc')"
  shows "\<exists>r. resolve_path env anc = Inr r \<and> anc' = Some r \<and> below r manifest"
  using assms by (auto simp: resolved_manifest_def claimci_def below_def split: sum.splits if_splits)

lemma declared_experiments_parts:
  assumes "declared_experiments env d manifest anc = Inr (b, c)"
  shows "\<exists>x y. experiment_paths_of env ''baseline'' x (path_parent manifest) anc = Inr b
    \<and> experiment_paths_of env ''candidate'' y (path_parent manifest) anc = Inr c"
  using assms by (auto simp: declared_experiments_def claimci_def result_simps split: option.splits)

lemma load_research_spec_Inr:
  assumes "load_research_spec env path anc = Inr spec"
  shows "\<exists>manifest anc' d claim. resolved_manifest env path anc = Inr (manifest, anc')
    \<and> read_manifest env manifest = Inr (PDict d) \<and> dget_none d ''claim'' = PDict claim
    \<and> claimed_spec env manifest anc' d claim = Inr spec"
proof -
  obtain manifest anc' payload where m: "resolved_manifest env path anc = Inr (manifest, anc')"
    and p: "read_manifest env manifest = Inr payload"
    and s: "(case payload of
         PDict d \<Rightarrow>
           (case dget_none d ''claim'' of
              PDict claim \<Rightarrow> claimed_spec env manifest anc' d claim
            | _ \<Rightarrow> claimci ''claim must be a mapping'')
       | _ \<Rightarrow> claimci ''research manifest root must be a mapping'') = Inr spec"
    using assms by (auto simp: load_research_spec_def result_simps)
  obtain d where d: "payload = PDict d" using s by (cases payload) (auto simp: claimci_def)
  then obtain claim where "dget_none d ''claim'' = PDict claim"
    using s by (cases "dget_none d ''claim''") (auto simp: claimci_def)
  then show ?thesis using m p s d by auto
qed

lemma load_research_spec_parts:
  assumes "load_research_spec env path anc = Inr spec"
  shows "\<exists>anc' b c. resolved_manifest env path anc = Inr (rs_manifest spec, anc')
    \<and> experiment_paths_of env ''baseline'' b (path_parent (rs_manifest spec)) anc' = Inr (rs_baseline spec)
    \<and> experiment_paths_of env ''candidate'' c (path_parent (rs_manifest spec)) anc' = Inr (rs_candidate spec)"
  using load_research_spec_Inr [OF assms]
  by (auto simp: claimed_spec_def result_simps dest!: declared_experiments_parts)

lemma spec_below:
  assumes "load_research_spec env path (Some anc) = Inr spec" and "resolve_path env anc = Inr r"
  shows "below r (rs_manifest spec) \<and> (\<forall>p \<in> set (paths_list (rs_baseline spec) @ paths_list (rs_candidate spec)). below r p)"
proof -
  obtain anc' b c where m: "resolved_manifest env path (Some anc) = Inr (rs_manifest spec, anc')"
    and b: "experiment_paths_of env ''baseline'' b (path_parent (rs_manifest spec)) anc' = Inr (rs_baseline spec)"
    and c: "experiment_paths_of env ''candidate'' c (path_parent (rs_manifest spec)) anc' = Inr (rs_candidate spec)"
    using load_research_spec_parts [OF assms(1)] by blast
  have "anc' = Some r" "below r (rs_manifest spec)" using resolved_manifest_below [OF m] assms(2) by auto
  then show ?thesis using experiment_paths_below [of env _ b] experiment_paths_below [of env _ c] b c by auto
qed

text \<open>The environment after a change of the files.\<close>

definition with_files :: "audit_env \<Rightarrow> (string \<Rightarrow> read_failure + string) \<Rightarrow> (string \<Rightarrow> bool) \<Rightarrow> audit_env" where
  "with_files env f g = env\<lparr>read_text := f, path_exists := g\<rparr>"

lemma with_files_simps [simp]:
  "resolve_path (with_files env f g) = resolve_path env" "read_text (with_files env f g) = f"
  "path_exists (with_files env f g) = g" "json_text (with_files env f g) = json_text env"
  "yaml_text (with_files env f g) = yaml_text env" "sha256_hex (with_files env f g) = sha256_hex env"
  by (simp_all add: with_files_def)

lemma attempt_files:
  "g p = path_exists env p \<Longrightarrow> attempt (with_files env f g) category experiment p r = attempt env category experiment p r"
  by (cases r) (simp_all add: attempt_def artifact_failure_def)

lemma hash_lines_files: "hash_lines (with_files env f g) p n ls = hash_lines env p n ls"
  by (induction ls arbitrary: n) (simp_all add: hash_line_def cong: sum.case_cong)

lemma load_files:
  assumes "f p = read_text env p"
  shows "load_config (with_files env f g) p = load_config env p"
    and "load_results (with_files env f g) p metric = load_results env p metric"
    and "load_dataset (with_files env f g) p = load_dataset env p"
    and "read_manifest (with_files env f g) p = read_manifest env p"
  using assms
  by (simp_all add: load_config_def load_results_def read_results_def load_dataset_def hash_lines_files read_manifest_def Let_def cong: sum.case_cong pyval.case_cong list.case_cong if_cong)

lemma artifact_path_files: "artifact_path (with_files env f g) label d dir anc field = artifact_path env label d dir anc field"
  by (simp add: artifact_path_def cong: pyval.case_cong if_cong sum.case_cong)

lemma experiment_paths_files:
  "experiment_paths_of (with_files env f g) label v dir anc = experiment_paths_of env label v dir anc"
  by (simp add: experiment_paths_of_def artifact_path_files cong: pyval.case_cong)

lemma declared_files: "declared_experiments (with_files env f g) d m anc = declared_experiments env d m anc"
  by (simp add: declared_experiments_def experiment_paths_files cong: option.case_cong)

lemma claimed_files: "claimed_spec (with_files env f g) m anc d claim = claimed_spec env m anc d claim"
  by (simp add: claimed_spec_def declared_files)

lemma resolved_manifest_files: "resolved_manifest (with_files env f g) path anc = resolved_manifest env path anc"
  by (simp add: resolved_manifest_def cong: sum.case_cong option.case_cong if_cong)

lemma spec_files:
  assumes r: "resolve_path env anc = Inr r" and f: "\<And>p. below r p \<Longrightarrow> f p = read_text env p"
  shows "load_research_spec (with_files env f g) path (Some anc) = load_research_spec env path (Some anc)"
proof (cases "resolved_manifest env path (Some anc)")
  case (Inr x)
  obtain m a where x: "x = (m, a)" by (cases x)
  have "below r m" using resolved_manifest_below [OF Inr [unfolded x]] r by auto
  then show ?thesis
    by (simp add: load_research_spec_def resolved_manifest_files Inr x load_files f claimed_files
        cong: pyval.case_cong option.case_cong)
qed (simp add: load_research_spec_def resolved_manifest_files)

lemma checks_files:
  assumes "\<forall>p \<in> set (paths_list (rs_baseline spec) @ paths_list (rs_candidate spec)). f p = read_text env p \<and> g p = path_exists env p"
  shows "audit_configs (with_files env f g) spec = audit_configs env spec"
    and "audit_results (with_files env f g) spec = audit_results env spec"
    and "audit_datasets (with_files env f g) spec = audit_datasets env spec"
  using assms
  by (simp_all add: paths_list_def audit_configs_def audit_results_def audit_datasets_def audit_splits_def attempt_files load_files Let_def)

lemma validate_paths_files: "validate_paths (with_files env f g) cx base ps = validate_paths env cx base ps"
proof -
  have "validate_each (with_files env f g) a e qs = validate_each env a e qs" for a e qs
    by (induction qs) (auto cong: sum.case_cong option.case_cong if_cong)
  then show ?thesis by (simp add: validate_paths_def cong: sum.case_cong if_cong)
qed

lemma stream_files: "stream_datasets (with_files env f g) anc spec cx = stream_datasets env anc spec cx"
  by (simp add: stream_datasets_def validate_paths_files Let_def)

lemma drift_files:
  "measurement_drift (with_files env f g) context metric b c facts fs = measurement_drift env context metric b c facts fs"
  by (simp add: measurement_drift_def cong: option.case_cong)

subsection \<open>Properties\<close>

text \<open>C1: an audit of four in-memory datasets gives the verdict supported exactly when every artifact
  loads, the configurations leave no finding against the claim, the results check and leave none, no
  training record occurs in its evaluation split, and both evaluation splits hold the same records.
  Nothing else, no metric binding and no measurement context, can change that.\<close>

theorem audit_supported_exact:
  assumes "audit_research env path anc context binding None = Inr r"
  shows "ar_verdict r = SUPPORTED \<longleftrightarrow>
    (\<exists>spec x y p q rc t v t' v'. load_research_spec env path anc = Inr spec
      \<and> audit_evidence env spec x y p q rc [t, v, t', v']
      \<and> determine_verdict (check_configs x y) = SUPPORTED \<and> determine_verdict (rc_findings rc) = SUPPORTED
      \<and> set (hashes t) \<inter> set (hashes v) = {} \<and> set (hashes t') \<inter> set (hashes v') = {} \<and> mset (hashes v) = mset (hashes v'))"
  using assms by (rule audit_outcome)

text \<open>C4: an audit below an artifact root depends on no file outside it: whatever other files hold, and
  whether they exist, the manifest, every finding, the verdict and every error are the same.\<close>

theorem audit_confined:
  assumes r: "resolve_path env anc = Inr r"
    and f: "\<And>p. below r p \<Longrightarrow> f p = read_text env p" and g: "\<And>p. below r p \<Longrightarrow> g p = path_exists env p"
  shows "audit_research (with_files env f g) path (Some anc) context binding cx = audit_research env path (Some anc) context binding cx"
proof (cases "load_research_spec env path (Some anc)")
  case (Inr spec)
  have "\<forall>p \<in> set (paths_list (rs_baseline spec) @ paths_list (rs_candidate spec)). f p = read_text env p \<and> g p = path_exists env p"
    using spec_below [OF Inr r] f g by blast
  then show ?thesis
    by (simp add: audit_research_def spec_files [OF r f] Inr checks_files stream_files drift_files cong: option.case_cong)
qed (simp add: audit_research_def spec_files [OF r f])

subsection \<open>An audit that is supported\<close>

definition audit_demo_store :: ystore where
  "audit_demo_store a =
     (if a = 0 then YDict [(YAtom (PStr ''claim''), YRef 1), (YAtom (PStr ''baseline''), YRef 2), (YAtom (PStr ''candidate''), YRef 3)]
      else if a = 1 then YDict [(YAtom (PStr ''metric''), YAtom (PStr ''acc'')), (YAtom (PStr ''minimum_improvement''), YAtom (PInt 0))]
      else YDict [(YAtom (PStr ''config''), YAtom (PStr ''c.yaml'')), (YAtom (PStr ''results''), YAtom (PStr ''r.json'')),
                  (YAtom (PStr ''train_dataset''), YAtom (PStr ''t'')), (YAtom (PStr ''eval_dataset''), YAtom (PStr ''e''))])"

definition config_demo_store :: ystore where
  "config_demo_store a =
     (if a = 0 then YDict
        [(YAtom (PStr ''training_steps''), YAtom (PInt 9)), (YAtom (PStr ''epochs''), YAtom (PInt 1)),
         (YAtom (PStr ''batch_size''), YAtom (PInt 4)), (YAtom (PStr ''learning_rate''), YAtom (PInt 1)),
         (YAtom (PStr ''model''), YAtom (PStr ''m'')), (YAtom (PStr ''dataset''), YRef 1), (YAtom (PStr ''evaluation''), YRef 2)]
      else if a = 1 then YDict [(YAtom (PStr ''identifier''), YAtom (PStr ''d'')), (YAtom (PStr ''version''), YAtom (PInt 1))]
      else YDict [(YAtom (PStr ''dataset_identifier''), YAtom (PStr ''e'')), (YAtom (PStr ''dataset_version''), YAtom (PInt 1)),
                  (YAtom (PStr ''split''), YAtom (PStr ''test''))])"

definition audit_demo_env :: audit_env where
  "audit_demo_env =
     \<lparr>read_text = (\<lambda>p. Inr (path_name p)), resolve_path = Inr,
      json_text = (\<lambda>s. if s = ''t'' then Inr (JInt 1) else if s = ''e'' then Inr (JInt 2)
                   else Inr (JObj [(''runs'', JArr [JObj [(''acc'', JInt 0), (''seed'', JInt 1)], JObj [(''acc'', JInt 0), (''seed'', JInt 2)]]),
                                   (''summary'', JObj [(''mean'', JInt 0)])])),
      yaml_text = (\<lambda>s. Inr (if s = ''c.yaml'' then config_demo_store else audit_demo_store, YRef 0)),
      sha256_hex = map char_of, path_exists = (\<lambda>_. True)\<rparr>"

definition demo_paths :: experiment_paths where
  "demo_paths = \<lparr>ep_config = ''/c.yaml'', ep_results = ''/r.json'', ep_train = ''/t'', ep_eval = ''/e''\<rparr>"

definition demo_spec :: research_spec where
  "demo_spec = \<lparr>rs_manifest = ''/m'', rs_metric = ''acc'', rs_minimum = fzero, rs_baseline = demo_paths,
                rs_candidate = demo_paths, rs_direction = HIGHER\<rparr>"

lemma demo_env_simps [simp]:
  "read_text audit_demo_env p = Inr (path_name p)" "resolve_path audit_demo_env p = Inr p"
  "path_exists audit_demo_env p" "sha256_hex audit_demo_env = map char_of"
  by (simp_all add: audit_demo_env_def)

text \<open>Reading a document of the demonstration.\<close>

definition demo_manifest_value :: pyval where
  "demo_manifest_value =
     pdict [(''claim'', pdict [(''metric'', PStr ''acc''), (''minimum_improvement'', PInt 0)]),
            (''baseline'', pdict [(''config'', PStr ''c.yaml''), (''results'', PStr ''r.json''),
                                  (''train_dataset'', PStr ''t''), (''eval_dataset'', PStr ''e'')]),
            (''candidate'', pdict [(''config'', PStr ''c.yaml''), (''results'', PStr ''r.json''),
                                   (''train_dataset'', PStr ''t''), (''eval_dataset'', PStr ''e'')])]"

lemma demo_yaml: "load_unique_yaml (yaml_text audit_demo_env) ''m'' = Inr demo_manifest_value"
proof -
  have "read_value audit_demo_store (Suc (Suc (Suc n))) (YRef 0) = demo_manifest_value" for n
    by (simp add: audit_demo_store_def demo_manifest_value_def pdict_def)
  from this [of 254] show ?thesis
    by (simp add: load_unique_yaml_def audit_demo_env_def yaml_walk.simps max_nesting_depth_def audit_demo_store_def)
qed

lemma demo_config: "load_config audit_demo_env ''/c.yaml'' = Inr sample_config"
proof -
  have p: "path_name ''/c.yaml'' = ''c.yaml''" by code_simp
  have "read_value config_demo_store (Suc (Suc (Suc n))) (YRef 0) = PDict sample_config" for n
    by (simp add: config_demo_store_def sample_config_def pdict_def)
  from this [of 254] have "load_unique_yaml (yaml_text audit_demo_env) ''c.yaml'' = Inr (PDict sample_config)"
    by (simp add: load_unique_yaml_def audit_demo_env_def yaml_walk.simps max_nesting_depth_def config_demo_store_def)
  then show ?thesis by (simp add: load_config_def p)
qed

lemma demo_spec_paths: "experiment_paths_of audit_demo_env label
    (pdict [(''config'', PStr ''c.yaml''), (''results'', PStr ''r.json''), (''train_dataset'', PStr ''t''), (''eval_dataset'', PStr ''e'')])
    ''/'' None = Inr demo_paths"
proof -
  have "path_join ''/'' ''c.yaml'' = ''/c.yaml''" "path_join ''/'' ''r.json'' = ''/r.json''" "path_join ''/'' ''t'' = ''/t''"
    "path_join ''/'' ''e'' = ''/e''" "\<not> is_blank ''c.yaml''" "\<not> is_blank ''r.json''" "\<not> is_blank ''t''" "\<not> is_blank ''e''"
    by code_simp+
  then show ?thesis
    by (simp add: experiment_paths_of_def pdict_def artifact_path_def dget_none_def dget_def portable_path_def
        confined_path_def demo_paths_def)
qed

lemma demo_manifest: "load_research_spec audit_demo_env ''/m'' None = Inr demo_spec"
proof -
  have p: "path_name ''/m'' = ''m''" "path_parent ''/m'' = ''/''" "\<not> is_blank ''acc''" "py_strip ''acc'' = ''acc''"
    by code_simp+
  have z: "finite_number (PInt 0) = Some fzero" "\<not> flt_lt fzero fzero"
    by (simp_all add: float_of_int_def round_ratio_def fzero_def flt_lt_def)
  have r: "read_manifest audit_demo_env ''/m'' = Inr demo_manifest_value"
    by (simp add: read_manifest_def p demo_yaml)
  have c: "claimed_spec audit_demo_env ''/m'' None d [(PStr ''metric'', PStr ''acc''), (PStr ''minimum_improvement'', PInt 0)] = Inr demo_spec"
    if "declared_experiments audit_demo_env d ''/m'' None = Inr (demo_paths, demo_paths)" for d
    using that p(3,4) z by (simp add: claimed_spec_def claim_metric_def claim_threshold_def claim_direction_def coerce_direction_def
        dget_none_def dget_def demo_spec_def Let_def del: finite_number.simps)
  show ?thesis
    unfolding load_research_spec_def
    by (simp add: resolved_manifest_def r demo_manifest_value_def pdict_def dget_none_def dget_def)
      (rule c, simp add: declared_experiments_def dget_def p demo_spec_paths [unfolded pdict_def, simplified])
qed

lemma demo_data: "load_dataset audit_demo_env ''/t'' = Inr \<lparr>ds_path = ''/t'', hashes = [''1'']\<rparr>"
  "load_dataset audit_demo_env ''/e'' = Inr \<lparr>ds_path = ''/e'', hashes = [''2'']\<rparr>"
proof -
  have p: "path_name ''/t'' = ''t''" "path_name ''/e'' = ''e''" "split_on lf ''t'' = [''t'']" "split_on lf ''e'' = [''e'']"
    "\<not> is_blank ''t''" "\<not> is_blank ''e''" "map char_of (utf8 (show_int 1)) = ''1''" "map char_of (utf8 (show_int 2)) = ''2''"
    by code_simp+
  have j: "load_json (json_text audit_demo_env) l ''t'' = Inr (PInt 1)" "load_json (json_text audit_demo_env) l ''e'' = Inr (PInt 2)" for l
    by (simp_all add: load_json_def audit_demo_env_def validate_json_graph_nesting)
  show "load_dataset audit_demo_env ''/t'' = Inr \<lparr>ds_path = ''/t'', hashes = [''1'']\<rparr>"
    "load_dataset audit_demo_env ''/e'' = Inr \<lparr>ds_path = ''/e'', hashes = [''2'']\<rparr>"
    using p by (simp_all add: load_dataset_def hash_line_def j hash_sample_def canonicalize_sample_def)
qed

lemma demo_results: "load_results audit_demo_env ''/r.json'' ''acc'' = Inr zero_runs"
proof -
  have p: "path_name ''/r.json'' = ''r.json''" by code_simp
  have z: "float_of_int 0 = Some fzero" by (simp add: float_of_int_def round_ratio_def fzero_def)
  have j: "load_json (json_text audit_demo_env) l ''r.json'' =
      Inr (pdict [(''runs'', PList [pdict [(''acc'', PInt 0), (''seed'', PInt 1)], pdict [(''acc'', PInt 0), (''seed'', PInt 2)]]),
                  (''summary'', pdict [(''mean'', PInt 0)])])" for l
    by (simp add: load_json_def audit_demo_env_def validate_json_graph_nesting unique_json_object_def pdict_def max_nesting_depth_def)
  show ?thesis
    by (simp add: load_results_def read_results_def p j pdict_def dget_none_def dget_def load_run_def z
        load_claimed_summary_def zero_summarized zero_runs_def)
qed

lemma demo_audit: "\<exists>r. audit_research audit_demo_env ''/m'' None None None None = Inr r"
proof -
  have c: "\<exists>x. audit_configs audit_demo_env demo_spec = Inr x"
    by (simp add: audit_configs_def demo_spec_def demo_paths_def demo_config attempt_def Let_def)
  have r: "\<exists>x. audit_results audit_demo_env demo_spec = Inr x"
    by (simp add: audit_results_def demo_spec_def demo_paths_def demo_results attempt_def Let_def compare_loaded_def zero_check)
  have d: "\<exists>x. audit_datasets audit_demo_env demo_spec = Inr x"
    by (simp add: audit_datasets_def audit_splits_def demo_spec_def demo_paths_def demo_data attempt_def check_dataset_leakage_def Let_def)
  obtain x1 y1 z1 x2 y2 x3 where "audit_configs audit_demo_env demo_spec = Inr (x1, y1, z1)"
    "audit_results audit_demo_env demo_spec = Inr (x2, y2)" "audit_datasets audit_demo_env demo_spec = Inr x3"
    using c r d by auto
  then show ?thesis
    by (simp add: audit_research_def demo_manifest metric_findings_def measurement_drift_def Let_def)
qed

lemma demo_check: "determine_verdict (check_configs sample_config sample_config) = SUPPORTED"
  by (simp add: determine_verdict_def list_ex_iff check_configs_impact config_issues_invalidates config_issues_insufficient
      sample_config_complete compute_mismatch_self evaluation_differs_def cfg_value_refl [OF sample_config_nan_free])

theorem audit_supported_exact_witness:
  "\<exists>r. audit_research audit_demo_env ''/m'' None None None None = Inr r \<and> ar_verdict r = SUPPORTED"
proof -
  obtain r where r: "audit_research audit_demo_env ''/m'' None None None None = Inr r" using demo_audit by blast
  let ?t = "\<lparr>ds_path = ''/t'', hashes = [''1'']\<rparr>" and ?e = "\<lparr>ds_path = ''/e'', hashes = [''2'']\<rparr>"
  obtain rc where rc: "check_results zero_runs zero_runs ''acc'' fzero (DirEnum HIGHER) = Inr rc"
    and v: "rc_findings rc = [recomputed_finding ''acc'' zero_summary zero_summary, seed_verified_finding 2 2, zero_claim]"
    using zero_check by simp
  have "audit_evidence audit_demo_env demo_spec sample_config sample_config zero_runs zero_runs rc [?t, ?e, ?t, ?e]"
    by (simp add: audit_evidence_def demo_spec_def demo_paths_def demo_config demo_results demo_data rc)
  moreover have "determine_verdict (rc_findings rc) = SUPPORTED"
    by (simp add: v supported_simps recomputed_finding_def seed_verified_finding_def zero_claim_def)
  ultimately have "ar_verdict r = SUPPORTED"
    unfolding audit_supported_exact [OF r] using demo_manifest demo_check by fastforce
  then show ?thesis using r by blast
qed

theorem audit_confined_witness:
  "audit_research (with_files audit_demo_env (\<lambda>p. if below ''/work'' p then Inr (path_name p) else Inr ''secret'') (\<lambda>p. below ''/work'' p))
     ''/work/m'' (Some ''/work'') None None None =
   audit_research audit_demo_env ''/work/m'' (Some ''/work'') None None None"
  by (rule audit_confined) simp_all

end
