(* ===== verification/PassiveFiles.thy ===== *)
theory PassiveFiles
  imports ArtifactScan
begin

section \<open>Passive files\<close>

text \<open>
  \<^verbatim>\<open>claimci/passive_files.py\<close>: reading a file below a root as one bounded snapshot, or only its size and
  digest. Every component is refused when it is a link; the file is opened once, and the descriptor,
  the name and the parents are compared before and after reading. The operating system is the one
  of \<open>ArtifactScan\<close>; closing the descriptor has no result and is left out. The digest is fed block by
  block; \<open>sha\<close> is SHA-256 of everything that was fed, as a hexadecimal digest.
\<close>

subsection \<open>Errors, captures and inspections\<close>

text \<open>The module's error with its message and code, and the type error of the byte bound.\<close>

datatype passive_error = PassiveFileError string string | PassiveTypeError string

fun passive_code :: "passive_error \<Rightarrow> string" where
  "passive_code (PassiveFileError message code) = code"
| "passive_code (PassiveTypeError message) = ''type''"

type_synonym 'a passive_act = "(passive_error, 'a) action"

record passive_capture =
  pc_content :: "nat list"
  pc_size :: nat
  pc_sha256 :: string

record passive_inspection =
  pi_size :: nat
  pi_sha256 :: string

definition passive_failure :: "string \<Rightarrow> string \<Rightarrow> passive_error" where
  "passive_failure message code = PassiveFileError (''passive file '' @ message) code"

definition cannot_open :: passive_error where
  "cannot_open = passive_failure ''could not be opened'' ''unavailable''"

definition read_failed :: passive_error where
  "read_failed = passive_failure ''read failed'' ''unavailable''"

definition changed_during :: "string \<Rightarrow> string \<Rightarrow> passive_error" where
  "changed_during what action = passive_failure (what @ '' changed during '' @ action) ''changed''"

subsection \<open>Opening\<close>

definition lexical_parts :: "string \<Rightarrow> passive_error + string list" where
  "lexical_parts relative =
     (if relative = [] \<or> bslash \<in> set relative then Inl (passive_failure ''path is not portable'' ''unsafe_path'')
      else if is_absolute relative \<or> ''..'' \<in> set (path_parts relative)
      then Inl (passive_failure ''path is not confined'' ''unsafe_path'')
      else Inr (path_parts relative))"

definition passive_root :: "os_files \<Rightarrow> string \<Rightarrow> (string \<times> file_stat) passive_act" where
  "passive_root os raw =
     (let unavailable = passive_failure ''root is unavailable'' ''unavailable''
      in abind (ask (\<lambda>t. os_realpath os t raw) unavailable) (\<lambda>base.
         abind (ask (\<lambda>t. os_lstat os t base) unavailable) (\<lambda>before.
         abind (arequire (\<not> is_link before \<and> is_directory before)
                  (passive_failure ''root is not a trusted directory'' ''symlink'')) (\<lambda>_.
           areturn (base, before)))))"

fun passive_walk :: "os_files \<Rightarrow> string \<Rightarrow> string list \<Rightarrow> (string \<times> (string \<times> path_id) list) passive_act" where
  "passive_walk os current [] = areturn (current, [])"
| "passive_walk os current (p # ps) =
     (let next = path_join current p
      in abind (ask (\<lambda>t. os_lstat os t next) cannot_open) (\<lambda>observed.
         abind (arequire (\<not> is_link observed)
                  (passive_failure ''path contains a symbolic link'' ''symlink'')) (\<lambda>_.
         abind (arequire (ps = [] \<or> is_directory observed)
                  (passive_failure ''parent is not a directory'' ''not_regular'')) (\<lambda>_.
         abind (passive_walk os next ps) (\<lambda>(final, rest).
           areturn (final, (next, path_identity observed) # rest))))))"

text \<open>What is known once the file is open.\<close>

record passive_open =
  po_descriptor :: nat
  po_path :: string
  po_base :: string
  po_root :: file_stat
  po_components :: "(string \<times> path_id) list"
  po_before :: file_stat

definition passive_opening :: "os_files \<Rightarrow> string \<Rightarrow> string list \<Rightarrow> int \<Rightarrow> passive_open passive_act" where
  "passive_opening os raw parts max_bytes =
     abind (passive_root os raw) (\<lambda>(base, root_before).
     abind (passive_walk os base parts) (\<lambda>(current, components).
     abind (ask (\<lambda>t. os_realpath os t current) cannot_open) (\<lambda>resolved.
     abind (arequire (relative_to resolved base \<noteq> None) cannot_open) (\<lambda>_.
     abind (arequire (resolved = current)
              (passive_failure ''path is not a direct confined path'' ''outside'')) (\<lambda>_.
     abind (ask (\<lambda>t. os_lstat os t current) cannot_open) (\<lambda>before.
     abind (arequire (is_regular before) (passive_failure ''is not a regular file'' ''not_regular'')) (\<lambda>_.
     abind (arequire (st_size before \<le> max_bytes) (passive_failure ''exceeds the byte bound'' ''too_large'')) (\<lambda>_.
     abind (ask (\<lambda>t. os_open os t current) cannot_open) (\<lambda>descriptor.
       areturn \<lparr>po_descriptor = descriptor, po_path = current, po_base = base, po_root = root_before,
                po_components = components, po_before = before\<rparr>)))))))))"

definition passive_opened :: "os_files \<Rightarrow> passive_open \<Rightarrow> file_stat passive_act" where
  "passive_opened os f =
     abind (ask (\<lambda>t. os_fstat os t (po_descriptor f)) read_failed) (\<lambda>opened.
     abind (arequire (is_regular opened) (passive_failure ''descriptor is not regular'' ''not_regular'')) (\<lambda>_.
     abind (arequire (file_open_identity opened = file_open_identity (po_before f))
              (changed_during ''identity'' ''open'')) (\<lambda>_.
       areturn opened)))"

subsection \<open>Reading\<close>

definition beyond_bound :: passive_error where
  "beyond_bound = passive_failure ''changed beyond the byte bound'' ''too_large''"

function capture_blocks :: "os_files \<Rightarrow> nat \<Rightarrow> int \<Rightarrow> nat list list \<Rightarrow> (nat list list) passive_act" where
  "capture_blocks os d remaining chunks t =
     (if remaining \<le> 0 then (Inr chunks, t)
      else case os_read os t d (min (64 * 1024) remaining) of
             None \<Rightarrow> (Inl read_failed, Suc t)
           | Some block \<Rightarrow>
               (if block = [] then (Inr chunks, Suc t)
                else capture_blocks os d (remaining - int (length block)) (chunks @ [block]) (Suc t)))"
  by pat_completeness auto
termination
  by (relation "measure (\<lambda>(os, d, remaining, chunks, t). nat remaining)") (auto simp: neq_Nil_conv)

declare capture_blocks.simps [simp del]

definition capture_content :: "os_files \<Rightarrow> nat \<Rightarrow> int \<Rightarrow> (nat list) passive_act" where
  "capture_content os d max_bytes =
     abind (capture_blocks os d (max_bytes + 1) []) (\<lambda>chunks.
     abind (arequire (int (length (concat chunks)) \<le> max_bytes) beyond_bound) (\<lambda>_.
       areturn (concat chunks)))"

text \<open>The inspection keeps the size and the digest, here the bytes the digest has been fed with.\<close>

function inspect_blocks :: "os_files \<Rightarrow> nat \<Rightarrow> int \<Rightarrow> nat \<Rightarrow> nat list \<Rightarrow> (nat \<times> nat list) passive_act" where
  "inspect_blocks os d max_bytes nread fed t =
     (if max_bytes < int nread then (Inr (nread, fed), t)
      else case os_read os t d (min (64 * 1024) (max_bytes + 1 - int nread)) of
             None \<Rightarrow> (Inl read_failed, Suc t)
           | Some block \<Rightarrow>
               (if block = [] then (Inr (nread, fed), Suc t)
                else inspect_blocks os d max_bytes (nread + length block) (fed @ block) (Suc t)))"
  by pat_completeness auto
termination
  by (relation "measure (\<lambda>(os, d, max_bytes, nread, fed, t). nat (max_bytes + 1 - int nread))")
    (auto simp: neq_Nil_conv)

declare inspect_blocks.simps [simp del]

definition inspect_content :: "os_files \<Rightarrow> nat \<Rightarrow> int \<Rightarrow> (nat \<times> nat list) passive_act" where
  "inspect_content os d max_bytes =
     abind (inspect_blocks os d max_bytes 0 []) (\<lambda>(nread, fed).
     abind (arequire (int nread \<le> max_bytes) beyond_bound) (\<lambda>_. areturn (nread, fed)))"

subsection \<open>Checking again\<close>

definition passive_read_stat :: "os_files \<Rightarrow> string \<Rightarrow> passive_open \<Rightarrow> file_stat \<Rightarrow> file_stat passive_act" where
  "passive_read_stat os action f opened =
     abind (ask (\<lambda>t. os_fstat os t (po_descriptor f)) read_failed) (\<lambda>after.
     abind (arequire (file_open_identity after = file_open_identity opened) (changed_during ''descriptor'' action)) (\<lambda>_.
       areturn after))"

definition recheck_failed :: passive_error where
  "recheck_failed = passive_failure ''identity could not be rechecked'' ''changed''"

fun recheck_parents :: "os_files \<Rightarrow> string \<Rightarrow> (string \<times> path_id) list \<Rightarrow> unit passive_act" where
  "recheck_parents os action [] = areturn ()"
| "recheck_parents os action ((component, identity) # cs) =
     abind (ask (\<lambda>t. os_lstat os t component) recheck_failed) (\<lambda>observed.
     abind (arequire (path_identity observed = identity) (changed_during ''parent identity'' action)) (\<lambda>_.
       recheck_parents os action cs))"

definition passive_recheck ::
  "os_files \<Rightarrow> string \<Rightarrow> passive_open \<Rightarrow> file_stat \<Rightarrow> file_stat \<Rightarrow> nat \<Rightarrow> unit passive_act" where
  "passive_recheck os action f opened opened_after nread =
     abind (ask (\<lambda>t. os_lstat os t (po_base f)) recheck_failed) (\<lambda>root_after.
     abind (arequire (path_identity root_after = path_identity (po_root f)) (changed_during ''root identity'' action)) (\<lambda>_.
     abind (recheck_parents os action (butlast (po_components f))) (\<lambda>_.
     abind (ask (\<lambda>t. os_lstat os t (po_path f)) recheck_failed) (\<lambda>after.
     abind (arequire (file_identity after = file_identity (po_before f)) (changed_during ''pathname'' action)) (\<lambda>_.
     abind (arequire (file_open_identity after = file_open_identity opened_after) (changed_during ''identity'' action)) (\<lambda>_.
       arequire (int nread = st_size opened) (changed_during ''size'' action)))))))"

subsection \<open>The two operations\<close>

definition passive_begin :: "string \<Rightarrow> int \<Rightarrow> passive_error + string list" where
  "passive_begin relative max_bytes =
     (if max_bytes < 0 then Inl (PassiveTypeError ''passive file byte bound must be a non-negative integer'')
      else lexical_parts relative)"

definition capture_confined_regular_file ::
  "os_files \<Rightarrow> (nat list \<Rightarrow> string) \<Rightarrow> string \<Rightarrow> string \<Rightarrow> int \<Rightarrow> passive_capture passive_act" where
  "capture_confined_regular_file os sha raw relative max_bytes =
     (case passive_begin relative max_bytes of
        Inl e \<Rightarrow> araise e
      | Inr parts \<Rightarrow>
          abind (passive_opening os raw parts max_bytes) (\<lambda>f.
          abind (passive_opened os f) (\<lambda>opened.
          abind (capture_content os (po_descriptor f) max_bytes) (\<lambda>content.
          abind (passive_read_stat os ''capture'' f opened) (\<lambda>after.
          abind (passive_recheck os ''capture'' f opened after (length content)) (\<lambda>_.
            areturn \<lparr>pc_content = content, pc_size = length content, pc_sha256 = sha content\<rparr>))))))"

definition inspect_confined_regular_file ::
  "os_files \<Rightarrow> (nat list \<Rightarrow> string) \<Rightarrow> string \<Rightarrow> string \<Rightarrow> int \<Rightarrow> passive_inspection passive_act" where
  "inspect_confined_regular_file os sha raw relative max_bytes =
     (case passive_begin relative max_bytes of
        Inl e \<Rightarrow> araise e
      | Inr parts \<Rightarrow>
          abind (passive_opening os raw parts max_bytes) (\<lambda>f.
          abind (passive_opened os f) (\<lambda>opened.
          abind (inspect_content os (po_descriptor f) max_bytes) (\<lambda>(nread, fed).
          abind (passive_read_stat os ''inspection'' f opened) (\<lambda>after.
          abind (passive_recheck os ''inspection'' f opened after nread) (\<lambda>_.
            areturn \<lparr>pi_size = nread, pi_sha256 = sha fed\<rparr>))))))"

subsection \<open>Inspecting is capturing\<close>

text \<open>What a caller can tell of an outcome: the value or the code of the error, and the calls made.\<close>

definition outcome :: "(passive_error + 'a) \<times> nat \<Rightarrow> (string + 'a) \<times> nat" where
  "outcome r = (case r of (Inl e, t) \<Rightarrow> (Inl (passive_code e), t) | (Inr x, t) \<Rightarrow> (Inr x, t))"

lemma outcome_simps [simp]: "outcome (Inl e, t) = (Inl (passive_code e), t)" "outcome (Inr x, t) = (Inr x, t)"
  by (simp_all add: outcome_def)

lemma outcome_bind:
  assumes "outcome (m t) = outcome (m' t)" and "\<And>x t'. m t = (Inr x, t') \<Longrightarrow> outcome (f x t') = outcome (g x t')"
  shows "outcome (abind m f t) = outcome (abind m' g t)"
  using assms by (auto simp: abind_def outcome_def split: prod.splits sum.splits)

lemma outcome_require: "passive_code e = passive_code e' \<Longrightarrow> outcome (arequire b e t) = outcome (arequire b e' t)"
  by (simp add: arequire_def areturn_def araise_def)

lemma code_changed [simp]: "passive_code (changed_during what action) = ''changed''"
  by (simp add: changed_during_def passive_failure_def)

lemma read_stat_outcome: "outcome (passive_read_stat os a f opened t) = outcome (passive_read_stat os b f opened t)"
  unfolding passive_read_stat_def by (intro outcome_bind outcome_require) simp_all

lemma parents_outcome: "outcome (recheck_parents os a cs t) = outcome (recheck_parents os b cs t)"
  by (induction os a cs arbitrary: t rule: recheck_parents.induct)
    (simp, simp only: recheck_parents.simps, intro outcome_bind outcome_require, simp_all)

lemma recheck_outcome: "outcome (passive_recheck os a f opened after n t) = outcome (passive_recheck os b f opened after n t)"
  unfolding passive_recheck_def by (intro outcome_bind outcome_require parents_outcome) simp_all

text \<open>The two loops read the same blocks.\<close>

lemma blocks_agree:
  "inspect_blocks os d m (length (concat chunks)) (concat chunks) t =
    (case capture_blocks os d (m + 1 - int (length (concat chunks))) chunks t of
       (Inl e, t') \<Rightarrow> (Inl e, t')
     | (Inr cs, t') \<Rightarrow> (Inr (length (concat cs), concat cs), t'))"
proof (induction os d "m + 1 - int (length (concat chunks))" chunks t rule: capture_blocks.induct)
  case (1 os d chunks t)
  show ?case
  proof (cases "m < int (length (concat chunks))")
    case False
    show ?thesis
    proof (cases "os_read os t d (min (64 * 1024) (m + 1 - int (length (concat chunks))))")
      case (Some block)
      have e: "m + 1 - int (length (concat chunks)) - int (length block) = m + 1 - int (length (concat (chunks @ [block])))"
        by simp
      have "block \<noteq> [] \<Longrightarrow> ?thesis"
        using 1(1) [OF _ Some _ e] False Some
        by (subst inspect_blocks.simps, subst capture_blocks.simps) (simp add: diff_diff_eq)
      moreover have "block = [] \<Longrightarrow> ?thesis"
        using False Some by (subst inspect_blocks.simps, subst capture_blocks.simps) simp
      ultimately show ?thesis by blast
    qed (use False in \<open>subst inspect_blocks.simps, subst capture_blocks.simps, simp\<close>)
  qed (subst inspect_blocks.simps, subst capture_blocks.simps, simp)
qed

lemma content_agree:
  "inspect_content os d m t =
    (case capture_content os d m t of (Inl e, t') \<Rightarrow> (Inl e, t') | (Inr c, t') \<Rightarrow> (Inr (length c, c), t'))"
  using blocks_agree [of os d m "[]" t]
  by (simp add: inspect_content_def capture_content_def abind_def arequire_def areturn_def araise_def split: prod.splits sum.splits)

definition omap :: "('a \<Rightarrow> 'b) \<Rightarrow> (string + 'a) \<times> nat \<Rightarrow> (string + 'b) \<times> nat" where
  "omap h r = (case r of (Inl e, t) \<Rightarrow> (Inl e, t) | (Inr x, t) \<Rightarrow> (Inr (h x), t))"

lemma omap_simps [simp]: "omap h (Inl e, t) = (Inl e, t)" "omap h (Inr x, t) = (Inr (h x), t)"
  by (simp_all add: omap_def)

lemma omap_bind:
  assumes "\<And>x t'. outcome (f x t') = omap h (outcome (g x t'))"
  shows "outcome (abind m f t) = omap h (outcome (abind m g t))"
proof -
  obtain r u where "m t = (r, u)" by (cases "m t")
  then show ?thesis by (cases r) (simp_all add: abind_def assms)
qed

lemma omap_content:
  assumes "\<And>c t'. outcome (f (length c, c) t') = omap h (outcome (g c t'))"
  shows "outcome (abind (inspect_content os d m) f t) = omap h (outcome (abind (capture_content os d m) g t))"
proof -
  obtain r u where "capture_content os d m t = (r, u)" by (cases "capture_content os d m t")
  then show ?thesis by (cases r) (simp_all add: abind_def content_agree assms)
qed

lemma inspection_agrees:
  "outcome (inspect_confined_regular_file os sha raw relative m t) =
     omap (\<lambda>c. \<lparr>pi_size = pc_size c, pi_sha256 = pc_sha256 c\<rparr>) (outcome (capture_confined_regular_file os sha raw relative m t))"
proof (cases "passive_begin relative m")
  case (Inr parts)
  let ?h = "\<lambda>c. \<lparr>pi_size = pc_size c, pi_sha256 = pc_sha256 c\<rparr>"
  let ?rest = "\<lambda>a f opened n g. abind (passive_read_stat os a f opened) (\<lambda>after.
     abind (passive_recheck os a f opened after n) (\<lambda>_. areturn g))"
  have "outcome (?rest ''inspection'' f opened n (?h g) u) = outcome (?rest ''capture'' f opened n (?h g) u)" for f opened n g u
    by (intro outcome_bind read_stat_outcome recheck_outcome) simp
  also have "outcome (?rest ''capture'' f opened n (?h g) u) = omap ?h (outcome (?rest ''capture'' f opened n g u))"
    for f opened n g u
    by (intro omap_bind) (simp add: areturn_def omap_def)
  finally have rest: "outcome (?rest ''inspection'' f opened n (?h g) u) = omap ?h (outcome (?rest ''capture'' f opened n g u))"
    for f opened n g u .
  show ?thesis
    unfolding inspect_confined_regular_file_def capture_confined_regular_file_def Inr sum.case
  proof (intro omap_bind omap_content, unfold prod.case)
    fix f opened c u
    show "outcome (?rest ''inspection'' f opened (length c) \<lparr>pi_size = length c, pi_sha256 = sha c\<rparr> u) =
        omap ?h (outcome (?rest ''capture'' f opened (length c) \<lparr>pc_content = c, pc_size = length c, pc_sha256 = sha c\<rparr> u))"
      using rest [of f opened "length c" "\<lparr>pc_content = c, pc_size = length c, pc_sha256 = sha c\<rparr>" u] by simp
  qed
qed (simp add: inspect_confined_regular_file_def capture_confined_regular_file_def araise_def omap_def)

subsection \<open>What a capture has seen\<close>

text \<open>Non-empty blocks read at consecutive moments, and then the end of the file.\<close>

definition read_to_end :: "os_files \<Rightarrow> nat \<Rightarrow> nat \<Rightarrow> nat list list \<Rightarrow> bool" where
  "read_to_end os d t blocks \<longleftrightarrow>
     (\<forall>i < length blocks. blocks ! i \<noteq> [] \<and> (\<exists>n. os_read os (t + i) d n = Some (blocks ! i)))
     \<and> (\<exists>n. 0 < n \<and> os_read os (t + length blocks) d n = Some [])"

lemma read_to_end_Cons:
  assumes "os_read os t d n = Some b" "b \<noteq> []" "read_to_end os d (Suc t) bs"
  shows "read_to_end os d t (b # bs)"
  unfolding read_to_end_def
proof (intro conjI allI impI)
  fix i assume "i < length (b # bs)"
  then show "(b # bs) ! i \<noteq> []" "\<exists>n. os_read os (t + i) d n = Some ((b # bs) ! i)"
    using assms by (cases i; auto simp: read_to_end_def)+
qed (use assms in \<open>auto simp: read_to_end_def\<close>)

lemma capture_blocks_read:
  assumes "capture_blocks os d remaining chunks t = (Inr cs, t')" and "int (length (concat cs)) < remaining + int (length (concat chunks))"
  shows "\<exists>blocks. cs = chunks @ blocks \<and> read_to_end os d t blocks \<and> t' = Suc (t + length blocks)"
  using assms
proof (induction os d remaining chunks t arbitrary: cs t' rule: capture_blocks.induct)
  case (1 os d remaining chunks t)
  note ind = 1(1) and run = 1(2) [unfolded capture_blocks.simps [of os d remaining chunks t]] and short = 1(3)
  show ?case
  proof (cases "remaining \<le> 0")
    case True
    then show ?thesis using run short by simp
  next
    case False
    then obtain block where b: "os_read os t d (min (64 * 1024) remaining) = Some block"
      using run by (cases "os_read os t d (min (64 * 1024) remaining)") auto
    show ?thesis
    proof (cases "block = []")
      case True
      then have "cs = chunks" "t' = Suc t" "read_to_end os d t []"
        using run False b by (auto simp: read_to_end_def intro!: exI [of _ "min (64 * 1024) remaining"])
      then show ?thesis by auto
    next
      case ne: False
      then have r: "capture_blocks os d (remaining - int (length block)) (chunks @ [block]) (Suc t) = (Inr cs, t')"
        using run False b by simp
      obtain bs where bs: "cs = (chunks @ [block]) @ bs" "read_to_end os d (Suc t) bs" "t' = Suc (Suc t + length bs)"
        using ind [OF False b ne r] short by auto
      then show ?thesis using read_to_end_Cons [OF b ne bs(2)] by (auto intro!: exI [of _ "block # bs"])
    qed
  qed
qed

lemma capture_content_read:
  assumes "capture_content os d m t = (Inr content, t')"
  shows "int (length content) \<le> m \<and> t \<le> t' \<and> (\<exists>blocks. content = concat blocks \<and> read_to_end os d t blocks)"
  using assms capture_blocks_read [of os d "m + 1" "[]" t]
  by (fastforce simp: capture_content_def act_simps)

text \<open>The walk goes down the components, none of them a link.\<close>

definition no_links :: "os_files \<Rightarrow> nat \<Rightarrow> nat \<Rightarrow> string list \<Rightarrow> bool" where
  "no_links os t t' qs \<longleftrightarrow> (\<forall>q \<in> set qs. \<exists>u s. t \<le> u \<and> u < t' \<and> os_lstat os u q = Some s \<and> \<not> is_link s)"

lemma no_links_mono: "no_links os t t' qs \<Longrightarrow> v \<le> t \<Longrightarrow> t' \<le> v' \<Longrightarrow> no_links os v v' qs"
  unfolding no_links_def by (meson le_trans less_le_trans)

fun steps_down :: "string \<Rightarrow> string list \<Rightarrow> string list" where
  "steps_down current [] = []"
| "steps_down current (p # ps) = path_join current p # steps_down (path_join current p) ps"

lemma passive_walk_Inr:
  assumes "passive_walk os current ps t = (Inr (final, comps), t')"
  shows "final = foldl path_join current ps \<and> map fst comps = steps_down current ps \<and> t \<le> t'
    \<and> no_links os t t' (steps_down current ps)"
  using assms
proof (induction ps arbitrary: current final comps t)
  case (Cons p ps)
  obtain s cs where s: "os_lstat os t (path_join current p) = Some s" "\<not> is_link s"
    and w: "passive_walk os (path_join current p) ps (Suc t) = (Inr (final, cs), t')"
    and c: "comps = (path_join current p, path_identity s) # cs"
    using Cons.prems by (auto simp: act_simps Let_def)
  note h = Cons.IH [OF w]
  have "no_links os t t' (steps_down (path_join current p) ps)"
    using h no_links_mono [of os "Suc t" t'] by simp
  moreover have "\<exists>u s. t \<le> u \<and> u < t' \<and> os_lstat os u (path_join current p) = Some s \<and> \<not> is_link s"
    using s h by (intro exI [of _ t] exI [of _ s]) simp
  ultimately have "no_links os t t' (steps_down current (p # ps))" by (simp add: no_links_def)
  then show ?case using h c by simp
qed (simp add: act_simps no_links_def)

lemma join_part:
  assumes "CHR ''/'' \<notin> set p" "p \<noteq> ''''" "p \<noteq> ''.''"
  shows "path_parts p = [p]" "path_root p = ''''"
  using assms by (simp_all add: path_parts_def split_on_plain) (cases p; auto simp: path_root_def starts_with_def)

lemma foldl_join:
  assumes "\<forall>p \<in> set ps. CHR ''/'' \<notin> set p \<and> p \<noteq> '''' \<and> p \<noteq> ''.''"
  shows "path_root (foldl path_join a ps) = path_root a \<and> path_parts (foldl path_join a ps) = path_parts a @ ps"
  using assms
proof (induction ps arbitrary: a)
  case (Cons p ps)
  then show ?case using path_join_relative [of p a] join_part [of p] by simp
qed simp

lemma foldl_below: "relative_to (foldl path_join base (path_parts rel)) base = Some (path_parts rel)"
proof -
  have "\<forall>p \<in> set (path_parts rel). CHR ''/'' \<notin> set p \<and> p \<noteq> '''' \<and> p \<noteq> ''.''"
    by (auto dest: path_parts_no_slash path_parts_clean)
  then show ?thesis by (simp add: relative_to_Some foldl_join)
qed

lemma passive_opening_Inr:
  assumes "passive_opening os raw parts m t = (Inr f, t')"
  shows "\<exists>t0 t1. t \<le> t0 \<and> t0 \<le> t1 \<and> t' = Suc (Suc t1)
    \<and> os_realpath os t raw = Some (po_base f) \<and> po_path f = foldl path_join (po_base f) parts
    \<and> no_links os t t1 (steps_down (po_base f) parts)
    \<and> os_lstat os t1 (po_path f) = Some (po_before f) \<and> is_regular (po_before f) \<and> st_size (po_before f) \<le> m
    \<and> os_open os (Suc t1) (po_path f) = Some (po_descriptor f)"
proof -
  obtain base before path comps d t2 s where r: "os_realpath os t raw = Some base"
    and w: "passive_walk os base parts (Suc (Suc t)) = (Inr (path, comps), t2)"
    and s: "os_lstat os (Suc t2) path = Some s" "is_regular s" "st_size s \<le> m"
    and d: "os_open os (Suc (Suc t2)) path = Some d" "t' = Suc (Suc (Suc t2))"
    and f: "f = \<lparr>po_descriptor = d, po_path = path, po_base = base, po_root = before, po_components = comps, po_before = s\<rparr>"
    using assms by (auto simp: passive_opening_def passive_root_def act_simps Let_def)
  note h = passive_walk_Inr [OF w]
  have "no_links os t (Suc t2) (steps_down base parts)"
    using h no_links_mono [of os "Suc (Suc t)" t2] by simp
  then show ?thesis using h r s d f by (intro exI [of _ "Suc (Suc t)"] exI [of _ "Suc t2"]) simp
qed

text \<open>
  A stable reading: the file was the same regular file, by name and by descriptor, before it was
  opened, while it was read from its start to its end and after it was read; \<open>u\<close> are the moments of
  these observations.
\<close>

definition stable_reading ::
  "os_files \<Rightarrow> string \<Rightarrow> nat list \<Rightarrow> nat \<Rightarrow> nat \<Rightarrow> nat \<Rightarrow> nat \<Rightarrow> nat \<Rightarrow> bool" where
  "stable_reading os path content u1 u2 u3 u4 u5 \<longleftrightarrow>
     u1 < u2 \<and> u2 < u3 \<and> u3 < u4 \<and> u4 < u5
     \<and> (\<exists>d before opened read after blocks.
          os_lstat os u1 path = Some before \<and> os_open os u2 path = Some d \<and> os_fstat os u3 d = Some opened
          \<and> os_fstat os u4 d = Some read \<and> os_lstat os u5 path = Some after
          \<and> is_regular before \<and> is_regular opened
          \<and> file_open_identity opened = file_open_identity before \<and> file_open_identity read = file_open_identity before
          \<and> file_identity after = file_identity before
          \<and> content = concat blocks \<and> read_to_end os d (Suc u3) blocks \<and> int (length content) = st_size before)"

lemma recheck_parents_Inr: "recheck_parents os a cs t = (Inr u, t') \<Longrightarrow> t \<le> t'"
  by (induction os a cs arbitrary: t rule: recheck_parents.induct) (auto simp: act_simps dest!: Suc_leD)

lemma open_identity_size: "file_open_identity s = file_open_identity s' \<Longrightarrow> st_size s = st_size s'"
  by (simp add: file_open_identity_def)

lemma passive_recheck_Inr:
  assumes "passive_recheck os a f opened read_stat n t = (Inr u, t')"
  shows "\<exists>t1 after. t < t1 \<and> t' = Suc t1 \<and> os_lstat os t1 (po_path f) = Some after
    \<and> file_identity after = file_identity (po_before f) \<and> int n = st_size opened"
  using assms by (auto simp: passive_recheck_def act_simps dest!: recheck_parents_Inr)

lemma capture_parts:
  assumes "capture_confined_regular_file os sha raw relative m t = (Inr c, t')"
  shows "\<exists>base path u1 u2 u3 u4 u5. os_realpath os t raw = Some base \<and> path = foldl path_join base (path_parts relative)
    \<and> ''..'' \<notin> set (path_parts relative) \<and> no_links os t u1 (steps_down base (path_parts relative))
    \<and> stable_reading os path (pc_content c) u1 u2 u3 u4 u5 \<and> t \<le> u1 \<and> u5 < t'
    \<and> pc_size c = length (pc_content c) \<and> int (pc_size c) \<le> m \<and> pc_sha256 c = sha (pc_content c)"
proof -
  obtain f opened content after t1 t2 t3 t4 where p: "passive_begin relative m = Inr (path_parts relative)" "''..'' \<notin> set (path_parts relative)"
    and o: "passive_opening os raw (path_parts relative) m t = (Inr f, t1)"
    and s: "passive_opened os f t1 = (Inr opened, t2)"
    and r: "capture_content os (po_descriptor f) m t2 = (Inr content, t3)"
    and a: "passive_read_stat os ''capture'' f opened t3 = (Inr after, t4)"
    and k: "passive_recheck os ''capture'' f opened after (length content) t4 = (Inr (), t')"
    and c: "c = \<lparr>pc_content = content, pc_size = length content, pc_sha256 = sha content\<rparr>"
    using assms
    by (auto simp: capture_confined_regular_file_def act_simps araise_def passive_begin_def lexical_parts_def
        split: if_splits)
  obtain t0 v where ov: "t \<le> t0" "t0 \<le> v" "t1 = Suc (Suc v)" "os_realpath os t raw = Some (po_base f)"
      "po_path f = foldl path_join (po_base f) (path_parts relative)" "no_links os t v (steps_down (po_base f) (path_parts relative))"
      "os_lstat os v (po_path f) = Some (po_before f)" "is_regular (po_before f)" "os_open os (Suc v) (po_path f) = Some (po_descriptor f)"
    using passive_opening_Inr [OF o] by blast
  have os: "os_fstat os t1 (po_descriptor f) = Some opened" "t2 = Suc t1" "is_regular opened"
      "file_open_identity opened = file_open_identity (po_before f)"
    using s by (auto simp: passive_opened_def act_simps)
  obtain blocks where rd: "int (length content) \<le> m" "t2 \<le> t3" "content = concat blocks" "read_to_end os (po_descriptor f) t2 blocks"
    using capture_content_read [OF r] by blast
  have ra: "os_fstat os t3 (po_descriptor f) = Some after" "t4 = Suc t3" "file_open_identity after = file_open_identity opened"
    using a by (auto simp: passive_read_stat_def act_simps)
  obtain w last_stat where rk: "t4 < w" "t' = Suc w" "os_lstat os w (po_path f) = Some last_stat"
      "file_identity last_stat = file_identity (po_before f)" "int (length content) = st_size opened"
    using passive_recheck_Inr [OF k] by blast
  have "stable_reading os (po_path f) content v (Suc v) t1 t3 w"
    unfolding stable_reading_def using ov os rd ra rk open_identity_size [OF os(4)]
    by (intro conjI exI [of _ "po_descriptor f"] exI [of _ "po_before f"] exI [of _ opened] exI [of _ after]
        exI [of _ last_stat] exI [of _ blocks]) simp_all
  then show ?thesis using p(2) ov rk rd(1) c by fastforce
qed

subsection \<open>Properties\<close>

text \<open>C28: inspecting a file is capturing it without its content. At every moment, for every behaviour of
  the operating system, both make the same calls, fail with the same code or give the same size and
  digest.\<close>

theorem inspection_is_capture:
  "outcome (inspect_confined_regular_file os sha raw relative m t) =
   (case outcome (capture_confined_regular_file os sha raw relative m t) of
      (Inl code, t') \<Rightarrow> (Inl code, t')
    | (Inr c, t') \<Rightarrow> (Inr \<lparr>pi_size = pc_size c, pi_sha256 = pc_sha256 c\<rparr>, t'))"
  by (simp add: inspection_agrees omap_def)


definition passive_demo_os :: os_files where
  "passive_demo_os =
     \<lparr>os_cwd = ''/'',
      os_lstat = (\<lambda>t p. Some \<lparr>st_dev = 1, st_ino = (if p = ''/r'' then 2 else 3), st_mode = (if p = ''/r'' then 16877 else 33188),
                             st_size = 2, st_mtime_ns = 0, st_ctime_ns = 0\<rparr>),
      os_realpath = (\<lambda>t p. Some p), os_open = (\<lambda>t p. Some 5),
      os_fstat = (\<lambda>t d. Some \<lparr>st_dev = 1, st_ino = 3, st_mode = 33188, st_size = 2, st_mtime_ns = 0, st_ctime_ns = 0\<rparr>),
      os_read = (\<lambda>t d n. Some (if t = 7 then [104, 105] else []))\<rparr>"

lemma passive_demo_run:
  "capture_confined_regular_file passive_demo_os (\<lambda>_. ''h'') ''/r'' ''f'' 10 0 =
    (Inr \<lparr>pc_content = [104, 105], pc_size = 2, pc_sha256 = ''h''\<rparr>, 12)"
  by code_simp


end
