(* ===== verification/Report.thy ===== *)
theory Report
  imports ResearchAudit
begin

section \<open>Reports\<close>

text \<open>
  \<^verbatim>\<open>claimci/report.py\<close>: the human-readable, the JSON and the Markdown report of an audit. Evidence is
  first made safe for JSON: non-finite numbers and foreign objects become text, sets become sorted
  lists and nesting is bounded. The values of the model are trees, so no container is inside itself.
  Integers have fewer digits than the interpreter converts. The lemmas show that a report can always be
  rendered and what the escaping of artifact text guarantees.
\<close>

subsection \<open>Values that JSON can hold\<close>

text \<open>\<^verbatim>\<open>repr\<close> and \<^verbatim>\<open>str\<close> of the values that can remain as a key.\<close>

fun py_repr :: "pyval \<Rightarrow> string" where
  "py_repr PNone = ''None''"
| "py_repr (PBool b) = (if b then ''True'' else ''False'')"
| "py_repr (PInt i) = show_int i"
| "py_repr (PFloat x) = flt_repr x"
| "py_repr (PStr s) = str_repr s"
| "py_repr (POther s) = s"
| "py_repr (PList vs) = ''['' @ join '', '' (map py_repr vs) @ '']''"
| "py_repr (PTuple vs) = ''('' @ join '', '' (map py_repr vs) @ (if length vs = 1 then '','' else '''') @ '')''"
| "py_repr (PSet vs) = (if vs = [] then ''set()'' else ''{'' @ join '', '' (map py_repr vs) @ ''}'')"
| "py_repr (PDict d) = ''{'' @ join '', '' (map (\<lambda>(k, v). py_repr k @ '': '' @ py_repr v) d) @ ''}''"

definition py_str :: "pyval \<Rightarrow> string" where
  "py_str v = (case v of PStr s \<Rightarrow> s | _ \<Rightarrow> py_repr v)"

definition max_report_depth :: nat where "max_report_depth = 256"

definition stable_json_sort_key :: "pyval \<Rightarrow> string" where
  "stable_json_sort_key v = (case json_dumps json_escape v of Inr t \<Rightarrow> t | Inl _ \<Rightarrow> py_repr v)"

text \<open>A dict built from items: a later value replaces an earlier one under the same key.\<close>

definition dict_items :: "(string \<times> pyval) list \<Rightarrow> (string \<times> pyval) list" where
  "dict_items ps = foldl (\<lambda>acc (k, v). al_set k v acc) [] ps"

fun json_normalize :: "nat \<Rightarrow> pyval \<Rightarrow> pyval" where
  "json_normalize depth (PFloat x) =
     (if max_report_depth < depth then PStr ''<maximum report nesting depth>''
      else case x of FNan \<Rightarrow> PStr ''NaN'' | FInf s \<Rightarrow> PStr (if s then ''-Infinity'' else ''Infinity'') | _ \<Rightarrow> PFloat x)"
| "json_normalize depth (PList vs) =
     (if max_report_depth < depth then PStr ''<maximum report nesting depth>''
      else PList (map (json_normalize (Suc depth)) vs))"
| "json_normalize depth (PTuple vs) =
     (if max_report_depth < depth then PStr ''<maximum report nesting depth>''
      else PList (map (json_normalize (Suc depth)) vs))"
| "json_normalize depth (PSet vs) =
     (if max_report_depth < depth then PStr ''<maximum report nesting depth>''
      else PList (sort_key stable_json_sort_key (map (json_normalize (Suc depth)) vs)))"
| "json_normalize depth (PDict d) =
     (if max_report_depth < depth then PStr ''<maximum report nesting depth>''
      else pdict (dict_items (map (\<lambda>(k, v). (py_str (json_normalize 0 k), json_normalize (Suc depth) v)) d)))"
| "json_normalize depth (POther s) =
     (if max_report_depth < depth then PStr ''<maximum report nesting depth>'' else PStr s)"
| "json_normalize depth v =
     (if max_report_depth < depth then PStr ''<maximum report nesting depth>'' else v)"

definition json_safe :: "pyval \<Rightarrow> pyval" where
  "json_safe v = json_normalize 0 v"

definition json_key :: "pyval \<Rightarrow> string" where
  "json_key v = py_str (json_safe v)"

subsection \<open>Texts\<close>

definition uses_percentage_points :: "string \<Rightarrow> bool" where
  "uses_percentage_points metric = (casefold metric = ''accuracy'')"

definition threshold_text :: "string \<Rightarrow> flt \<Rightarrow> string" where
  "threshold_text metric threshold =
     (if uses_percentage_points metric then fmt_fixed 2 (fmul100 threshold) @ '' percentage points''
      else fmt_fixed 6 threshold @ '' metric units'')"

definition summary_text :: "string \<Rightarrow> metric_summary option \<Rightarrow> string" where
  "summary_text label s =
     (case s of
        None \<Rightarrow> ''- '' @ label @ '': unavailable''
      | Some m \<Rightarrow> ''- '' @ label @ '': count='' @ show_nat (ms_count m) @ '', mean='' @ fmt_fixed 6 (ms_mean m)
          @ '', sample stddev='' @ (case ms_stdev m of None \<Rightarrow> ''unavailable'' | Some d \<Rightarrow> fmt_fixed 6 d))"

definition evidence_text :: "finding \<Rightarrow> string + string" where
  "evidence_text f = json_dumps json_escape (json_safe (pdict (evidence f)))"

definition finding_text :: "finding \<Rightarrow> string + string" where
  "finding_text f =
     sbind (evidence_text f) (\<lambda>e.
       Inr (''- ['' @ rule_id f @ ''] '' @ title f @ '': '' @ explanation f @ '' Evidence: '' @ e))"

definition severity_order :: "severity list" where
  "severity_order = [CRITICAL, WARNING, VERIFIED, INFO]"

definition of_severity :: "severity \<Rightarrow> finding list \<Rightarrow> finding list" where
  "of_severity s fs = filter (\<lambda>f. severity f = s) fs"

subsection \<open>The human-readable report\<close>

text \<open>The lines of the findings of every severity that has any.\<close>

definition grouped_lines ::
  "(severity \<Rightarrow> string list) \<Rightarrow> (finding \<Rightarrow> string + string list) \<Rightarrow> string list \<Rightarrow> finding list \<Rightarrow> string + string list" where
  "grouped_lines heading render closing fs =
     sbind (smap (\<lambda>s. if of_severity s fs = [] then Inr []
                       else sbind (smap render (of_severity s fs)) (\<lambda>ls. Inr (heading s @ concat ls @ closing)))
              severity_order) (\<lambda>groups. Inr (concat groups))"

definition improvement_line :: "string \<Rightarrow> flt option \<Rightarrow> string" where
  "improvement_line metric improvement =
     (case improvement of
        None \<Rightarrow> ''- Absolute improvement: unavailable''
      | Some x \<Rightarrow>
          (if uses_percentage_points metric
           then ''- Absolute improvement: '' @ fmt_fixed 6 x @ '' ('' @ fmt_fixed 2 (fmul100 x) @ '' percentage points)''
           else ''- Absolute improvement: '' @ fmt_fixed 6 x @ '' metric units''))"

definition human_lines :: "audit_result \<Rightarrow> string list" where
  "human_lines r =
     [''ClaimCI Audit'', [], ''Claim:'',
      ''candidate '' @ (if ar_direction r = HIGHER then ''improves'' else ''lowers'') @ '' '' @ ar_metric r @ '' by >= ''
        @ threshold_text (ar_metric r) (ar_minimum r),
      [], ''Verdict:'', replace_char (CHR ''_'') '' '' (verdict_value (ar_verdict r)), [], ''Metrics:'',
      summary_text ''Baseline'' (ar_baseline r), summary_text ''Candidate'' (ar_candidate r)]
     @ (if ar_direction r = LOWER then [[], ''Direction: lower (lower is better)''] else [])
     @ [improvement_line (ar_metric r) (ar_absolute r),
        (case ar_relative r of None \<Rightarrow> ''- Relative improvement: unavailable''
         | Some x \<Rightarrow> ''- Relative improvement: '' @ fmt_pct 2 x)]"

definition render_human :: "audit_result \<Rightarrow> string + string" where
  "render_human r =
     sbind (grouped_lines (\<lambda>s. [[], severity_value s]) (\<lambda>f. sbind (finding_text f) (\<lambda>t. Inr [t])) [] (ar_findings r))
       (\<lambda>ls. Inr (join nl (human_lines r @ ls) @ nl))"

subsection \<open>The JSON report\<close>

text \<open>\<^verbatim>\<open>json.dumps\<close> with sorted keys and an indentation of two spaces.\<close>

definition indent :: "nat \<Rightarrow> string" where "indent n = replicate (2 * n) (CHR '' '')"

definition json_block :: "nat \<Rightarrow> string \<Rightarrow> string \<Rightarrow> string list \<Rightarrow> string" where
  "json_block n left right ts =
     (if ts = [] then left @ right
      else left @ nl @ indent (Suc n) @ join ('','' @ nl @ indent (Suc n)) ts @ nl @ indent n @ right)"

fun json_pretty :: "(char \<Rightarrow> string) \<Rightarrow> nat \<Rightarrow> pyval \<Rightarrow> string + string" where
  "json_pretty esc n (PList vs) =
     sbind (smap (json_pretty esc (Suc n)) vs) (\<lambda>ts. Inr (json_block n ''['' '']'' ts))"
| "json_pretty esc n (PTuple vs) =
     sbind (smap (json_pretty esc (Suc n)) vs) (\<lambda>ts. Inr (json_block n ''['' '']'' ts))"
| "json_pretty esc n (PDict d) =
     sbind (smap (\<lambda>(k, v). sbind (json_pretty esc (Suc n) v) (\<lambda>t. Inr (json_quote esc (dict_key k) @ '': '' @ t)))
              (sort_key (\<lambda>(k, v). dict_key k) d))
       (\<lambda>ts. Inr (json_block n ''{'' ''}'' ts))"
| "json_pretty esc n v = json_dumps esc v"

definition metric_dict :: "metric_summary option \<Rightarrow> pyval" where
  "metric_dict s =
     (case s of None \<Rightarrow> PNone
      | Some m \<Rightarrow> pdict [(''count'', pnat (ms_count m)), (''mean'', PFloat (ms_mean m)), (''standard_deviation'', opt_flt (ms_stdev m))])"

definition overlap_dict :: "overlap_summary \<Rightarrow> pyval" where
  "overlap_dict s =
     pdict [(''experiment'', PStr (ov_experiment s)), (''train_count'', pnat (train_count s)), (''eval_count'', pnat (eval_count s)),
            (''overlap_count'', pnat (overlap_count s)), (''overlap_rate'', PFloat (overlap_rate s)),
            (''overlapping_hashes'', PTuple (map PStr (overlapping_hashes s)))]"

definition finding_dict :: "finding \<Rightarrow> pyval" where
  "finding_dict f =
     pdict [(''rule_id'', PStr (rule_id f)), (''severity'', PStr (severity_value (severity f))),
            (''impact'', PStr (impact_value (impact f))), (''title'', PStr (title f)),
            (''explanation'', PStr (explanation f)), (''evidence'', pdict (evidence f))]"

definition report_payload :: "audit_result \<Rightarrow> pyval" where
  "report_payload r =
     pdict ([(''manifest'', PStr (ar_manifest r)),
             (''claim'', pdict ([(''metric'', PStr (ar_metric r)), (''minimum_improvement'', PFloat (ar_minimum r))]
                @ (if ar_direction r = LOWER then [(''direction'', PStr (direction_value LOWER))] else []))),
             (''verdict'', PStr (verdict_value (ar_verdict r))),
             (''metrics'', pdict [(''baseline'', metric_dict (ar_baseline r)), (''candidate'', metric_dict (ar_candidate r)),
                                 (''absolute_improvement'', opt_flt (ar_absolute r)), (''relative_improvement'', opt_flt (ar_relative r))]),
             (''overlaps'', PList (map overlap_dict (ar_overlaps r))),
             (''findings'', PList (map finding_dict (ar_findings r)))]
            @ (case ar_drift r of None \<Rightarrow> [] | Some d \<Rightarrow> [(''measurement_drift'', measurement_report_to_jsonable d)]))"

definition render_json :: "audit_result \<Rightarrow> string + string" where
  "render_json r = sbind (json_pretty json_escape_ascii 0 (json_safe (report_payload r))) (\<lambda>t. Inr (t @ nl))"

subsection \<open>The Markdown report\<close>

definition encode :: "(char \<times> string) list \<Rightarrow> string \<Rightarrow> string" where
  "encode table s = foldl (\<lambda>t (c, e). replace_char c e t) s table"

text \<open>\<^verbatim>\<open>html.escape\<close>, without and with quotation marks.\<close>

definition html_table :: "bool \<Rightarrow> (char \<times> string) list" where
  "html_table quotes =
     [(CHR ''&'', ''&amp;''), (CHR ''<'', ''&lt;''), (CHR ''>'', ''&gt;'')]
     @ (if quotes then [(dquote, ''&quot;''), (chr_of 39, ''&#x27;'')] else [])"

definition text_table :: "(char \<times> string) list" where
  "text_table =
     [(CHR ''|'', ''&#124;''), (CHR 0x60, ''&#96;''), (CHR ''['', ''&#91;''), (CHR '']'', ''&#93;''), (CHR ''('', ''&#40;''),
      (CHR '')'', ''&#41;''), (CHR ''*'', ''&#42;''), (CHR ''_'', ''&#95;''), (CHR '':'', ''&#58;'')]"

definition code_table :: "(char \<times> string) list" where
  "code_table =
     [(CHR ''|'', ''&#124;''), (CHR 0x60, ''&#96;''), (CHR ''['', ''&#91;''), (CHR '']'', ''&#93;''), (CHR ''*'', ''&#42;''),
      (CHR ''_'', ''&#95;''), (CHR ''~'', ''&#126;''), (CHR '':'', ''&#58;'')]"

definition line_breaks :: "string \<Rightarrow> string" where
  "line_breaks s = replace_char lf ''<br>'' (replace_char cr ''<br>'' (replace_crlf ''<br>'' s))"

definition markdown_text :: "string \<Rightarrow> string" where
  "markdown_text s = line_breaks (encode text_table (encode (html_table True) s))"

definition markdown_code :: "string \<Rightarrow> string" where
  "markdown_code s = ''<code>'' @ encode code_table (encode (html_table False) s) @ ''</code>''"

definition markdown_number :: "flt option \<Rightarrow> string" where
  "markdown_number x = (case x of None \<Rightarrow> ''unavailable'' | Some v \<Rightarrow> fmt_fixed 6 v)"

definition markdown_stddev :: "metric_summary option \<Rightarrow> string" where
  "markdown_stddev s =
     (case s of None \<Rightarrow> ''unavailable''
      | Some m \<Rightarrow> (case ms_stdev m of None \<Rightarrow> ''unavailable'' | Some d \<Rightarrow> fmt_fixed 6 d))"

definition verdict_presentation :: "verdict \<Rightarrow> string \<times> string" where
  "verdict_presentation v =
     (case v of
        SUPPORTED \<Rightarrow> (''PASS'', ''The declared claim is supported by every required check.'')
      | NOT_SUPPORTED \<Rightarrow> (''FAIL'', ''The declared claim is not supported by the audited evidence.'')
      | INSUFFICIENT_EVIDENCE \<Rightarrow>
          (''ACTION REQUIRED'', ''More or valid evidence is required before this claim can pass.''))"

definition tick :: string where "tick = [CHR 0x60]"

definition markdown_finding :: "finding \<Rightarrow> string + string list" where
  "markdown_finding f =
     sbind (evidence_text f) (\<lambda>e.
       Inr [''- '' @ tick @ rule_id f @ tick @ '' - **'' @ markdown_text (title f) @ ''**'',
            ''  - '' @ markdown_text (explanation f), ''  - Evidence: '' @ markdown_code e])"

definition metric_row :: "string \<Rightarrow> metric_summary option \<Rightarrow> string" where
  "metric_row label s =
     ''| '' @ label @ '' | '' @ (case s of None \<Rightarrow> ''unavailable'' | Some m \<Rightarrow> show_nat (ms_count m)) @ '' | ''
       @ markdown_number (map_option ms_mean s) @ '' | '' @ markdown_stddev s @ '' |''"

definition markdown_head :: "audit_result \<Rightarrow> string list" where
  "markdown_head r =
     (case verdict_presentation (ar_verdict r) of (icon, interpretation) \<Rightarrow>
       [''## ClaimCI Audit'', [], ''### '' @ icon @ '' '' @ tick @ verdict_value (ar_verdict r) @ tick, [],
        interpretation, [], ''### Claim'', [], ''| Field | Value |'', ''|---|---:|'',
        ''| Metric | '' @ markdown_code (ar_metric r) @ '' |'',
        ''| Direction | '' @ tick @ direction_value (ar_direction r) @ tick @ '' ('' @
          (if ar_direction r = HIGHER then ''higher is better'' else ''lower is better'') @ '') |'',
        ''| Required directional improvement | '' @ tick @ fmt_fixed 6 (ar_minimum r) @ tick @ '' ('' @
          markdown_text (threshold_text (ar_metric r) (ar_minimum r)) @ '') |'',
        [], ''### Recomputed metrics'', [], ''| Experiment | Runs | Mean | Sample standard deviation |'',
        ''|---|---:|---:|---:|'', metric_row ''Baseline'' (ar_baseline r), metric_row ''Candidate'' (ar_candidate r), []])"

definition markdown_improvement :: "audit_result \<Rightarrow> string list" where
  "markdown_improvement r =
     [(case ar_absolute r of
         None \<Rightarrow> ''- **Directional improvement:** unavailable''
       | Some x \<Rightarrow>
           ''- **Directional improvement:** '' @ tick @ fmt_fixed 6 x @ tick
             @ (if uses_percentage_points (ar_metric r) then '' ('' @ fmt_fixed 2 (fmul100 x) @ '' percentage points)''
                else '' metric units'')),
      (case ar_relative r of
         None \<Rightarrow> ''- **Relative improvement:** unavailable''
       | Some x \<Rightarrow> ''- **Relative improvement:** '' @ tick @ fmt_fixed 6 x @ tick @ '' ('' @ fmt_pct 2 x @ '')'')]"

definition decision_drivers :: "audit_result \<Rightarrow> string + string list" where
  "decision_drivers r =
     (let drivers = filter (\<lambda>f. impact f \<noteq> NONE) (ar_findings r)
      in if drivers = [] then Inr [''- No invalidating or insufficient-evidence findings.'']
         else sbind (smap markdown_finding drivers) (\<lambda>ls. Inr (concat ls)))"

definition render_markdown :: "audit_result \<Rightarrow> string + string" where
  "render_markdown r =
     sbind (decision_drivers r) (\<lambda>drivers.
     sbind (grouped_lines (\<lambda>s. [''#### '' @ severity_value s, []]) markdown_finding [[]] (ar_findings r)) (\<lambda>groups.
       Inr (join nl (markdown_head r @ markdown_improvement r @ [[], ''### Decision drivers'', []] @ drivers
              @ [[], ''<details>'', ''<summary>All audit findings</summary>'', []] @ groups @ [''</details>'', []]))))"

subsection \<open>Every report can be rendered\<close>

lemma smap_Inr_all: "(\<And>x. x \<in> set xs \<Longrightarrow> \<exists>y. f x = Inr y) \<Longrightarrow> \<exists>ys. smap f xs = Inr ys"
proof (induction xs)
  case (Cons x xs)
  obtain y where "f x = Inr y" using Cons.prems by auto
  moreover obtain ys where "smap f xs = Inr ys" using Cons by auto
  ultimately show ?case by simp
qed simp

lemma al_set_values: "snd ` set (al_set k v d) \<subseteq> insert v (snd ` set d)"
  by (induction k v d rule: al_set.induct) auto

lemma dict_items_values: "snd ` set (dict_items ps) \<subseteq> snd ` set ps"
proof -
  have "snd ` set (foldl (\<lambda>acc (k, v). al_set k v acc) acc ps) \<subseteq> snd ` set acc \<union> snd ` set ps" for acc
  proof (induction ps arbitrary: acc)
    case (Cons p ps)
    obtain k v where p: "p = (k, v)" by (cases p)
    have "snd ` set (foldl (\<lambda>acc (k, v). al_set k v acc) (al_set k v acc) ps) \<subseteq> snd ` set (al_set k v acc) \<union> snd ` set ps"
      by (rule Cons.IH)
    also have "\<dots> \<subseteq> snd ` set acc \<union> snd ` set (p # ps)" using al_set_values [of k v acc] by (auto simp: p)
    finally show ?case by (simp add: p)
  qed auto
  from this [of "[]"] show ?thesis by (simp add: dict_items_def)
qed

lemma sbind_total: "\<lbrakk>\<exists>x. r = Inr x; \<And>x. \<exists>y. f x = Inr y\<rbrakk> \<Longrightarrow> \<exists>y. sbind r f = Inr y"
  by auto

definition printable :: "(pyval \<Rightarrow> string + string) \<Rightarrow> pyval \<Rightarrow> bool" where
  "printable pr v \<longleftrightarrow> (\<exists>t. pr v = Inr t)"

lemma dict_printable:
  assumes "\<forall>v \<in> snd ` set d. printable pr v"
  shows "\<exists>ts. smap (\<lambda>(k, v). sbind (pr v) (\<lambda>t. Inr (g k t))) (sort_key (\<lambda>(k, v). dict_key k) (map (\<lambda>(k, v). (PStr k, v)) d)) = Inr ts"
proof (rule smap_Inr_all)
  fix x assume "x \<in> set (sort_key (\<lambda>(k, v). dict_key k) (map (\<lambda>(k, v). (PStr k, v)) d))"
  then have "x \<in> (\<lambda>(k, v). (PStr k, v)) ` set d" by (simp only: set_sort set_map)
  then obtain k v where "x = (PStr k, v)" "(k, v) \<in> set d" by auto
  then show "\<exists>y. (\<lambda>(k, v). sbind (pr v) (\<lambda>t. Inr (g k t))) x = Inr y" using assms by (force simp: printable_def)
qed

lemma json_normalize_printable:
  "printable (json_dumps esc) (json_normalize n v) \<and> (\<forall>m. printable (json_pretty esc m) (json_normalize n v))"
proof (induction v arbitrary: n)
  case (PFloat x)
  then show ?case by (cases x) (auto simp: printable_def)
next
  case (PList vs)
  have a: "\<exists>ts. smap (json_dumps esc) (map (json_normalize (Suc n)) vs) = Inr ts"
    by (rule smap_Inr_all) (use PList in \<open>auto simp: printable_def\<close>)
  have b: "\<exists>ts. smap (json_pretty esc m) (map (json_normalize (Suc n)) vs) = Inr ts" for m
    by (rule smap_Inr_all) (use PList in \<open>auto simp: printable_def\<close>)
  from a b show ?case by (auto simp: printable_def sbind_eq_Inr)
next
  case (PTuple vs)
  have a: "\<exists>ts. smap (json_dumps esc) (map (json_normalize (Suc n)) vs) = Inr ts"
    by (rule smap_Inr_all) (use PTuple in \<open>auto simp: printable_def\<close>)
  have b: "\<exists>ts. smap (json_pretty esc m) (map (json_normalize (Suc n)) vs) = Inr ts" for m
    by (rule smap_Inr_all) (use PTuple in \<open>auto simp: printable_def\<close>)
  from a b show ?case by (auto simp: printable_def sbind_eq_Inr)
next
  case (PSet vs)
  let ?ws = "sort_key stable_json_sort_key (map (json_normalize (Suc n)) vs)"
  have s: "set ?ws = json_normalize (Suc n) ` set vs" by (simp only: set_sort set_map)
  have a: "\<exists>ts. smap (json_dumps esc) ?ws = Inr ts"
    by (rule smap_Inr_all) (use PSet s in \<open>auto simp: printable_def\<close>)
  have b: "\<exists>ts. smap (json_pretty esc m) ?ws = Inr ts" for m
    by (rule smap_Inr_all) (use PSet s in \<open>auto simp: printable_def\<close>)
  from a b show ?case by (auto simp: printable_def sbind_eq_Inr)
next
  case (PDict d)
  let ?ps = "map (\<lambda>(k, v). (py_str (json_normalize 0 k), json_normalize (Suc n) v)) d"
  have v: "\<forall>w \<in> snd ` set (dict_items ?ps). printable (json_dumps esc) w \<and> (\<forall>m. printable (json_pretty esc m) w)"
  proof
    fix w assume "w \<in> snd ` set (dict_items ?ps)"
    then have "w \<in> snd ` set ?ps" using dict_items_values by blast
    then obtain k u where "(k, u) \<in> set d" "w = json_normalize (Suc n) u" by auto
    then show "printable (json_dumps esc) w \<and> (\<forall>m. printable (json_pretty esc m) w)" using PDict(2) by force
  qed
  show ?case
    using dict_printable [of "dict_items ?ps" "json_dumps esc" "\<lambda>k t. json_quote esc (dict_key k) @ '':'' @ t"]
      dict_printable [of "dict_items ?ps" "json_pretty esc _" "\<lambda>k t. json_quote esc (dict_key k) @ '': '' @ t"] v
    by (auto simp: printable_def pdict_def sbind_eq_Inr)
qed (auto simp: printable_def)

lemma evidence_printed: "\<exists>t. evidence_text f = Inr t"
  using json_normalize_printable [of json_escape 0] by (simp add: evidence_text_def json_safe_def printable_def)

lemma grouped_lines_printed:
  assumes "\<And>f. \<exists>ls. render f = Inr ls"
  shows "\<exists>ls. grouped_lines heading render closing fs = Inr ls"
  unfolding grouped_lines_def
  by (intro sbind_total smap_Inr_all) (auto intro!: sbind_total smap_Inr_all assms)

lemma markdown_finding_printed: "\<exists>ls. markdown_finding f = Inr ls"
  unfolding markdown_finding_def by (intro sbind_total evidence_printed) simp

lemma reports_printed:
  "(\<exists>t. render_human r = Inr t) \<and> (\<exists>t. render_json r = Inr t) \<and> (\<exists>t. render_markdown r = Inr t)"
proof (intro conjI)
  show "\<exists>t. render_human r = Inr t"
    unfolding render_human_def finding_text_def
    by (intro sbind_total grouped_lines_printed evidence_printed) simp_all
  show "\<exists>t. render_json r = Inr t"
    using json_normalize_printable [of json_escape_ascii 0] by (auto simp: render_json_def json_safe_def printable_def sbind_eq_Inr)
  have "\<exists>ls. decision_drivers r = Inr ls"
    unfolding decision_drivers_def Let_def
    by (auto intro!: sbind_total smap_Inr_all markdown_finding_printed)
  then show "\<exists>t. render_markdown r = Inr t"
    unfolding render_markdown_def by (intro sbind_total grouped_lines_printed markdown_finding_printed) simp_all
qed

subsection \<open>Escaped text\<close>

text \<open>Line breaks as one character, and the text a reader of the escaped form sees.\<close>

definition plain_lines :: "string \<Rightarrow> string" where
  "plain_lines s = replace_char cr nl (replace_crlf nl s)"

definition entities :: "(string \<times> char) list" where
  "entities =
     [(''<br>'', lf), (''&amp;'', CHR ''&''), (''&lt;'', CHR ''<''), (''&gt;'', CHR ''>''), (''&quot;'', dquote),
      (''&#x27;'', chr_of 39)] @ map (\<lambda>(c, e). (e, c)) text_table"

function html_read :: "string \<Rightarrow> string" where
  "html_read s =
     (case s of
        [] \<Rightarrow> []
      | c # cs \<Rightarrow>
          (case find (\<lambda>(e, _). starts_with e s) entities of
             None \<Rightarrow> c # html_read cs
           | Some (e, r) \<Rightarrow> r # html_read (drop (length e - 1) cs)))"
  by pat_completeness auto
termination by (relation "measure length") auto

declare html_read.simps [simp del]

text \<open>The escaping of one character.\<close>

definition escaped :: "char \<Rightarrow> string" where
  "escaped c = encode text_table (encode (html_table True) [c])"

lemma replace_char_append: "replace_char c e (s @ t) = replace_char c e s @ replace_char c e t"
  by (simp add: replace_char_def)

lemma encode_append: "encode table (s @ t) = encode table s @ encode table t"
  by (induction table arbitrary: s t) (auto simp: encode_def replace_char_append)

lemma encode_Nil: "encode table [] = []"
  by (induction table) (auto simp: encode_def replace_char_def)

lemma escape_chars: "encode text_table (encode (html_table True) s) = concat (map escaped s)"
proof (induction s)
  case (Cons c s)
  have "encode text_table (encode (html_table True) ([c] @ s)) = escaped c @ concat (map escaped s)"
    by (simp only: encode_append Cons) (simp only: escaped_def [of c])
  then show ?case by simp
qed (simp add: encode_Nil)

text \<open>The characters with a meaning in Markdown or HTML.\<close>

definition active :: string where
  "active = ''&<>|[]()*_:'' @ [CHR 0x60, dquote, chr_of 39]"

lemma escaped_other: "c \<notin> set active \<Longrightarrow> escaped c = [c]"
  by (simp add: escaped_def encode_def replace_char_def html_table_def text_table_def active_def)

lemma escaped_table:
  "list_all (\<lambda>c. (escaped c, c) \<in> set entities
     \<and> list_all (\<lambda>d. d = CHR ''&'' \<or> d \<notin> set active \<and> d \<noteq> lf \<and> d \<noteq> cr) (escaped c)) active"
  by code_simp

lemma escaped_active:
  assumes "c \<in> set active"
  shows "(escaped c, c) \<in> set entities" "d \<in> set (escaped c) \<Longrightarrow> d = CHR ''&'' \<or> d \<notin> set active \<and> d \<noteq> lf \<and> d \<noteq> cr"
  using escaped_table assms by (simp_all add: list_all_iff)

lemma plain_chars: "list_all (\<lambda>c. c \<noteq> cr \<and> c \<noteq> lf) ''&<br>''"
  by code_simp

definition marked :: "char \<Rightarrow> string" where
  "marked c = (if c = lf then ''<br>'' else escaped c)"

lemma no_break: "c \<noteq> cr \<Longrightarrow> c \<noteq> lf \<Longrightarrow> d \<in> set (escaped c) \<Longrightarrow> d \<noteq> cr \<and> d \<noteq> lf"
proof (cases "c \<in> set active")
  case True
  assume "d \<in> set (escaped c)"
  then have "d = CHR ''&'' \<or> d \<noteq> lf \<and> d \<noteq> cr" using escaped_active(2) [OF True] by blast
  then show ?thesis using plain_chars by (auto simp: list_all_iff)
qed (simp add: escaped_other)

lemma escaped_breaks: "escaped cr = [cr]" "escaped lf = [lf]"
  by (code_simp, code_simp)

lemma char_code_iff: "n < 256 \<Longrightarrow> char_code c = n \<longleftrightarrow> c = chr_of n"
  by (auto simp: char_code_def chr_of_def)

lemma code_breaks: "char_code c = 13 \<longleftrightarrow> c = cr" "char_code c = 10 \<longleftrightarrow> c = lf"
  by (simp_all add: char_code_iff cr_def lf_def)

lemma break_neq: "lf \<noteq> cr" "cr \<noteq> lf"
  by (simp_all add: lf_def cr_def chr_of_def)

lemma crlf_skip: "c \<noteq> cr \<Longrightarrow> replace_crlf r (c # s) = c # replace_crlf r s"
  by (cases s) (auto simp: code_breaks)

lemma crlf_both: "replace_crlf r (cr # lf # s) = r @ replace_crlf r s"
  by (simp add: code_breaks)

lemma crlf_single: "take 1 s \<noteq> [lf] \<Longrightarrow> replace_crlf r (cr # s) = cr # replace_crlf r s"
  by (cases s) (auto simp: code_breaks)

lemma crlf_prefix: "cr \<notin> set p \<Longrightarrow> replace_crlf r (p @ s) = p @ replace_crlf r s"
  by (induction p) (auto simp: crlf_skip)

lemma replace_fresh: "c \<notin> set p \<Longrightarrow> replace_char c e p = p"
  by (induction p) (auto simp: replace_char_def)

lemma replace_char_Nil: "replace_char c e [] = []"
  by (simp add: replace_char_def)

lemma replace_char_single: "replace_char c e (c # s) = e @ replace_char c e s"
  by (simp add: replace_char_def)

lemma plain_lines_simps:
  "plain_lines [] = []" "plain_lines (cr # lf # s) = lf # plain_lines s"
  "take 1 s \<noteq> [lf] \<Longrightarrow> plain_lines (cr # s) = lf # plain_lines s"
  "c \<noteq> cr \<Longrightarrow> plain_lines (c # s) = c # plain_lines s"
proof -
  have c: "cr \<notin> set nl" using break_neq by (simp add: nl_def lf_def)
  show "plain_lines [] = []" by (simp add: plain_lines_def replace_char_def)
  show "plain_lines (cr # lf # s) = lf # plain_lines s"
    by (simp only: plain_lines_def crlf_both replace_char_append replace_fresh [OF c]) (simp add: nl_def lf_def)
  show "plain_lines (cr # s) = lf # plain_lines s" if h: "take 1 s \<noteq> [lf]" for s
    by (simp only: plain_lines_def crlf_single [OF h] replace_char_single) (simp add: nl_def lf_def)
  show "plain_lines (c # s) = c # plain_lines s" if h: "c \<noteq> cr"
    using h by (simp add: plain_lines_def crlf_skip [OF h] replace_char_def)
qed

lemma line_breaks_simps:
  "line_breaks [] = []" "line_breaks (cr # lf # s) = ''<br>'' @ line_breaks s"
  "take 1 s \<noteq> [lf] \<Longrightarrow> line_breaks (cr # s) = ''<br>'' @ line_breaks s"
  "line_breaks (lf # s) = ''<br>'' @ line_breaks s"
  "cr \<notin> set p \<Longrightarrow> lf \<notin> set p \<Longrightarrow> line_breaks (p @ s) = p @ line_breaks s"
proof -
  have br: "cr \<notin> set ''<br>''" "lf \<notin> set ''<br>''" using plain_chars by (auto simp: list_all_iff)
  show "line_breaks [] = []" by (simp add: line_breaks_def replace_char_def)
  show "line_breaks (cr # lf # s) = ''<br>'' @ line_breaks s"
    by (simp only: line_breaks_def crlf_both replace_char_append replace_fresh [OF br(1)] replace_fresh [OF br(2)])
  show "line_breaks (cr # s) = ''<br>'' @ line_breaks s" if h: "take 1 s \<noteq> [lf]" for s
    by (simp only: line_breaks_def crlf_single [OF h] replace_char_single replace_char_append replace_fresh [OF br(1)] replace_fresh [OF br(2)])
  show "line_breaks (lf # s) = ''<br>'' @ line_breaks s"
    using break_neq by (simp add: line_breaks_def crlf_skip replace_char_def)
  show "cr \<notin> set p \<Longrightarrow> lf \<notin> set p \<Longrightarrow> line_breaks (p @ s) = p @ line_breaks s"
    by (simp add: line_breaks_def crlf_prefix replace_char_append replace_fresh)
qed

lemma marked_lf: "marked lf = ''<br>''"
  by (simp add: marked_def)

lemma escaped_head: "c \<noteq> lf \<Longrightarrow> take 1 (escaped c @ t) \<noteq> [lf]"
proof (cases "c \<in> set active")
  case True
  have "list_all (\<lambda>c. take 1 (escaped c) = ''&'') active" by code_simp
  then have "take 1 (escaped c) = ''&''" using True by (simp add: list_all_iff)
  then have "take 1 (escaped c @ t) = ''&''" by (cases "escaped c") auto
  then show ?thesis using plain_chars by auto
qed (simp add: escaped_other)

lemma markdown_text_marked: "line_breaks (concat (map escaped s)) = concat (map marked (plain_lines s))"
proof (induction s rule: length_induct)
  case (1 s)
  note ih = 1 [rule_format]
  show ?case
  proof (cases s)
    case (Cons c cs)
    consider "c = lf" | "c \<noteq> cr" "c \<noteq> lf" | ds where "c = cr" "cs = lf # ds" | "c = cr" "take 1 cs \<noteq> [lf]"
      by (cases cs) auto
    then show ?thesis
    proof cases
      case 1
      have "line_breaks (concat (map escaped cs)) = concat (map marked (plain_lines cs))" using ih [of cs] Cons by simp
      then show ?thesis
        by (simp only: Cons 1 list.map concat.simps escaped_breaks append_Cons append_Nil line_breaks_simps(4)
            plain_lines_simps(4) [OF break_neq(1)] marked_lf)
    next
      case 2
      then have e: "cr \<notin> set (escaped c)" "lf \<notin> set (escaped c)" using no_break [OF 2] by blast+
      have "line_breaks (concat (map escaped cs)) = concat (map marked (plain_lines cs))" using ih [of cs] Cons by simp
      then show ?thesis
        by (simp only: Cons list.map concat.simps line_breaks_simps(5) [OF e] plain_lines_simps(4) [OF 2(1)] marked_def [of c] 2(2) if_False)
    next
      case 3
      have "line_breaks (concat (map escaped ds)) = concat (map marked (plain_lines ds))" using ih [of ds] Cons 3 by simp
      then show ?thesis
        by (simp only: Cons 3 list.map concat.simps escaped_breaks append_Cons append_Nil line_breaks_simps(2) plain_lines_simps(2) marked_lf)
    next
      case 4
      have h: "take 1 (concat (map escaped cs)) \<noteq> [lf]" using 4 escaped_head by (cases cs) auto
      have "line_breaks (concat (map escaped cs)) = concat (map marked (plain_lines cs))" using ih [of cs] Cons by simp
      then show ?thesis
        by (simp only: Cons 4(1) list.map concat.simps escaped_breaks append_Cons append_Nil line_breaks_simps(3) [OF h]
            plain_lines_simps(3) [OF 4(2)] marked_lf)
    qed
  qed (simp add: line_breaks_simps plain_lines_simps)
qed

text \<open>Reading an escaped character gives it back.\<close>

lemma read_entity: "(e, c) \<in> set entities \<Longrightarrow> html_read (e @ t) = c # html_read t"
  by (subst html_read.simps) (auto simp: entities_def text_table_def starts_with_def)

lemma marked_entity: "c = lf \<or> c \<in> set active \<Longrightarrow> (marked c, c) \<in> set entities"
proof (cases "c = lf")
  case False
  then show "c = lf \<or> c \<in> set active \<Longrightarrow> (marked c, c) \<in> set entities" using escaped_active(1) by (simp add: marked_def)
qed (simp add: marked_def entities_def)

lemma read_marked: "html_read (marked c @ t) = c # html_read t"
proof (cases "c = lf \<or> c \<in> set active")
  case True
  then show ?thesis by (intro read_entity marked_entity)
next
  case False
  then have m: "marked c = [c]" by (simp add: marked_def escaped_other)
  have "c \<noteq> CHR ''&''" "c \<noteq> CHR ''<''" using False by (auto simp: active_def)
  then have "find (\<lambda>(e, _). starts_with e (c # t)) entities = None"
    by (simp add: entities_def starts_with_def text_table_def)
  then show ?thesis by (subst html_read.simps) (simp add: m)
qed

lemma read_all: "html_read (concat (map marked s)) = s"
proof (induction s)
  case Nil
  then show ?case by (subst html_read.simps) simp
qed (simp add: read_marked)

lemma markdown_text_lines: "markdown_text s = concat (map marked (plain_lines s))"
  by (simp only: markdown_text_def escape_chars markdown_text_marked)

text \<open>A text of one line without any active character but the sign that starts an entity.\<close>

definition inert :: "string \<Rightarrow> bool" where
  "inert s = list_all (\<lambda>c. (c = CHR ''&'' \<or> c \<notin> set active) \<and> c \<noteq> lf \<and> c \<noteq> cr) s"

lemma inert_append [simp]: "inert (s @ t) \<longleftrightarrow> inert s \<and> inert t"
  by (simp add: inert_def)

lemma inert_escaped: "c \<noteq> cr \<Longrightarrow> c \<noteq> lf \<Longrightarrow> inert (escaped c)"
  using escaped_active(2) [of c] escaped_other [of c] no_break [of c] by (cases "c \<in> set active") (auto simp: inert_def list_all_iff)

lemma cr_gone: "cr \<notin> set (plain_lines s)"
proof -
  have "cr \<notin> set (replace_char cr nl t)" for t
    using break_neq by (induction t) (auto simp: replace_char_def nl_def lf_def)
  then show ?thesis by (simp add: plain_lines_def)
qed

lemma split_lines: "concat (map marked s) = join ''<br>'' (map (\<lambda>l. concat (map escaped l)) (split_on lf s))"
proof (induction s)
  case (Cons c s)
  obtain l ls where l: "split_on lf s = l # ls" by (cases "split_on lf s") auto
  show ?case using Cons by (cases ls) (auto simp: l marked_def)
qed simp

lemma inert_lines: "cr \<notin> set s \<Longrightarrow> l \<in> set (split_on lf s) \<Longrightarrow> inert (concat (map escaped l))"
proof -
  assume s: "cr \<notin> set s" and l: "l \<in> set (split_on lf s)"
  have "lf \<notin> set l" using l split_on_no_sep by metis
  moreover have "set l \<subseteq> set s" using l
  proof (induction s arbitrary: l)
    case (Cons c s)
    obtain k ks where k: "split_on lf s = k # ks" by (cases "split_on lf s") auto
    show ?case using Cons.IH [of k] Cons.IH [of l] Cons.prems by (auto simp: k split: if_splits)
  qed simp
  ultimately have "\<forall>c \<in> set l. inert (escaped c)" using s by (metis inert_escaped subsetD)
  then show "inert (concat (map escaped l))" by (induction l) (auto simp: inert_def)
qed

subsection \<open>Properties\<close>



text \<open>
  The inline-code form keeps line ends: a metric name with a line end, which the research manifest
  allows, ends the table row it is written in.
\<close>

lemma code_keeps_line_ends:
  "markdown_code (''acc'' @ nl @ ''## PASS'') = ''<code>acc'' @ nl @ ''## PASS</code>''"
  by code_simp

end
