(* ===== verification/CheckRun.thy ===== *)
theory CheckRun
  imports Report
begin

section \<open>The GitHub check run\<close>

text \<open>
  \<^verbatim>\<open>claimci/github.py\<close>: the validation of a JSON report and the check-run payload made of it, with the
  workflow entry point. A report that is refused is a value with its reason; what Python raises on the
  way is a separate error: membership in a set asks for the hash of the value, which lists and dicts do
  not have. Values nest less deeply than the interpreter's stack.
\<close>

subsection \<open>Outcomes\<close>

text \<open>An exception, the reason a report is refused, or a value.\<close>

type_synonym 'a gate = "(py_error + string) + 'a"

definition raised :: "py_error \<Rightarrow> 'a gate" where "raised e = Inl (Inl e)"

definition refused :: "string \<Rightarrow> 'a gate" where "refused reason = Inl (Inr reason)"

definition accept :: "bool \<Rightarrow> string \<Rightarrow> unit gate" where
  "accept b reason = (if b then Inr () else refused reason)"

definition member_of :: "pyval \<Rightarrow> string list \<Rightarrow> bool gate" where
  "member_of v xs =
     (if hashable v then Inr (v \<in> PStr ` set xs) else raised (TypeError ''unhashable type''))"

subsection \<open>Validation\<close>

definition max_summary_length :: nat where "max_summary_length = 65535"

definition verdict_to_conclusion :: "string option \<Rightarrow> string" where
  "verdict_to_conclusion v =
     (if v = Some ''SUPPORTED'' then ''success''
      else if v = Some ''NOT_SUPPORTED'' then ''failure''
      else if v = Some ''INSUFFICIENT_EVIDENCE'' then ''action_required''
      else ''failure'')"

text \<open>What \<^verbatim>\<open>json.dumps\<close> with \<^verbatim>\<open>allow_nan=False\<close> can encode.\<close>

definition short_int :: "int \<Rightarrow> bool" where
  "short_int i = (ndigits (nat \<bar>i\<bar>) \<le> max_str_digits)"

fun json_key_ok :: "pyval \<Rightarrow> bool" where
  "json_key_ok PNone = True"
| "json_key_ok (PBool b) = True"
| "json_key_ok (PStr s) = True"
| "json_key_ok (PInt i) = short_int i"
| "json_key_ok (PFloat x) = isfinite x"
| "json_key_ok v = False"

fun strict_json_safe :: "pyval \<Rightarrow> bool" where
  "strict_json_safe PNone = True"
| "strict_json_safe (PBool b) = True"
| "strict_json_safe (PStr s) = True"
| "strict_json_safe (PInt i) = short_int i"
| "strict_json_safe (PFloat x) = isfinite x"
| "strict_json_safe (POther s) = False"
| "strict_json_safe (PSet vs) = False"
| "strict_json_safe (PList vs) = list_all strict_json_safe vs"
| "strict_json_safe (PTuple vs) = list_all strict_json_safe vs"
| "strict_json_safe (PDict d) = list_all (\<lambda>(k, v). json_key_ok k \<and> strict_json_safe v) d"

definition is_finite_number :: "pyval \<Rightarrow> bool" where
  "is_finite_number v = (finite_number v \<noteq> None)"

definition in_range :: "pyval \<Rightarrow> (flt \<Rightarrow> bool) \<Rightarrow> bool" where
  "in_range v P = (case finite_number v of None \<Rightarrow> False | Some x \<Rightarrow> P x)"

definition at_least_int :: "pyval \<Rightarrow> int \<Rightarrow> bool" where
  "at_least_int v n = (case v of PInt i \<Rightarrow> n \<le> i | _ \<Rightarrow> False)"

definition non_blank :: "pyval \<Rightarrow> bool" where
  "non_blank v = (case v of PStr s \<Rightarrow> \<not> is_blank s | _ \<Rightarrow> False)"

definition is_str :: "pyval \<Rightarrow> bool" where
  "is_str v = (case v of PStr s \<Rightarrow> True | _ \<Rightarrow> False)"

definition valid_metric_summary :: "pyval \<Rightarrow> bool" where
  "valid_metric_summary v =
     (case v of
        PDict d \<Rightarrow>
          at_least_int (dget_none d ''count'') 1 \<and> is_finite_number (dget_none d ''mean'')
          \<and> (dget_none d ''standard_deviation'' = PNone \<or> in_range (dget_none d ''standard_deviation'') (\<lambda>x. flt_le fzero x))
      | _ \<Rightarrow> False)"

definition severities :: "string list" where "severities = [''CRITICAL'', ''WARNING'', ''VERIFIED'', ''INFO'']"

definition impacts :: "string list" where "impacts = [''NONE'', ''INVALIDATES'', ''INSUFFICIENT'']"

definition and_then :: "bool gate \<Rightarrow> bool gate \<Rightarrow> bool gate" where
  "and_then a b = sbind a (\<lambda>x. if x then b else Inr False)"

definition valid_finding :: "pyval \<Rightarrow> bool gate" where
  "valid_finding v =
     (case v of
        PDict d \<Rightarrow>
          and_then (Inr (non_blank (dget_none d ''rule_id'')))
         (and_then (member_of (dget_none d ''severity'') severities)
         (and_then (member_of (dget_none d ''impact'') impacts)
            (Inr (is_str (dget_none d ''title'') \<and> is_str (dget_none d ''explanation'') \<and> is_dict (dget_none d ''evidence'')))))
      | _ \<Rightarrow> Inr False)"

fun all_findings :: "pyval list \<Rightarrow> bool gate" where
  "all_findings [] = Inr True"
| "all_findings (v # vs) = and_then (valid_finding v) (all_findings vs)"

definition int_at_most :: "pyval \<Rightarrow> pyval \<Rightarrow> bool" where
  "int_at_most a b = (case (a, b) of (PInt i, PInt j) \<Rightarrow> i \<le> j | _ \<Rightarrow> False)"

definition unit_flt :: flt where "unit_flt = FFin (2 ^ 52) (-52)"

definition valid_overlap :: "pyval \<Rightarrow> bool" where
  "valid_overlap v =
     (case v of
        PDict d \<Rightarrow>
          list_all (\<lambda>k. at_least_int (dget_none d k) 0) [''train_count'', ''eval_count'', ''overlap_count'']
          \<and> non_blank (dget_none d ''experiment'')
          \<and> in_range (dget_none d ''overlap_rate'') (\<lambda>x. flt_le fzero x \<and> flt_le x unit_flt)
          \<and> int_at_most (dget_none d ''overlap_count'') (dget_none d ''train_count'')
          \<and> int_at_most (dget_none d ''overlap_count'') (dget_none d ''eval_count'')
          \<and> (case dget d ''overlapping_hashes'' of None \<Rightarrow> True | Some (PList _) \<Rightarrow> True | Some _ \<Rightarrow> False)
      | _ \<Rightarrow> False)"

definition verdict_names :: "string list" where
  "verdict_names = [''SUPPORTED'', ''NOT_SUPPORTED'', ''INSUFFICIENT_EVIDENCE'']"

definition claimed_verdict :: "config \<Rightarrow> string gate" where
  "claimed_verdict d =
     (case dget_none d ''verdict'' of
        PStr v \<Rightarrow> (if v \<in> set verdict_names then Inr v else refused ''report has an unknown verdict'')
      | _ \<Rightarrow> refused ''report has an unknown verdict'')"

text \<open>A section of the report that must be a mapping.\<close>

definition mapping_of :: "pyval \<Rightarrow> string \<Rightarrow> config gate" where
  "mapping_of v reason = (case v of PDict d \<Rightarrow> Inr d | _ \<Rightarrow> refused reason)"

definition report_direction :: "config \<Rightarrow> pyval" where
  "report_direction claim = (case dget claim ''direction'' of None \<Rightarrow> PStr ''higher'' | Some v \<Rightarrow> v)"

definition check_claim :: "config \<Rightarrow> unit gate" where
  "check_claim claim =
     sbind (accept (non_blank (dget_none claim ''metric'')) ''report claim has an invalid metric'') (\<lambda>_.
     sbind (accept (in_range (dget_none claim ''minimum_improvement'') (\<lambda>x. \<not> flt_lt x fzero))
              ''report claim has an invalid minimum improvement'') (\<lambda>_.
     sbind (member_of (report_direction claim) [''higher'', ''lower'']) (\<lambda>b.
       accept b ''report claim has an invalid direction'')))"

definition check_arm :: "config \<Rightarrow> string \<Rightarrow> unit gate" where
  "check_arm metrics arm =
     accept (dget_none metrics arm = PNone \<or> valid_metric_summary (dget_none metrics arm))
       (''report has an invalid '' @ arm @ '' metric summary'')"

definition check_improvement :: "config \<Rightarrow> string \<Rightarrow> unit gate" where
  "check_improvement metrics name =
     accept (dget_none metrics name = PNone \<or> is_finite_number (dget_none metrics name)) (''report has an invalid '' @ name)"

definition check_metrics :: "config \<Rightarrow> unit gate" where
  "check_metrics metrics =
     sbind (check_arm metrics ''baseline'') (\<lambda>_.
     sbind (check_arm metrics ''candidate'') (\<lambda>_.
     sbind (check_improvement metrics ''absolute_improvement'') (\<lambda>_.
       check_improvement metrics ''relative_improvement'')))"

definition check_report_findings :: "pyval \<Rightarrow> pyval list gate" where
  "check_report_findings v =
     (case v of
        PList (f # fs) \<Rightarrow> sbind (all_findings (f # fs)) (\<lambda>ok. if ok then Inr (f # fs) else refused ''report has an invalid finding'')
      | _ \<Rightarrow> refused ''report is missing valid findings'')"

definition field_of :: "string \<Rightarrow> pyval \<Rightarrow> pyval" where
  "field_of k v = (case v of PDict d \<Rightarrow> dget_none d k | _ \<Rightarrow> PNone)"

definition expected_verdict :: "pyval list \<Rightarrow> string" where
  "expected_verdict fs =
     (if PStr ''INVALIDATES'' \<in> field_of ''impact'' ` set fs then ''NOT_SUPPORTED''
      else if PStr ''INSUFFICIENT'' \<in> field_of ''impact'' ` set fs then ''INSUFFICIENT_EVIDENCE''
      else ''SUPPORTED'')"

text \<open>\<^verbatim>\<open>Decimal(str(v))\<close> of a finite number.\<close>

definition number_decimal :: "pyval \<Rightarrow> dec" where
  "number_decimal v = (case v of PInt i \<Rightarrow> dec_of_int i | PFloat x \<Rightarrow> dec_of_flt x | _ \<Rightarrow> DNan)"

definition expected_improvement :: "config \<Rightarrow> config \<Rightarrow> dec" where
  "expected_improvement claim metrics =
     (let b = number_decimal (field_of ''mean'' (dget_none metrics ''baseline''));
          c = number_decimal (field_of ''mean'' (dget_none metrics ''candidate''))
      in if report_direction claim = PStr ''lower'' then dec_sub default_precision b c else dec_sub default_precision c b)"

definition check_supported :: "config \<Rightarrow> config \<Rightarrow> pyval list \<Rightarrow> unit gate" where
  "check_supported claim metrics fs =
     (let improvement = dget_none metrics ''absolute_improvement''
      in sbind (accept (valid_metric_summary (dget_none metrics ''baseline'') \<and> valid_metric_summary (dget_none metrics ''candidate'')
                 \<and> is_finite_number improvement \<and> PStr ''RESULT.CLAIM_SUPPORTED'' \<in> field_of ''rule_id'' ` set fs)
              ''supported report lacks verified metric evidence'') (\<lambda>_.
         sbind (accept (dec_eq (number_decimal improvement) (expected_improvement claim metrics))
              ''supported report has inconsistent improvement arithmetic'') (\<lambda>_.
           accept (\<not> dec_lt (number_decimal improvement) (number_decimal (dget_none claim ''minimum_improvement'')))
              ''supported report does not meet its claim threshold'')))"

definition check_overlaps :: "pyval \<Rightarrow> unit gate" where
  "check_overlaps v =
     accept (case v of PList os \<Rightarrow> list_all valid_overlap os | _ \<Rightarrow> False) ''report has invalid overlap summaries''"

definition valid_report :: "pyval \<Rightarrow> string gate" where
  "valid_report report =
     sbind (mapping_of report ''report is not a JSON object'') (\<lambda>d.
     sbind (accept (strict_json_safe report) ''report is not strict JSON'') (\<lambda>_.
     sbind (claimed_verdict d) (\<lambda>verdict.
     sbind (accept (non_blank (dget_none d ''manifest'')) ''report is missing a valid manifest'') (\<lambda>_.
     sbind (mapping_of (dget_none d ''claim'') ''report is missing a valid claim section'') (\<lambda>claim.
     sbind (check_claim claim) (\<lambda>_.
     sbind (mapping_of (dget_none d ''metrics'') ''report is missing a valid metrics section'') (\<lambda>metrics.
     sbind (check_metrics metrics) (\<lambda>_.
     sbind (check_report_findings (dget_none d ''findings'')) (\<lambda>fs.
     sbind (accept (verdict = expected_verdict fs) ''report verdict contradicts finding impacts'') (\<lambda>_.
     sbind (if verdict = ''SUPPORTED'' then check_supported claim metrics fs else Inr ()) (\<lambda>_.
     sbind (check_overlaps (dget_none d ''overlaps'')) (\<lambda>_. Inr verdict))))))))))))"

subsection \<open>The payload\<close>

definition truncation_notice :: string where
  "truncation_notice =
     nl @ nl @ ''> **ClaimCI:** summary truncated to satisfy the GitHub Check Run output limit.''"

definition bounded_summary :: "string \<Rightarrow> string" where
  "bounded_summary s =
     (if length s \<le> max_summary_length then s
      else take (max_summary_length - length truncation_notice) s @ truncation_notice)"

definition failure_summary :: "string \<Rightarrow> string" where
  "failure_summary reason =
     ''## ClaimCI Audit'' @ nl @ nl @ ''**FAILURE - ClaimCI could not publish a trustworthy audit verdict.**'' @ nl @ nl
       @ ''Adapter validation: '' @ reason @ ''.'' @ nl"

definition is_hex :: "char \<Rightarrow> bool" where
  "is_hex c = (is_lower_hex c \<or> c \<in> set ''ABCDEF'')"

definition head_sha_ok :: "string \<Rightarrow> bool" where
  "head_sha_ok s = (length s \<in> {40, 64} \<and> list_all is_hex s)"

record check_payload =
  cp_head :: string
  cp_conclusion :: string
  cp_title :: string
  cp_summary :: string
  cp_details :: "string option"

definition payload_dict :: "check_payload \<Rightarrow> pyval" where
  "payload_dict p =
     pdict ([(''name'', PStr ''ClaimCI Audit''), (''head_sha'', PStr (cp_head p)), (''status'', PStr ''completed''),
             (''conclusion'', PStr (cp_conclusion p)),
             (''output'', pdict [(''title'', PStr (cp_title p)), (''summary'', PStr (cp_summary p))])]
            @ (case cp_details p of None \<Rightarrow> [] | Some u \<Rightarrow> [(''details_url'', PStr u)]))"

definition failure_title :: string where "failure_title = ''ClaimCI Audit - integration failure''"

text \<open>Every part of the input either gives its value or adds a reason.\<close>

definition head_part :: "pyval \<Rightarrow> string list \<times> string" where
  "head_part v =
     (case v of
        PStr s \<Rightarrow> (if head_sha_ok (py_strip s) then ([], py_strip s) else ([''head SHA is missing or malformed''], []))
      | _ \<Rightarrow> ([''head SHA is missing or malformed''], []))"

definition markdown_part :: "pyval \<Rightarrow> string list \<times> string" where
  "markdown_part v =
     (if non_blank v then ([], bounded_summary (py_str v))
      else ([''Markdown summary is missing''], failure_summary ''Markdown summary is missing''))"

definition details_part :: "pyval \<Rightarrow> string list \<times> string option" where
  "details_part v =
     (if v = PNone then ([], None)
      else if non_blank v then ([], Some (py_strip (py_str v)))
      else ([''details URL is invalid''], None))"

definition payload_of :: "string + string \<Rightarrow> pyval \<Rightarrow> pyval \<Rightarrow> pyval \<Rightarrow> check_payload" where
  "payload_of verdict markdown head details =
     (case (head_part head, markdown_part markdown, details_part details) of
        ((hr, sha), (mr, summary), (dr, url)) \<Rightarrow>
          (let reasons = (case verdict of Inl reason \<Rightarrow> [reason] | Inr _ \<Rightarrow> []) @ hr @ mr @ dr
           in if reasons = []
              then \<lparr>cp_head = sha,
                    cp_conclusion = verdict_to_conclusion (case verdict of Inl _ \<Rightarrow> None | Inr v \<Rightarrow> Some v),
                    cp_title = ''ClaimCI Audit - '' @ (case verdict of Inl _ \<Rightarrow> ''None'' | Inr v \<Rightarrow> v),
                    cp_summary = summary, cp_details = url\<rparr>
              else \<lparr>cp_head = sha, cp_conclusion = ''failure'', cp_title = failure_title,
                    cp_summary = bounded_summary (failure_summary (join ''; '' reasons)), cp_details = url\<rparr>))"

definition guarded_payload :: "check_payload \<Rightarrow> check_payload" where
  "guarded_payload p =
     (if strict_json_safe (payload_dict p) then p
      else \<lparr>cp_head = cp_head p, cp_conclusion = ''failure'', cp_title = failure_title,
            cp_summary = failure_summary ''payload is not strict JSON'', cp_details = None\<rparr>)"

text \<open>The report is an audit result, rendered and read back, or a decoded value.\<close>

datatype check_report = AuditReport audit_result | DecodedReport pyval

fun json_value :: "((string \<times> pyval) list \<Rightarrow> string + (string \<times> pyval) list) \<Rightarrow> jtree \<Rightarrow> string + pyval" where
  "json_value hook JNull = Inr PNone"
| "json_value hook (JBool b) = Inr (PBool b)"
| "json_value hook (JInt i) = Inr (PInt i)"
| "json_value hook (JFloat x) = Inr (PFloat x)"
| "json_value hook (JConst tok) =
     Inr (PFloat (if tok = ''NaN'' then FNan else if tok = ''-Infinity'' then FInf True else FInf False))"
| "json_value hook (JStr s) = Inr (PStr s)"
| "json_value hook (JArr ts) = sbind (smap (json_value hook) ts) (\<lambda>vs. Inr (PList vs))"
| "json_value hook (JObj ps) =
     sbind (smap (\<lambda>(k, t). sbind (json_value hook t) (\<lambda>v. Inr (k, v))) ps) (\<lambda>kvs. sbind (hook kvs) (\<lambda>d. Inr (pdict d)))"

definition report_value :: "json_decoder \<Rightarrow> check_report \<Rightarrow> pyval" where
  "report_value decode r =
     (case r of
        DecodedReport v \<Rightarrow> v
      | AuditReport a \<Rightarrow>
          (case sbind (render_json a) (\<lambda>t. sbind (decode t) (json_value (\<lambda>ps. Inr (dict_items ps)))) of
             Inl _ \<Rightarrow> PNone
           | Inr v \<Rightarrow> v))"

definition build_check_payload ::
  "json_decoder \<Rightarrow> check_report \<Rightarrow> pyval \<Rightarrow> pyval \<Rightarrow> pyval \<Rightarrow> check_payload checked" where
  "build_check_payload decode report markdown head details =
     (case valid_report (report_value decode report) of
        Inl (Inl e) \<Rightarrow> Inl e
      | Inl (Inr reason) \<Rightarrow> Inr (guarded_payload (payload_of (Inl reason) markdown head details))
      | Inr v \<Rightarrow> Inr (guarded_payload (payload_of (Inr v) markdown head details)))"

subsection \<open>The workflow entry point\<close>

definition read_report :: "'e io_env_scheme \<Rightarrow> string \<Rightarrow> pyval" where
  "read_report env path =
     (case read_text env path of
        Inl _ \<Rightarrow> PNone
      | Inr text \<Rightarrow>
          (case sbind (json_text env text) (json_value unique_json_object) of Inl _ \<Rightarrow> PNone | Inr v \<Rightarrow> v))"

definition read_markdown :: "'e io_env_scheme \<Rightarrow> string \<Rightarrow> pyval" where
  "read_markdown env path = (case read_text env path of Inl _ \<Rightarrow> PNone | Inr text \<Rightarrow> PStr text)"

record check_arguments =
  ca_report :: string
  ca_markdown :: string
  ca_head :: string
  ca_details :: "string option"
  ca_output :: string

text \<open>The exit code and the text for standard output; \<open>write\<close> writes a file or fails.\<close>

definition github_main ::
  "'e io_env_scheme \<Rightarrow> (string \<Rightarrow> string \<Rightarrow> bool) \<Rightarrow> check_arguments \<Rightarrow> (int \<times> string) checked" where
  "github_main env write_file args =
     sbind (build_check_payload (json_text env) (DecodedReport (read_report env (ca_report args)))
              (read_markdown env (ca_markdown args)) (PStr (ca_head args)) (opt_str (ca_details args))) (\<lambda>p.
       case json_pretty json_escape_ascii 0 (payload_dict p) of
         Inl e \<Rightarrow> Inl (ValueError e)
       | Inr encoded \<Rightarrow>
           (if ca_output args \<noteq> ''-'' \<and> \<not> write_file (ca_output args) (encoded @ nl) then Inr (2, [])
            else Inr (if cp_title p = failure_title then 1 else 0,
                      if ca_output args = ''-'' then encoded @ nl else [])))"

subsection \<open>Facts\<close>

lemma gate_simps [simp]:
  "accept b reason = Inr u \<longleftrightarrow> b" "raised e \<noteq> Inr x" "refused s \<noteq> Inr x" "refused s \<noteq> Inl (Inl e)" "accept b s \<noteq> Inl (Inl e)"
  by (auto simp: accept_def raised_def refused_def)

lemma member_of_Inr: "member_of v xs = Inr b \<longleftrightarrow> hashable v \<and> b = (v \<in> PStr ` set xs)"
  by (auto simp: member_of_def)

lemma and_then_True: "and_then a b = Inr True \<longleftrightarrow> a = Inr True \<and> b = Inr True"
  by (auto simp: and_then_def sbind_eq_Inr)

lemma valid_finding_True:
  "valid_finding v = Inr True \<Longrightarrow> field_of ''impact'' v \<in> PStr ` set impacts \<and> non_blank (field_of ''rule_id'' v)"
  by (cases v) (auto simp: valid_finding_def and_then_True member_of_Inr field_of_def)

lemma all_findings_True: "all_findings vs = Inr True \<longleftrightarrow> (\<forall>v \<in> set vs. valid_finding v = Inr True)"
  by (induction vs) (auto simp: and_then_True)

lemma supported_findings:
  assumes "\<forall>v \<in> set vs. valid_finding v = Inr True" and "expected_verdict vs = ''SUPPORTED''" and "f \<in> set vs"
  shows "field_of ''impact'' f = PStr ''NONE''"
proof -
  have "field_of ''impact'' f \<in> PStr ` set impacts" using valid_finding_True assms(1,3) by blast
  moreover have "PStr ''INVALIDATES'' \<notin> field_of ''impact'' ` set vs" "PStr ''INSUFFICIENT'' \<notin> field_of ''impact'' ` set vs"
    using assms(2) by (auto simp only: expected_verdict_def split: if_splits)
  then have "field_of ''impact'' f \<noteq> PStr ''INVALIDATES''" "field_of ''impact'' f \<noteq> PStr ''INSUFFICIENT''"
    using assms(3) by (metis imageI)+
  ultimately show ?thesis by (auto simp: impacts_def)
qed

lemma mapping_of_Inr: "mapping_of v reason = Inr d \<longleftrightarrow> v = PDict d"
  by (cases v) (simp_all add: mapping_of_def)

lemma check_report_findings_Inr:
  "check_report_findings v = Inr fs \<longleftrightarrow> v = PList fs \<and> fs \<noteq> [] \<and> all_findings fs = Inr True"
proof (cases v)
  case (PList vs)
  then show ?thesis
    by (cases vs) (auto simp: check_report_findings_def sbind_eq_Inr split: if_splits simp del: all_findings.simps)
qed (simp_all add: check_report_findings_def)

lemma claimed_verdict_Inr: "claimed_verdict d = Inr v \<longleftrightarrow> dget_none d ''verdict'' = PStr v \<and> v \<in> set verdict_names"
  by (auto simp: claimed_verdict_def split: pyval.splits)

text \<open>What a report that is accepted as supported has shown.\<close>

definition supported_report :: "pyval \<Rightarrow> bool" where
  "supported_report report \<longleftrightarrow>
     (\<exists>d claim metrics fs. report = PDict d \<and> dget_none d ''claim'' = PDict claim \<and> dget_none d ''metrics'' = PDict metrics
        \<and> dget_none d ''findings'' = PList fs \<and> dget_none d ''verdict'' = PStr ''SUPPORTED''
        \<and> (\<forall>f \<in> set fs. field_of ''impact'' f = PStr ''NONE'')
        \<and> (\<exists>f \<in> set fs. field_of ''rule_id'' f = PStr ''RESULT.CLAIM_SUPPORTED'')
        \<and> valid_metric_summary (dget_none metrics ''baseline'') \<and> valid_metric_summary (dget_none metrics ''candidate'')
        \<and> dec_eq (number_decimal (dget_none metrics ''absolute_improvement'')) (expected_improvement claim metrics)
        \<and> dec_le (number_decimal (dget_none claim ''minimum_improvement'')) (number_decimal (dget_none metrics ''absolute_improvement'')))"

lemma valid_supported:
  assumes "valid_report report = Inr ''SUPPORTED''"
  shows "supported_report report"
proof -
  obtain d claim metrics fs where p: "report = PDict d" "dget_none d ''verdict'' = PStr ''SUPPORTED''"
    "dget_none d ''claim'' = PDict claim" "dget_none d ''metrics'' = PDict metrics"
    "dget_none d ''findings'' = PList fs" "all_findings fs = Inr True" "expected_verdict fs = ''SUPPORTED''"
    "check_supported claim metrics fs = Inr ()"
    using assms
    by (auto simp: valid_report_def sbind_eq_Inr mapping_of_Inr claimed_verdict_Inr check_report_findings_Inr)
  have "\<forall>f \<in> set fs. field_of ''impact'' f = PStr ''NONE''"
    using supported_findings [OF _ p(7)] p(6) by (simp add: all_findings_True)
  then show ?thesis
    using p by (auto simp: supported_report_def check_supported_def sbind_eq_Inr dec_lt_def Let_def)
qed

lemma valid_verdict: "valid_report report = Inr v \<Longrightarrow> v \<in> set verdict_names"
  by (auto simp: valid_report_def sbind_eq_Inr claimed_verdict_Inr)

lemma payload_strict: "strict_json_safe (payload_dict p)"
  by (simp add: payload_dict_def pdict_def split: option.splits)

lemma guarded_id: "guarded_payload p = p"
  by (simp add: guarded_payload_def payload_strict)

lemma build_Inr:
  "build_check_payload decode report markdown head details = Inr p \<longleftrightarrow>
     (\<exists>r. p = payload_of r markdown head details
       \<and> (case r of Inl reason \<Rightarrow> valid_report (report_value decode report) = Inl (Inr reason)
          | Inr v \<Rightarrow> valid_report (report_value decode report) = Inr v))"
  by (auto simp: build_check_payload_def guarded_id split_sum_ex split: sum.splits)

lemma bounded_summary_length: "length (bounded_summary s) \<le> max_summary_length"
proof -
  have "length truncation_notice \<le> max_summary_length" by (simp add: truncation_notice_def nl_def max_summary_length_def)
  then show ?thesis by (auto simp: bounded_summary_def)
qed

lemma payload_success:
  assumes "cp_conclusion (payload_of r markdown head details) = ''success''"
  shows "r = Inr ''SUPPORTED'' \<and> (\<exists>s. head = PStr s \<and> head_sha_ok (py_strip s) \<and> cp_head (payload_of r markdown head details) = py_strip s)
    \<and> non_blank markdown"
proof -
  obtain hr sha mr summary dr url where h: "head_part head = (hr, sha)" and m: "markdown_part markdown = (mr, summary)"
    and d: "details_part details = (dr, url)" by (metis surj_pair)
  have e: "hr = []" "mr = []" "r = Inr ''SUPPORTED''" "cp_head (payload_of r markdown head details) = sha"
    using assms by (auto simp: payload_of_def h m d Let_def verdict_to_conclusion_def split: if_splits sum.splits)
  then show ?thesis
    using h m by (auto simp: head_part_def markdown_part_def split: pyval.splits if_splits)
qed

lemma payload_shape:
  assumes "p = payload_of r markdown head details" and "\<forall>v. r = Inr v \<longrightarrow> v \<in> set verdict_names"
  shows "length (cp_summary p) \<le> max_summary_length \<and> cp_conclusion p \<in> {''success'', ''failure'', ''action_required''}
    \<and> (cp_title p = failure_title \<longrightarrow> cp_conclusion p = ''failure'') \<and> (cp_head p = [] \<or> head_sha_ok (cp_head p))"
proof -
  obtain hr sha mr summary dr url where h: "head_part head = (hr, sha)" and m: "markdown_part markdown = (mr, summary)"
    and d: "details_part details = (dr, url)" by (metis surj_pair)
  have s: "mr = [] \<Longrightarrow> length summary \<le> max_summary_length"
    using m bounded_summary_length by (auto simp: markdown_part_def split: if_splits)
  have g: "sha = [] \<or> head_sha_ok sha" using h by (auto simp: head_part_def split: pyval.splits if_splits)
  show ?thesis
    using assms s g bounded_summary_length
    by (auto simp: payload_of_def h m d Let_def verdict_to_conclusion_def failure_title_def verdict_names_def split: sum.splits)
qed

subsection \<open>Properties\<close>

text \<open>C11: a check run is published as a success only for a report that shows it: every finding without
  impact, the supported claim among them, two metric summaries, an improvement that equals the
  difference of the means and reaches the threshold; and only with a full commit digest and a summary.\<close>

theorem success_is_shown:
  assumes "build_check_payload decode report markdown head details = Inr p" and "cp_conclusion p = ''success''"
  shows "supported_report (report_value decode report)
    \<and> (\<exists>s. head = PStr s \<and> head_sha_ok (py_strip s) \<and> cp_head p = py_strip s) \<and> non_blank markdown"
proof -
  obtain r where p: "p = payload_of r markdown head details"
    and r: "case r of Inl reason \<Rightarrow> valid_report (report_value decode report) = Inl (Inr reason)
          | Inr v \<Rightarrow> valid_report (report_value decode report) = Inr v"
    using assms(1) by (auto simp: build_Inr)
  have s: "cp_conclusion (payload_of r markdown head details) = ''success''" using assms(2) p by simp
  show ?thesis using payload_success [OF s] r p valid_supported by auto
qed

text \<open>C29: every payload that is built can be published: it is strict JSON, its summary is within the limit
  of the service, its conclusion is one of three, an integration failure concludes with failure, and its
  commit is a full digest or missing.\<close>

theorem payload_publishable:
  assumes "build_check_payload decode report markdown head details = Inr p"
  shows "strict_json_safe (payload_dict p) \<and> length (cp_summary p) \<le> max_summary_length
    \<and> cp_conclusion p \<in> {''success'', ''failure'', ''action_required''}
    \<and> (cp_title p = failure_title \<longrightarrow> cp_conclusion p = ''failure'') \<and> (cp_head p = [] \<or> head_sha_ok (cp_head p))"
proof -
  obtain r where p: "p = payload_of r markdown head details"
    and r: "case r of Inl reason \<Rightarrow> valid_report (report_value decode report) = Inl (Inr reason)
          | Inr v \<Rightarrow> valid_report (report_value decode report) = Inr v"
    using assms by (auto simp: build_Inr)
  have "\<forall>v. r = Inr v \<longrightarrow> v \<in> set verdict_names" using r valid_verdict by auto
  then show ?thesis using payload_shape [OF p] payload_strict by blast
qed

text \<open>A small report that is published as a success.\<close>

definition tiny_summary :: pyval where
  "tiny_summary = pdict [(''count'', PInt 2), (''mean'', PInt 0), (''standard_deviation'', PNone)]"

definition tiny_finding :: "pyval \<Rightarrow> pyval" where
  "tiny_finding sev =
     pdict [(''rule_id'', PStr ''RESULT.CLAIM_SUPPORTED''), (''severity'', sev), (''impact'', PStr ''NONE''),
            (''title'', PStr ''t''), (''explanation'', PStr ''e''), (''evidence'', pdict [])]"

definition tiny_report :: "pyval \<Rightarrow> pyval" where
  "tiny_report sev =
     pdict [(''manifest'', PStr ''m''), (''claim'', pdict [(''metric'', PStr ''acc''), (''minimum_improvement'', PInt 0)]),
            (''verdict'', PStr ''SUPPORTED''),
            (''metrics'', pdict [(''baseline'', tiny_summary), (''candidate'', tiny_summary), (''absolute_improvement'', PInt 0),
                                 (''relative_improvement'', PNone)]),
            (''overlaps'', PList []), (''findings'', PList [tiny_finding sev])]"

definition tiny_head :: string where "tiny_head = replicate 40 (CHR ''a'')"

lemma zero_number: "finite_number (PInt 0) = Some fzero"
  by (simp add: float_of_int_def round_ratio_def fzero_def)

lemma tiny_blank: "non_blank (PStr ''m'')" "non_blank (PStr ''acc'')" "non_blank (PStr ''RESULT.CLAIM_SUPPORTED'')"
  by code_simp+

lemma zero_order: "flt_le fzero fzero" "\<not> flt_lt fzero fzero"
  by (simp_all add: flt_lt_def flt_le_refl) (simp add: fzero_def)

lemma tiny_ints: "short_int 0" "short_int 2"
  by (simp_all add: short_int_def max_str_digits_def ndigits.simps)

lemma tiny_dec: "dec_eq (number_decimal (PInt 0)) (dec_sub default_precision (number_decimal (PInt 0)) (number_decimal (PInt 0)))"
  "\<not> dec_lt (number_decimal (PInt 0)) (number_decimal (PInt 0))"
  by code_simp+

lemma tiny_metrics: "valid_metric_summary tiny_summary"
  by (simp add: valid_metric_summary_def tiny_summary_def pdict_def dget_none_def dget_def at_least_int_def is_finite_number_def
      zero_number del: finite_number.simps)

lemma tiny_parts:
  "strict_json_safe (tiny_report (PStr ''VERIFIED''))" "strict_json_safe (tiny_report (PList []))"
  using tiny_ints by (simp_all add: tiny_report_def tiny_finding_def tiny_summary_def pdict_def)

lemma tiny_valid_finding:
  "valid_finding (tiny_finding (PStr ''VERIFIED'')) = Inr True"
  "valid_finding (tiny_finding (PList [])) = Inl (Inl (TypeError ''unhashable type''))"
  using tiny_blank
  by (simp_all add: valid_finding_def tiny_finding_def pdict_def dget_none_def dget_def and_then_def member_of_def severities_def
      impacts_def is_str_def is_dict_def raised_def)

lemma tiny_valid:
  "valid_report (tiny_report (PStr ''VERIFIED'')) = Inr ''SUPPORTED''"
  "valid_report (tiny_report (PList [])) = Inl (Inl (TypeError ''unhashable type''))"
proof -
  have c: "check_claim [(PStr ''metric'', PStr ''acc''), (PStr ''minimum_improvement'', PInt 0)] = Inr ()"
    using tiny_blank zero_order
    by (simp add: check_claim_def dget_none_def dget_def in_range_def zero_number accept_def report_direction_def member_of_def
        del: finite_number.simps)
  have m: "check_metrics [(PStr ''baseline'', tiny_summary), (PStr ''candidate'', tiny_summary),
      (PStr ''absolute_improvement'', PInt 0), (PStr ''relative_improvement'', PNone)] = Inr ()"
    by (simp add: check_metrics_def check_arm_def check_improvement_def dget_none_def dget_def tiny_metrics is_finite_number_def
        zero_number accept_def del: finite_number.simps)
  have i: "field_of ''impact'' (tiny_finding s) = PStr ''NONE''" "field_of ''rule_id'' (tiny_finding s) = PStr ''RESULT.CLAIM_SUPPORTED''" for s
    by (simp_all add: tiny_finding_def field_of_def pdict_def dget_none_def dget_def)
  have z: "field_of ''mean'' tiny_summary = PInt 0" by (simp add: tiny_summary_def field_of_def pdict_def dget_none_def dget_def)
  have s: "check_supported [(PStr ''metric'', PStr ''acc''), (PStr ''minimum_improvement'', PInt 0)]
      [(PStr ''baseline'', tiny_summary), (PStr ''candidate'', tiny_summary),
       (PStr ''absolute_improvement'', PInt 0), (PStr ''relative_improvement'', PNone)] [tiny_finding sev] = Inr ()" for sev
    using tiny_dec
    by (simp add: check_supported_def dget_none_def dget_def tiny_metrics is_finite_number_def zero_number accept_def i
        expected_improvement_def report_direction_def z Let_def del: finite_number.simps)
  note rep = tiny_report_def pdict_def dget_none_def dget_def mapping_of_def accept_def claimed_verdict_def verdict_names_def
    check_report_findings_def check_overlaps_def
  show "valid_report (tiny_report (PStr ''VERIFIED'')) = Inr ''SUPPORTED''"
    using tiny_parts(1) tiny_blank unfolding valid_report_def
    by (simp add: rep c [unfolded pdict_def] m s tiny_valid_finding and_then_def expected_verdict_def i)
  show "valid_report (tiny_report (PList [])) = Inl (Inl (TypeError ''unhashable type''))"
    using tiny_parts(2) tiny_blank unfolding valid_report_def
    by (simp add: rep c m tiny_valid_finding and_then_def)
qed

lemma tiny_success:
  "\<exists>p. build_check_payload decode (DecodedReport (tiny_report (PStr ''VERIFIED''))) (PStr ''m'') (PStr tiny_head) PNone = Inr p
    \<and> cp_conclusion p = ''success'' \<and> cp_head p = tiny_head"
proof -
  have h: "head_part (PStr tiny_head) = ([], tiny_head)" by code_simp
  have m: "markdown_part (PStr ''m'') = ([], ''m'')"
    using tiny_blank by (simp add: markdown_part_def bounded_summary_def max_summary_length_def py_str_def)
  show ?thesis
    by (simp add: build_check_payload_def report_value_def tiny_valid guarded_id payload_of_def h m details_part_def
        verdict_to_conclusion_def)
qed

theorem success_is_shown_witness: "supported_report (tiny_report (PStr ''VERIFIED''))"
proof -
  obtain p where p: "build_check_payload (\<lambda>_. Inl []) (DecodedReport (tiny_report (PStr ''VERIFIED''))) (PStr ''m'') (PStr tiny_head) PNone = Inr p"
    "cp_conclusion p = ''success''" using tiny_success by blast
  show ?thesis using success_is_shown [OF p] by (simp add: report_value_def)
qed

theorem payload_publishable_witness:
  "\<exists>p. build_check_payload (\<lambda>_. Inl []) (DecodedReport (tiny_report (PStr ''VERIFIED''))) (PStr ''m'') (PStr tiny_head) PNone = Inr p
    \<and> head_sha_ok (cp_head p)"
proof -
  obtain p where p: "build_check_payload (\<lambda>_. Inl []) (DecodedReport (tiny_report (PStr ''VERIFIED''))) (PStr ''m'') (PStr tiny_head) PNone = Inr p"
    "cp_head p = tiny_head" using tiny_success by blast
  moreover have "tiny_head \<noteq> []" by (simp add: tiny_head_def)
  ultimately show ?thesis using payload_publishable [OF p(1)] by auto
qed

text \<open>
  The payload is not built for every input: a severity that is a list makes the membership test raise,
  and no payload is written.
\<close>

lemma payload_not_total:
  "build_check_payload decode (DecodedReport (tiny_report (PList []))) markdown head details = Inl (TypeError ''unhashable type'')"
  by (simp add: build_check_payload_def report_value_def tiny_valid)

text \<open>
  The improvement is published rounded to a float and compared with the exact difference: for the means
  one and ten to the twenty-second the report of a supported claim is refused.
\<close>

definition wide_flt :: flt where "wide_flt = FFin 4768371582031250 21"

lemma unit_decimal: "dec_of_flt unit_flt = Dec False 10 (-1)"
proof -
  have "round_ratio False 1 1 = round_ratio False 4503599627370496 4503599627370496" by (rule round_ratio_value) simp_all
  moreover have "ndigits 4503599627370496 = 16" "ndigits 1 = 1" by (simp_all add: ndigits.simps)
  ultimately have "repr_try 4503599627370496 4503599627370496 1 = Some (1, 0)"
    by (simp add: repr_try_def repr_point_def reads_back_def rhe_def)
  moreover have "strip_zeros 1 0 400 = (1, 0)" by (simp add: strip_zeros.simps)
  ultimately have "repr_digits unit_flt = (1, 0)" by (simp add: repr_digits_def unit_flt_def repr_lengths_def)
  then show ?thesis using \<open>ndigits 1 = 1\<close> by (simp add: dec_of_flt_def unit_flt_def)
qed

lemma wide_decimal: "dec_of_flt wide_flt = Dec False 1 22"
proof -
  have "round_ratio False 10000000000000000000000 1 = round_ratio False 10000000000000000000000 1" by simp
  moreover have "ndigits 10000000000000000000000 = 23" "ndigits 1 = 1" by (simp_all add: ndigits.simps)
  ultimately have "repr_try 10000000000000000000000 1 1 = Some (1, 22)"
    by (simp add: repr_try_def repr_point_def reads_back_def rhe_def)
  moreover have "strip_zeros 1 22 400 = (1, 22)" by (simp add: strip_zeros.simps)
  ultimately have "repr_digits wide_flt = (1, 22)" by (simp add: repr_digits_def wide_flt_def repr_lengths_def)
  then show ?thesis using \<open>ndigits 1 = 1\<close> by (simp add: dec_of_flt_def wide_flt_def)
qed

lemma rounded_improvement_refused:
  "finite_float (dec_sub default_precision (dec_of_flt wide_flt) (dec_of_flt unit_flt)) ''absolute improvement'' = Inr wide_flt
     \<and> \<not> dec_eq (number_decimal (PFloat wide_flt)) (dec_sub default_precision (dec_of_flt wide_flt) (dec_of_flt unit_flt))"
proof -
  have d: "dec_sub default_precision (Dec False 1 22) (Dec False 10 (-1)) = Dec False 99999999999999999999990 (-1)"
    by (simp add: dec_sub_def dec_add_def default_precision_def sgn_int_def ndigits.simps)
  have "round_ratio False 99999999999999999999990 10 = FFin (sgn_int False 4768371582031250) 21"
    by (rule round_ratio_cell_test) (simp_all add: cell_test_def)
  then have f: "finite_float (Dec False 99999999999999999999990 (-1)) l = Inr wide_flt" for l
    by (simp add: finite_float_if wide_flt_def sgn_int_def)
  show ?thesis unfolding wide_decimal unit_decimal d by (simp add: f number_decimal_def wide_decimal dec_eq_def dec_le_def sgn_int_def)
qed

end
