(* ===== verification/Observations.thy ===== *)
theory Observations
  imports ArtifactScan
begin

section \<open>Normalized evidence\<close>

text \<open>
  The evidence values of \<^verbatim>\<open>claimci/analysis/contracts.py\<close>: what an adapter reads out of one
  passive artifact (metrics, configuration values, dataset references, compute evidence) and the
  claim an audit tests. As in the other contracts, a constructor \<open>new_*\<close> validates the fields; a
  number that the code converts to a float is an argument of its own.
\<close>

subsection \<open>Scalars\<close>

definition contract_float :: "string \<Rightarrow> pyval \<Rightarrow> flt checked" where
  "contract_float label v =
     (case v of
        PInt i \<Rightarrow> (case float_of_int i of
                     None \<Rightarrow> Inl (OverflowError ''int too large to convert to float'')
                   | Some x \<Rightarrow> Inr x)
      | PFloat x \<Rightarrow> sbind (aensure (isfinite x) (label @ '' must be finite'')) (\<lambda>_. Inr x)
      | _ \<Rightarrow> Inl (TypeError (label @ '' must be a number'')))"

definition contract_scalar :: "string \<Rightarrow> pyval \<Rightarrow> unit checked" where
  "contract_scalar label v =
     (case v of
        PNone \<Rightarrow> Inr ()
      | PStr s \<Rightarrow> Inr ()
      | PBool b \<Rightarrow> Inr ()
      | PInt i \<Rightarrow> Inr ()
      | PFloat x \<Rightarrow> aensure (isfinite x) (label @ '' must be a finite JSON scalar'')
      | _ \<Rightarrow> afail (label @ '' must be a finite JSON scalar''))"

definition optional_id :: "nat \<Rightarrow> string \<Rightarrow> string option \<Rightarrow> unit checked" where
  "optional_id n label v = (case v of None \<Rightarrow> Inr () | Some s \<Rightarrow> contract_id n label s)"

subsection \<open>Observations\<close>

record config_value =
  cv_key :: string
  cv_value :: pyval
  cv_provenance :: provenance

definition new_config_value :: "config_value \<Rightarrow> config_value checked" where
  "new_config_value c =
     sbind (contract_id 256 ''config key'' (cv_key c)) (\<lambda>_.
     sbind (contract_scalar ''config value'' (cv_value c)) (\<lambda>_. Inr c))"

record dataset_reference =
  dr_path :: string
  dr_split :: "string option"
  dr_provenance :: provenance

definition new_dataset_reference :: "dataset_reference \<Rightarrow> dataset_reference checked" where
  "new_dataset_reference d =
     sbind (new_repository_path (dr_path d)) (\<lambda>_.
     sbind (optional_id 64 ''dataset split'' (dr_split d)) (\<lambda>_. Inr d))"

record compute_evidence =
  ce_name :: string
  ce_value :: flt
  ce_unit :: "string option"
  ce_provenance :: provenance

definition new_compute_evidence :: "pyval \<Rightarrow> compute_evidence \<Rightarrow> compute_evidence checked" where
  "new_compute_evidence v c =
     sbind (contract_id 256 ''compute evidence name'' (ce_name c)) (\<lambda>_.
     sbind (contract_float ''compute evidence value'' v) (\<lambda>x.
     sbind (optional_id 64 ''compute evidence unit'' (ce_unit c)) (\<lambda>_. Inr (c\<lparr>ce_value := x\<rparr>))))"

datatype observed_seed = SeedText string | SeedInt int

record observation =
  ob_provenance :: provenance
  ob_metric_name :: "string option"
  ob_metric_value :: "flt option"
  ob_run_id :: "string option"
  ob_seed :: "observed_seed option"
  ob_role :: experiment_role
  ob_config :: "config_value list"
  ob_datasets :: "dataset_reference list"
  ob_compute :: "compute_evidence list"

text \<open>A metric name and its value appear together.\<close>

definition observed_metric :: "string option \<Rightarrow> pyval option \<Rightarrow> flt option checked" where
  "observed_metric name value =
     (case (name, value) of
        (None, None) \<Rightarrow> Inr None
      | (Some m, Some v) \<Rightarrow>
          sbind (contract_text 256 ''metric name'' m) (\<lambda>_.
          sbind (contract_float ''metric value'' v) (\<lambda>x. Inr (Some x)))
      | _ \<Rightarrow> afail ''observation metric_name and metric_value must appear together'')"

definition new_observation :: "pyval option \<Rightarrow> observation \<Rightarrow> observation checked" where
  "new_observation value ob =
     sbind (observed_metric (ob_metric_name ob) value) (\<lambda>x.
     sbind (optional_id 256 ''run_id'' (ob_run_id ob)) (\<lambda>_.
     sbind (case ob_seed ob of Some (SeedText s) \<Rightarrow> contract_id 128 ''seed'' s | _ \<Rightarrow> Inr ()) (\<lambda>_.
     sbind (aensure (\<not> (ob_metric_name ob = None \<and> ob_config ob = [] \<and> ob_datasets ob = [] \<and> ob_compute ob = []))
              ''normalized observation must contain substantive evidence'') (\<lambda>_.
     sbind (aensure (distinct (map cv_key (ob_config ob))) ''config_values keys must be unique'') (\<lambda>_.
     sbind (aensure (distinct (map dr_path (ob_datasets ob))) ''dataset reference paths must be unique'') (\<lambda>_.
     sbind (aensure (distinct (map ce_name (ob_compute ob))) ''compute evidence names must be unique'') (\<lambda>_.
       Inr (ob\<lparr>ob_metric_value := x\<rparr>))))))))"

subsection \<open>Adapter matches and evidence\<close>

definition trusted_adapter_id :: "string \<Rightarrow> bool" where
  "trusted_adapter_id s =
     (case s of
        [] \<Rightarrow> False
      | c # cs \<Rightarrow> (is_lower_char c \<or> is_digit_char c) \<and> length cs \<le> 127
                 \<and> list_all (\<lambda>d. is_lower_char d \<or> is_digit_char d \<or> d \<in> set ''._-'') cs)"

record adapter_match =
  am_adapter :: string
  am_path :: string
  am_confidence :: flt
  am_mappings :: "field_mapping list"
  am_evidence :: "provenance list"

definition new_adapter_match :: "adapter_match \<Rightarrow> adapter_match checked" where
  "new_adapter_match m =
     sbind (aensure (trusted_adapter_id (am_adapter m)) ''adapter_id must be a trusted registry identifier'') (\<lambda>_.
     sbind (new_repository_path (am_path m)) (\<lambda>_.
     sbind (aensure (distinct (map fm_target (am_mappings m))) ''adapter mappings must have unique target fields'') (\<lambda>_.
     sbind (ensure (am_evidence m \<noteq> [])
              (TypeError ''adapter match_evidence must be a non-empty tuple of FieldProvenance values'')) (\<lambda>_.
       Inr m))))"

record normalized_evidence =
  ne_id :: string
  ne_artifact :: artifact_candidate
  ne_match :: adapter_match
  ne_observations :: "observation list"
  ne_scan :: "scan_completeness option"
  ne_trace :: "string option"

definition new_evidence :: "normalized_evidence \<Rightarrow> normalized_evidence checked" where
  "new_evidence n =
     sbind (contract_id 128 ''evidence_id'' (ne_id n)) (\<lambda>_.
     sbind (aensure (ac_path (ne_artifact n) = am_path (ne_match n))
              ''normalized evidence artifact and adapter paths must match'') (\<lambda>_.
     sbind (ensure (ne_observations n \<noteq> []) (TypeError ''normalized evidence observations must be a non-empty tuple'')) (\<lambda>_.
     sbind (case ne_scan n of
              None \<Rightarrow> Inr ()
            | Some c \<Rightarrow> aensure (integrity_verified c) ''normalized evidence requires verified streaming integrity'') (\<lambda>_.
     sbind (case ne_trace n of None \<Rightarrow> Inr () | Some d \<Rightarrow> sbind (new_sha256 d) (\<lambda>_. Inr ())) (\<lambda>_.
     sbind (aensure ((ne_scan n = None) = (ne_trace n = None))
              ''streaming completeness and source trace digest must appear together'') (\<lambda>_.
       Inr n))))))"

subsection \<open>The claim an audit tests\<close>

record claimed_value =
  cl_role :: experiment_role
  cl_value :: flt
  cl_unit :: "string option"
  cl_provenance :: provenance
  cl_raw :: "string option"

definition optional_canonical :: "nat \<Rightarrow> string \<Rightarrow> string option \<Rightarrow> unit checked" where
  "optional_canonical n label v =
     (case v of
        None \<Rightarrow> Inr ()
      | Some s \<Rightarrow>
          sbind (contract_text n label s) (\<lambda>_.
            aensure (s = py_strip s \<and> \<not> has_control s) (label @ '' must be canonical text'')))"

definition new_claimed_value :: "pyval \<Rightarrow> claimed_value \<Rightarrow> claimed_value checked" where
  "new_claimed_value v c =
     sbind (aensure (cl_role c = ER_BASELINE \<or> cl_role c = ER_CANDIDATE)
              ''claimed metric value role must be baseline or candidate'') (\<lambda>_.
     sbind (contract_float ''claimed metric value'' v) (\<lambda>x.
     sbind (optional_canonical 64 ''claimed metric value unit'' (cl_unit c)) (\<lambda>_.
     sbind (optional_canonical 512 ''claimed metric raw token'' (cl_raw c)) (\<lambda>_.
       Inr (c\<lparr>cl_value := x\<rparr>)))))"

record audit_claim =
  cs_id :: string
  cs_metric :: string
  cs_direction :: direction
  cs_minimum :: "flt option"
  cs_metric_provenance :: provenance
  cs_direction_provenance :: provenance
  cs_threshold_provenance :: "provenance option"
  cs_values :: "claimed_value list"

definition audit_threshold :: "pyval option \<Rightarrow> provenance option \<Rightarrow> flt option checked" where
  "audit_threshold minimum p =
     (case (minimum, p) of
        (None, None) \<Rightarrow> Inr None
      | (Some v, Some _) \<Rightarrow>
          sbind (contract_float ''minimum absolute improvement'' v) (\<lambda>x.
          sbind (aensure (\<not> flt_lt x fzero) ''minimum absolute improvement must be non-negative'') (\<lambda>_.
            Inr (Some x)))
      | _ \<Rightarrow> afail ''audit threshold and threshold provenance must appear together'')"

definition new_audit_claim :: "pyval option \<Rightarrow> audit_claim \<Rightarrow> audit_claim checked" where
  "new_audit_claim minimum c =
     sbind (contract_id 128 ''audit claim_id'' (cs_id c)) (\<lambda>_.
     sbind (contract_text 256 ''audit metric'' (cs_metric c)) (\<lambda>_.
     sbind (aensure (cs_metric c = py_strip (cs_metric c) \<and> \<not> has_control (cs_metric c))
              ''audit metric must be canonical text'') (\<lambda>_.
     sbind (audit_threshold minimum (cs_threshold_provenance c)) (\<lambda>x.
     sbind (aensure (distinct (map cl_role (cs_values c))) ''audit claimed value roles must be unique'') (\<lambda>_.
       Inr (c\<lparr>cs_minimum := x\<rparr>))))))"

subsection \<open>What the constructors guarantee\<close>

text \<open>The metric of an observation, when it has one, with its finite value.\<close>

definition observation_ok :: "observation \<Rightarrow> bool" where
  "observation_ok ob \<longleftrightarrow>
     (case (ob_metric_name ob, ob_metric_value ob) of
        (None, None) \<Rightarrow> True
      | (Some m, Some x) \<Rightarrow> isfinite x
      | _ \<Rightarrow> False)
     \<and> distinct (map cv_key (ob_config ob))"

lemma float_of_int_finite: "float_of_int i = Some x \<Longrightarrow> isfinite x"
proof -
  assume "float_of_int i = Some x"
  moreover have "round_ratio s n d \<noteq> FNan" for s n d by (simp add: round_ratio_def fzero_def Let_def)
  ultimately show "isfinite x"
    by (cases "round_ratio (i < 0) (nat \<bar>i\<bar>) 1") (auto simp: float_of_int_def)
qed

lemma contract_float_finite: "contract_float label v = Inr x \<Longrightarrow> isfinite x"
  by (auto simp: contract_float_def aensure_def result_simps float_of_int_finite
      split: pyval.splits option.splits if_splits)

lemma new_observation_ok: "new_observation value ob = Inr ob' \<Longrightarrow> observation_ok ob'"
  by (auto simp: new_observation_def observed_metric_def observation_ok_def aensure_def afail_def result_simps
      split: option.splits dest: contract_float_finite)

lemma audit_threshold_nonneg:
  "audit_threshold minimum p = Inr (Some x) \<Longrightarrow> isfinite x \<and> \<not> flt_lt x fzero"
  by (auto simp: audit_threshold_def aensure_def afail_def result_simps split: option.splits dest: contract_float_finite)

lemma new_audit_claim_threshold:
  "new_audit_claim minimum c = Inr c' \<Longrightarrow> cs_minimum c' = Some x \<Longrightarrow> isfinite x \<and> \<not> flt_lt x fzero"
  by (auto simp: new_audit_claim_def aensure_def result_simps dest: audit_threshold_nonneg)

end
