(* ===== verification/Decimals.thy ===== *)
theory Decimals
  imports Contracts
begin

section \<open>Decimal texts\<close>

text \<open>
  \<^verbatim>\<open>decimal.Decimal\<close> of a text, and the context operations that evidence profiles and table
  predicates use. Reading a text is exact: it fails when the number does not fit the widest
  context, and so for the infinities and NaN here, which every caller refuses. The default context
  has 28 digits and exponents up to 999999.
\<close>

subsection \<open>Reading\<close>

definition digits_val :: "string \<Rightarrow> nat" where
  "digits_val s = foldl (\<lambda>n c. 10 * n + (char_code c - 48)) 0 s"

definition signed_text :: "string \<Rightarrow> bool \<times> string" where
  "signed_text s =
     (case s of
        [] \<Rightarrow> (False, [])
      | c # cs \<Rightarrow> if c = CHR ''-'' then (True, cs) else if c = CHR ''+'' then (False, cs) else (False, s))"

definition exponent_text :: "string \<Rightarrow> int option" where
  "exponent_text s =
     (case s of
        [] \<Rightarrow> Some 0
      | c # cs \<Rightarrow>
          (case signed_text cs of (neg, ds) \<Rightarrow>
             if c \<in> set ''eE'' \<and> ds \<noteq> [] \<and> list_all is_digit_char ds
             then Some (if neg then - int (digits_val ds) else int (digits_val ds)) else None))"

definition split_point :: "string \<Rightarrow> string \<times> string" where
  "split_point s =
     (case s of
        [] \<Rightarrow> ([], [])
      | c # cs \<Rightarrow> if c = CHR ''.'' then (takeWhile is_digit_char cs, dropWhile is_digit_char cs) else ([], s))"

text \<open>What the widest context holds exactly.\<close>

definition decimal_range :: "nat \<Rightarrow> int \<Rightarrow> bool" where
  "decimal_range c e \<longleftrightarrow>
     e + int (ndigits c) - 1 \<le> 999999999999999999 \<and> - 1999999999999999997 \<le> e"

definition in_range :: "bool \<Rightarrow> nat \<Rightarrow> int \<Rightarrow> dec option" where
  "in_range neg c e = (if decimal_range c e then Some (Dec neg c e) else None)"

definition unsigned_decimal :: "bool \<Rightarrow> string \<Rightarrow> dec option" where
  "unsigned_decimal neg s =
     (let whole = takeWhile is_digit_char s
      in case split_point (dropWhile is_digit_char s) of (tail, rest) \<Rightarrow>
           if whole @ tail = [] then None
           else case exponent_text rest of
                  None \<Rightarrow> None
                | Some e \<Rightarrow>
                    in_range neg (digits_val (whole @ tail)) (e - int (length tail)))"

definition decimal_of_text :: "string \<Rightarrow> dec option" where
  "decimal_of_text s =
     (case signed_text (filter (\<lambda>c. c \<noteq> CHR ''_'') (py_strip s)) of (neg, t) \<Rightarrow> unsigned_decimal neg t)"

subsection \<open>The context\<close>

text \<open>
  Rounding to \<open>p\<close> digits and to the exponents of the default context: an overflow is trapped and
  raises, a subnormal number is rounded at the least exponent.
\<close>

definition context_round :: "nat \<Rightarrow> dec \<Rightarrow> dec option" where
  "context_round p d =
     (case d of
        Dec s c e \<Rightarrow>
          (let adjusted = e + int (ndigits c) - 1; least = - 999998 - int p
           in if c = 0 then Some (Dec s 0 (max least (min 999999 e)))
              else if 999999 < adjusted then None
              else if adjusted < - 999999
                   then Some (if e < least then Dec s (rhe c (10 ^ nat (least - e))) least else Dec s c e)
              else (case dec_fix p d of
                      Dec s' c' e' \<Rightarrow> if 999999 < e' + int (ndigits c') - 1 then None else Some (Dec s' c' e')
                    | x \<Rightarrow> Some x))
      | x \<Rightarrow> Some x)"

definition reduced :: "dec \<Rightarrow> dec" where
  "reduced d =
     (case d of
        Dec s c e \<Rightarrow> (if c = 0 then Dec s 0 0 else case strip_zeros c e (e + int (ndigits c)) of (c', e') \<Rightarrow> Dec s c' e')
      | x \<Rightarrow> x)"

definition context_normalize :: "nat \<Rightarrow> dec \<Rightarrow> dec option" where
  "context_normalize p d = map_option reduced (context_round p d)"

definition context_mul :: "nat \<Rightarrow> dec \<Rightarrow> dec \<Rightarrow> dec option" where
  "context_mul p x y =
     (case (x, y) of
        (Dec s c e, Dec t d f) \<Rightarrow> context_round p (Dec (s \<noteq> t) (c * d) (e + f))
      | _ \<Rightarrow> Some DNan)"

subsection \<open>Reading back a printed decimal\<close>

lemma digits_val_Nil [simp]: "digits_val [] = 0"
  by (simp add: digits_val_def)

lemma digits_val_snoc [simp]: "digits_val (s @ [c]) = 10 * digits_val s + (char_code c - 48)"
  by (simp add: digits_val_def)

lemma digits_val_zeros: "digits_val (zeros n @ s) = digits_val s"
proof -
  have "foldl (\<lambda>n c. 10 * n + (char_code c - 48)) 0 (replicate n (CHR ''0'')) = 0"
    by (induction n) (simp_all add: char_code_def)
  then show ?thesis by (simp add: digits_val_def zeros_def)
qed

lemma digits_val_show [simp]: "digits_val (show_nat n) = n"
proof (induction n rule: show_nat.induct)
  case (1 n)
  show ?case
  proof (cases "n < 10")
    case True
    then show ?thesis by (simp add: show_nat.simps [of n] digits_val_def char_code_def chr_of_def)
  next
    case False
    have "char_code (chr_of (48 + n mod 10)) = 48 + n mod 10"
      by (simp add: char_code_def chr_of_def)
    with 1 False show ?thesis by (simp add: show_nat.simps [of n])
  qed
qed

lemma show_nat_digits: "list_all is_digit_char (show_nat n)"
proof (induction n rule: show_nat.induct)
  case (1 n)
  have "is_digit_char (chr_of (48 + d))" if "d < 10" for d
    using that by (simp add: is_digit_char_def char_code_def chr_of_def)
  with 1 show ?case by (subst show_nat.simps) simp
qed

lemma show_nat_nonempty [simp]: "show_nat n \<noteq> []"
  by (metis length_show_nat length_greater_0_conv ndigits_pos)

lemma zeros_digits: "list_all is_digit_char (zeros n)"
  by (induction n) (simp_all add: zeros_def is_digit_char_def char_code_def)

lemma digit_other: "is_digit_char c \<Longrightarrow> c \<notin> set ''_-+.eE''" "is_digit_char c \<Longrightarrow> \<not> is_space c"
  by (auto simp: is_digit_char_def is_space_def char_code_def Let_def)

text \<open>A text of a whole part, an optional fraction and an optional exponent is read part by part.\<close>

definition exponent_suffix :: "int \<Rightarrow> string" where
  "exponent_suffix x = (if x = 0 then [] else ''E'' @ (if x < 0 then ''-'' else ''+'') @ show_nat (nat \<bar>x\<bar>))"

lemma exponent_read [simp]: "exponent_text (exponent_suffix x) = Some x"
  by (auto simp: exponent_text_def exponent_suffix_def signed_text_def show_nat_digits)

lemma suffix_head: "exponent_suffix x = [] \<or> (\<exists>r. exponent_suffix x = CHR ''E'' # r)"
  by (simp add: exponent_suffix_def)

lemma digit_span:
  assumes "list_all is_digit_char a" and "b = [] \<or> \<not> is_digit_char (hd b)"
  shows "takeWhile is_digit_char (a @ b) = a" "dropWhile is_digit_char (a @ b) = b"
  using assms by (induction a) (auto simp: takeWhile_eq_Nil_iff dropWhile_id)

lemma not_digit: "\<not> is_digit_char (CHR ''.'')" "\<not> is_digit_char (CHR ''E'')"
  by (simp_all add: is_digit_char_def char_code_def)

lemma unsigned_whole:
  assumes "list_all is_digit_char a" "a \<noteq> []"
  shows "unsigned_decimal neg (a @ exponent_suffix x) = in_range neg (digits_val a) x"
proof -
  have "exponent_suffix x = [] \<or> \<not> is_digit_char (hd (exponent_suffix x))"
    using suffix_head [of x] not_digit by auto
  moreover have "split_point (exponent_suffix x) = ([], exponent_suffix x)"
    using suffix_head [of x] by (auto simp: split_point_def)
  ultimately show ?thesis using assms by (simp add: unsigned_decimal_def digit_span Let_def)
qed

lemma unsigned_point:
  assumes "list_all is_digit_char a" "a \<noteq> []" "list_all is_digit_char b"
  shows "unsigned_decimal neg (a @ ''.'' @ b @ exponent_suffix x) = in_range neg (digits_val (a @ b)) (x - int (length b))"
proof -
  have "exponent_suffix x = [] \<or> \<not> is_digit_char (hd (exponent_suffix x))"
    using suffix_head [of x] not_digit by auto
  then have "split_point (''.'' @ b @ exponent_suffix x) = (b, exponent_suffix x)"
    using assms by (simp add: split_point_def digit_span)
  moreover have "takeWhile is_digit_char (a @ ''.'' @ b @ exponent_suffix x) = a"
    "dropWhile is_digit_char (a @ ''.'' @ b @ exponent_suffix x) = ''.'' @ b @ exponent_suffix x"
    using assms not_digit by (simp_all add: digit_span)
  ultimately show ?thesis using assms by (simp add: unsigned_decimal_def Let_def)
qed

text \<open>The body of a printed decimal, by the place of its point.\<close>

lemma dec_str_cases:
  fixes c :: nat and e :: int
  defines "ds \<equiv> show_nat c"
  shows "dec_str (Dec s c e) = minus_sign s @
    (if e \<le> 0 \<and> -6 < e + int (length ds)
     then (if e + int (length ds) \<le> 0 then ''0.'' @ zeros (nat (- e - int (length ds))) @ ds
           else if e = 0 then ds
           else take (nat (e + int (length ds))) ds @ ''.'' @ drop (nat (e + int (length ds))) ds)
     else if length ds = 1 then ds @ exponent_suffix e
     else take 1 ds @ ''.'' @ drop 1 ds @ exponent_suffix (e + int (length ds) - 1))"
proof (cases "e \<le> 0 \<and> -6 < e + int (length ds)")
  case True
  then have "int (length ds) \<le> e + int (length ds) \<longleftrightarrow> e = 0" "zeros 0 = []" by (auto simp: zeros_def)
  moreover have "e + int (length ds) - e - int (length ds) = 0" by simp
  ultimately show ?thesis
    unfolding dec_str_def dec.case Let_def ds_def [symmetric] if_P [OF True] by (auto simp: algebra_simps)
next
  case False
  let ?x = "e + int (length ds) - 1"
  have n: "length ds \<noteq> 0" by (simp add: ds_def)
  have "\<not> (1 :: int) \<le> 0" "nat 1 = (1 :: nat)" by simp_all
  moreover have "int (length ds) \<le> 1 \<longleftrightarrow> length ds = 1" using n by linarith
  moreover have "e + int (length ds) = 1 \<longleftrightarrow> ?x = 0" by linarith
  moreover have "length ds = 1 \<Longrightarrow> ?x = e" "length ds = 1 \<Longrightarrow> zeros (1 - length ds) = []" by (simp_all add: zeros_def)
  ultimately show ?thesis
    unfolding dec_str_def dec.case Let_def ds_def [symmetric] if_not_P [OF False] exponent_suffix_def
    by (cases "length ds = 1") (simp_all only: if_True if_False simp_thms append_assoc, simp_all)
qed

text \<open>The characters of a printed decimal.\<close>

definition plain_char :: "char \<Rightarrow> bool" where
  "plain_char c \<longleftrightarrow> c \<noteq> CHR ''_'' \<and> \<not> is_space c"

lemma plain_digits: "list_all is_digit_char s \<Longrightarrow> list_all plain_char s"
  using digit_other(2) by (induction s) (auto simp: plain_char_def is_digit_char_def char_code_def)

lemma plain_signs: "plain_char (CHR ''.'')" "plain_char (CHR ''E'')" "plain_char (CHR ''+'')" "plain_char (CHR ''-'')"
  by (simp_all add: plain_char_def is_space_def char_code_def)

lemma plain_suffix: "list_all plain_char (exponent_suffix x)"
  by (simp add: exponent_suffix_def plain_signs plain_digits show_nat_digits)

lemma plain_strip: "list_all plain_char s \<Longrightarrow> py_strip s = s"
  by (metis dropWhile_id hd_in_set list_all_iff plain_char_def py_strip_def rev_rev_ident set_rev)

lemma plain_filter: "list_all plain_char s \<Longrightarrow> filter (\<lambda>c. c \<noteq> CHR ''_'') s = s"
  by (simp add: list_all_iff plain_char_def)

lemma decimal_of_plain:
  assumes "list_all plain_char t" "t \<noteq> []" "is_digit_char (hd t)"
  shows "decimal_of_text (minus_sign s @ t) = unsigned_decimal s t"
proof -
  have p: "list_all plain_char (minus_sign s @ t)" using assms by (simp add: minus_sign_def plain_signs)
  have "hd t \<noteq> CHR ''-''" "hd t \<noteq> CHR ''+''" using assms(3) by (auto simp: is_digit_char_def char_code_def)
  then have "signed_text (minus_sign s @ t) = (s, t)"
    using assms(2) by (cases t) (simp_all add: signed_text_def minus_sign_def)
  with p show ?thesis by (simp add: decimal_of_text_def plain_strip plain_filter)
qed

lemma hd_digit: "list_all is_digit_char a \<Longrightarrow> a \<noteq> [] \<Longrightarrow> is_digit_char (hd a)"
  by (cases a) auto

lemma read_whole:
  assumes "list_all is_digit_char a" "a \<noteq> []"
  shows "decimal_of_text (minus_sign s @ a @ exponent_suffix x) = in_range s (digits_val a) x"
  using assms plain_digits [OF assms(1)]
  by (subst decimal_of_plain) (simp_all add: plain_suffix hd_digit unsigned_whole)

lemma read_point:
  assumes "list_all is_digit_char a" "a \<noteq> []" "list_all is_digit_char b"
  shows "decimal_of_text (minus_sign s @ a @ ''.'' @ b @ exponent_suffix x) = in_range s (digits_val (a @ b)) (x - int (length b))"
proof -
  have "decimal_of_text (minus_sign s @ a @ ''.'' @ b @ exponent_suffix x) = unsigned_decimal s (a @ ''.'' @ b @ exponent_suffix x)"
    using assms plain_digits [OF assms(1)] plain_digits [OF assms(3)]
    by (intro decimal_of_plain) (simp_all add: plain_suffix hd_digit plain_signs)
  with unsigned_point [OF assms] show ?thesis by simp
qed

lemma no_exponent [simp]: "exponent_suffix 0 = []"
  by (simp add: exponent_suffix_def)

text \<open>
  Reading a printed decimal gives the decimal back, digit by digit and with its exponent, when the
  widest context can hold it.
\<close>

lemma decimal_roundtrip: "decimal_of_text (dec_str (Dec s c e)) = in_range s c e"
proof -
  define ds where "ds = show_nat c"
  have dig: "list_all is_digit_char ds" "ds \<noteq> []" and val: "digits_val ds = c"
    by (simp_all add: ds_def show_nat_digits)
  have take: "list_all is_digit_char (take m ds)" and drop: "list_all is_digit_char (drop m ds)" for m
    using dig by (auto simp: list_all_iff dest: in_set_takeD in_set_dropD)
  note str = dec_str_cases [of s c e, folded ds_def]
  consider (small) "e \<le> 0" "-6 < e + int (length ds)" "e + int (length ds) \<le> 0"
    | (whole) "e = 0" | (point) "e < 0" "0 < e + int (length ds)"
    | (one) "\<not> (e \<le> 0 \<and> -6 < e + int (length ds))" "length ds = 1"
    | (more) "\<not> (e \<le> 0 \<and> -6 < e + int (length ds))" "length ds \<noteq> 1" by linarith
  then show ?thesis
  proof cases
    case small
    let ?b = "zeros (nat (- e - int (length ds))) @ ds"
    have "digits_val (''0'' @ ?b) = c"
      using digits_val_zeros [of "Suc (nat (- e - int (length ds)))" ds] val by (simp add: zeros_def)
    moreover have "0 - int (length ?b) = e" using small by (simp add: zeros_def)
    ultimately show ?thesis
      using read_point [of "''0''" ?b s 0] small dig str
      by (simp add: zeros_digits is_digit_char_def char_code_def)
  next
    case whole
    then show ?thesis using read_whole [of ds s 0] dig val str by simp
  next
    case point
    let ?m = "nat (e + int (length ds))"
    have "0 - int (length (drop ?m ds)) = e" "take ?m ds \<noteq> []" using point dig by auto
    then show ?thesis
      using read_point [of "take ?m ds" "drop ?m ds" s 0] point take drop val str by simp
  next
    case one
    then show ?thesis
      using read_whole [of ds s e] dig val str [unfolded if_not_P [OF one(1)] if_P [OF one(2)]] by simp
  next
    case more
    have "e + int (length ds) - 1 - int (length (drop 1 ds)) = e" "take 1 ds \<noteq> []" using more dig by (cases ds; auto)+
    then show ?thesis
      using read_point [of "take 1 ds" "drop 1 ds" s "e + int (length ds) - 1"] take drop val
        str [unfolded if_not_P [OF more(1)] if_not_P [OF more(2)]] by simp
  qed
qed


subsection \<open>Reduced decimals\<close>

text \<open>A reduced decimal ends in no zero, so its value determines it.\<close>

fun is_reduced :: "dec \<Rightarrow> bool" where
  "is_reduced (Dec s c e) = (if c = 0 then e = 0 else c mod 10 \<noteq> 0)"
| "is_reduced _ = True"

lemma strip_zeros_reduced:
  "0 < c \<Longrightarrow> e + int (ndigits c) \<le> ideal \<Longrightarrow> strip_zeros c e ideal = (c', e') \<Longrightarrow> 0 < c' \<and> c' mod 10 \<noteq> 0"
proof (induction c e ideal rule: strip_zeros.induct)
  case (1 c e ideal)
  have e: "e < ideal" using 1(3) ndigits_pos [of c] by linarith
  show ?case
  proof (cases "c mod 10 = 0")
    case True
    then have "10 \<le> c" using 1(2) by (auto simp: mod_eq_0_iff_dvd dest: dvd_imp_le)
    then have "ndigits c = Suc (ndigits (c div 10))" by (subst ndigits.simps) simp
    then show ?thesis using 1 True e \<open>10 \<le> c\<close> by (simp add: strip_zeros.simps [of c])
  next
    case False
    then show ?thesis using 1(2,4) by (simp add: strip_zeros.simps [of c])
  qed
qed

lemma reduced_reduced: "is_reduced (reduced d)"
proof (cases d)
  case (Dec s c e)
  obtain c' e' where "strip_zeros c e (e + int (ndigits c)) = (c', e')" by fastforce
  with Dec strip_zeros_reduced [of c e "e + int (ndigits c)" c' e'] show ?thesis
    by (auto simp: reduced_def)
qed (simp_all add: reduced_def)

lemma reduced_powers:
  fixes c d :: nat
  assumes "real c * 10 powi e = real d * 10 powi f" "c mod 10 \<noteq> 0" "e \<le> f"
  shows "e = f"
proof (rule ccontr)
  assume "e \<noteq> f"
  define k where "k = nat (f - e) - 1"
  have k: "f = e + int (Suc k)" using assms(3) \<open>e \<noteq> f\<close> by (simp add: k_def)
  have "(10 :: real) powi f = 10 powi e * 10 powi int (Suc k)" unfolding k by (rule power_int_add) simp
  also have "(10 :: real) powi int (Suc k) = 10 ^ Suc k" by (rule power_int_of_nat)
  finally have "real c * 10 powi e = real d * 10 ^ Suc k * 10 powi e"
    unfolding assms(1) by (simp only: mult.assoc mult.commute mult.left_commute)
  then have "real c = real d * 10 ^ Suc k"
    by (metis mult_cancel_right power_int_eq_0_iff zero_neq_numeral)
  then have "real c = real (d * 10 ^ Suc k)" by (simp only: of_nat_mult of_nat_power of_nat_numeral)
  then have "c = d * 10 ^ Suc k" by (simp only: of_nat_eq_iff)
  with assms(2) show False by simp
qed

lemma reduced_unique:
  assumes "is_reduced (Dec s c e)" "is_reduced (Dec t d f)" "dval (Dec s c e) = dval (Dec t d f)" "c \<noteq> 0"
  shows "Dec s c e = Dec t d f"
proof -
  have pos: "0 < real c * 10 powi e" using assms(4) by simp
  have d: "d \<noteq> 0"
  proof
    assume "d = 0"
    with assms(3) have "real c * 10 powi e = 0" by (auto simp: dval_Dec split: if_splits)
    with pos show False by simp
  qed
  then have "0 < real d * 10 powi f" by simp
  with pos assms(3) have st: "s = t" and eq: "real c * 10 powi e = real d * 10 powi f"
    by (auto simp: dval_Dec split: if_splits)
  have "e = f"
    using reduced_powers [OF eq] reduced_powers [OF eq [symmetric]] assms(1,2,4) d by (cases "e \<le> f") auto
  with eq st show ?thesis by simp
qed

end
