(* ===== verification/ProfileData.thy ===== *)
theory ProfileData
  imports Observations Decimals
begin

section \<open>Evidence profiles\<close>

text \<open>
  The values of \<^verbatim>\<open>claimci/analysis/profiles.py\<close>: the two fixed evidence profiles, the fields a
  benchmark may represent and how each of them is read, the facts that a selection rests on, and
  the selection with its identity.
\<close>

subsection \<open>Fixed vocabulary\<close>

datatype profile_id = TRAINING_EXPERIMENT_V0 | BENCHMARK_MEASUREMENT_V0

datatype benchmark_variant = LATENCY | THROUGHPUT_RESOURCE | KERNEL | MODEL_QUALITY | COST

datatype result_form = RAW_RUN_SERIES | REPORTED_AGGREGATE | DETERMINISTIC_DERIVATION

fun profile_value :: "profile_id \<Rightarrow> string" where
  "profile_value TRAINING_EXPERIMENT_V0 = ''TRAINING_EXPERIMENT_V0''"
| "profile_value BENCHMARK_MEASUREMENT_V0 = ''BENCHMARK_MEASUREMENT_V0''"

fun variant_value :: "benchmark_variant \<Rightarrow> string" where
  "variant_value LATENCY = ''LATENCY''"
| "variant_value THROUGHPUT_RESOURCE = ''THROUGHPUT_RESOURCE''"
| "variant_value KERNEL = ''KERNEL''"
| "variant_value MODEL_QUALITY = ''MODEL_QUALITY''"
| "variant_value COST = ''COST''"

fun form_value :: "result_form \<Rightarrow> string" where
  "form_value RAW_RUN_SERIES = ''RAW_RUN_SERIES''"
| "form_value REPORTED_AGGREGATE = ''REPORTED_AGGREGATE''"
| "form_value DETERMINISTIC_DERIVATION = ''DETERMINISTIC_DERIVATION''"

definition benchmark_slots :: "string list" where
  "benchmark_slots =
     [''benchmark.subject'', ''benchmark.results'', ''benchmark.workload'', ''benchmark.measurement_config'',
      ''measurement.metric_identity'', ''benchmark.run_protocol'', ''benchmark.environment'', ''benchmark.evaluator'']"

definition benchmark_fields :: "string list" where
  "benchmark_fields =
     [''benchmark.subject.id'', ''benchmark.subject.implementation'', ''benchmark.workload.id'',
      ''benchmark.workload.model'', ''benchmark.workload.input_shape'', ''benchmark.workload.corpus'',
      ''benchmark.workload.sequence_length'', ''benchmark.workload.batch_size'',
      ''benchmark.workload.concurrency'', ''benchmark.workload.tensor_shape'',
      ''benchmark.workload.dtype'', ''benchmark.workload.layout'',
      ''benchmark.workload.tensor_generation'', ''benchmark.workload.workload_volume'',
      ''benchmark.workload.token_volume'', ''benchmark.measurement_config.timing_boundary'',
      ''benchmark.measurement_config.measurement_window'',
      ''benchmark.measurement_config.memory_collection'',
      ''benchmark.measurement_config.network_boundary'', ''benchmark.run_protocol.result_form'',
      ''benchmark.run_protocol.sample_count'', ''benchmark.run_protocol.step_count'',
      ''benchmark.run_protocol.warmup'', ''benchmark.run_protocol.retry_policy'',
      ''benchmark.run_protocol.aggregation'', ''benchmark.run_protocol.statistic'',
      ''benchmark.run_protocol.timing_method'', ''benchmark.run_protocol.generation_seed'',
      ''benchmark.environment.hardware'', ''benchmark.environment.software'',
      ''benchmark.environment.runtime'', ''benchmark.environment.compiler'',
      ''benchmark.environment.region'', ''benchmark.environment.provider'',
      ''benchmark.environment.sku'', ''benchmark.environment.pricing_snapshot'',
      ''benchmark.environment.pricing_version'', ''benchmark.evaluator.id'',
      ''benchmark.evaluator.version'', ''benchmark.evaluator.scoring'',
      ''benchmark.evaluator.metric_definition'', ''benchmark.evaluator.metric_config'',
      ''benchmark.evaluator.normalization'', ''benchmark.evaluator.postprocessing'',
      ''benchmark.evaluator.formula_family'', ''benchmark.evaluator.unit_value'',
      ''benchmark.evaluator.quantity'', ''benchmark.evaluator.included_costs'',
      ''benchmark.evaluator.excluded_costs'', ''measurement.metric_identity.definition'',
      ''measurement.metric_identity.configuration'', ''measurement.metric_identity.version'']"

definition positive_integer_fields :: "string list" where
  "positive_integer_fields =
     [''benchmark.workload.sequence_length'', ''benchmark.workload.batch_size'',
      ''benchmark.workload.concurrency'', ''benchmark.workload.workload_volume'',
      ''benchmark.workload.token_volume'', ''benchmark.run_protocol.sample_count'',
      ''benchmark.run_protocol.step_count'']"

definition nonnegative_integer_fields :: "string list" where
  "nonnegative_integer_fields =
     [''benchmark.run_protocol.warmup'', ''benchmark.run_protocol.generation_seed'']"

definition decimal_fields :: "string list" where
  "decimal_fields = [''benchmark.evaluator.unit_value'', ''benchmark.evaluator.quantity'']"

subsection \<open>Reading a field\<close>

definition field_error :: "string \<Rightarrow> string \<Rightarrow> py_error" where
  "field_error key message = AnalysisContractError (''Benchmark profile field '' @ str_repr key @ message)"

text \<open>The pattern \<^verbatim>\<open>0|[1-9][0-9]*\<close>; longer texts than the limit are not converted.\<close>

definition canonical_digits :: "string \<Rightarrow> bool" where
  "canonical_digits s =
     (s = ''0'' \<or> (case s of [] \<Rightarrow> False | c # cs \<Rightarrow> c \<noteq> CHR ''0'' \<and> is_digit_char c \<and> list_all is_digit_char cs))"

definition profile_integer :: "string \<Rightarrow> pyval \<Rightarrow> pyval checked" where
  "profile_integer key v =
     sbind (case v of
              PStr s \<Rightarrow>
                sbind (ensure (canonical_digits s) (field_error key '' must be a canonical integer'')) (\<lambda>_.
                sbind (ensure (length s \<le> max_str_digits) (field_error key '' exceeds its integer bound'')) (\<lambda>_.
                  Inr (PInt (int (digits_val s)))))
            | _ \<Rightarrow> Inr v) (\<lambda>w.
     (let least = (if key \<in> set positive_integer_fields then 1 else 0)
      in case w of
           PInt i \<Rightarrow> if least \<le> i \<and> i \<le> 2 ^ 63 - 1 then Inr w
                     else Inl (field_error key '' is outside its integer bound'')
         | _ \<Rightarrow> Inl (field_error key '' is outside its integer bound'')))"

text \<open>\<^verbatim>\<open>Decimal(str(value))\<close> of a text, an integer or a float, when it is finite.\<close>

definition scalar_decimal :: "pyval \<Rightarrow> dec option" where
  "scalar_decimal v =
     (case v of
        PStr s \<Rightarrow> decimal_of_text s
      | PInt i \<Rightarrow> if ndigits (nat \<bar>i\<bar>) \<le> max_str_digits then Some (dec_of_int i) else None
      | PFloat x \<Rightarrow> if isfinite x then Some (dec_of_flt x) else None
      | _ \<Rightarrow> None)"

definition profile_decimal :: "string \<Rightarrow> pyval \<Rightarrow> pyval checked" where
  "profile_decimal key v =
     (case scalar_decimal v of
        None \<Rightarrow> Inl (field_error key '' must be a finite decimal'')
      | Some d \<Rightarrow>
          (case context_normalize 28 d of
             None \<Rightarrow> Inl (DecimalOverflow ''decimal.Overflow'')
           | Some n \<Rightarrow> Inr (PStr (if dec_is_zero n then ''0'' else dec_str n))))"

definition profile_scalar :: "string \<Rightarrow> pyval \<Rightarrow> pyval checked" where
  "profile_scalar key v =
     (if key \<in> set positive_integer_fields \<or> key \<in> set nonnegative_integer_fields then profile_integer key v
      else if key \<in> set decimal_fields then profile_decimal key v
      else Inr v)"

subsection \<open>Facts and selections\<close>

text \<open>\<^verbatim>\<open>json.dumps\<close> of a scalar; an integer of more digits than the limit cannot be printed.\<close>

definition scalar_json :: "pyval \<Rightarrow> string checked" where
  "scalar_json v =
     (case v of
        PInt i \<Rightarrow> if ndigits (nat \<bar>i\<bar>) \<le> max_str_digits then Inr (show_int i)
                  else Inl (ValueError ''Exceeds the limit (4300 digits) for integer string conversion'')
      | _ \<Rightarrow> (case json_dumps json_escape_ascii v of Inl e \<Rightarrow> Inl (ValueError e) | Inr t \<Rightarrow> Inr t))"

definition profile_digest :: "(nat list \<Rightarrow> string) \<Rightarrow> string \<Rightarrow> pyval \<Rightarrow> string" where
  "profile_digest sha prefix v = prefix @ take 24 (sha (canonical_bytes v))"

definition profile_name_ok :: "string \<Rightarrow> bool" where
  "profile_name_ok s \<longleftrightarrow> s \<noteq> [] \<and> s = py_strip s \<and> length s \<le> 256 \<and> \<not> has_control s"

record selection_fact =
  sf_id :: string
  sf_name :: string
  sf_value :: string
  sf_sources :: "string list"
  sf_kind :: provenance_kind

definition new_fact ::
  "(nat list \<Rightarrow> string) \<Rightarrow> string \<Rightarrow> pyval \<Rightarrow> string list \<Rightarrow> selection_fact checked" where
  "new_fact sha name v sources =
     sbind (aensure (profile_name_ok name) ''profile fact name must be a canonical identifier'') (\<lambda>_.
     sbind (aensure (sources \<noteq> [] \<and> length sources \<le> 16) ''profile fact source bindings exceed their bound'') (\<lambda>_.
     sbind (case scalar_json v of
              Inl _ \<Rightarrow> afail ''profile fact value is not bounded JSON''
            | Inr t \<Rightarrow> Inr t) (\<lambda>t.
     sbind (aensure (length t \<le> 1024) ''profile fact value exceeds its bound'') (\<lambda>_.
       Inr \<lparr>sf_id = profile_digest sha ''profile-fact-''
              (pdict [(''name'', PStr name), (''value'', PStr t), (''sources'', str_list (sort sources))]),
            sf_name = name, sf_value = t, sf_sources = sort sources, sf_kind = ADAPTER_EXTRACTION\<rparr>))))"

record profile_selection =
  se_id :: string
  se_profile :: profile_id
  se_variant :: "benchmark_variant option"
  se_form :: "result_form option"
  se_activation :: string
  se_complete :: bool
  se_facts :: "selection_fact list"

text \<open>
  One fact per identity, the last one of a list that repeats it, in the order of the identities.
\<close>

definition facts_by_id :: "selection_fact list \<Rightarrow> selection_fact list" where
  "facts_by_id fs = sort_key sf_id (map snd (foldl (\<lambda>d f. al_set (sf_id f) f d) [] fs))"

definition bounded_facts :: "selection_fact list \<Rightarrow> selection_fact list checked" where
  "bounded_facts fs =
     sbind (aensure (length (facts_by_id fs) \<le> 192) ''profile facts exceed their bound'') (\<lambda>_. Inr (facts_by_id fs))"

definition activation_policy :: "profile_id \<Rightarrow> benchmark_variant option \<Rightarrow> result_form option \<Rightarrow> string checked" where
  "activation_policy p v f =
     (case p of
        TRAINING_EXPERIMENT_V0 \<Rightarrow>
          if v = None \<and> f = None then Inr ''claimci.profile.training-experiment.v0''
          else afail ''Training profile cannot carry Benchmark fields''
      | BENCHMARK_MEASUREMENT_V0 \<Rightarrow>
          (case v of
             None \<Rightarrow> afail ''Benchmark profile requires a variant''
           | Some x \<Rightarrow> Inr (''claimci.profile.benchmark-measurement.'' @ py_lower (variant_value x) @ ''.v0'')))"

definition new_selection ::
  "(nat list \<Rightarrow> string) \<Rightarrow> profile_id \<Rightarrow> benchmark_variant option \<Rightarrow> result_form option \<Rightarrow> bool \<Rightarrow> selection_fact list
    \<Rightarrow> profile_selection checked" where
  "new_selection sha p v f whole fs =
     sbind (bounded_facts fs) (\<lambda>ordered.
     sbind (activation_policy p v f) (\<lambda>activation.
       Inr \<lparr>se_id = profile_digest sha ''profile-selection-''
              (pdict [(''profile_id'', PStr (profile_value p)), (''version'', PInt 0),
                      (''variant'', opt_str (map_option variant_value v)),
                      (''result_form'', opt_str (map_option form_value f)),
                      (''activation'', PStr activation), (''complete'', PBool whole),
                      (''facts'', str_list (map sf_id ordered))]),
            se_profile = p, se_variant = v, se_form = f, se_activation = activation, se_complete = whole,
            se_facts = ordered\<rparr>))"

subsection \<open>What a read field is\<close>

text \<open>A field that was read once reads the same again.\<close>

lemma integer_read_again: "profile_integer key v = Inr w \<Longrightarrow> profile_integer key w = Inr w"
  by (auto simp: profile_integer_def Let_def result_simps split: pyval.splits if_splits)

text \<open>A sample count, or another integer of a benchmark, that was read is an integer within the
  bounds of its field, whatever the artifact spelled.\<close>

lemma profile_integer_bounds:
  assumes "profile_scalar key v = Inr w" "key \<in> set positive_integer_fields"
  shows "\<exists>i. w = PInt i \<and> 1 \<le> i \<and> i \<le> 9223372036854775807"
  using assms by (auto simp: profile_scalar_def profile_integer_def Let_def result_simps split: pyval.splits if_splits)

lemma profile_integer_witness:
  "\<exists>i. PInt 8 = PInt i \<and> 1 \<le> i \<and> i \<le> 9223372036854775807"
  by (rule profile_integer_bounds [of "''benchmark.workload.batch_size''" "PStr ''8''"])
    (simp_all add: profile_scalar_def positive_integer_fields_def nonnegative_integer_fields_def profile_integer_def
       canonical_digits_def is_digit_char_def char_code_def digits_val_def max_str_digits_def Let_def)

end
