(* ===== verification/BenchmarkAudit.thy ===== *)
theory BenchmarkAudit
  imports ProfileData ResearchAudit
begin

section \<open>The benchmark audit\<close>

text \<open>
  \<^verbatim>\<open>claimci/benchmark_audit.py\<close>, and \<open>audit_profiled\<close> of \<^verbatim>\<open>claimci/audit.py\<close>, which gives the
  training profile to the research audit and the benchmark profile to this one: the components of a
  measurement procedure are compared between the baseline, the candidate and a shared reference,
  then the result is checked in one of three forms.
\<close>

subsection \<open>The configuration a role represents\<close>

text \<open>The represented fields and, in parallel, their canonical texts.\<close>

type_synonym projection = "(string \<times> pyval \<times> string) list"

definition project_field :: "config_value \<Rightarrow> projection \<Rightarrow> projection checked" where
  "project_field c d =
     (let key = cv_key c
      in if key \<notin> set benchmark_fields then Inr d
         else case profile_scalar key (cv_value c) of
                Inl _ \<Rightarrow> claimci (''benchmark component '' @ str_repr key @ '' is invalid'')
              | Inr v \<Rightarrow>
                  sbind (scalar_json v) (\<lambda>t.
                    if (case map_of d key of None \<Rightarrow> True | Some (_, u) \<Rightarrow> u = t)
                    then Inr (al_set key (v, t) d)
                    else claimci (''benchmark component '' @ str_repr key @ '' has conflicting values'')))"

fun project_fields :: "config_value list \<Rightarrow> projection \<Rightarrow> projection checked" where
  "project_fields [] d = Inr d"
| "project_fields (c # cs) d = sbind (project_field c d) (project_fields cs)"

definition observations_of :: "normalized_evidence list \<Rightarrow> observation list" where
  "observations_of es = concat (map ne_observations es)"

definition config_projection :: "normalized_evidence list \<Rightarrow> (string \<times> pyval) list checked" where
  "config_projection es =
     sbind (project_fields (concat (map ob_config (observations_of es))) []) (\<lambda>d.
       Inr (map (\<lambda>(k, v, t). (k, v)) d))"

subsection \<open>Components\<close>

definition component_fields :: "(string \<times> pyval) list \<Rightarrow> string \<Rightarrow> (string \<times> pyval) list" where
  "component_fields d prefix =
     map (\<lambda>(k, v). (drop (length prefix + 1) k, v)) (filter (\<lambda>(k, v). starts_with (prefix @ ''.'') k) d)"

definition excluded_fields :: "string \<Rightarrow> profile_selection \<Rightarrow> string list" where
  "excluded_fields prefix se =
     (if prefix = ''benchmark.evaluator'' then [''unit_value'', ''quantity''] else [])
     @ (if prefix = ''benchmark.environment'' \<and> se_variant se = Some COST then [''provider'', ''sku''] else [])"

definition procedure_component :: "profile_selection \<Rightarrow> string \<Rightarrow> (string \<times> pyval) list \<Rightarrow> (string \<times> pyval) list" where
  "procedure_component se prefix d =
     filter (\<lambda>(k, v). k \<notin> set (excluded_fields prefix se)) (component_fields d prefix)"

text \<open>The fields of a role that contradict the shared reference, and those that take effect.\<close>

definition reference_conflicts :: "(string \<times> pyval) list \<Rightarrow> (string \<times> pyval) list \<Rightarrow> (string \<times> pyval) list" where
  "reference_conflicts shared own =
     filter (\<lambda>(k, v). case map_of shared k of None \<Rightarrow> False | Some u \<Rightarrow> \<not> py_eq u v) own"

definition effective_fields :: "(string \<times> pyval) list \<Rightarrow> (string \<times> pyval) list \<Rightarrow> (string \<times> pyval) list" where
  "effective_fields shared own = foldl (\<lambda>d (k, v). al_set k v d) shared own"

definition sorted_fields :: "(string \<times> pyval) list \<Rightarrow> pyval" where
  "sorted_fields d = pdict (sort_key fst d)"

definition component_mismatch ::
  "string \<Rightarrow> string \<Rightarrow> string \<Rightarrow> (string \<times> pyval) list \<Rightarrow> (string \<times> pyval) list \<Rightarrow> finding" where
  "component_mismatch rule headline component b c =
     \<lparr>rule_id = rule, severity = CRITICAL, title = headline,
      explanation = ''The represented baseline and candidate '' @ component @ '' components differ, ''
        @ ''so their metric values are not directly comparable.'',
      evidence = [(''component'', PStr component), (''baseline'', sorted_fields b), (''candidate'', sorted_fields c)],
      impact = INVALIDATES\<rparr>"

definition procedure_insufficient :: "string \<Rightarrow> finding" where
  "procedure_insufficient component =
     \<lparr>rule_id = ''BENCHMARK.PROCEDURE_INSUFFICIENT'', severity = WARNING,
      title = ''Benchmark measurement procedure is incomplete'',
      explanation = ''Required '' @ component @ '' evidence could not be independently recovered ''
        @ ''from the passive benchmark inputs.'',
      evidence = [(''component'', PStr component)], impact = INSUFFICIENT\<rparr>"

definition comparisons :: "(string \<times> string \<times> string) list" where
  "comparisons =
     [(''benchmark.workload'', ''BENCHMARK.WORKLOAD_MISMATCH'', ''Benchmark workload changed''),
      (''benchmark.measurement_config'', ''BENCHMARK.CONFIG_MISMATCH'', ''Benchmark measurement configuration changed''),
      (''benchmark.run_protocol'', ''BENCHMARK.CONFIG_MISMATCH'', ''Benchmark run protocol changed''),
      (''benchmark.environment'', ''BENCHMARK.CONFIG_MISMATCH'', ''Benchmark environment changed''),
      (''benchmark.evaluator'', ''BENCHMARK.CONFIG_MISMATCH'', ''Benchmark evaluator changed''),
      (''measurement.metric_identity'', ''BENCHMARK.METRIC_MISMATCH'', ''Measured metric identity changed'')]"

text \<open>The projections of the three roles, and the fields of one component in each.\<close>

record benchmark_configs =
  bc_baseline :: "(string \<times> pyval) list"
  bc_candidate :: "(string \<times> pyval) list"
  bc_reference :: "(string \<times> pyval) list"

definition role_conflicts ::
  "profile_selection \<Rightarrow> string \<Rightarrow> (string \<times> pyval) list \<Rightarrow> (string \<times> pyval) list \<Rightarrow> (string \<times> pyval) list" where
  "role_conflicts se prefix shared own =
     reference_conflicts (procedure_component se prefix shared) (procedure_component se prefix own)"

definition effective_component ::
  "profile_selection \<Rightarrow> string \<Rightarrow> (string \<times> pyval) list \<Rightarrow> (string \<times> pyval) list \<Rightarrow> (string \<times> pyval) list" where
  "effective_component se prefix shared own =
     effective_fields (procedure_component se prefix shared) (procedure_component se prefix own)"

definition conflict_findings ::
  "profile_selection \<Rightarrow> benchmark_configs \<Rightarrow> string \<Rightarrow> string \<Rightarrow> string \<Rightarrow> string \<Rightarrow> (string \<times> pyval) list \<Rightarrow> finding list" where
  "conflict_findings se bc prefix rule headline role own =
     (let conflicts = role_conflicts se prefix (bc_reference bc) own;
          reference = procedure_component se prefix (bc_reference bc)
      in only_if (conflicts \<noteq> [])
           (component_mismatch rule headline (prefix @ ''.'' @ role @ ''_reference'')
              (map (\<lambda>(k, v). (k, alist_get reference k)) conflicts) conflicts))"

definition component_findings :: "profile_selection \<Rightarrow> benchmark_configs \<Rightarrow> string \<times> string \<times> string \<Rightarrow> finding list" where
  "component_findings se bc spec =
     (case spec of (prefix, rule, headline) \<Rightarrow>
        (let b = effective_component se prefix (bc_reference bc) (bc_baseline bc);
             c = effective_component se prefix (bc_reference bc) (bc_candidate bc)
         in conflict_findings se bc prefix rule headline ''baseline'' (bc_baseline bc)
            @ conflict_findings se bc prefix rule headline ''candidate'' (bc_candidate bc)
            @ only_if (b \<noteq> [] \<and> c \<noteq> [] \<and> \<not> py_eq (pdict b) (pdict c)) (component_mismatch rule headline prefix b c)))"

definition metric_names :: "normalized_evidence list \<Rightarrow> string list" where
  "metric_names es =
     remdups (concat (map (\<lambda>ob. case ob_metric_name ob of None \<Rightarrow> [] | Some m \<Rightarrow> [m]) (observations_of es)))"

definition one_metric :: "normalized_evidence list \<Rightarrow> normalized_evidence list \<Rightarrow> bool" where
  "one_metric b c \<longleftrightarrow> length (metric_names b) = 1 \<and> metric_names b = metric_names c"

definition protocol_verified :: "profile_selection \<Rightarrow> finding" where
  "protocol_verified se =
     \<lparr>rule_id = ''BENCHMARK.PROTOCOL_VERIFIED'', severity = VERIFIED,
      title = ''Benchmark measurement protocol is comparable'',
      explanation = ''The independently recovered baseline, candidate, and shared ''
        @ ''reference measurement components are compatible under the ''
        @ ''selected fixed Benchmark profile policy.'',
      evidence = [(''profile_id'', PStr (profile_value (se_profile se))),
                  (''variant'', opt_str (map_option variant_value (se_variant se))),
                  (''activation_policy_id'', PStr (se_activation se))],
      impact = NONE\<rparr>"

definition protocol_findings ::
  "profile_selection \<Rightarrow> benchmark_configs \<Rightarrow> normalized_evidence list \<Rightarrow> normalized_evidence list \<Rightarrow> finding list" where
  "protocol_findings se bc b c =
     (let fs = concat (map (component_findings se bc) comparisons)
      in fs @ only_if (fs = [] \<and> one_metric b c) (protocol_verified se))"

subsection \<open>Results\<close>

definition metric_mismatch :: "string \<Rightarrow> string \<Rightarrow> string list \<Rightarrow> finding" where
  "metric_mismatch role metric found =
     \<lparr>rule_id = ''BENCHMARK.METRIC_MISMATCH'', severity = CRITICAL,
      title = py_title role @ '' measured metric does not match the claim'',
      explanation = ''The claim asserts '' @ str_repr metric @ '', while the selected '' @ role
        @ '' evidence represents a different metric identity.'',
      evidence = [(''role'', PStr role), (''claim_metric'', PStr metric), (''represented_metrics'', str_list found)],
      impact = INVALIDATES\<rparr>"

definition measured :: "string \<Rightarrow> normalized_evidence list \<Rightarrow> (flt \<times> int option) list" where
  "measured metric es =
     concat (map (\<lambda>ob. case (ob_metric_name ob, ob_metric_value ob) of
                         (Some m, Some x) \<Rightarrow>
                           if m = metric
                           then [(x, case ob_seed ob of Some (SeedInt i) \<Rightarrow> Some i | _ \<Rightarrow> None)] else []
                       | _ \<Rightarrow> []) (observations_of es))"

definition other_metrics :: "string \<Rightarrow> normalized_evidence list \<Rightarrow> string list" where
  "other_metrics metric es = sort (filter (\<lambda>m. m \<noteq> metric) (metric_names es))"

definition evidence_path :: "string \<Rightarrow> normalized_evidence list \<Rightarrow> string" where
  "evidence_path role es = (case es of [] \<Rightarrow> ''<'' @ role @ ''-benchmark>'' | e # _ \<Rightarrow> ac_path (ne_artifact e))"

definition raw_results ::
  "string \<Rightarrow> normalized_evidence list \<Rightarrow> string \<Rightarrow> loaded_results option \<times> finding list" where
  "raw_results metric es role =
     (let vs = measured metric es; other = other_metrics metric es;
          fs = only_if (other \<noteq> []) (metric_mismatch role metric other)
      in if vs = [] then (None, fs @ [procedure_insufficient (role @ '' result values'')])
         else (Some \<lparr>lr_path = evidence_path role es, lr_values = map fst vs, lr_seeds = map snd vs,
                     claimed_summary = None\<rparr>, fs))"

definition single_metric_value ::
  "string \<Rightarrow> normalized_evidence list \<Rightarrow> string \<Rightarrow> flt option \<times> finding list" where
  "single_metric_value metric es role =
     (case raw_results metric es role of
        (None, fs) \<Rightarrow> (None, fs)
      | (Some r, fs) \<Rightarrow>
          (case lr_values r of
             [x] \<Rightarrow> (Some x, fs)
           | _ \<Rightarrow> (None, fs @ [procedure_insufficient (role @ '' aggregate scalar'')])))"

definition required_value :: "(string \<times> pyval) list \<Rightarrow> string \<Rightarrow> pyval checked" where
  "required_value d key =
     (case map_of d key of
        None \<Rightarrow> claimci (''required benchmark component '' @ str_repr key @ '' is missing'')
      | Some v \<Rightarrow> Inr v)"

definition positive_integer :: "string \<Rightarrow> pyval \<Rightarrow> pyval checked" where
  "positive_integer label v =
     sbind (case v of
              PStr s \<Rightarrow>
                if s \<noteq> [] \<and> list_all is_digit_char s
                then if length s \<le> max_str_digits then Inr (PInt (int (digits_val s)))
                     else Inl (ValueError ''Exceeds the limit (4300 digits) for integer string conversion'')
                else Inr v
            | _ \<Rightarrow> Inr v) (\<lambda>w.
       case w of
         PInt i \<Rightarrow> if 1 \<le> i \<and> i \<le> 2 ^ 63 - 1 then Inr w else claimci (label @ '' must be a positive integer'')
       | _ \<Rightarrow> claimci (label @ '' must be a positive integer''))"

definition benchmark_decimal :: "string \<Rightarrow> pyval \<Rightarrow> dec checked" where
  "benchmark_decimal label v =
     (case scalar_decimal v of None \<Rightarrow> claimci (label @ '' must be a finite decimal'') | Some d \<Rightarrow> Inr d)"

text \<open>What a form of result leaves: the checked result, if any, and the findings.\<close>

type_synonym result_outcome = "result_check option \<times> finding list"

definition with_check :: "finding list \<Rightarrow> result_check \<Rightarrow> result_outcome" where
  "with_check fs rc = (Some rc, fs @ rc_findings rc)"

definition raw_series ::
  "string \<Rightarrow> flt \<Rightarrow> direction \<Rightarrow> normalized_evidence list \<Rightarrow> normalized_evidence list \<Rightarrow> result_outcome checked" where
  "raw_series metric minimum dir b c =
     (case (raw_results metric b ''baseline'', raw_results metric c ''candidate'') of
        ((Some x, bf), (Some y, cf)) \<Rightarrow>
          sbind (check_results x y metric minimum (DirEnum dir)) (\<lambda>rc. Inr (with_check (bf @ cf) rc))
      | ((_, bf), (_, cf)) \<Rightarrow> Inr (None, bf @ cf))"

definition aggregate_text :: "pyval \<Rightarrow> string checked" where
  "aggregate_text v = (case v of PStr s \<Rightarrow> Inr s | _ \<Rightarrow> claimci ''aggregate identities must be exact text'')"

definition checked_aggregate ::
  "string \<Rightarrow> flt \<Rightarrow> direction \<Rightarrow> benchmark_configs \<Rightarrow> flt option \<Rightarrow> flt option \<Rightarrow> result_check checked" where
  "checked_aggregate metric minimum dir bc bv cv =
     sbind (required_value (bc_baseline bc) ''benchmark.run_protocol.sample_count'') (\<lambda>b.
     sbind (positive_integer ''baseline aggregate sample count'' b) (\<lambda>bn.
     sbind (required_value (bc_candidate bc) ''benchmark.run_protocol.sample_count'') (\<lambda>c.
     sbind (positive_integer ''candidate aggregate sample count'' c) (\<lambda>cn.
     sbind (required_value (bc_baseline bc) ''benchmark.run_protocol.statistic'') (\<lambda>s.
     sbind (required_value (bc_baseline bc) ''benchmark.run_protocol.aggregation'') (\<lambda>a.
     sbind (aggregate_text s) (\<lambda>statistic.
     sbind (aggregate_text a) (\<lambda>aggregation.
       case (bv, cv) of
         (Some x, Some y) \<Rightarrow>
           check_reported_aggregates (PFloat x) (PFloat y) bn cn statistic aggregation metric minimum (DirEnum dir)
       | _ \<Rightarrow> claimci ''aggregate scalar is unavailable''))))))))"

definition reported_aggregate ::
  "string \<Rightarrow> flt \<Rightarrow> direction \<Rightarrow> benchmark_configs \<Rightarrow> normalized_evidence list \<Rightarrow> normalized_evidence list
    \<Rightarrow> result_outcome checked" where
  "reported_aggregate metric minimum dir bc b c =
     (case (single_metric_value metric b ''baseline'', single_metric_value metric c ''candidate'') of
        ((bv, bf), (cv, cf)) \<Rightarrow>
          (case checked_aggregate metric minimum dir bc bv cv of
             Inr rc \<Rightarrow> Inr (with_check (bf @ cf) rc)
           | Inl e \<Rightarrow> if is_claimci e
                       then Inr (None, bf @ cf @ [procedure_insufficient ''reported aggregate metadata''])
                       else Inl e))"

definition derivation_mismatch :: "string \<Rightarrow> flt \<Rightarrow> flt \<Rightarrow> finding" where
  "derivation_mismatch role represented recomputed =
     \<lparr>rule_id = ''BENCHMARK.DERIVATION_MISMATCH'', severity = CRITICAL,
      title = py_title role @ '' deterministic derivation does not match'',
      explanation = ''ClaimCI recomputed the fixed multiply_v1 formula from ''
        @ ''exact passive inputs and obtained a different value.'',
      evidence = [(''role'', PStr role), (''formula_family'', PStr ''multiply_v1''),
                  (''represented'', PFloat represented), (''recomputed'', PFloat recomputed)],
      impact = INVALIDATES\<rparr>"

text \<open>The product of the formula, in a context of 40 digits, and as a finite float.\<close>

definition recomputed_product :: "string \<Rightarrow> (string \<times> pyval) list \<Rightarrow> (dec \<times> flt) checked" where
  "recomputed_product role d =
     sbind (required_value d ''benchmark.evaluator.formula_family'') (\<lambda>family.
     sbind (if py_eq family (PStr ''multiply_v1'') then Inr ()
            else claimci ''deterministic formula family is unsupported'') (\<lambda>_.
     sbind (required_value d ''benchmark.evaluator.unit_value'') (\<lambda>u.
     sbind (benchmark_decimal (role @ '' unit value'') u) (\<lambda>x.
     sbind (required_value d ''benchmark.evaluator.quantity'') (\<lambda>q.
     sbind (benchmark_decimal (role @ '' quantity'') q) (\<lambda>y.
       case context_mul 40 x y of
         None \<Rightarrow> Inl (DecimalOverflow ''decimal.Overflow'')
       | Some p \<Rightarrow>
           if isfinite (float_of_dec p) then Inr (p, float_of_dec p)
           else claimci ''deterministic derivation is not finite''))))))"

text \<open>One role of a derivation: the recomputed value, if the evidence has one, and the findings.\<close>

definition derive ::
  "string \<Rightarrow> (string \<times> pyval) list \<Rightarrow> normalized_evidence list \<Rightarrow> string \<Rightarrow> (flt option \<times> finding list) checked" where
  "derive metric d es role =
     (let insufficient = procedure_insufficient (role @ '' deterministic derivation'')
      in case recomputed_product role d of
           Inl e \<Rightarrow> if is_claimci e then Inr (None, [insufficient]) else Inl e
         | Inr (p, x) \<Rightarrow>
             (case single_metric_value metric es role of
                (None, fs) \<Rightarrow> Inr (None, fs @ [insufficient])
              | (Some r, fs) \<Rightarrow>
                  Inr (Some x, fs @ only_if (\<not> dec_eq (dec_of_flt r) p) (derivation_mismatch role r x))))"

definition derived_result ::
  "string \<Rightarrow> flt \<Rightarrow> direction \<Rightarrow> benchmark_configs \<Rightarrow> normalized_evidence list \<Rightarrow> normalized_evidence list
    \<Rightarrow> result_outcome checked" where
  "derived_result metric minimum dir bc b c =
     sbind (derive metric (bc_baseline bc) b ''baseline'') (\<lambda>(bv, bf).
     sbind (derive metric (bc_candidate bc) c ''candidate'') (\<lambda>(cv, cf).
       case (bv, cv) of
         (Some x, Some y) \<Rightarrow>
           sbind (check_reported_aggregates (PFloat x) (PFloat y) (PInt 1) (PInt 1) ''deterministic_derivation''
                    ''multiply_v1'' metric minimum (DirEnum dir)) (\<lambda>rc. Inr (with_check (bf @ cf) rc))
       | _ \<Rightarrow> Inr (None, bf @ cf)))"

definition benchmark_results ::
  "result_form option \<Rightarrow> string \<Rightarrow> flt \<Rightarrow> direction \<Rightarrow> benchmark_configs \<Rightarrow> normalized_evidence list
    \<Rightarrow> normalized_evidence list \<Rightarrow> result_outcome checked" where
  "benchmark_results form metric minimum dir bc b c =
     (case form of
        None \<Rightarrow> Inr (None, [])
      | Some RAW_RUN_SERIES \<Rightarrow> raw_series metric minimum dir b c
      | Some REPORTED_AGGREGATE \<Rightarrow> reported_aggregate metric minimum dir bc b c
      | Some DETERMINISTIC_DERIVATION \<Rightarrow> derived_result metric minimum dir bc b c)"

subsection \<open>The measurement protocols\<close>

definition represented_metric :: "normalized_evidence list \<Rightarrow> string \<Rightarrow> string checked" where
  "represented_metric es role =
     (case metric_names es of
        [m] \<Rightarrow> Inr m
      | _ \<Rightarrow> claimci (role @ '' benchmark evidence has no single measured metric identity''))"

definition protocol_components ::
  "profile_selection \<Rightarrow> (string \<times> pyval) list \<Rightarrow> (string \<times> pyval) list \<Rightarrow> component_values" where
  "protocol_components se shared own =
     filter (\<lambda>(k, d). d \<noteq> [])
       (map (\<lambda>(prefix, _). (prefix, effective_component se prefix shared own)) comparisons)"

definition benchmark_drift ::
  "(nat list \<Rightarrow> string) \<Rightarrow> measurement_context option \<Rightarrow> profile_selection \<Rightarrow> benchmark_configs
    \<Rightarrow> normalized_evidence list \<Rightarrow> normalized_evidence list \<Rightarrow> finding list \<Rightarrow> drift_report option checked" where
  "benchmark_drift sha context se bc b c fs =
     (case context of
        None \<Rightarrow> Inr None
      | Some m \<Rightarrow>
          sbind (represented_metric b ''baseline'') (\<lambda>bm.
          sbind (represented_metric c ''candidate'') (\<lambda>cm.
          sbind (recover_benchmark_measurement_protocol_pair sha m bm cm
                   (protocol_components se (bc_reference bc) (bc_baseline bc))
                   (protocol_components se (bc_reference bc) (bc_candidate bc))) (\<lambda>protocols.
          sbind (compare_measurement_protocols protocols (map rule_id fs)
                   (if se_form se = Some RAW_RUN_SERIES then ARITHMETIC_MEAN_V1 else REDUCTION_NOT_APPLICABLE)) (\<lambda>r.
            Inr (Some r))))))"

subsection \<open>The audit\<close>

text \<open>The configurations of the three roles, read in the order of the code.\<close>

definition benchmark_inputs ::
  "normalized_evidence list \<Rightarrow> normalized_evidence list \<Rightarrow> normalized_evidence list \<Rightarrow> benchmark_configs checked" where
  "benchmark_inputs b c r =
     sbind (config_projection b) (\<lambda>x. sbind (config_projection c) (\<lambda>y. sbind (config_projection r) (\<lambda>z.
       Inr \<lparr>bc_baseline = x, bc_candidate = y, bc_reference = z\<rparr>)))"

definition audit_benchmark ::
  "(nat list \<Rightarrow> string) \<Rightarrow> audit_claim \<Rightarrow> profile_selection \<Rightarrow> normalized_evidence list \<Rightarrow> normalized_evidence list
    \<Rightarrow> normalized_evidence list \<Rightarrow> measurement_context option \<Rightarrow> audit_result checked" where
  "audit_benchmark sha claim se b c r context =
     sbind (ensure (se_profile se = BENCHMARK_MEASUREMENT_V0)
              (TypeError ''Benchmark Audit requires its deterministic profile selection'')) (\<lambda>_.
     sbind (ensure (se_complete se) (ClaimCIError ''Benchmark Audit requires a complete evidence profile'')) (\<lambda>_.
       case cs_minimum claim of
         None \<Rightarrow> claimci ''Benchmark Audit requires an absolute improvement threshold''
       | Some minimum \<Rightarrow>
           sbind (benchmark_inputs b c r) (\<lambda>bc.
           sbind (benchmark_results (se_form se) (cs_metric claim) minimum (cs_direction claim) bc b c) (\<lambda>(rc, rfs).
           (let fs = protocol_findings se bc b c @ rfs
            in sbind (benchmark_drift sha context se bc b c fs) (\<lambda>drift.
                 Inr \<lparr>ar_verdict = determine_verdict fs, ar_findings = fs, ar_manifest = ''.'',
                      ar_metric = cs_metric claim, ar_minimum = minimum,
                      ar_baseline = map_option baseline_summary rc, ar_candidate = map_option candidate_summary rc,
                      ar_absolute = map_option absolute_improvement rc,
                      ar_relative = (case rc of None \<Rightarrow> None | Some x \<Rightarrow> relative_improvement x),
                      ar_overlaps = [], ar_direction = cs_direction claim, ar_drift = drift\<rparr>))))))"

text \<open>The dispatch on the profile. The binding of a metric adds its finding to a benchmark audit.\<close>

record profiled_inputs =
  pi_manifest :: "string option"
  pi_root :: "string option"
  pi_claim :: audit_claim
  pi_baseline :: "normalized_evidence list"
  pi_candidate :: "normalized_evidence list"
  pi_reference :: "normalized_evidence list"

definition bound_result :: "metric_binding option \<Rightarrow> string \<Rightarrow> audit_result \<Rightarrow> audit_result checked" where
  "bound_result binding metric r =
     (case binding of
        None \<Rightarrow> Inr r
      | Some m \<Rightarrow>
          sbind (metric_identity_finding m metric) (\<lambda>f.
            Inr (r\<lparr>ar_findings := ar_findings r @ [f], ar_verdict := determine_verdict (ar_findings r @ [f])\<rparr>)))"

definition audit_profiled ::
  "audit_env \<Rightarrow> profile_selection \<Rightarrow> profiled_inputs \<Rightarrow> measurement_context option \<Rightarrow> metric_binding option
    \<Rightarrow> scan_context option \<Rightarrow> audit_result checked" where
  "audit_profiled env se p context binding cx =
     (case se_profile se of
        TRAINING_EXPERIMENT_V0 \<Rightarrow>
          (case pi_manifest p of
             None \<Rightarrow> claimci ''Training profile requires the confined native manifest''
           | Some path \<Rightarrow> audit_research env path (pi_root p) context binding cx)
      | BENCHMARK_MEASUREMENT_V0 \<Rightarrow>
          if cx \<noteq> None
          then Inl (TypeError ''dataset_scan_context is supported only by the training profile'')
          else sbind (audit_benchmark (sha256_hex env) (pi_claim p) se (pi_baseline p) (pi_candidate p)
                        (pi_reference p) context) (bound_result binding (cs_metric (pi_claim p))))"

subsection \<open>What the verdict says\<close>

text \<open>
  Comparable procedures: neither role contradicts the shared reference, and a component that both
  roles have is the same.
\<close>

definition comparable_component :: "profile_selection \<Rightarrow> benchmark_configs \<Rightarrow> string \<Rightarrow> bool" where
  "comparable_component se bc prefix \<longleftrightarrow>
     role_conflicts se prefix (bc_reference bc) (bc_baseline bc) = []
     \<and> role_conflicts se prefix (bc_reference bc) (bc_candidate bc) = []
     \<and> (let b = effective_component se prefix (bc_reference bc) (bc_baseline bc);
            c = effective_component se prefix (bc_reference bc) (bc_candidate bc)
        in b = [] \<or> c = [] \<or> py_eq (pdict b) (pdict c))"

definition comparable :: "profile_selection \<Rightarrow> benchmark_configs \<Rightarrow> bool" where
  "comparable se bc \<longleftrightarrow> list_all (comparable_component se bc) (map fst comparisons)"

lemma supported_only_if:
  "determine_verdict (only_if b f) = SUPPORTED \<longleftrightarrow> (b \<longrightarrow> impact f = NONE)"
  by (cases b) (simp_all add: supported_simps)

lemma benchmark_impacts:
  "impact (component_mismatch rule headline p b c) = INVALIDATES"
  "impact (metric_mismatch role metric found) = INVALIDATES"
  "impact (procedure_insufficient p) = INSUFFICIENT"
  "impact (protocol_verified se) = NONE"
  "impact (derivation_mismatch role r x) = INVALIDATES"
  by (simp_all add: component_mismatch_def metric_mismatch_def procedure_insufficient_def protocol_verified_def
      derivation_mismatch_def)

lemmas benchmark_simps = supported_simps supported_only_if benchmark_impacts

lemma component_supported:
  "determine_verdict (component_findings se bc (prefix, x)) = SUPPORTED \<longleftrightarrow> comparable_component se bc prefix"
  by (cases x) (auto simp: component_findings_def conflict_findings_def comparable_component_def Let_def benchmark_simps)

lemma components_supported:
  "determine_verdict (concat (map (component_findings se bc) xs)) = SUPPORTED \<longleftrightarrow>
     list_all (comparable_component se bc) (map fst xs)"
  by (induction xs) (auto simp: benchmark_simps component_supported)

lemma protocol_supported:
  "determine_verdict (protocol_findings se bc b c) = SUPPORTED \<longleftrightarrow> comparable se bc"
  by (simp add: protocol_findings_def Let_def benchmark_simps components_supported comparable_def)

text \<open>The runs a role contributes, and the forms in which a result is accepted.\<close>

definition series :: "string \<Rightarrow> string \<Rightarrow> normalized_evidence list \<Rightarrow> loaded_results" where
  "series role metric es =
     \<lparr>lr_path = evidence_path role es, lr_values = map fst (measured metric es),
      lr_seeds = map snd (measured metric es), claimed_summary = None\<rparr>"

definition only_metric :: "string \<Rightarrow> normalized_evidence list \<Rightarrow> bool" where
  "only_metric metric es \<longleftrightarrow> set (metric_names es) \<subseteq> {metric}"

text \<open>A reported value that equals the exact product of its formula, which is the value that counts.\<close>

definition derived_value :: "string \<Rightarrow> string \<Rightarrow> (string \<times> pyval) list \<Rightarrow> normalized_evidence list \<Rightarrow> flt \<Rightarrow> bool" where
  "derived_value metric role d es v \<longleftrightarrow>
     (\<exists>x p. map fst (measured metric es) = [x] \<and> recomputed_product role d = Inr (p, v) \<and> dec_eq (dec_of_flt x) p)"

definition accepted ::
  "result_form \<Rightarrow> string \<Rightarrow> flt \<Rightarrow> direction \<Rightarrow> benchmark_configs \<Rightarrow> normalized_evidence list \<Rightarrow> normalized_evidence list
    \<Rightarrow> result_check \<Rightarrow> bool" where
  "accepted form metric minimum dir bc b c rc \<longleftrightarrow>
     (case form of
        RAW_RUN_SERIES \<Rightarrow>
          measured metric b \<noteq> [] \<and> measured metric c \<noteq> []
          \<and> check_results (series ''baseline'' metric b) (series ''candidate'' metric c) metric minimum (DirEnum dir) = Inr rc
      | REPORTED_AGGREGATE \<Rightarrow>
          (\<exists>x y. map fst (measured metric b) = [x] \<and> map fst (measured metric c) = [y]
            \<and> checked_aggregate metric minimum dir bc (Some x) (Some y) = Inr rc)
      | DETERMINISTIC_DERIVATION \<Rightarrow>
          (\<exists>v w. derived_value metric ''baseline'' (bc_baseline bc) b v
            \<and> derived_value metric ''candidate'' (bc_candidate bc) c w
            \<and> check_reported_aggregates (PFloat v) (PFloat w) (PInt 1) (PInt 1) ''deterministic_derivation''
                ''multiply_v1'' metric minimum (DirEnum dir) = Inr rc))"

lemma other_metrics_Nil: "other_metrics metric es = [] \<longleftrightarrow> only_metric metric es"
  by (auto simp: other_metrics_def only_metric_def filter_empty_conv)

lemma raw_results_series:
  "raw_results metric es role =
     (let fs = only_if (\<not> only_metric metric es) (metric_mismatch role metric (other_metrics metric es))
      in if measured metric es = [] then (None, fs @ [procedure_insufficient (role @ '' result values'')])
         else (Some (series role metric es), fs))"
  by (simp add: raw_results_def series_def Let_def other_metrics_Nil)

lemma raw_series_supported:
  assumes "raw_series metric minimum dir b c = Inr (o', fs)"
  shows "determine_verdict fs = SUPPORTED \<longleftrightarrow> only_metric metric b \<and> only_metric metric c
    \<and> (\<exists>rc. accepted RAW_RUN_SERIES metric minimum dir bc b c rc \<and> o' = Some rc \<and> determine_verdict (rc_findings rc) = SUPPORTED)"
  using assms
  by (auto simp: raw_series_def raw_results_series Let_def result_simps benchmark_simps accepted_def with_check_def
      split: if_splits)

text \<open>A single value, or the verdict cannot be supported.\<close>

lemma single_value_Some:
  "single_metric_value metric es role = (Some x, fs) \<longleftrightarrow>
     map fst (measured metric es) = [x] \<and> fs = only_if (\<not> only_metric metric es) (metric_mismatch role metric (other_metrics metric es))"
  by (auto simp: single_metric_value_def raw_results_series Let_def series_def split: list.splits if_splits)

lemma single_value_None:
  "single_metric_value metric es role = (None, fs) \<Longrightarrow> determine_verdict fs \<noteq> SUPPORTED"
  by (auto simp: single_metric_value_def raw_results_series Let_def series_def benchmark_simps split: list.splits if_splits)

lemma aggregate_needs_values:
  "checked_aggregate metric minimum dir bc bv cv = Inr rc \<Longrightarrow> \<exists>x y. bv = Some x \<and> cv = Some y"
  by (auto simp: checked_aggregate_def result_simps claimci_def split: option.splits)

lemma aggregate_supported:
  assumes "reported_aggregate metric minimum dir bc b c = Inr (o', fs)"
  shows "determine_verdict fs = SUPPORTED \<longleftrightarrow> only_metric metric b \<and> only_metric metric c
    \<and> (\<exists>rc. accepted REPORTED_AGGREGATE metric minimum dir bc b c rc \<and> o' = Some rc \<and> determine_verdict (rc_findings rc) = SUPPORTED)"
proof -
  obtain bv bf where b: "single_metric_value metric b ''baseline'' = (bv, bf)" by fastforce
  obtain cv cf where c: "single_metric_value metric c ''candidate'' = (cv, cf)" by fastforce
  show ?thesis
  proof (cases "checked_aggregate metric minimum dir bc bv cv")
    case (Inl e)
    then have "fs = bf @ cf @ [procedure_insufficient ''reported aggregate metadata'']" "o' = None"
      using assms b c by (auto simp: reported_aggregate_def split: if_splits)
    then show ?thesis by (simp add: benchmark_simps)
  next
    case (Inr rc)
    then obtain x y where "bv = Some x" "cv = Some y" using aggregate_needs_values by blast
    moreover have "o' = Some rc" "fs = bf @ cf @ rc_findings rc"
      using assms b c Inr by (simp_all add: reported_aggregate_def with_check_def)
    ultimately show ?thesis
      using b c Inr by (auto simp: single_value_Some benchmark_simps accepted_def)
  qed
qed

lemma derive_supported:
  assumes "derive metric d es role = Inr (v, fs)"
  shows "determine_verdict fs = SUPPORTED \<longleftrightarrow> only_metric metric es \<and> (\<exists>x. v = Some x \<and> derived_value metric role d es x)"
proof (cases "recomputed_product role d")
  case (Inl e)
  with assms show ?thesis by (auto simp: derive_def benchmark_simps split: if_splits)
next
  case (Inr px)
  obtain p x where px: "px = (p, x)" by (cases px)
  obtain r gs where r: "single_metric_value metric es role = (r, gs)" by fastforce
  show ?thesis
  proof (cases r)
    case None
    with assms r Inr px show ?thesis by (auto simp: derive_def benchmark_simps)
  next
    case (Some y)
    with r have "map fst (measured metric es) = [y]"
      "gs = only_if (\<not> only_metric metric es) (metric_mismatch role metric (other_metrics metric es))"
      by (simp_all add: single_value_Some)
    with assms r Inr px Some show ?thesis
      by (auto simp: derive_def benchmark_simps derived_value_def)
  qed
qed

lemma derive_value:
  assumes "derive metric d es role = Inr (u, fs)" and v: "derived_value metric role d es v"
  shows "u = Some v"
proof -
  from v obtain x p where "map fst (measured metric es) = [x]" and p: "recomputed_product role d = Inr (p, v)"
    by (auto simp: derived_value_def)
  then obtain gs where "single_metric_value metric es role = (Some x, gs)"
    by (simp add: single_value_Some)
  with assms(1) p show ?thesis by (simp add: derive_def Let_def)
qed

lemma derived_supported:
  assumes "derived_result metric minimum dir bc b c = Inr (o', fs)"
  shows "determine_verdict fs = SUPPORTED \<longleftrightarrow> only_metric metric b \<and> only_metric metric c
    \<and> (\<exists>rc. accepted DETERMINISTIC_DERIVATION metric minimum dir bc b c rc \<and> o' = Some rc
          \<and> determine_verdict (rc_findings rc) = SUPPORTED)"
proof -
  obtain bv bf cv cf where b: "derive metric (bc_baseline bc) b ''baseline'' = Inr (bv, bf)"
    and c: "derive metric (bc_candidate bc) c ''candidate'' = Inr (cv, cf)"
    using assms by (auto simp: derived_result_def result_simps)
  note bs = derive_supported [OF b] and cs = derive_supported [OF c]
  show ?thesis
  proof (cases "\<exists>v w. bv = Some v \<and> cv = Some w")
    case True
    then obtain v w where vw: "bv = Some v" "cv = Some w" by blast
    then have same: "derived_value metric ''baseline'' (bc_baseline bc) b x \<Longrightarrow> x = v"
      "derived_value metric ''candidate'' (bc_candidate bc) c y \<Longrightarrow> y = w" for x y
      using derive_value [OF b] derive_value [OF c] by auto
    obtain rc where rc: "o' = Some rc" "fs = bf @ cf @ rc_findings rc"
      "check_reported_aggregates (PFloat v) (PFloat w) (PInt 1) (PInt 1) ''deterministic_derivation''
         ''multiply_v1'' metric minimum (DirEnum dir) = Inr rc"
      using assms b c vw by (auto simp: derived_result_def result_simps with_check_def)
    have "accepted DETERMINISTIC_DERIVATION metric minimum dir bc b c rc' \<longleftrightarrow>
        rc' = rc \<and> derived_value metric ''baseline'' (bc_baseline bc) b v
        \<and> derived_value metric ''candidate'' (bc_candidate bc) c w" for rc'
      using same rc(3) by (auto simp: accepted_def)
    with bs cs vw rc(1,2) show ?thesis by (simp add: benchmark_simps) blast
  next
    case False
    then have "fs = bf @ cf" "o' = None"
      using assms b c by (auto simp: derived_result_def split: option.splits)
    then show ?thesis using bs cs False by (auto simp: benchmark_simps)
  qed
qed

lemma accepted_once:
  "accepted form metric minimum dir bc b c rc \<Longrightarrow> accepted form metric minimum dir bc b c rc' \<Longrightarrow> rc = rc'"
  by (cases form) (auto simp: accepted_def derived_value_def)

lemma results_supported:
  assumes "benchmark_results (Some form) metric minimum dir bc b c = Inr (o', fs)"
  shows "determine_verdict fs = SUPPORTED \<longleftrightarrow> only_metric metric b \<and> only_metric metric c
    \<and> (\<exists>rc. accepted form metric minimum dir bc b c rc \<and> o' = Some rc \<and> determine_verdict (rc_findings rc) = SUPPORTED)"
  using assms raw_series_supported aggregate_supported derived_supported
  by (cases form) (simp_all add: benchmark_results_def)

text \<open>An accepted result is the one the audit reports.\<close>

lemma accepted_outcome:
  assumes "benchmark_results (Some form) metric minimum dir bc b c = Inr (o', fs)"
    and "accepted form metric minimum dir bc b c rc"
  shows "o' = Some rc"
proof (cases form)
  case RAW_RUN_SERIES
  with assms show ?thesis
    by (auto simp: benchmark_results_def raw_series_def raw_results_series Let_def result_simps accepted_def with_check_def)
next
  case REPORTED_AGGREGATE
  then obtain x y where xy: "map fst (measured metric b) = [x]" "map fst (measured metric c) = [y]"
      "checked_aggregate metric minimum dir bc (Some x) (Some y) = Inr rc"
    using assms(2) by (auto simp: accepted_def)
  then obtain bf cf where "single_metric_value metric b ''baseline'' = (Some x, bf)"
      "single_metric_value metric c ''candidate'' = (Some y, cf)"
    by (simp add: single_value_Some)
  with assms(1) xy(3) REPORTED_AGGREGATE show ?thesis
    by (simp add: benchmark_results_def reported_aggregate_def with_check_def)
next
  case DETERMINISTIC_DERIVATION
  then obtain v w where vw: "derived_value metric ''baseline'' (bc_baseline bc) b v"
      "derived_value metric ''candidate'' (bc_candidate bc) c w"
      "check_reported_aggregates (PFloat v) (PFloat w) (PInt 1) (PInt 1) ''deterministic_derivation''
         ''multiply_v1'' metric minimum (DirEnum dir) = Inr rc"
    using assms(2) by (auto simp: accepted_def)
  from assms(1) DETERMINISTIC_DERIVATION have d: "derived_result metric minimum dir bc b c = Inr (o', fs)"
    by (simp add: benchmark_results_def)
  then obtain bv bf cv cf where b: "derive metric (bc_baseline bc) b ''baseline'' = Inr (bv, bf)"
    and c: "derive metric (bc_candidate bc) c ''candidate'' = Inr (cv, cf)"
    by (auto simp: derived_result_def result_simps)
  from derive_value [OF b vw(1)] derive_value [OF c vw(2)] d b c vw(3) show ?thesis
    by (simp add: derived_result_def with_check_def)
qed

text \<open>C5: a benchmark audit gives the verdict supported exactly when the measurement procedures of the two
  roles are comparable under the profile, the evidence of neither role measures another metric than the
  claimed one, and the result, in the form that the profile selected, is accepted and leaves no finding
  against the claim. The summaries that the result shows are then those of the accepted check.\<close>

theorem benchmark_supported_exact:
  assumes "audit_benchmark sha claim se b c r context = Inr res" and "se_form se = Some form"
  shows "ar_verdict res = SUPPORTED \<longleftrightarrow>
    (\<exists>bc minimum rc. benchmark_inputs b c r = Inr bc \<and> cs_minimum claim = Some minimum \<and> comparable se bc
      \<and> only_metric (cs_metric claim) b \<and> only_metric (cs_metric claim) c
      \<and> accepted form (cs_metric claim) minimum (cs_direction claim) bc b c rc
      \<and> determine_verdict (rc_findings rc) = SUPPORTED
      \<and> ar_baseline res = Some (baseline_summary rc) \<and> ar_candidate res = Some (candidate_summary rc))"
    (is "_ \<longleftrightarrow> ?rhs")
proof -
  obtain minimum bc out fs where m: "cs_minimum claim = Some minimum" and bc: "benchmark_inputs b c r = Inr bc"
    and rs: "benchmark_results (Some form) (cs_metric claim) minimum (cs_direction claim) bc b c = Inr (out, fs)"
    and v: "ar_verdict res = determine_verdict (protocol_findings se bc b c @ fs)"
      "ar_baseline res = map_option baseline_summary out" "ar_candidate res = map_option candidate_summary out"
    using assms by (auto simp: audit_benchmark_def result_simps claimci_def Let_def split: option.splits)
  show ?thesis
  proof
    assume "ar_verdict res = SUPPORTED"
    then show "?rhs"
      unfolding v(1) supported_append protocol_supported results_supported [OF rs] using m bc v(2,3) by auto
  next
    assume ?rhs
    then obtain rc where "comparable se bc" "only_metric (cs_metric claim) b" "only_metric (cs_metric claim) c"
        and rc: "accepted form (cs_metric claim) minimum (cs_direction claim) bc b c rc"
          "determine_verdict (rc_findings rc) = SUPPORTED"
      using m bc by auto
    with accepted_outcome [OF rs rc(1)] show "ar_verdict res = SUPPORTED"
      unfolding v(1) supported_append protocol_supported results_supported [OF rs] by blast
  qed
qed

text \<open>The binding of a metric identity never changes the verdict of a benchmark.\<close>

lemma profiled_verdict:
  assumes "audit_profiled env se p context binding cx = Inr res" and "se_profile se = BENCHMARK_MEASUREMENT_V0"
  shows "\<exists>r. audit_benchmark (sha256_hex env) (pi_claim p) se (pi_baseline p) (pi_candidate p) (pi_reference p) context
      = Inr r \<and> ar_verdict res = ar_verdict r"
proof -
  obtain r where r: "audit_benchmark (sha256_hex env) (pi_claim p) se (pi_baseline p) (pi_candidate p) (pi_reference p)
      context = Inr r" and b: "bound_result binding (cs_metric (pi_claim p)) r = Inr res"
    using assms by (auto simp: audit_profiled_def result_simps split: if_splits)
  have v: "ar_verdict r = determine_verdict (ar_findings r)"
    using r by (auto simp: audit_benchmark_def result_simps claimci_def Let_def split: option.splits)
  have "ar_verdict res = ar_verdict r"
    using b v by (auto simp: bound_result_def metric_identity_finding_def claimci_def result_simps determine_verdict_def
        split: option.splits if_splits)
  with r show ?thesis by blast
qed

text \<open>A benchmark that reports two equal aggregates for a claim of no loss.\<close>

definition sample_provenance :: provenance where
  "sample_provenance =
     \<lparr>pv_kind = ADAPTER_EXTRACTION, pv_detail = ''row'', pv_source_path = None, pv_source_id = None\<rparr>"

definition sample_observation :: observation where
  "sample_observation =
     \<lparr>ob_provenance = sample_provenance, ob_metric_name = Some ''acc'', ob_metric_value = Some fzero, ob_run_id = None,
      ob_seed = None, ob_role = ER_UNSPECIFIED,
      ob_config = map (\<lambda>(k, v). \<lparr>cv_key = k, cv_value = PStr v, cv_provenance = sample_provenance\<rparr>)
        [(''benchmark.run_protocol.sample_count'', ''3''), (''benchmark.run_protocol.statistic'', ''mean''),
         (''benchmark.run_protocol.aggregation'', ''mean_v1'')],
      ob_datasets = [], ob_compute = []\<rparr>"

definition sample_evidence :: normalized_evidence where
  "sample_evidence =
     \<lparr>ne_id = ''e'',
      ne_artifact = \<lparr>ac_path = ''b.csv'', ac_kind = BENCHMARK, ac_sha256 = replicate 64 (CHR ''a''), ac_size = 9,
        ac_confidence = fzero, discovery_reason = ''csv'', relevant_claim_ids = [], ac_provenance = sample_provenance\<rparr>,
      ne_match = \<lparr>am_adapter = ''claimci-csv-v1'', am_path = ''b.csv'', am_confidence = fzero, am_mappings = [],
        am_evidence = [sample_provenance]\<rparr>,
      ne_observations = [sample_observation], ne_scan = None, ne_trace = None\<rparr>"

definition sample_selection :: "result_form \<Rightarrow> profile_selection" where
  "sample_selection f =
     \<lparr>se_id = ''s'', se_profile = BENCHMARK_MEASUREMENT_V0, se_variant = Some MODEL_QUALITY, se_form = Some f,
      se_activation = ''claimci.profile.benchmark-measurement.model_quality.v0'', se_complete = True, se_facts = []\<rparr>"

lemma sample_form: "se_form (sample_selection f) = Some f"
  by (simp add: sample_selection_def)

definition sample_claim :: audit_claim where
  "sample_claim =
     \<lparr>cs_id = ''c'', cs_metric = ''acc'', cs_direction = HIGHER, cs_minimum = Some fzero,
      cs_metric_provenance = sample_provenance, cs_direction_provenance = sample_provenance,
      cs_threshold_provenance = Some sample_provenance, cs_values = []\<rparr>"

definition sample_configs :: benchmark_configs where
  "sample_configs =
     (let d = [(''benchmark.run_protocol.sample_count'', PInt 3), (''benchmark.run_protocol.statistic'', PStr ''mean''),
               (''benchmark.run_protocol.aggregation'', PStr ''mean_v1'')]
      in \<lparr>bc_baseline = d, bc_candidate = d, bc_reference = []\<rparr>)"

lemma sample_fields:
  "profile_scalar ''benchmark.run_protocol.sample_count'' (PStr ''3'') = Inr (PInt 3)"
  "\<exists>t. scalar_json (PInt 3) = Inr t"
  "profile_scalar ''benchmark.run_protocol.statistic'' v = Inr v"
  "profile_scalar ''benchmark.run_protocol.aggregation'' v = Inr v"
  "\<exists>t. scalar_json (PStr s) = Inr t"
  by (simp_all add: profile_scalar_def profile_integer_def canonical_digits_def is_digit_char_def char_code_def
      digits_val_def max_str_digits_def positive_integer_fields_def nonnegative_integer_fields_def decimal_fields_def
      scalar_json_def ndigits.simps)

lemma sample_inputs: "benchmark_inputs [sample_evidence] [sample_evidence] [] = Inr sample_configs"
proof -
  obtain t u w where "scalar_json (PStr ''mean'') = Inr t" "scalar_json (PStr ''mean_v1'') = Inr u"
      "scalar_json (PInt 3) = Inr w"
    using sample_fields(2,5) by blast
  then have "config_projection [sample_evidence] = Inr (bc_baseline sample_configs)"
    by (simp add: config_projection_def observations_of_def sample_evidence_def sample_observation_def
        project_field_def sample_fields benchmark_fields_def sample_configs_def Let_def)
  then show ?thesis
    by (simp add: benchmark_inputs_def sample_configs_def Let_def config_projection_def [of "[]"] observations_of_def)
qed

definition sample_check :: result_check where
  "sample_check =
     (let m = \<lparr>ms_count = 3, ms_mean = fzero, ms_stdev = None\<rparr>
      in \<lparr>baseline_summary = m, candidate_summary = m, absolute_improvement = fzero, relative_improvement = None,
          rc_findings = [aggregate_finding ''acc'' ''mean'' ''mean_v1'' m m, zero_claim]\<rparr>)"

lemma sample_aggregate:
  "checked_aggregate ''acc'' fzero HIGHER sample_configs (Some fzero) (Some fzero) = Inr sample_check"
proof -
  have m: "metric_summary_comparison \<lparr>ms_count = 3, ms_mean = fzero, ms_stdev = None\<rparr>
      \<lparr>ms_count = 3, ms_mean = fzero, ms_stdev = None\<rparr> ''acc'' fzero (DirEnum HIGHER) = Inr (fzero, None, zero_claim)"
    using zero_comparison by (simp add: metric_summary_comparison_def zero_summary_def)
  have "identity_ok ''mean''" "identity_ok ''mean_v1''" by code_simp+
  then show ?thesis
    by (simp add: checked_aggregate_def required_value_def sample_configs_def Let_def positive_integer_def aggregate_text_def
        check_reported_aggregates_def sample_count_ok_def m fzero_simps sample_check_def)
qed

lemma sample_measured:
  "measured ''acc'' [sample_evidence] = [(fzero, None)]" "only_metric ''acc'' [sample_evidence]"
  by (simp_all add: measured_def only_metric_def metric_names_def observations_of_def sample_evidence_def
      sample_observation_def)

lemma sample_comparable: "comparable (sample_selection f) sample_configs"
  by (simp add: comparable_def comparisons_def comparable_component_def role_conflicts_def reference_conflicts_def
      effective_component_def effective_fields_def procedure_component_def component_fields_def excluded_fields_def
      sample_configs_def sample_selection_def Let_def starts_with_def pdict_def)

lemma sample_outcome:
  "benchmark_results (Some REPORTED_AGGREGATE) ''acc'' fzero HIGHER sample_configs [sample_evidence] [sample_evidence] =
     Inr (Some sample_check, rc_findings sample_check)"
proof -
  have "single_metric_value ''acc'' [sample_evidence] role = (Some fzero, [])" for role
    by (simp add: single_value_Some sample_measured)
  then show ?thesis
    by (simp add: benchmark_results_def reported_aggregate_def sample_aggregate with_check_def)
qed

lemma benchmark_supported_exact_witness:
  "\<exists>res. audit_benchmark (\<lambda>_. []) sample_claim (sample_selection REPORTED_AGGREGATE) [sample_evidence] [sample_evidence] []
      None = Inr res \<and> ar_verdict res = SUPPORTED"
proof -
  let ?audit = "audit_benchmark (\<lambda>_. []) sample_claim (sample_selection REPORTED_AGGREGATE) [sample_evidence] [sample_evidence] [] None"
  obtain res where res: "?audit = Inr res" and s: "ar_baseline res = Some (baseline_summary sample_check)"
      "ar_candidate res = Some (candidate_summary sample_check)"
    by (simp add: audit_benchmark_def sample_selection_def sample_claim_def sample_inputs sample_outcome benchmark_drift_def
        Let_def)
  have "accepted REPORTED_AGGREGATE ''acc'' fzero HIGHER sample_configs [sample_evidence] [sample_evidence] sample_check"
    by (simp add: accepted_def sample_measured sample_aggregate)
  moreover have "determine_verdict (rc_findings sample_check) = SUPPORTED"
    by (simp add: sample_check_def Let_def supported_simps aggregate_finding_def zero_claim_def)
  ultimately have "ar_verdict res = SUPPORTED"
    using s by (subst benchmark_supported_exact [OF res])
      (auto simp: sample_inputs sample_comparable sample_measured sample_claim_def sample_form)
  with res show ?thesis by blast
qed

end
