(* ===== verification/Mappings.thy ===== *)
theory Mappings
  imports ProfileData
begin

section \<open>Repository mappings\<close>

text \<open>
  The bindings and mappings of \<^verbatim>\<open>claimci/analysis/contracts.py\<close> and the identities of
  \<^verbatim>\<open>claimci/analysis/evidence_identity.py\<close>: which artifact plays which role, the proof that two
  table selectors cannot reach the same row, candidates and questions, the approval of a mapping
  and its narrowing to the bindings of one run.
\<close>

subsection \<open>Bindings\<close>

datatype dataset_split = SPLIT_TRAIN | SPLIT_EVAL

fun split_value :: "dataset_split \<Rightarrow> string" where
  "split_value SPLIT_TRAIN = ''train''"
| "split_value SPLIT_EVAL = ''eval''"

datatype mapping_trust = TRUST_INFERRED | TRUST_MANIFEST_HINT | TRUST_USER_APPROVED

record artifact_binding =
  ab_path :: string
  ab_kind :: artifact_kind
  ab_role :: experiment_role
  ab_adapter :: "string option"
  ab_mappings :: "field_mapping list"
  ab_provenance :: provenance
  ab_split :: "dataset_split option"

definition new_artifact_binding :: "artifact_binding \<Rightarrow> artifact_binding checked" where
  "new_artifact_binding b =
     sbind (new_repository_path (ab_path b)) (\<lambda>_.
     sbind (case ab_adapter b of
              None \<Rightarrow> Inr ()
            | Some a \<Rightarrow> aensure (trusted_adapter_id a) ''binding adapter_id must be a trusted registry identifier'') (\<lambda>_.
     sbind (aensure (distinct (map fm_target (ab_mappings b))) ''binding mappings must have unique targets'') (\<lambda>_.
     sbind (aensure (ab_kind b = DATASET \<or> ab_split b = None) ''only a dataset binding may carry a dataset split'') (\<lambda>_.
       Inr b))))"

type_synonym binding_slot = "string \<times> artifact_kind \<times> experiment_role \<times> dataset_split option"

definition slot_of :: "artifact_binding \<Rightarrow> binding_slot" where
  "slot_of b = (ab_path b, ab_kind b, ab_role b, ab_split b)"

subsection \<open>Disjoint table selectors\<close>

text \<open>The pattern \<^verbatim>\<open>_TABLE_NUMBER\<close>, part by part.\<close>

definition exponent_ok :: "string \<Rightarrow> bool" where
  "exponent_ok s =
     (case s of
        [] \<Rightarrow> True
      | c # cs \<Rightarrow> c \<in> set ''eE'' \<and> (case signed_text cs of (_, ds) \<Rightarrow> ds \<noteq> [] \<and> list_all is_digit_char ds))"

definition table_number_ok :: "string \<Rightarrow> bool" where
  "table_number_ok s =
     (let t = (case s of c # cs \<Rightarrow> if c = CHR ''-'' then cs else s | [] \<Rightarrow> []);
          whole = takeWhile is_digit_char t; rest = dropWhile is_digit_char t
      in whole \<noteq> [] \<and> (hd whole = CHR ''0'' \<longrightarrow> whole = ''0'')
         \<and> (case rest of
              c # cs \<Rightarrow> if c = CHR ''.''
                        then takeWhile is_digit_char cs \<noteq> [] \<and> exponent_ok (dropWhile is_digit_char cs)
                        else exponent_ok rest
            | [] \<Rightarrow> True))"

definition table_number_text :: "string \<Rightarrow> dec option" where
  "table_number_text s = (if table_number_ok s then decimal_of_text s else None)"

definition boolean_text :: "bool \<Rightarrow> string" where
  "boolean_text b = (if b then ''true'' else ''false'')"

text \<open>A string predicate against one of another type.\<close>

definition string_may_match :: "string \<Rightarrow> table_value \<Rightarrow> bool" where
  "string_may_match s v =
     (case v of
        TV_BOOL b \<Rightarrow> s = boolean_text b
      | TV_NULL \<Rightarrow> False
      | TV_STRING t \<Rightarrow> s = t
      | _ \<Rightarrow> (case (table_number_text s, decimal_of_text (canonical_text v)) of
                (Some d, Some e) \<Rightarrow> dec_eq d e
              | _ \<Rightarrow> False))"

fun cells_may_match :: "table_value \<Rightarrow> table_value \<Rightarrow> bool" where
  "cells_may_match TV_NULL v = (v = TV_NULL)"
| "cells_may_match (TV_STRING s) v = string_may_match s v"
| "cells_may_match (TV_BOOL a) v =
     (case v of TV_BOOL b \<Rightarrow> a = b | TV_STRING s \<Rightarrow> string_may_match s (TV_BOOL a) | _ \<Rightarrow> False)"
| "cells_may_match u v =
     (case v of
        TV_STRING s \<Rightarrow> string_may_match s u
      | TV_BOOL _ \<Rightarrow> False
      | TV_NULL \<Rightarrow> False
      | _ \<Rightarrow> canonical_text u = canonical_text v)"

definition predicate_on :: "table_selector \<Rightarrow> string \<Rightarrow> table_predicate option" where
  "predicate_on s column = map_of (rev (map (\<lambda>p. (tp_column p, p)) (ts_predicates s))) column"

definition row_disjoint :: "table_selector \<Rightarrow> table_selector \<Rightarrow> bool" where
  "row_disjoint l r =
     list_ex (\<lambda>c. case (predicate_on l c, predicate_on r c) of
                    (Some p, Some q) \<Rightarrow> \<not> cells_may_match (tp_value p) (tp_value q)
                  | _ \<Rightarrow> False) (map tp_column (ts_predicates l))"

subsection \<open>Validated sets of bindings\<close>

definition table_selectors :: "field_mapping list \<Rightarrow> table_selector list" where
  "table_selectors ms = concat (map (\<lambda>m. case fm_selector m of TableSelector t \<Rightarrow> [t] | _ \<Rightarrow> []) ms)"

text \<open>
  The identities of the table mappings of a binding, sorted; targets are unique, so they alone
  decide the order.
\<close>

definition mapping_projection :: "field_mapping list \<Rightarrow> pyval list list" where
  "mapping_projection ms = map field_mapping_identity (sort_key fm_target ms)"

definition is_table_mapping :: "field_mapping \<Rightarrow> bool" where
  "is_table_mapping m = (case fm_selector m of TableSelector _ \<Rightarrow> True | _ \<Rightarrow> False)"

definition table_identity :: "artifact_binding \<Rightarrow> pyval list list" where
  "table_identity b = mapping_projection (filter is_table_mapping (ab_mappings b))"

definition role_selectors :: "experiment_role \<Rightarrow> artifact_binding list \<Rightarrow> table_selector list" where
  "role_selectors r bs = concat (map (\<lambda>b. if ab_role b = r then table_selectors (ab_mappings b) else []) bs)"

definition cells_overlap :: "artifact_binding list \<Rightarrow> bool" where
  "cells_overlap bs =
     list_ex (\<lambda>l. list_ex (\<lambda>r. ts_column l = ts_column r \<and> \<not> row_disjoint l r) (role_selectors ER_CANDIDATE bs))
       (role_selectors ER_BASELINE bs)"

definition conflicting_roles :: "artifact_binding list \<Rightarrow> bool" where
  "conflicting_roles bs =
     (let both = filter (\<lambda>b. ab_role b = ER_BASELINE \<or> ab_role b = ER_CANDIDATE) bs;
          ids = map table_identity both
      in ER_BASELINE \<in> set (map ab_role bs) \<and> ER_CANDIDATE \<in> set (map ab_role bs)
         \<and> ([] \<in> set ids \<or> \<not> distinct ids \<or> cells_overlap both))"

definition validate_bindings :: "string \<Rightarrow> artifact_binding list \<Rightarrow> artifact_binding list checked" where
  "validate_bindings label bs =
     sbind (ensure (bs \<noteq> []) (TypeError (label @ '' must be a non-empty tuple of ArtifactBinding values''))) (\<lambda>_.
     sbind (aensure (distinct (map slot_of bs)) (label @ '' must not contain duplicate bindings'')) (\<lambda>_.
     sbind (aensure (\<not> list_ex (\<lambda>p. conflicting_roles (filter (\<lambda>b. ab_path b = p) bs)) (map ab_path bs))
              (label @ '' cannot assign one path to conflicting baseline and candidate roles'')) (\<lambda>_.
       Inr bs)))"

subsection \<open>Candidates and questions\<close>

record mapping_candidate =
  mp_id :: string
  mp_bindings :: "artifact_binding list"
  mp_confidence :: flt
  mp_trust :: mapping_trust
  mp_provenance :: provenance

definition new_mapping_candidate :: "mapping_candidate \<Rightarrow> mapping_candidate checked" where
  "new_mapping_candidate m =
     sbind (contract_id 128 ''mapping_id'' (mp_id m)) (\<lambda>_.
     sbind (validate_bindings ''mapping bindings'' (mp_bindings m)) (\<lambda>_.
     sbind (aensure (mp_trust m \<noteq> TRUST_USER_APPROVED) ''mapping candidates may only be inferred or manifest hints'') (\<lambda>_.
     sbind (aensure (mp_trust m = TRUST_MANIFEST_HINT \<longrightarrow> pv_kind (mp_provenance m) = MANIFEST_HINT)
              ''manifest-hint mapping requires manifest-hint provenance'') (\<lambda>_.
     sbind (aensure (mp_trust m = TRUST_INFERRED \<longrightarrow> pv_kind (mp_provenance m) \<notin> {MANIFEST_HINT, USER_APPROVED})
              ''inferred mapping provenance cannot claim manifest or approved trust'') (\<lambda>_.
       Inr m)))))"

record mapping_choice =
  mh_id :: string
  mh_label :: string
  mh_bindings :: "artifact_binding list"

definition new_mapping_choice :: "mapping_choice \<Rightarrow> mapping_choice checked" where
  "new_mapping_choice c =
     sbind (contract_id 128 ''mapping choice_id'' (mh_id c)) (\<lambda>_.
     sbind (contract_text 512 ''mapping choice label'' (mh_label c)) (\<lambda>_.
     sbind (validate_bindings ''mapping choice bindings'' (mh_bindings c)) (\<lambda>_. Inr c)))"

record mapping_question =
  mq_id :: string
  mq_prompt :: string
  mq_choices :: "mapping_choice list"
  mq_claim :: "string option"
  mq_obligations :: "string list"

definition new_mapping_question :: "mapping_question \<Rightarrow> mapping_question checked" where
  "new_mapping_question q =
     sbind (contract_id 128 ''mapping question_id'' (mq_id q)) (\<lambda>_.
     sbind (contract_text 1024 ''mapping question prompt'' (mq_prompt q)) (\<lambda>_.
     sbind (aensure (2 \<le> length (mq_choices q) \<and> length (mq_choices q) \<le> 8)
              ''mapping question must contain two through eight choices'') (\<lambda>_.
     sbind (aensure (distinct (map mh_id (mq_choices q))) ''mapping question choice IDs must be unique'') (\<lambda>_.
     sbind (optional_id 128 ''mapping question relevant_claim_id'' (mq_claim q)) (\<lambda>_.
     sbind (aensure (length (mq_obligations q) \<le> 16) ''mapping question obligation linkage exceeds its bound'') (\<lambda>_.
     sbind (contract_ids 128 ''mapping question blocking obligation_id'' (mq_obligations q)) (\<lambda>_.
     sbind (aensure (distinct (mq_obligations q)) ''mapping question blocking obligation IDs must be unique'') (\<lambda>_.
       Inr q))))))))"

subsection \<open>Approved mappings\<close>

record repo_mapping =
  rm_repository :: repository_identity
  rm_bindings :: "artifact_binding list"
  rm_approver :: string
  rm_source :: string
  rm_source_trust :: mapping_trust
  rm_provenance :: provenance
  rm_trust :: mapping_trust

definition approve_mapping :: "repository_identity \<Rightarrow> mapping_candidate \<Rightarrow> string \<Rightarrow> repo_mapping checked" where
  "approve_mapping repo m approver =
     sbind (contract_id 256 ''approved_by'' approver) (\<lambda>_.
     sbind (new_provenance \<lparr>pv_kind = USER_APPROVED,
              pv_detail = ''repository mapping explicitly approved by '' @ approver,
              pv_source_path = None, pv_source_id = Some approver\<rparr>) (\<lambda>p.
       Inr \<lparr>rm_repository = repo, rm_bindings = mp_bindings m, rm_approver = approver, rm_source = mp_id m,
            rm_source_trust = mp_trust m, rm_provenance = p, rm_trust = TRUST_USER_APPROVED\<rparr>))"

text \<open>One runtime binding against the approved slot it names.\<close>

definition runtime_binding_ok :: "artifact_binding list \<Rightarrow> artifact_binding \<Rightarrow> unit checked" where
  "runtime_binding_ok approved b =
     (case map_of (rev (map (\<lambda>a. (slot_of a, a)) approved)) (slot_of b) of
        None \<Rightarrow> afail ''runtime binding is not an approved repository mapping slot''
      | Some a \<Rightarrow>
          sbind (aensure (ab_adapter b \<noteq> None) ''runtime-approved binding requires a validated adapter'') (\<lambda>_.
          sbind (aensure (ab_adapter a = None \<or> ab_adapter b = ab_adapter a)
                   ''runtime adapter conflicts with the approved binding'') (\<lambda>_.
          sbind (aensure (ab_mappings a = [] \<or> mapping_projection (ab_mappings b) = mapping_projection (ab_mappings a))
                   ''runtime selectors conflict with the approved binding'') (\<lambda>_.
            aensure (ab_provenance b = ab_provenance a)
              ''runtime binding provenance must preserve the approved slot''))))"

fun runtime_bindings_ok :: "artifact_binding list \<Rightarrow> artifact_binding list \<Rightarrow> unit checked" where
  "runtime_bindings_ok approved [] = Inr ()"
| "runtime_bindings_ok approved (b # bs) =
     sbind (runtime_binding_ok approved b) (\<lambda>_. runtime_bindings_ok approved bs)"

definition scope_mapping :: "repo_mapping \<Rightarrow> artifact_binding list \<Rightarrow> repo_mapping checked" where
  "scope_mapping m bs =
     sbind (validate_bindings ''runtime-approved bindings'' bs) (\<lambda>vs.
     sbind (runtime_bindings_ok (rm_bindings m) vs) (\<lambda>_.
       Inr (if vs = rm_bindings m then m else m\<lparr>rm_bindings := vs, rm_trust := TRUST_USER_APPROVED\<rparr>)))"

subsection \<open>Evidence of a binding\<close>

definition evidence_matches_binding :: "normalized_evidence \<Rightarrow> artifact_binding \<Rightarrow> bool" where
  "evidence_matches_binding n b \<longleftrightarrow>
     ac_path (ne_artifact n) = ab_path b \<and> ac_kind (ne_artifact n) = ab_kind b
     \<and> (case ab_adapter b of None \<Rightarrow> True | Some a \<Rightarrow> am_adapter (ne_match n) = a)
     \<and> (ab_mappings b = [] \<or> mapping_projection (am_mappings (ne_match n)) = mapping_projection (ab_mappings b))"

definition evidence_for_binding :: "artifact_binding \<Rightarrow> normalized_evidence list \<Rightarrow> normalized_evidence option" where
  "evidence_for_binding b ns =
     (case filter (\<lambda>n. evidence_matches_binding n b) ns of [n] \<Rightarrow> Some n | _ \<Rightarrow> None)"

definition predicate_material :: "table_predicate \<Rightarrow> pyval" where
  "predicate_material p =
     pdict [(''column'', PStr (tp_column p)), (''scalar_type'', PStr (table_type_value (tp_value p))),
            (''value'', PStr (canonical_text (tp_value p)))]"

text \<open>The kind of a table selector is the column kind, its expression the target column.\<close>

definition field_mapping_material :: "field_mapping \<Rightarrow> pyval" where
  "field_mapping_material m =
     (case fm_selector m of
        FieldSelector f \<Rightarrow>
          pdict [(''target'', PStr (fm_target m)), (''kind'', PStr (selector_kind_value (es_kind f))),
                 (''expression'', PStr (es_expression f))]
      | TableSelector t \<Rightarrow>
          pdict [(''target'', PStr (fm_target m)), (''kind'', PStr (selector_kind_value COLUMN)),
                 (''expression'', PStr (ts_column t)), (''selector_type'', PStr ''table''),
                 (''expected_cardinality'', PInt (ts_cardinality t)),
                 (''predicates'', PList (map predicate_material (ts_predicates t)))])"

definition canonical_selector_material :: "field_mapping list \<Rightarrow> pyval list" where
  "canonical_selector_material ms = map field_mapping_material (sort_key fm_target ms)"

subsection \<open>What the checks guarantee\<close>

definition approved_as :: "artifact_binding \<Rightarrow> artifact_binding \<Rightarrow> bool" where
  "approved_as b a \<longleftrightarrow>
     slot_of a = slot_of b \<and> ab_provenance a = ab_provenance b
     \<and> (\<exists>x. ab_adapter b = Some x \<and> (ab_adapter a = None \<or> ab_adapter a = Some x))
     \<and> (ab_mappings a = [] \<or> mapping_projection (ab_mappings a) = mapping_projection (ab_mappings b))"

lemma runtime_binding_approved:
  assumes "runtime_binding_ok approved b = Inr u"
  shows "\<exists>a \<in> set approved. approved_as b a"
proof -
  from assms obtain a where a: "map_of (rev (map (\<lambda>a. (slot_of a, a)) approved)) (slot_of b) = Some a"
    by (auto simp: runtime_binding_ok_def afail_def split: option.splits)
  then have "(slot_of b, a) \<in> set (rev (map (\<lambda>a. (slot_of a, a)) approved))" by (rule map_of_SomeD)
  then have "a \<in> set approved" "slot_of a = slot_of b" by auto
  moreover have "approved_as b a"
    using assms a calculation by (auto simp: runtime_binding_ok_def approved_as_def result_simps)
  ultimately show ?thesis by blast
qed

lemma runtime_bindings_approved:
  "runtime_bindings_ok approved bs = Inr u \<Longrightarrow> b \<in> set bs \<Longrightarrow> \<exists>a \<in> set approved. approved_as b a"
  by (induction bs) (auto simp: result_simps dest: runtime_binding_approved)

lemma validate_bindings_Inr:
  "validate_bindings label bs = Inr vs \<longleftrightarrow>
     vs = bs \<and> bs \<noteq> [] \<and> distinct (map slot_of bs)
     \<and> (\<forall>p \<in> set (map ab_path bs). \<not> conflicting_roles (filter (\<lambda>b. ab_path b = p) bs))"
  by (auto simp: validate_bindings_def result_simps list_ex_iff)

text \<open>C12: narrowing an approved mapping to the bindings of a run never widens it: the repository and the
  approver stay, and every binding of the run fills one approved slot, with a validated adapter, the
  provenance of the slot, and the adapter and the selectors the approval fixed.\<close>

theorem scope_never_widens:
  assumes "scope_mapping m bs = Inr m'"
  shows "rm_bindings m' = bs \<and> rm_repository m' = rm_repository m \<and> rm_approver m' = rm_approver m
    \<and> distinct (map slot_of bs) \<and> list_all (\<lambda>b. list_ex (approved_as b) (rm_bindings m)) bs"
  using assms
  by (auto simp: scope_mapping_def result_simps validate_bindings_Inr list_all_iff list_ex_iff
      dest: runtime_bindings_approved)

definition sample_binding :: "string option \<Rightarrow> artifact_binding" where
  "sample_binding a =
     \<lparr>ab_path = ''r.csv'', ab_kind = RESULTS, ab_role = ER_BASELINE, ab_adapter = a, ab_mappings = [],
      ab_provenance = \<lparr>pv_kind = DETERMINISTIC_DISCOVERY, pv_detail = ''name'', pv_source_path = None, pv_source_id = None\<rparr>,
      ab_split = None\<rparr>"

definition sample_mapping :: repo_mapping where
  "sample_mapping =
     \<lparr>rm_repository = \<lparr>ri_owner = ''o'', ri_name = ''r''\<rparr>, rm_bindings = [sample_binding None], rm_approver = ''a'',
      rm_source = ''m'', rm_source_trust = TRUST_INFERRED,
      rm_provenance = ab_provenance (sample_binding None), rm_trust = TRUST_USER_APPROVED\<rparr>"

lemma scope_never_widens_witness:
  "list_ex (approved_as (sample_binding (Some ''claimci-csv-v1''))) (rm_bindings sample_mapping)"
proof -
  have s: "scope_mapping sample_mapping [sample_binding (Some ''claimci-csv-v1'')] =
      Inr (sample_mapping\<lparr>rm_bindings := [sample_binding (Some ''claimci-csv-v1'')]\<rparr>)"
    by (simp add: scope_mapping_def validate_bindings_def conflicting_roles_def sample_mapping_def sample_binding_def
        runtime_binding_ok_def slot_of_def ensure_def aensure_def)
  show ?thesis using scope_never_widens [OF s] by simp
qed

end
