(* ===== verification/AdapterCore.thy ===== *)
theory AdapterCore
  imports Mappings StreamLines Paths
begin

section \<open>Adapter core\<close>

text \<open>
  \<^verbatim>\<open>claimci/analysis/adapters/core.py\<close>: what every adapter shares: the integrity of the passive
  bytes, bounded JSON, strict selectors, provenance bound to the content, the validation of
  externally supplied mappings and the identity of extracted evidence. The decoders of UTF-8 and of
  JSON text are parameters of the environment, as in the record streams.
\<close>

subsection \<open>Errors\<close>

text \<open>
  The four kinds of controlled failure, a key missing from a dict, which is no contract error, and
  the errors of the layers below.
\<close>

datatype adapter_error =
    AdapterParse string
  | AdapterLimit string
  | AdapterSelect string
  | AdapterIntegrity string
  | AdapterLookup string
  | AdapterOther py_error

type_synonym 'a extracted = "adapter_error + 'a"

definition lifted :: "'a checked \<Rightarrow> 'a extracted" where
  "lifted r = (case r of Inl e \<Rightarrow> Inl (AdapterOther e) | Inr x \<Rightarrow> Inr x)"

text \<open>The errors that are contract errors: those of adapters are a subclass.\<close>

fun is_contract_error :: "adapter_error \<Rightarrow> bool" where
  "is_contract_error (AdapterOther (AnalysisContractError _)) = True"
| "is_contract_error (AdapterOther _) = False"
| "is_contract_error (AdapterLookup _) = False"
| "is_contract_error _ = True"

fun adapter_text :: "adapter_error \<Rightarrow> string" where
  "adapter_text (AdapterParse s) = s"
| "adapter_text (AdapterLimit s) = s"
| "adapter_text (AdapterSelect s) = s"
| "adapter_text (AdapterIntegrity s) = s"
| "adapter_text (AdapterLookup s) = s"
| "adapter_text (AdapterOther e) = error_text e"

text \<open>A contract error of any kind, reported under a prefix by another constructor.\<close>

definition rewrap :: "(string \<Rightarrow> adapter_error) \<Rightarrow> string \<Rightarrow> 'a extracted \<Rightarrow> 'a extracted" where
  "rewrap f prefix r =
     (case r of
        Inl e \<Rightarrow> Inl (if is_contract_error e then f (prefix @ adapter_text e) else e)
      | Inr x \<Rightarrow> Inr x)"

definition max_artifact_bytes :: nat where "max_artifact_bytes = 8 * 1024 * 1024"
definition max_records :: nat where "max_records = 10000"
definition max_table_columns :: nat where "max_table_columns = 256"
definition max_json_depth :: nat where "max_json_depth = 64"
definition max_json_nodes :: nat where "max_json_nodes = 100000"
definition max_record_bytes :: nat where "max_record_bytes = 1024 * 1024"

definition candidate_of :: "passive_artifact \<Rightarrow> artifact_candidate" where
  "candidate_of a = oc_candidate (pa_occurrence a)"

definition verify_integrity :: "(nat list \<Rightarrow> string) \<Rightarrow> passive_artifact \<Rightarrow> unit extracted" where
  "verify_integrity sha a =
     sbind (ensure (length (pa_content a) \<le> max_artifact_bytes)
              (AdapterLimit (''artifact exceeds the '' @ show_nat max_artifact_bytes @ ''-byte (8 MiB) limit''))) (\<lambda>_.
     sbind (ensure (int (length (pa_content a)) = ac_size (candidate_of a))
              (AdapterIntegrity ''artifact integrity size mismatch'')) (\<lambda>_.
       ensure (sha (pa_content a) = ac_sha256 (candidate_of a))
         (AdapterIntegrity ''artifact integrity sha256 mismatch'')))"

subsection \<open>Bounded JSON\<close>

definition malformed_json :: "string \<Rightarrow> adapter_error" where
  "malformed_json e = AdapterParse (''malformed JSON artifact: '' @ e)"

fun adapter_build :: "jtree \<Rightarrow> pyval extracted" where
  "adapter_build JNull = Inr PNone"
| "adapter_build (JBool b) = Inr (PBool b)"
| "adapter_build (JInt i) = Inr (PInt i)"
| "adapter_build (JFloat x) = Inr (PFloat x)"
| "adapter_build (JConst tok) = Inl (AdapterParse (''JSON constant '' @ str_repr tok @ '' is not finite''))"
| "adapter_build (JStr s) = Inr (PStr s)"
| "adapter_build (JArr ts) = sbind (smap adapter_build ts) (\<lambda>vs. Inr (PList vs))"
| "adapter_build (JObj ps) =
     sbind (smap (\<lambda>(k, t). sbind (adapter_build t) (\<lambda>v. Inr (k, v))) ps)
       (\<lambda>kvs. case unique_json_object kvs of Inl e \<Rightarrow> Inl (malformed_json e) | Inr d \<Rightarrow> Inr (pdict d))"

text \<open>
  The traversal of a decoded value: a stack of values with their depths. A decoded value is a tree,
  so no container is met twice.
\<close>

fun string_keys :: "pyval \<Rightarrow> bool" where
  "string_keys (PDict d) = list_all (\<lambda>(k, v). k = PStr (key_text k)) d"
| "string_keys _ = True"

function adapter_graph_loop :: "nat \<Rightarrow> (pyval \<times> int) list \<Rightarrow> unit extracted" where
  "adapter_graph_loop nodes [] = Inr ()"
| "adapter_graph_loop nodes ((current, depth) # stack) =
     (if max_json_nodes < nodes + 1
      then Inl (AdapterLimit (''artifact exceeds the '' @ show_nat max_json_nodes @ ''-nodes limit''))
      else if float_not_finite current then Inl (AdapterParse ''artifact numbers must be finite'')
      else if \<not> is_container current then adapter_graph_loop (nodes + 1) stack
      else if int max_json_depth < depth
      then Inl (AdapterLimit (''artifact exceeds the maximum supported depth '' @ show_nat max_json_depth))
      else if \<not> string_keys current then Inl (AdapterParse ''artifact mappings require string keys'')
      else adapter_graph_loop (nodes + 1) (map (\<lambda>c. (c, depth + 1)) (graph_children current) @ stack))"
  by pat_completeness auto
termination
proof (relation "measure (\<lambda>(nodes, stack). stack_size stack)")
  fix nodes :: nat and current depth stack
  assume "\<not> \<not> is_container current"
  then show "((nodes + 1, map (\<lambda>c. (c, depth + 1)) (graph_children current) @ stack), nodes, (current, depth) # stack)
      \<in> measure (\<lambda>(nodes, stack). stack_size stack)"
    using graph_children_size [of current] by (simp add: stack_size_push) (simp add: stack_size_def)
qed (auto simp: stack_size_def)

definition adapter_graph :: "pyval \<Rightarrow> unit extracted" where
  "adapter_graph v = adapter_graph_loop 0 [(v, if is_container v then 1 else 0)]"

definition parse_json_text :: "'e io_env_scheme \<Rightarrow> string \<Rightarrow> pyval extracted" where
  "parse_json_text env text =
     (case json_text env text of
        Inl e \<Rightarrow> Inl (malformed_json e)
      | Inr t \<Rightarrow> sbind (adapter_build t) (\<lambda>v. sbind (adapter_graph v) (\<lambda>_. Inr v)))"

definition decode_text :: "'e stream_env_scheme \<Rightarrow> nat list \<Rightarrow> string extracted" where
  "decode_text env content =
     (case utf8_text env content of
        None \<Rightarrow> Inl (AdapterParse ''artifact must contain valid UTF-8'')
      | Some t \<Rightarrow> Inr t)"

definition parse_json :: "'e stream_env_scheme \<Rightarrow> nat list \<Rightarrow> pyval extracted" where
  "parse_json env content = sbind (decode_text env content) (parse_json_text env)"

subsection \<open>Selectors\<close>

fun decode_token :: "string \<Rightarrow> string extracted" where
  "decode_token [] = Inr []"
| "decode_token (c # cs) =
     (if c \<noteq> CHR ''~'' then sbind (decode_token cs) (\<lambda>r. Inr (c # r))
      else (case cs of
              d # ds \<Rightarrow>
                if d = CHR ''0'' then sbind (decode_token ds) (\<lambda>r. Inr (CHR ''~'' # r))
                else if d = CHR ''1'' then sbind (decode_token ds) (\<lambda>r. Inr (CHR ''/'' # r))
                else Inl (AdapterSelect ''JSON pointer contains an invalid escape'')
            | [] \<Rightarrow> Inl (AdapterSelect ''JSON pointer contains an invalid escape'')))"

text \<open>One step of a pointer. An index has the pattern of a canonical integer.\<close>

definition pointer_step :: "pyval \<Rightarrow> string \<Rightarrow> pyval extracted" where
  "pointer_step current token =
     (case current of
        PDict d \<Rightarrow>
          (case dget d token of
             None \<Rightarrow> Inl (AdapterSelect (''JSON pointer token '' @ str_repr token @ '' is missing''))
           | Some v \<Rightarrow> Inr v)
      | PList vs \<Rightarrow>
          if \<not> canonical_digits token
          then Inl (AdapterSelect ''JSON pointer array indices must be canonical non-negative integers'')
          else if length vs \<le> digits_val token
          then Inl (AdapterSelect ''JSON pointer array index is out of bounds'')
          else Inr (vs ! digits_val token)
      | _ \<Rightarrow> Inl (AdapterSelect ''JSON pointer traverses a scalar value''))"

fun resolve_tokens :: "pyval \<Rightarrow> string list \<Rightarrow> pyval extracted" where
  "resolve_tokens current [] = Inr current"
| "resolve_tokens current (t # ts) =
     sbind (decode_token t) (\<lambda>token. sbind (pointer_step current token) (\<lambda>v. resolve_tokens v ts))"

definition resolve_pointer :: "pyval \<Rightarrow> string \<Rightarrow> pyval extracted" where
  "resolve_pointer v expression =
     (if \<not> starts_with ''/'' expression
      then Inl (AdapterSelect (''JSON pointer must start with '' @ squote @ ''/'' @ squote))
      else resolve_tokens v (split_on (CHR ''/'') (drop 1 expression)))"

fun resolve_segments :: "pyval \<Rightarrow> string list \<Rightarrow> pyval extracted" where
  "resolve_segments current [] = Inr current"
| "resolve_segments current (s # ss) =
     (case current of
        PDict d \<Rightarrow>
          (case dget d s of
             None \<Rightarrow> Inl (AdapterSelect (''dotted selector segment '' @ str_repr s @ '' is missing''))
           | Some v \<Rightarrow> resolve_segments v ss)
      | _ \<Rightarrow> Inl (AdapterSelect ''dotted selector traverses a non-mapping value''))"

definition resolve_dotted :: "pyval \<Rightarrow> string \<Rightarrow> pyval extracted" where
  "resolve_dotted v expression =
     sbind (ensure (list_all dotted_segment_ok (split_on (CHR ''.'') expression))
              (AdapterSelect ''dotted selector segments must match [A-Za-z0-9_-]+'')) (\<lambda>_.
       resolve_segments v (split_on (CHR ''.'') expression))"

text \<open>
  The scalar leaves that a dotted path can name, and the sorted labels of what it cannot.
\<close>

fun scalar_walk :: "pyval \<Rightarrow> string list \<Rightarrow> (string \<times> pyval) list \<times> string list" where
  "scalar_walk (PDict d) parts =
     (let rs = map (\<lambda>(k, v). case k of
                     PStr s \<Rightarrow> if dotted_segment_ok s then scalar_walk v (parts @ [s])
                               else ([], [join ''.'' (parts @ [s])])
                   | _ \<Rightarrow> ([], [join ''.'' (parts @ [str_of_key k])]))
                 (sort_key (\<lambda>(k, v). str_of_key k) d)
      in (concat (map fst rs), concat (map snd rs)))"
| "scalar_walk (PList vs) parts = ([], [join ''.'' parts])"
| "scalar_walk v parts = (if parts = [] then ([], [''<root>'']) else ([(join ''.'' parts, v)], []))"

definition scalar_leaves :: "pyval \<Rightarrow> (string \<times> pyval) list \<times> string list" where
  "scalar_leaves v = (case scalar_walk v [] of (ls, us) \<Rightarrow> (ls, sort us))"

definition adapter_number :: "string \<Rightarrow> pyval \<Rightarrow> flt extracted" where
  "adapter_number label v =
     (case v of
        PInt i \<Rightarrow> (case float_of_int i of
                     Some x \<Rightarrow> Inr x
                   | None \<Rightarrow> Inl (AdapterParse (label @ '' must be a finite number'')))
      | PFloat x \<Rightarrow> if isfinite x then Inr x else Inl (AdapterParse (label @ '' must be a finite number''))
      | _ \<Rightarrow> Inl (AdapterParse (label @ '' must be a finite number'')))"

subsection \<open>Provenance and mappings\<close>

definition adapter_provenance ::
  "passive_artifact \<Rightarrow> string \<Rightarrow> string \<Rightarrow> bool \<Rightarrow> provenance_kind \<Rightarrow> provenance extracted" where
  "adapter_provenance a adapter selector inferred kind =
     (let c = candidate_of a
      in lifted (new_provenance
           \<lparr>pv_kind = kind,
            pv_detail = ''adapter='' @ adapter @ ''; selector='' @ selector @ ''; sha256='' @ ac_sha256 c
              @ ''; inferred='' @ boolean_text inferred,
            pv_source_path = Some (ac_path c),
            pv_source_id = Some (adapter @ '':'' @ take 16 (ac_sha256 c))\<rparr>))"

definition adapter_mapping ::
  "passive_artifact \<Rightarrow> string \<Rightarrow> string \<Rightarrow> selector_kind \<Rightarrow> string \<Rightarrow> bool \<Rightarrow> field_mapping extracted" where
  "adapter_mapping a adapter target kind selector inferred =
     sbind (adapter_provenance a adapter selector inferred ADAPTER_EXTRACTION) (\<lambda>p.
     sbind (lifted (new_selector \<lparr>es_kind = kind, es_expression = selector, es_provenance = p\<rparr>)) (\<lambda>s.
       lifted (new_field_mapping \<lparr>fm_target = target, fm_selector = FieldSelector s, fm_provenance = p\<rparr>)))"

definition config_target :: "(nat list \<Rightarrow> string) \<Rightarrow> string \<Rightarrow> string" where
  "config_target sha selector = ''config.k'' @ take 16 (sha (utf8 selector))"

definition adapter_supports :: "passive_artifact \<Rightarrow> artifact_kind list \<Rightarrow> string list \<Rightarrow> bool" where
  "adapter_supports a kinds suffixes \<longleftrightarrow>
     ac_kind (candidate_of a) \<in> set kinds \<and> py_lower (path_suffix (ac_path (candidate_of a))) \<in> set suffixes"

subsection \<open>Externally supplied matches\<close>

fun contains_text :: "string \<Rightarrow> string \<Rightarrow> bool" where
  "contains_text p [] = (p = [])"
| "contains_text p (c # cs) = (starts_with p (c # cs) \<or> contains_text p cs)"

definition bound_provenance :: "artifact_candidate \<Rightarrow> string \<Rightarrow> provenance \<Rightarrow> unit extracted" where
  "bound_provenance c label p =
     sbind (ensure (pv_source_path p = Some (ac_path c))
              (AdapterSelect (label @ '' provenance path does not match artifact path''))) (\<lambda>_.
       ensure (contains_text (ac_sha256 c) (pv_detail p))
         (AdapterSelect (label @ '' provenance does not bind the current sha256'')))"

fun each_extracted :: "('a \<Rightarrow> unit extracted) \<Rightarrow> 'a list \<Rightarrow> unit extracted" where
  "each_extracted f [] = Inr ()"
| "each_extracted f (x # xs) = sbind (f x) (\<lambda>_. each_extracted f xs)"

fun selector_provenance :: "selector \<Rightarrow> provenance" where
  "selector_provenance (FieldSelector s) = es_provenance s"
| "selector_provenance (TableSelector t) = ts_provenance t"

fun kind_of_selector :: "selector \<Rightarrow> selector_kind" where
  "kind_of_selector (FieldSelector s) = es_kind s"
| "kind_of_selector (TableSelector t) = COLUMN"

fun selector_text :: "selector \<Rightarrow> string" where
  "selector_text (FieldSelector s) = es_expression s"
| "selector_text (TableSelector t) = ts_column t"

definition valid_mapping ::
  "artifact_candidate \<Rightarrow> selector_kind \<Rightarrow> (string \<Rightarrow> bool) \<Rightarrow> field_mapping \<Rightarrow> unit extracted" where
  "valid_mapping c kind allowed m =
     sbind (ensure (allowed (fm_target m))
              (AdapterSelect (''mapping target '' @ str_repr (fm_target m) @ '' is not supported''))) (\<lambda>_.
     sbind (ensure (kind_of_selector (fm_selector m) = kind) (AdapterSelect ''mapping selector kind is not supported'')) (\<lambda>_.
       each_extracted (bound_provenance c ''mapping selector'')
         [fm_provenance m, selector_provenance (fm_selector m)]))"

text \<open>The validated mappings by target; the targets of a match are unique.\<close>

definition validate_match ::
  "passive_artifact \<Rightarrow> adapter_match \<Rightarrow> string \<Rightarrow> selector_kind \<Rightarrow> (string \<Rightarrow> bool)
    \<Rightarrow> (string \<times> field_mapping) list extracted" where
  "validate_match a m adapter kind allowed =
     sbind (ensure (am_adapter m = adapter) (AdapterSelect ''adapter match uses the wrong adapter identifier'')) (\<lambda>_.
     sbind (ensure (am_path m = ac_path (candidate_of a))
              (AdapterSelect ''adapter match path does not match artifact path'')) (\<lambda>_.
     sbind (each_extracted (bound_provenance (candidate_of a) ''adapter match'') (am_evidence m)) (\<lambda>_.
     sbind (each_extracted (valid_mapping (candidate_of a) kind allowed) (am_mappings m)) (\<lambda>_.
       Inr (foldl (\<lambda>d f. al_set (fm_target f) f d) [] (am_mappings m))))))"

subsection \<open>Evidence identities\<close>

fun role_value :: "snapshot_role \<Rightarrow> string" where
  "role_value HEAD = ''head''"
| "role_value BASE = ''base''"

definition evidence_material :: "string \<Rightarrow> string \<Rightarrow> artifact_occurrence \<Rightarrow> field_mapping list \<Rightarrow> pyval" where
  "evidence_material adapter version oc ms =
     (let c = oc_candidate oc
      in pdict
          [(''schema_version'', PInt 2),
           (''repository'', pdict [(''owner'', PStr (ri_owner (oc_repository oc))), (''name'', PStr (ri_name (oc_repository oc)))]),
           (''snapshot'', pdict [(''role'', PStr (role_value (oc_role oc))), (''commit'', PStr (oc_commit oc))]),
           (''artifact'', pdict [(''path'', PStr (ac_path c)), (''kind'', PStr (artifact_kind_value (ac_kind c))),
                                 (''sha256'', PStr (ac_sha256 c)), (''size'', PInt (ac_size c))]),
           (''adapter'', pdict [(''id'', PStr adapter), (''version'', PStr version)]),
           (''selector'', PList (canonical_selector_material ms))])"

definition adapter_evidence_id ::
  "(nat list \<Rightarrow> string) \<Rightarrow> string \<Rightarrow> string \<Rightarrow> passive_artifact \<Rightarrow> field_mapping list \<Rightarrow> string" where
  "adapter_evidence_id sha adapter version a ms =
     ''evidence-v2-'' @ sha (canonical_bytes (evidence_material adapter version (pa_occurrence a) ms))"

text \<open>The mappings of a match by target, and in the order of their selectors.\<close>

type_synonym mapping_table = "(string \<times> field_mapping) list"

definition by_selector :: "mapping_table \<Rightarrow> field_mapping list" where
  "by_selector ms = sort_key (\<lambda>m. selector_text (fm_selector m)) (map snd ms)"

subsection \<open>Evidence\<close>

definition plain_observation :: "provenance \<Rightarrow> observation" where
  "plain_observation p =
     \<lparr>ob_provenance = p, ob_metric_name = None, ob_metric_value = None, ob_run_id = None, ob_seed = None,
      ob_role = ER_UNSPECIFIED, ob_config = [], ob_datasets = [], ob_compute = []\<rparr>"

definition extracted_evidence ::
  "(nat list \<Rightarrow> string) \<Rightarrow> string \<Rightarrow> passive_artifact \<Rightarrow> adapter_match \<Rightarrow> observation list \<Rightarrow> normalized_evidence extracted" where
  "extracted_evidence sha adapter a m obs =
     lifted (new_evidence \<lparr>ne_id = adapter_evidence_id sha adapter ''1'' a (am_mappings m), ne_artifact = candidate_of a,
       ne_match = m, ne_observations = obs, ne_scan = None, ne_trace = None\<rparr>)"

end
