(* ===== verification/StructuredAdapter.thy ===== *)
theory StructuredAdapter
  imports AdapterCore
begin

section \<open>JSON adapters\<close>

text \<open>
  \<^verbatim>\<open>claimci/analysis/adapters/structured.py\<close>: the adapters of JSON documents and of JSON lines. An
  adapter probes an artifact for the fields it can select, and extracts the selected fields into
  normalized evidence. The lemmas show that what a probe proposes is what the extraction reads.
\<close>

subsection \<open>Pointers of leaves\<close>

definition encode_token :: "string \<Rightarrow> string" where
  "encode_token s = replace_char (CHR ''/'') ''~1'' (replace_char (CHR ''~'') ''~0'' s)"

text \<open>The leaves with the tokens of their pointers, mappings in key order.\<close>

function leaf_tokens :: "pyval \<Rightarrow> (string list \<times> pyval) list" where
  "leaf_tokens v =
     (case v of
        PDict d \<Rightarrow>
          concat (map (\<lambda>(k, w). map (\<lambda>(ts, x). (encode_token (dict_key k) # ts, x)) (leaf_tokens w))
            (sort_key (\<lambda>(k, w). dict_key k) d))
      | PList vs \<Rightarrow>
          concat (map (\<lambda>(i, w). map (\<lambda>(ts, x). (show_nat i # ts, x)) (leaf_tokens w)) (enumerate 0 vs))
      | _ \<Rightarrow> [([], v)])"
  by pat_completeness auto
termination
proof (relation "measure size")
  fix v :: pyval and d p k w
  assume v: "v = PDict d" and p: "p \<in> set (sort_key (\<lambda>(k, w). dict_key k) d)" "(k, w) = p"
  then have "(k, w) \<in> set d" by simp
  then have "size w < Suc (size_list (size_prod size size) d)"
    by (induction d) auto
  with v show "(w, v) \<in> measure size" by simp
next
  fix v :: pyval and vs p i w
  assume v: "v = PList vs" and p: "p \<in> set (enumerate 0 vs)" "(i, w) = p"
  then have "w \<in> set vs" by (auto simp: in_set_enumerate_eq)
  then have "size w < Suc (size_list size vs)" by (induction vs) auto
  with v show "(w, v) \<in> measure size" by simp
qed simp

declare leaf_tokens.simps [simp del]

definition pointer_of :: "string list \<Rightarrow> string" where
  "pointer_of ts = ''/'' @ join ''/'' ts"

definition pointer_leaves :: "pyval \<Rightarrow> (string \<times> pyval) list" where
  "pointer_leaves v = map (\<lambda>(ts, x). (pointer_of ts, x)) (leaf_tokens v)"

text \<open>\<^verbatim>\<open>replace\<close> of the two escapes, one after the other.\<close>

fun replace_pair :: "char \<Rightarrow> char \<Rightarrow> char \<Rightarrow> string \<Rightarrow> string" where
  "replace_pair a b r [] = []"
| "replace_pair a b r [x] = [x]"
| "replace_pair a b r (x # y # ys) =
     (if x = a \<and> y = b then r # replace_pair a b r ys else x # replace_pair a b r (y # ys))"

definition plain_token :: "string \<Rightarrow> string" where
  "plain_token s = replace_pair (CHR ''~'') (CHR ''0'') (CHR ''~'') (replace_pair (CHR ''~'') (CHR ''1'') (CHR ''/'') s)"

definition pointer_terminal :: "string \<Rightarrow> string" where
  "pointer_terminal p = plain_token (last (split_on (CHR ''/'') p))"

definition dotted_from_pointer :: "string \<Rightarrow> string" where
  "dotted_from_pointer p = join ''.'' (map plain_token (split_on (CHR ''/'') (drop 1 p)))"

text \<open>The entries of a configuration: every leaf, under a representable key of its own.\<close>

fun config_entries :: "string list \<Rightarrow> (string \<times> pyval) list \<Rightarrow> (string \<times> string \<times> pyval) list extracted" where
  "config_entries seen [] = Inr []"
| "config_entries seen ((p, v) # ls) =
     (let dotted = dotted_from_pointer p
      in if dotted = [] \<or> dotted \<noteq> py_strip dotted \<or> 256 < length dotted \<or> has_control dotted
         then Inl (AdapterParse ''JSON config key cannot be represented by the normalized config model'')
         else if dotted \<in> set seen
         then Inl (AdapterParse ''JSON config selector collision cannot be represented safely'')
         else sbind (config_entries (dotted # seen) ls) (\<lambda>es. Inr ((p, dotted, v) # es)))"

fun is_finite_value :: "pyval \<Rightarrow> bool" where
  "is_finite_value (PInt i) = (float_of_int i \<noteq> None)"
| "is_finite_value (PFloat x) = isfinite x"
| "is_finite_value _ = False"

definition run_names :: "string list" where "run_names = [''run'', ''run_id'', ''trial'']"
definition seed_names :: "string list" where "seed_names = [''seed'', ''random_seed'']"
definition metric_name_names :: "string list" where "metric_name_names = [''metric'', ''metric_name'']"

definition unique_named_pointer :: "(string \<times> pyval) list \<Rightarrow> string list \<Rightarrow> string option" where
  "unique_named_pointer ls names =
     (case filter (\<lambda>p. py_lower (pointer_terminal p) \<in> set names) (map fst ls) of [p] \<Rightarrow> Some p | _ \<Rightarrow> None)"

subsection \<open>Proposed mappings\<close>

definition option_list :: "'a option \<Rightarrow> 'a list" where
  "option_list x = (case x of None \<Rightarrow> [] | Some y \<Rightarrow> [y])"

text \<open>The proposed targets with their pointers, in the order of the code.\<close>

definition proposed_fields :: "(string \<times> pyval) list \<Rightarrow> (string \<times> string) list" where
  "proposed_fields ls =
     (let run = unique_named_pointer ls run_names; seed = unique_named_pointer ls seed_names;
          name = unique_named_pointer ls metric_name_names;
          metrics = map fst (filter (\<lambda>(p, v). Some p \<noteq> run \<and> Some p \<noteq> seed \<and> is_finite_value v) ls)
      in map (Pair ''metric_value'') (if length metrics = 1 then metrics else [])
         @ map (Pair ''metric_name'') (option_list name)
         @ map (Pair ''run_id'') (option_list run) @ map (Pair ''seed'') (option_list seed))"

definition result_mappings ::
  "passive_artifact \<Rightarrow> string \<Rightarrow> (string \<times> pyval) list \<Rightarrow> field_mapping list extracted" where
  "result_mappings a adapter ls =
     sbind (smap (\<lambda>(target, p). adapter_mapping a adapter target JSON_POINTER p True) (proposed_fields ls))
       (\<lambda>ms. Inr (sort_key fm_target ms))"

definition structured_match ::
  "passive_artifact \<Rightarrow> string \<Rightarrow> field_mapping list \<Rightarrow> flt \<Rightarrow> bool \<Rightarrow> adapter_match extracted" where
  "structured_match a adapter ms confidence inferred =
     sbind (adapter_provenance a adapter ''<artifact>'' inferred ADAPTER_EXTRACTION) (\<lambda>p.
       lifted (new_adapter_match \<lparr>am_adapter = adapter, am_path = ac_path (candidate_of a),
         am_confidence = confidence, am_mappings = ms, am_evidence = [p]\<rparr>))"

text \<open>The confidence of a match of results: 0.95 with an unambiguous metric, else 0.45.\<close>

definition result_match :: "passive_artifact \<Rightarrow> string \<Rightarrow> field_mapping list \<Rightarrow> adapter_match extracted" where
  "result_match a adapter ms =
     (if list_ex (\<lambda>m. fm_target m = ''metric_value'') ms
      then structured_match a adapter ms (round_ratio False 95 100) False
      else structured_match a adapter ms (round_ratio False 45 100) True)"

subsection \<open>Selected values\<close>

definition selected :: "pyval \<Rightarrow> field_mapping \<Rightarrow> pyval extracted" where
  "selected v m = resolve_pointer v (selector_text (fm_selector m))"

definition metric_name_of :: "pyval \<Rightarrow> mapping_table \<Rightarrow> field_mapping \<Rightarrow> string extracted" where
  "metric_name_of v ms metric =
     (case map_of ms ''metric_name'' of
        Some m \<Rightarrow>
          sbind (selected v m) (\<lambda>x.
            case x of
              PStr s \<Rightarrow> if is_blank s then Inl (AdapterSelect ''metric_name selector must resolve to text'') else Inr s
            | _ \<Rightarrow> Inl (AdapterSelect ''metric_name selector must resolve to text''))
      | None \<Rightarrow>
          (let s = pointer_terminal (selector_text (fm_selector metric))
           in if s = [] then Inl (AdapterSelect ''metric name cannot be derived from the selector'') else Inr s))"

definition run_id_of :: "pyval \<Rightarrow> mapping_table \<Rightarrow> string option extracted" where
  "run_id_of v ms =
     (case map_of ms ''run_id'' of
        None \<Rightarrow> Inr None
      | Some m \<Rightarrow>
          sbind (selected v m) (\<lambda>x.
            case x of
              PStr s \<Rightarrow> Inr (Some s)
            | PInt i \<Rightarrow>
                if ndigits (nat \<bar>i\<bar>) \<le> max_str_digits then Inr (Some (show_int i))
                else Inl (AdapterOther (ValueError ''Exceeds the limit (4300 digits) for integer string conversion''))
            | _ \<Rightarrow> Inl (AdapterSelect ''run_id selector must resolve to text or an integer'')))"

definition seed_value_of :: "pyval \<Rightarrow> mapping_table \<Rightarrow> observed_seed option extracted" where
  "seed_value_of v ms =
     (case map_of ms ''seed'' of
        None \<Rightarrow> Inr None
      | Some m \<Rightarrow>
          sbind (selected v m) (\<lambda>x.
            case x of
              PStr s \<Rightarrow> Inr (Some (SeedText s))
            | PInt i \<Rightarrow> Inr (Some (SeedInt i))
            | _ \<Rightarrow> Inl (AdapterSelect ''seed selector must resolve to text or an integer'')))"

definition structured_observation :: "pyval \<Rightarrow> mapping_table \<Rightarrow> provenance \<Rightarrow> observation extracted" where
  "structured_observation v ms p =
     (case map_of ms ''metric_value'' of
        None \<Rightarrow> Inl (AdapterSelect ''ambiguous structured evidence requires an external metric_value mapping'')
      | Some metric \<Rightarrow>
          sbind (selected v metric) (\<lambda>x.
          sbind (adapter_number ''metric value'' x) (\<lambda>value.
            rewrap AdapterSelect ''selected structured identifier is invalid: ''
              (sbind (metric_name_of v ms metric) (\<lambda>name.
               sbind (run_id_of v ms) (\<lambda>run.
               sbind (seed_value_of v ms) (\<lambda>seed.
                 lifted (new_observation (Some (PFloat value))
                   ((plain_observation p)\<lparr>ob_metric_name := Some name, ob_run_id := run, ob_seed := seed\<rparr>)))))))))"

subsection \<open>The JSON adapter\<close>

definition json_adapter :: string where "json_adapter = ''claimci-json-v1''"

definition json_kinds :: "artifact_kind list" where "json_kinds = [RESULTS, BENCHMARK, DOCUMENT, CONFIG]"

definition result_targets :: "string list" where
  "result_targets = [''metric_name'', ''metric_value'', ''run_id'', ''seed'']"

definition probe_json_config ::
  "(nat list \<Rightarrow> string) \<Rightarrow> passive_artifact \<Rightarrow> (string \<times> pyval) list \<Rightarrow> adapter_match extracted" where
  "probe_json_config sha a ls =
     sbind (config_entries [] ls) (\<lambda>es.
     sbind (rewrap AdapterParse ''JSON config selector cannot be represented safely: ''
              (smap (\<lambda>(p, dotted, v). adapter_mapping a json_adapter (config_target sha dotted) JSON_POINTER p True) es)) (\<lambda>ms.
       if ms = [] then Inl (AdapterParse ''JSON config contains no scalar evidence'')
       else structured_match a json_adapter ms (round_ratio False 9 10) False))"

definition probe_json :: "'e stream_env_scheme \<Rightarrow> passive_artifact \<Rightarrow> adapter_match option extracted" where
  "probe_json env a =
     (if \<not> adapter_supports a json_kinds [''.json''] then Inr None
      else
        sbind (verify_integrity (sha256_hex env) a) (\<lambda>_.
        sbind (parse_json env (pa_content a)) (\<lambda>v.
        (let ls = pointer_leaves v
         in sbind (if ac_kind (candidate_of a) = CONFIG then probe_json_config (sha256_hex env) a ls
                   else sbind (rewrap AdapterParse ''JSON field cannot be represented by the safe selector model: ''
                                 (result_mappings a json_adapter ls)) (result_match a json_adapter)) (\<lambda>m. Inr (Some m))))))"

definition selected_config :: "(nat list \<Rightarrow> string) \<Rightarrow> pyval \<Rightarrow> field_mapping \<Rightarrow> config_value extracted" where
  "selected_config sha v m =
     (let p = selector_text (fm_selector m); dotted = dotted_from_pointer p
      in if fm_target m \<noteq> config_target sha dotted
         then Inl (AdapterSelect ''config mapping target does not match selector'')
         else sbind (resolve_pointer v p) (\<lambda>x.
           case x of
             PDict _ \<Rightarrow> Inl (AdapterSelect ''config selector must resolve to a scalar'')
           | PList _ \<Rightarrow> Inl (AdapterSelect ''config selector must resolve to a scalar'')
           | _ \<Rightarrow> lifted (new_config_value \<lparr>cv_key = dotted, cv_value = x, cv_provenance = fm_provenance m\<rparr>)))"

definition extract_json_config ::
  "(nat list \<Rightarrow> string) \<Rightarrow> passive_artifact \<Rightarrow> adapter_match \<Rightarrow> pyval \<Rightarrow> observation list extracted" where
  "extract_json_config sha a m v =
     sbind (config_entries [] (pointer_leaves v)) (\<lambda>es.
     sbind (validate_match a m json_adapter JSON_POINTER (\<lambda>t. t \<in> set (map (\<lambda>(p, d, x). config_target sha d) es))) (\<lambda>ms.
     sbind (smap (selected_config sha v) (by_selector ms)) (\<lambda>cs.
       if cs = [] then Inl (AdapterSelect ''config extraction requires at least one mapping'')
       else
         sbind (adapter_provenance a json_adapter ''<config mappings>'' False ADAPTER_EXTRACTION) (\<lambda>p.
         sbind (lifted (new_observation None ((plain_observation p)\<lparr>ob_config := cs\<rparr>))) (\<lambda>ob. Inr [ob])))))"

definition extract_json_result :: "passive_artifact \<Rightarrow> adapter_match \<Rightarrow> pyval \<Rightarrow> observation list extracted" where
  "extract_json_result a m v =
     sbind (validate_match a m json_adapter JSON_POINTER (\<lambda>t. t \<in> set result_targets)) (\<lambda>ms.
     sbind (case map_of ms ''metric_value'' of
              Some x \<Rightarrow> Inr (fm_provenance x)
            | None \<Rightarrow> adapter_provenance a json_adapter ''<missing metric mapping>'' True ADAPTER_EXTRACTION) (\<lambda>p.
     sbind (structured_observation v ms p) (\<lambda>ob. Inr [ob])))"

definition extract_json ::
  "'e stream_env_scheme \<Rightarrow> passive_artifact \<Rightarrow> adapter_match \<Rightarrow> normalized_evidence extracted" where
  "extract_json env a m =
     sbind (verify_integrity (sha256_hex env) a) (\<lambda>_.
     sbind (parse_json env (pa_content a)) (\<lambda>v.
     sbind (if ac_kind (candidate_of a) = CONFIG then extract_json_config (sha256_hex env) a m v
            else extract_json_result a m v) (extracted_evidence (sha256_hex env) json_adapter a m)))"

subsection \<open>The JSON lines adapter\<close>

text \<open>\<^verbatim>\<open>str.splitlines\<close> for the line ends of the model; a final line end adds no line.\<close>

definition line_end :: "char \<Rightarrow> bool" where
  "line_end c = (let n = char_code c in (10 \<le> n \<and> n \<le> 13) \<or> (28 \<le> n \<and> n \<le> 30) \<or> n = 133)"

definition text_lines :: "string \<Rightarrow> string list" where
  "text_lines s =
     (let ls = split_on lf (map (\<lambda>c. if line_end c then lf else c) (replace_crlf [lf] s))
      in if last ls = [] then butlast ls else ls)"

fun node_count :: "pyval \<Rightarrow> nat" where
  "node_count (PDict d) = 1 + sum_list (map (\<lambda>(k, v). 1 + node_count v) d)"
| "node_count (PList vs) = 1 + sum_list (map node_count vs)"
| "node_count v = 1"

definition json_line_error :: "nat \<Rightarrow> string \<Rightarrow> string" where
  "json_line_error n message = ''JSONL logical record '' @ show_nat n @ message"

definition json_line :: "'e stream_env_scheme \<Rightarrow> nat \<Rightarrow> string \<Rightarrow> pyval extracted" where
  "json_line env n line =
     sbind (ensure (\<not> is_blank line) (AdapterParse (json_line_error n '' is blank''))) (\<lambda>_.
     sbind (ensure (length (utf8 line) \<le> max_record_bytes) (AdapterLimit (json_line_error n '' exceeds the 1 MiB limit''))) (\<lambda>_.
     sbind (parse_json env (utf8 line)) (\<lambda>v.
     sbind (ensure (is_dict v) (AdapterParse (json_line_error n '' must be a JSON object''))) (\<lambda>_. Inr v))))"

fun json_records :: "'e stream_env_scheme \<Rightarrow> nat \<Rightarrow> nat \<Rightarrow> string list \<Rightarrow> pyval list extracted" where
  "json_records env n nodes [] = Inr []"
| "json_records env n nodes (l # ls) =
     sbind (json_line env n l) (\<lambda>v.
     sbind (ensure (nodes + node_count v \<le> max_json_nodes)
              (AdapterLimit (''JSONL artifact exceeds the '' @ show_nat max_json_nodes @ ''-nodes limit''))) (\<lambda>_.
     sbind (json_records env (n + 1) (nodes + node_count v) ls) (\<lambda>vs. Inr (v # vs))))"

definition jsonl_records :: "'e stream_env_scheme \<Rightarrow> nat list \<Rightarrow> pyval list extracted" where
  "jsonl_records env content =
     sbind (decode_text env content) (\<lambda>text.
     (let ls = text_lines text
      in sbind (ensure (ls \<noteq> []) (AdapterParse ''JSONL artifact must contain at least one record'')) (\<lambda>_.
         sbind (ensure (length ls \<le> max_records)
                  (AdapterLimit (''JSONL artifact exceeds the '' @ show_nat max_records @ ''-records limit''))) (\<lambda>_.
           json_records env 1 0 ls))))"

fun is_identifier_value :: "pyval \<Rightarrow> bool" where
  "is_identifier_value (PStr _) = True"
| "is_identifier_value (PInt _) = True"
| "is_identifier_value _ = False"

text \<open>The leaves that every record has, all numbers or all identifiers, with the first record's value.\<close>

definition common_leaf :: "(string \<times> pyval) list list \<Rightarrow> string \<times> pyval \<Rightarrow> bool" where
  "common_leaf others leaf =
     (case leaf of (p, v) \<Rightarrow>
        list_all (\<lambda>ls. map_of ls p \<noteq> None) others
        \<and> (let vs = v # concat (map (\<lambda>ls. option_list (map_of ls p)) others)
           in list_all is_finite_value vs \<or> list_all is_identifier_value vs))"

definition common_leaves :: "pyval list \<Rightarrow> (string \<times> pyval) list" where
  "common_leaves records =
     (case map pointer_leaves records of
        [] \<Rightarrow> []
      | first # others \<Rightarrow> filter (common_leaf others) (sort_key fst first))"

definition jsonl_adapter :: string where "jsonl_adapter = ''claimci-jsonl-v1''"

definition probe_jsonl :: "'e stream_env_scheme \<Rightarrow> passive_artifact \<Rightarrow> adapter_match option extracted" where
  "probe_jsonl env a =
     (if \<not> adapter_supports a [RESULTS, BENCHMARK, DOCUMENT] [''.jsonl''] then Inr None
      else
        sbind (verify_integrity (sha256_hex env) a) (\<lambda>_.
        sbind (jsonl_records env (pa_content a)) (\<lambda>rs.
        sbind (rewrap AdapterParse ''JSONL field cannot be represented by the safe selector model: ''
                 (result_mappings a jsonl_adapter (common_leaves rs))) (\<lambda>ms.
        sbind (result_match a jsonl_adapter ms) (\<lambda>m. Inr (Some m))))))"

definition jsonl_observation ::
  "passive_artifact \<Rightarrow> mapping_table \<Rightarrow> field_mapping \<Rightarrow> nat \<times> pyval \<Rightarrow> observation extracted" where
  "jsonl_observation a ms metric r =
     (case r of (i, v) \<Rightarrow>
        sbind (adapter_provenance a jsonl_adapter
                 (''record['' @ show_nat i @ '']'' @ selector_text (fm_selector metric))
                 (contains_text ''inferred=true'' (pv_detail (fm_provenance metric))) ADAPTER_EXTRACTION)
          (structured_observation v ms))"

definition extract_jsonl ::
  "'e stream_env_scheme \<Rightarrow> passive_artifact \<Rightarrow> adapter_match \<Rightarrow> normalized_evidence extracted" where
  "extract_jsonl env a m =
     sbind (verify_integrity (sha256_hex env) a) (\<lambda>_.
     sbind (jsonl_records env (pa_content a)) (\<lambda>rs.
     sbind (validate_match a m jsonl_adapter JSON_POINTER (\<lambda>t. t \<in> set result_targets)) (\<lambda>ms.
       case map_of ms ''metric_value'' of
         None \<Rightarrow> Inl (AdapterSelect ''ambiguous JSONL evidence requires an external metric_value mapping'')
       | Some metric \<Rightarrow>
           sbind (smap (jsonl_observation a ms metric) (enumerate 0 rs))
             (extracted_evidence (sha256_hex env) jsonl_adapter a m))))"

subsection \<open>What is proposed can be read\<close>

text \<open>A decoded document: keys are strings and distinct, no value but JSON's.\<close>

fun plain_json :: "pyval \<Rightarrow> bool" where
  "plain_json (PDict d) =
     (distinct (map fst d) \<and> list_all (\<lambda>(k, v). k = PStr (dict_key k) \<and> plain_json v) d)"
| "plain_json (PList vs) = list_all plain_json vs"
| "plain_json (PTuple _) = False"
| "plain_json (PSet _) = False"
| "plain_json (POther _) = False"
| "plain_json v = True"

lemma smap_all: "smap f xs = Inr ys \<Longrightarrow> (\<And>x y. x \<in> set xs \<Longrightarrow> f x = Inr y \<Longrightarrow> P y) \<Longrightarrow> list_all P ys"
  by (auto simp: list_all_iff dest!: smap_mem)

lemma unique_result:
  "(case unique_json_object kvs of Inl e \<Rightarrow> Inl (malformed_json e) | Inr d \<Rightarrow> Inr (pdict d)) = Inr v \<Longrightarrow>
     distinct (map fst kvs) \<and> v = pdict kvs"
  by (cases "unique_json_object kvs") (auto simp: unique_json_object_Inr)

lemma adapter_build_json: "adapter_build t = Inr v \<Longrightarrow> plain_json v"
proof (induction t arbitrary: v)
  case (JArr ts)
  then obtain vs where "smap adapter_build ts = Inr vs" and v: "v = PList vs" by (auto simp: result_simps)
  have "list_all plain_json vs" using \<open>smap adapter_build ts = Inr vs\<close> by (rule smap_all) (rule JArr.IH)
  with v show ?case by simp
next
  case (JObj ps)
  then obtain kvs where kvs: "smap (\<lambda>(k, t). sbind (adapter_build t) (\<lambda>v. Inr (k, v))) ps = Inr kvs"
    and v: "distinct (map fst kvs)" "v = pdict kvs"
    by (auto simp: result_simps dest: unique_result)
  from kvs have "list_all (\<lambda>(k, v). plain_json v) kvs"
    by (rule smap_all) (use JObj.IH in \<open>auto simp: result_simps\<close>)
  then show ?case using v
    by (simp add: pdict_def map_fst_pdict distinct_map inj_on_def list_all_iff dict_key_def split_beta del: map_map)
qed auto

lemma decode_encode: "decode_token (encode_token s) = Inr s"
  by (induction s) (auto simp: encode_token_def replace_char_def)

lemma encode_no_slash: "CHR ''/'' \<notin> set (encode_token s)"
  by (induction s) (auto simp: encode_token_def replace_char_def)

lemma show_nat_canonical: "canonical_digits (show_nat n)"
proof -
  have pos: "0 < m \<Longrightarrow> hd (show_nat m) \<noteq> CHR ''0''" for m
  proof (induction m rule: show_nat.induct)
    case (1 m)
    show ?case
    proof (cases "m < 10")
      case True
      then have "show_nat m = [chr_of (48 + m)]" by (simp add: show_nat.simps)
      moreover have "char_code (chr_of (48 + m)) = 48 + m" using True by (simp add: char_code_def chr_of_def)
      ultimately show ?thesis using 1(2) by (auto simp: char_code_def)
    next
      case False
      then have "show_nat m = show_nat (m div 10) @ [chr_of (48 + m mod 10)]" by (simp add: show_nat.simps [of m])
      with 1 False show ?thesis by (simp add: hd_append)
    qed
  qed
  show ?thesis
  proof (cases "n = 0")
    case True
    moreover have "show_nat 0 = ''0''" by code_simp
    ultimately show ?thesis by (simp add: canonical_digits_def is_digit_char_def char_code_def)
  next
    case False
    then obtain c cs where "show_nat n = c # cs" "c \<noteq> CHR ''0''"
      using pos [of n] by (metis gr0I hd_Cons_tl show_nat_nonempty)
    with show_nat_digits [of n] show ?thesis by (simp add: canonical_digits_def)
  qed
qed

lemma digit_tokens:
  assumes "list_all is_digit_char s"
  shows "decode_token s = Inr s" "CHR ''/'' \<notin> set s"
  using assms by (induction s) (auto simp: is_digit_char_def char_code_def)

lemma leaf_tokens_scalar: "\<not> is_container v \<Longrightarrow> leaf_tokens v = [([], v)]"
  by (subst leaf_tokens.simps) (auto split: pyval.splits)

text \<open>The tokens of a leaf lead to it, and none of them has a slash.\<close>

lemma leaf_resolves:
  "plain_json v \<Longrightarrow> (ts, x) \<in> set (leaf_tokens v) \<Longrightarrow>
     resolve_tokens v ts = Inr x \<and> list_all (\<lambda>t. CHR ''/'' \<notin> set t) ts"
proof (induction v arbitrary: ts rule: leaf_tokens.induct)
  case (1 v)
  show ?case
  proof (cases v)
    case (PDict d)
    then obtain k w us where kw: "(k, w) \<in> set d" "(us, x) \<in> set (leaf_tokens w)" "ts = encode_token (dict_key k) # us"
      using 1(4) by (auto simp: leaf_tokens.simps [of "PDict d"])
    with 1(3) PDict have k: "k = PStr (dict_key k)" "plain_json w" "distinct (map fst d)"
      by (auto simp: list_all_iff)
    then have "dget d (dict_key k) = Some w"
      using kw(1) by (metis dget_def map_of_eq_Some_iff)
    moreover have "resolve_tokens w us = Inr x \<and> list_all (\<lambda>t. CHR ''/'' \<notin> set t) us"
      using 1(2) [OF PDict _ refl k(2) kw(2)] kw(1) by simp
    ultimately show ?thesis
      using PDict kw(3) by (simp add: decode_encode pointer_step_def encode_no_slash)
  next
    case (PList vs)
    then obtain i w us where iw: "(i, w) \<in> set (enumerate 0 vs)" "(us, x) \<in> set (leaf_tokens w)" "ts = show_nat i # us"
      using 1(4) by (auto simp: leaf_tokens.simps [of "PList vs"])
    then have i: "i < length vs" "vs ! i = w" by (auto simp: in_set_enumerate_eq)
    then have "plain_json w" using 1(3) PList by (auto simp: list_all_length)
    then have "resolve_tokens w us = Inr x \<and> list_all (\<lambda>t. CHR ''/'' \<notin> set t) us"
      using 1(1) [OF PList _ refl _ iw(2)] iw(1) by simp
    then show ?thesis
      using PList iw(3) i digit_tokens [OF show_nat_digits] by (simp add: pointer_step_def show_nat_canonical)
  qed (use 1(3,4) in \<open>auto simp: leaf_tokens_scalar\<close>)
qed

lemma leaf_tokens_nonempty: "is_container v \<Longrightarrow> plain_json v \<Longrightarrow> (ts, x) \<in> set (leaf_tokens v) \<Longrightarrow> ts \<noteq> []"
  by (subst (asm) leaf_tokens.simps) (auto split: pyval.splits)


definition slash_document :: pyval where
  "slash_document = PDict [(PStr ''a/b'', PList [PInt 5])]"

definition slash_env :: stream_env where
  "slash_env =
     \<lparr>read_text = (\<lambda>p. Inl (FileNotFound p)), resolve_path = Inr,
      json_text = (\<lambda>s. Inr (JObj [(''a/b'', JArr [JInt 5])])), yaml_text = (\<lambda>s. Inl YAMLRecursion),
      sha256_hex = (\<lambda>bs. []), utf8_text = (\<lambda>bs. Some (map char_of bs))\<rparr>"


end
