(* ===== verification/ConfigAdapter.thy ===== *)
theory ConfigAdapter
  imports AdapterCore
begin

section \<open>Configuration and dataset adapters\<close>

text \<open>
  \<^verbatim>\<open>claimci/analysis/adapters/config.py\<close> and \<^verbatim>\<open>claimci/analysis/adapters/dataset.py\<close>: YAML and TOML
  configurations, read as dotted scalars, and JSON lines datasets, of which only the identity is
  bound. The loader of YAML is the one of the audit; the decoder of TOML is a parameter.
\<close>

subsection \<open>Parsing\<close>

text \<open>A TOML text is refused with the error of the decoder or with another \<^verbatim>\<open>ValueError\<close> or \<^verbatim>\<open>RecursionError\<close>.\<close>

datatype toml_failure = TOMLDecode string | TOMLOther string

record adapter_env = stream_env +
  toml_text :: "string \<Rightarrow> toml_failure + pyval"

definition root_path :: string where "root_path = ''<root>''"

text \<open>Sequences, sets and values that are no JSON scalars are refused; mappings are searched in their order.\<close>

fun config_values_ok :: "string \<Rightarrow> pyval \<Rightarrow> unit extracted" where
  "config_values_ok path (PDict d) =
     each_extracted id (map (\<lambda>(k, v). config_values_ok
       (if path = root_path then key_text k else path @ ''.'' @ key_text k) v) d)"
| "config_values_ok path (PList _) = Inl (AdapterParse (''config sequence or array at '' @ str_repr path @ '' is not supported in v1''))"
| "config_values_ok path (PTuple _) = Inl (AdapterParse (''config sequence or array at '' @ str_repr path @ '' is not supported in v1''))"
| "config_values_ok path (PSet _) = Inl (AdapterParse (''config sequence or array at '' @ str_repr path @ '' is not supported in v1''))"
| "config_values_ok path (POther _) = Inl (AdapterParse (''config value at '' @ str_repr path @ '' is not a supported JSON scalar''))"
| "config_values_ok path _ = Inr ()"

definition parse_yaml :: "'e stream_env_scheme \<Rightarrow> nat list \<Rightarrow> pyval extracted" where
  "parse_yaml env content =
     sbind (decode_text env content) (\<lambda>text.
     sbind (case load_unique_yaml (yaml_text env) text of
              Inr v \<Rightarrow> Inr v
            | Inl (YAMLValueError e) \<Rightarrow> Inl (AdapterOther (ValueError e))
            | Inl e \<Rightarrow> Inl (AdapterParse (''malformed or unsafe YAML artifact: '' @ yaml_failure_text e))) (\<lambda>v.
     sbind (adapter_graph v) (\<lambda>_.
     sbind (ensure (is_dict v) (AdapterParse ''YAML config root must be a mapping'')) (\<lambda>_.
     sbind (config_values_ok root_path v) (\<lambda>_. Inr v)))))"

definition parse_toml :: "'e adapter_env_scheme \<Rightarrow> nat list \<Rightarrow> pyval extracted" where
  "parse_toml env content =
     sbind (decode_text env content) (\<lambda>text.
     sbind (case toml_text env text of
              Inr v \<Rightarrow> Inr v
            | Inl (TOMLDecode e) \<Rightarrow> Inl (AdapterParse (''malformed TOML artifact: '' @ e))
            | Inl (TOMLOther e) \<Rightarrow> Inl (AdapterOther (ValueError e))) (\<lambda>v.
     sbind (adapter_graph v) (\<lambda>_.
     sbind (config_values_ok root_path v) (\<lambda>_. Inr v))))"

text \<open>An adapter reports the remaining failures of its parser as its own.\<close>

definition parse_failure :: "string \<Rightarrow> 'a extracted \<Rightarrow> 'a extracted" where
  "parse_failure prefix r =
     (case r of
        Inl (AdapterOther e) \<Rightarrow> Inl (AdapterParse (prefix @ error_text e))
      | _ \<Rightarrow> r)"

subsection \<open>The adapters of configurations\<close>

record config_format =
  cf_adapter :: string
  cf_suffixes :: "string list"
  cf_parse :: "nat list \<Rightarrow> pyval extracted"

definition yaml_format :: "'e stream_env_scheme \<Rightarrow> config_format" where
  "yaml_format env =
     \<lparr>cf_adapter = ''claimci-yaml-config-v1'', cf_suffixes = [''.yaml'', ''.yml''],
      cf_parse = parse_failure ''malformed YAML config: '' \<circ> parse_yaml env\<rparr>"

definition toml_format :: "'e adapter_env_scheme \<Rightarrow> config_format" where
  "toml_format env =
     \<lparr>cf_adapter = ''claimci-toml-config-v1'', cf_suffixes = [''.toml''],
      cf_parse = parse_failure ''malformed TOML config: '' \<circ> parse_toml env\<rparr>"

definition leaf_mappings ::
  "(nat list \<Rightarrow> string) \<Rightarrow> passive_artifact \<Rightarrow> string \<Rightarrow> (string \<times> pyval) list \<Rightarrow> field_mapping list extracted" where
  "leaf_mappings sha a adapter leaves =
     smap (\<lambda>(selector, v). adapter_mapping a adapter (config_target sha selector) DOTTED_PATH selector True) leaves"

text \<open>The match of a probe: one mapping per leaf, less sure when something cannot be named.\<close>

definition adapter_match_of ::
  "passive_artifact \<Rightarrow> string \<Rightarrow> string \<Rightarrow> flt \<Rightarrow> bool \<Rightarrow> field_mapping list \<Rightarrow> adapter_match option extracted" where
  "adapter_match_of a adapter selector confidence inferred ms =
     sbind (adapter_provenance a adapter selector inferred ADAPTER_EXTRACTION) (\<lambda>p.
     sbind (lifted (new_adapter_match
              \<lparr>am_adapter = adapter, am_path = ac_path (candidate_of a), am_confidence = confidence,
               am_mappings = ms, am_evidence = [p]\<rparr>)) (\<lambda>m. Inr (Some m)))"

definition probe_config ::
  "(nat list \<Rightarrow> string) \<Rightarrow> config_format \<Rightarrow> passive_artifact \<Rightarrow> adapter_match option extracted" where
  "probe_config sha f a =
     (if \<not> adapter_supports a [CONFIG] (cf_suffixes f) then Inr None
      else
        sbind (verify_integrity sha a) (\<lambda>_.
        sbind (cf_parse f (pa_content a)) (\<lambda>v.
        case scalar_leaves v of (leaves, unsupported) \<Rightarrow>
          sbind (ensure (leaves \<noteq> [])
                   (AdapterParse ''config has no safely representable dotted-path scalar mapping'')) (\<lambda>_.
          sbind (leaf_mappings sha a (cf_adapter f) leaves) (\<lambda>ms.
            adapter_match_of a (cf_adapter f) ''<config structure>''
              (if unsupported = [] then round_ratio False 95 100 else round_ratio False 7 10) (unsupported \<noteq> []) ms)))))"

definition is_scalar_value :: "pyval \<Rightarrow> bool" where
  "is_scalar_value v = (case v of PDict _ \<Rightarrow> False | PList _ \<Rightarrow> False | PTuple _ \<Rightarrow> False | PSet _ \<Rightarrow> False | POther _ \<Rightarrow> False | _ \<Rightarrow> True)"

definition selected_dotted ::
  "(nat list \<Rightarrow> string) \<Rightarrow> string \<Rightarrow> string \<Rightarrow> (pyval \<Rightarrow> bool) \<Rightarrow> pyval \<Rightarrow> field_mapping \<Rightarrow> config_value extracted" where
  "selected_dotted sha target_message scalar_message scalar v m =
     (let selector = selector_text (fm_selector m)
      in sbind (ensure (fm_target m = config_target sha selector) (AdapterSelect target_message)) (\<lambda>_.
         sbind (resolve_dotted v selector) (\<lambda>x.
         sbind (ensure (scalar x) (AdapterSelect scalar_message)) (\<lambda>_.
           lifted (new_config_value \<lparr>cv_key = selector, cv_value = x, cv_provenance = fm_provenance m\<rparr>)))))"

definition config_targets :: "(nat list \<Rightarrow> string) \<Rightarrow> pyval \<Rightarrow> string list" where
  "config_targets sha v = map (\<lambda>(selector, x). config_target sha selector) (fst (scalar_leaves v))"

definition extract_config ::
  "(nat list \<Rightarrow> string) \<Rightarrow> config_format \<Rightarrow> passive_artifact \<Rightarrow> adapter_match \<Rightarrow> normalized_evidence extracted" where
  "extract_config sha f a m =
     sbind (verify_integrity sha a) (\<lambda>_.
     sbind (cf_parse f (pa_content a)) (\<lambda>v.
     sbind (validate_match a m (cf_adapter f) DOTTED_PATH (\<lambda>t. t \<in> set (config_targets sha v))) (\<lambda>ms.
     sbind (smap (selected_dotted sha ''config mapping target does not match its dotted selector''
                    ''config selector must resolve to a scalar'' is_scalar_value v) (by_selector ms)) (\<lambda>cs.
     sbind (ensure (cs \<noteq> []) (AdapterSelect ''config extraction requires a validated mapping'')) (\<lambda>_.
     sbind (adapter_provenance a (cf_adapter f) ''<selected config mappings>'' False ADAPTER_EXTRACTION) (\<lambda>p.
     sbind (lifted (new_observation None ((plain_observation p)\<lparr>ob_config := cs\<rparr>))) (\<lambda>ob.
       extracted_evidence sha (cf_adapter f) a m [ob])))))))"

subsection \<open>The dataset adapter\<close>

definition dataset_adapter :: string where "dataset_adapter = ''claimci-jsonl-dataset-v1''"

definition whole_dataset :: string where "whole_dataset = ''<whole passive dataset artifact>''"

definition probe_dataset :: "(nat list \<Rightarrow> string) \<Rightarrow> passive_artifact \<Rightarrow> adapter_match option extracted" where
  "probe_dataset sha a =
     (if \<not> adapter_supports a [DATASET] [''.jsonl''] then Inr None
      else
        sbind (verify_integrity sha a) (\<lambda>_.
          adapter_match_of a dataset_adapter whole_dataset (round_ratio False 99 100) False []))"

definition extract_dataset ::
  "(nat list \<Rightarrow> string) \<Rightarrow> passive_artifact \<Rightarrow> adapter_match \<Rightarrow> normalized_evidence extracted" where
  "extract_dataset sha a m =
     sbind (verify_integrity sha a) (\<lambda>_.
     sbind (validate_match a m dataset_adapter DOTTED_PATH (\<lambda>t. False)) (\<lambda>_.
     sbind (adapter_provenance a dataset_adapter whole_dataset False ADAPTER_EXTRACTION) (\<lambda>p.
     sbind (lifted (new_dataset_reference
              \<lparr>dr_path = ac_path (candidate_of a), dr_split = None, dr_provenance = p\<rparr>)) (\<lambda>d.
     sbind (lifted (new_observation None ((plain_observation p)\<lparr>ob_datasets := [d]\<rparr>))) (\<lambda>ob.
       extracted_evidence sha dataset_adapter a m [ob])))))"

end
