(* ===== verification/NativeAdapter.thy ===== *)
theory NativeAdapter
  imports StructuredAdapter ConfigAdapter
begin

section \<open>Native adapters\<close>

text \<open>
  \<^verbatim>\<open>claimci/analysis/adapters/native.py\<close>: the adapters of the program's own formats: the research
  manifest, whose declarations become hints, the results with their runs and summary, and the
  configurations with the inputs of the compute comparison.
\<close>

subsection \<open>The research manifest\<close>

definition native_manifest :: string where "native_manifest = ''claimci-native-manifest-v1''"

definition manifest_paths :: "string list" where
  "manifest_paths =
     [''baseline.config'', ''baseline.results'', ''baseline.train_dataset'', ''baseline.eval_dataset'',
      ''candidate.config'', ''candidate.results'', ''candidate.train_dataset'', ''candidate.eval_dataset'']"

definition manifest_hint :: "passive_artifact \<Rightarrow> string \<Rightarrow> provenance extracted" where
  "manifest_hint a selector = adapter_provenance a native_manifest selector False MANIFEST_HINT"

definition manifest_mapping :: "passive_artifact \<Rightarrow> string \<Rightarrow> field_mapping extracted" where
  "manifest_mapping a selector =
     sbind (manifest_hint a selector) (\<lambda>p.
     sbind (lifted (new_selector \<lparr>es_kind = DOTTED_PATH, es_expression = selector, es_provenance = p\<rparr>)) (\<lambda>s.
       lifted (new_field_mapping \<lparr>fm_target = selector, fm_selector = FieldSelector s, fm_provenance = p\<rparr>)))"

definition manifest_value :: "pyval \<Rightarrow> string \<Rightarrow> pyval extracted" where
  "manifest_value doc selector =
     (case resolve_dotted doc selector of
        Inl (AdapterSelect _) \<Rightarrow> Inl (AdapterParse (''native research manifest is missing '' @ str_repr selector))
      | r \<Rightarrow> r)"

definition is_drive :: "string \<Rightarrow> bool" where
  "is_drive s =
     (case s of
        c # d # _ \<Rightarrow> d = CHR '':'' \<and> (let n = char_code c in (65 \<le> n \<and> n \<le> 90) \<or> (97 \<le> n \<and> n \<le> 122))
      | _ \<Rightarrow> False)"

text \<open>One segment of a declared path on the stack of the segments so far, the innermost last.\<close>

fun path_segments :: "string list \<Rightarrow> string list \<Rightarrow> string list extracted" where
  "path_segments stack [] = Inr stack"
| "path_segments stack (s # ss) =
     (if s = [] then Inl (AdapterParse ''manifest artifact path is not canonical'')
      else if s = ''.'' then path_segments stack ss
      else if s = ''..'' then
        (if stack = [] then Inl (AdapterParse ''manifest artifact path would escape repository'')
         else path_segments (butlast stack) ss)
      else case new_repository_path s of
             Inl _ \<Rightarrow> Inl (AdapterParse ''manifest artifact path is not portable'')
           | Inr _ \<Rightarrow> path_segments (stack @ [s]) ss)"

definition resolve_manifest_path :: "string \<Rightarrow> pyval \<Rightarrow> string extracted" where
  "resolve_manifest_path manifest v =
     (case v of
        PStr d \<Rightarrow>
          if d = [] \<or> d \<noteq> py_strip d
          then Inl (AdapterParse ''manifest artifact path must be non-empty portable text'')
          else if bslash \<in> set d \<or> has_control d \<or> is_absolute d \<or> is_drive d
          then Inl (AdapterParse ''manifest artifact path must be portable and relative'')
          else
            sbind (path_segments (butlast (split_on (CHR ''/'') manifest)) (split_on (CHR ''/'') d)) (\<lambda>stack.
              if stack = [] then Inl (AdapterParse ''manifest artifact path must resolve to a repository file'')
              else case new_repository_path (join ''/'' stack) of
                     Inl _ \<Rightarrow> Inl (AdapterParse ''manifest artifact path is not repository-confined'')
                   | Inr p \<Rightarrow> Inr p)
      | _ \<Rightarrow> Inl (AdapterParse ''manifest artifact path must be non-empty portable text''))"

text \<open>The direction of the claim, when it has one; a mapping cannot be looked up in a set.\<close>

definition claim_direction :: "pyval \<Rightarrow> pyval option" where
  "claim_direction doc =
     (case doc of
        PDict d \<Rightarrow> (case dget d ''claim'' of Some (PDict c) \<Rightarrow> dget c ''direction'' | _ \<Rightarrow> None)
      | _ \<Rightarrow> None)"

definition direction_ok :: "pyval option \<Rightarrow> unit extracted" where
  "direction_ok v =
     (case v of
        None \<Rightarrow> Inr ()
      | Some (PDict _) \<Rightarrow> Inl (AdapterOther (TypeError (''unhashable type: '' @ squote @ ''dict'' @ squote)))
      | Some x \<Rightarrow> ensure (x = PStr ''higher'' \<or> x = PStr ''lower'')
                   (AdapterParse ''manifest claim.direction must be higher or lower''))"

definition is_text :: "pyval \<Rightarrow> bool" where
  "is_text v = (case v of PStr _ \<Rightarrow> True | _ \<Rightarrow> False)"

definition parse_manifest :: "'e stream_env_scheme \<Rightarrow> nat list \<Rightarrow> pyval extracted" where
  "parse_manifest env content =
     sbind (parse_yaml env content) (\<lambda>doc.
     sbind (manifest_value doc ''claim.metric'') (\<lambda>metric.
     sbind (manifest_value doc ''claim.minimum_improvement'') (\<lambda>minimum.
     sbind (ensure (case metric of PStr s \<Rightarrow> \<not> is_blank s | _ \<Rightarrow> False)
              (AdapterParse ''manifest claim.metric must be non-empty text'')) (\<lambda>_.
     sbind (adapter_number ''manifest claim.minimum_improvement'' minimum) (\<lambda>x.
     sbind (ensure (\<not> flt_lt x fzero) (AdapterParse ''manifest claim.minimum_improvement must be non-negative'')) (\<lambda>_.
     sbind (each_extracted (\<lambda>s. sbind (manifest_value doc s) (\<lambda>v.
              ensure (is_text v) (AdapterParse (''manifest '' @ s @ '' must be a path string'')))) manifest_paths) (\<lambda>_.
     sbind (direction_ok (claim_direction doc)) (\<lambda>_. Inr doc))))))))"

definition manifest_selectors :: "pyval \<Rightarrow> string list" where
  "manifest_selectors doc =
     [''claim.metric'', ''claim.minimum_improvement'']
     @ (if claim_direction doc \<noteq> None then [''claim.direction''] else []) @ manifest_paths"

definition manifest_names :: "string list" where "manifest_names = [''research.yaml'', ''research.yml'']"

definition probe_manifest :: "'e stream_env_scheme \<Rightarrow> passive_artifact \<Rightarrow> adapter_match option extracted" where
  "probe_manifest env a =
     (if \<not> adapter_supports a [MANIFEST] [''.yaml'', ''.yml'']
         \<or> py_lower (path_name (ac_path (candidate_of a))) \<notin> set manifest_names
      then Inr None
      else
        sbind (verify_integrity (sha256_hex env) a) (\<lambda>_.
        sbind (parse_manifest env (pa_content a)) (\<lambda>doc.
        sbind (each_extracted (\<lambda>s. sbind (manifest_value doc s) (\<lambda>v.
                 sbind (resolve_manifest_path (ac_path (candidate_of a)) v) (\<lambda>_. Inr ()))) manifest_paths) (\<lambda>_.
        sbind (smap (manifest_mapping a) (manifest_selectors doc)) (\<lambda>ms.
        sbind (manifest_hint a ''<manifest structure>'') (\<lambda>p.
        sbind (lifted (new_adapter_match
                 \<lparr>am_adapter = native_manifest, am_path = ac_path (candidate_of a), am_confidence = round_ratio False 1 1,
                  am_mappings = ms, am_evidence = [p]\<rparr>)) (\<lambda>m. Inr (Some m))))))))"

definition hinted_config :: "passive_artifact \<Rightarrow> string \<Rightarrow> string \<Rightarrow> pyval \<Rightarrow> config_value extracted" where
  "hinted_config a key selector v =
     sbind (manifest_hint a selector) (\<lambda>p.
       lifted (new_config_value \<lparr>cv_key = key, cv_value = v, cv_provenance = p\<rparr>))"

definition hinted_dataset :: "passive_artifact \<Rightarrow> string \<Rightarrow> string \<Rightarrow> string \<Rightarrow> dataset_reference extracted" where
  "hinted_dataset a path split selector =
     sbind (manifest_hint a selector) (\<lambda>p.
       lifted (new_dataset_reference \<lparr>dr_path = path, dr_split = Some split, dr_provenance = p\<rparr>))"

definition declared_path :: "passive_artifact \<Rightarrow> pyval \<Rightarrow> string \<Rightarrow> string \<Rightarrow> string extracted" where
  "declared_path a doc name field =
     sbind (manifest_value doc (name @ ''.'' @ field)) (resolve_manifest_path (ac_path (candidate_of a)))"

definition experiment_observation ::
  "passive_artifact \<Rightarrow> pyval \<Rightarrow> string \<Rightarrow> experiment_role \<Rightarrow> observation extracted" where
  "experiment_observation a doc name role =
     sbind (declared_path a doc name ''config'') (\<lambda>config.
     sbind (declared_path a doc name ''results'') (\<lambda>results.
     sbind (declared_path a doc name ''train_dataset'') (\<lambda>train.
     sbind (declared_path a doc name ''eval_dataset'') (\<lambda>eval.
     sbind (manifest_hint a name) (\<lambda>p.
     sbind (hinted_config a ''config'' (name @ ''.config'') (PStr config)) (\<lambda>c.
     sbind (hinted_config a ''results'' (name @ ''.results'') (PStr results)) (\<lambda>r.
     sbind (hinted_dataset a train ''train'' (name @ ''.train_dataset'')) (\<lambda>t.
     sbind (hinted_dataset a eval ''eval'' (name @ ''.eval_dataset'')) (\<lambda>e.
       lifted (new_observation None
         ((plain_observation p)\<lparr>ob_role := role, ob_config := [c, r], ob_datasets := [t, e]\<rparr>)))))))))))"

definition claim_values :: "passive_artifact \<Rightarrow> pyval \<Rightarrow> config_value list extracted" where
  "claim_values a doc =
     sbind (manifest_value doc ''claim.metric'') (\<lambda>metric.
     sbind (hinted_config a ''claim.metric'' ''claim.metric'' metric) (\<lambda>c1.
     sbind (manifest_value doc ''claim.minimum_improvement'') (\<lambda>minimum.
     sbind (adapter_number ''manifest claim.minimum_improvement'' minimum) (\<lambda>x.
     sbind (hinted_config a ''claim.minimum_improvement'' ''claim.minimum_improvement'' (PFloat x)) (\<lambda>c2.
       if claim_direction doc = None then Inr [c1, c2]
       else sbind (manifest_value doc ''claim.direction'') (\<lambda>v.
            sbind (hinted_config a ''claim.direction'' ''claim.direction'' v) (\<lambda>c3. Inr [c1, c2, c3])))))))"

text \<open>The mappings of a manifest are exactly its declared fields, each selecting itself.\<close>

definition exact_mappings :: "string list \<Rightarrow> mapping_table \<Rightarrow> bool" where
  "exact_mappings selectors ms \<longleftrightarrow>
     set (map (\<lambda>(target, m). (target, selector_text (fm_selector m))) ms) = set (map (\<lambda>s. (s, s)) selectors)"

definition extract_manifest ::
  "'e stream_env_scheme \<Rightarrow> passive_artifact \<Rightarrow> adapter_match \<Rightarrow> normalized_evidence extracted" where
  "extract_manifest env a m =
     sbind (verify_integrity (sha256_hex env) a) (\<lambda>_.
     sbind (parse_manifest env (pa_content a)) (\<lambda>doc.
     sbind (validate_match a m native_manifest DOTTED_PATH (\<lambda>t. t \<in> set (manifest_selectors doc))) (\<lambda>ms.
     sbind (ensure (exact_mappings (manifest_selectors doc) ms)
              (AdapterSelect ''native manifest extraction requires its exact declared field mappings'')) (\<lambda>_.
     sbind (claim_values a doc) (\<lambda>cs.
     sbind (manifest_hint a ''claim'') (\<lambda>p.
     sbind (lifted (new_observation None ((plain_observation p)\<lparr>ob_config := cs\<rparr>))) (\<lambda>claim.
     sbind (experiment_observation a doc ''baseline'' ER_BASELINE) (\<lambda>b.
     sbind (experiment_observation a doc ''candidate'' ER_CANDIDATE) (\<lambda>c.
       extracted_evidence (sha256_hex env) native_manifest a m [claim, b, c])))))))))"

subsection \<open>Native results\<close>

definition native_results :: string where "native_results = ''claimci-native-results-v1''"

definition run_size_ok :: "nat \<Rightarrow> pyval \<Rightarrow> unit extracted" where
  "run_size_ok i v =
     (case json_dumps json_escape v of
        Inl e \<Rightarrow> Inl (AdapterOther (ValueError e))
      | Inr text \<Rightarrow>
          ensure (length (utf8 text) \<le> max_record_bytes)
            (AdapterLimit (''native results run '' @ show_nat i @ '' exceeds the 1 MiB logical record limit'')))"

definition native_run :: "nat \<times> pyval \<Rightarrow> unit extracted" where
  "native_run r =
     (case r of (i, v) \<Rightarrow>
        sbind (ensure (is_dict v) (AdapterParse (''native results run '' @ show_nat i @ '' must be an object''))) (\<lambda>_.
          run_size_ok i v))"

text \<open>The runs and the items of the summary, or nothing when the document has no runs.\<close>

type_synonym native_document = "pyval list \<times> (pyval \<times> pyval) list"

definition native_summary :: "pyval option \<Rightarrow> (pyval \<times> pyval) list extracted" where
  "native_summary v =
     (case v of
        None \<Rightarrow> Inr []
      | Some PNone \<Rightarrow> Inr []
      | Some (PDict d) \<Rightarrow> Inr d
      | _ \<Rightarrow> Inl (AdapterParse ''native results summary must be an object''))"

definition parse_native_results :: "'e stream_env_scheme \<Rightarrow> nat list \<Rightarrow> native_document option extracted" where
  "parse_native_results env content =
     sbind (parse_json env content) (\<lambda>v.
       case v of
         PDict d \<Rightarrow>
           (case dget d ''runs'' of
              None \<Rightarrow> Inr None
            | Some (PList runs) \<Rightarrow>
                sbind (ensure (runs \<noteq> []) (AdapterParse ''native results runs must be a non-empty array'')) (\<lambda>_.
                sbind (ensure (length runs \<le> max_records)
                         (AdapterLimit (''native results exceed the '' @ show_nat max_records @ ''-records limit''))) (\<lambda>_.
                sbind (each_extracted native_run (enumerate 0 runs)) (\<lambda>_.
                sbind (native_summary (dget d ''summary'')) (\<lambda>s. Inr (Some (runs, s))))))
            | Some _ \<Rightarrow> Inl (AdapterParse ''native results runs must be a non-empty array''))
       | _ \<Rightarrow> Inr None)"

definition probe_native_results :: "'e stream_env_scheme \<Rightarrow> passive_artifact \<Rightarrow> adapter_match option extracted" where
  "probe_native_results env a =
     (if \<not> adapter_supports a [RESULTS] [''.json''] then Inr None
      else
        sbind (verify_integrity (sha256_hex env) a) (\<lambda>_.
        sbind (parse_native_results env (pa_content a)) (\<lambda>parsed.
          case parsed of
            None \<Rightarrow> Inr None
          | Some (runs, s) \<Rightarrow>
              sbind (result_mappings a native_results (common_leaves runs)) (\<lambda>ms.
              (let unambiguous = list_ex (\<lambda>m. fm_target m = ''metric_value'') ms
               in adapter_match_of a native_results ''/runs/*''
                    (if unambiguous then round_ratio False 99 100 else round_ratio False 1 2) (\<not> unambiguous) ms)))))"

definition run_observation ::
  "passive_artifact \<Rightarrow> mapping_table \<Rightarrow> field_mapping \<Rightarrow> nat \<times> pyval \<Rightarrow> observation extracted" where
  "run_observation a ms metric r =
     (case r of (i, v) \<Rightarrow>
        sbind (adapter_provenance a native_results (''record['' @ show_nat i @ '']'' @ selector_text (fm_selector metric))
                 (contains_text ''inferred=true'' (pv_detail (fm_provenance metric))) ADAPTER_EXTRACTION)
          (structured_observation v ms))"

definition summary_config :: "passive_artifact \<Rightarrow> string \<times> pyval \<Rightarrow> config_value extracted" where
  "summary_config a leaf =
     (case leaf of (p, v) \<Rightarrow>
        sbind (adapter_provenance a native_results (''/summary'' @ p) False ADAPTER_EXTRACTION) (\<lambda>q.
          lifted (new_config_value \<lparr>cv_key = ''summary.'' @ dotted_from_pointer p, cv_value = v, cv_provenance = q\<rparr>)))"

definition summary_observations :: "passive_artifact \<Rightarrow> (pyval \<times> pyval) list \<Rightarrow> observation list extracted" where
  "summary_observations a s =
     sbind (rewrap AdapterParse ''native results summary cannot be normalized safely: ''
              (smap (summary_config a) (pointer_leaves (PDict s)))) (\<lambda>cs.
       if cs = [] then Inr []
       else
         sbind (adapter_provenance a native_results ''/summary'' False ADAPTER_EXTRACTION) (\<lambda>p.
         sbind (lifted (new_observation None ((plain_observation p)\<lparr>ob_config := cs\<rparr>))) (\<lambda>ob. Inr [ob])))"

definition extract_native_results ::
  "'e stream_env_scheme \<Rightarrow> passive_artifact \<Rightarrow> adapter_match \<Rightarrow> normalized_evidence extracted" where
  "extract_native_results env a m =
     sbind (verify_integrity (sha256_hex env) a) (\<lambda>_.
     sbind (parse_native_results env (pa_content a)) (\<lambda>parsed.
       case parsed of
         None \<Rightarrow> Inl (AdapterParse ''artifact does not contain native ClaimCI results'')
       | Some (runs, s) \<Rightarrow>
           sbind (validate_match a m native_results JSON_POINTER (\<lambda>t. t \<in> set result_targets)) (\<lambda>ms.
             case map_of ms ''metric_value'' of
               None \<Rightarrow> Inl (AdapterSelect ''ambiguous native results require an external metric_value mapping'')
             | Some metric \<Rightarrow>
                 sbind (smap (run_observation a ms metric) (enumerate 0 runs)) (\<lambda>obs.
                 sbind (summary_observations a s) (\<lambda>extra.
                   extracted_evidence (sha256_hex env) native_results a m (obs @ extra))))))"

subsection \<open>Native configurations\<close>

definition native_config :: string where "native_config = ''claimci-native-config-v1''"

definition compute_inputs :: "string list" where "compute_inputs = [''training_steps'', ''epochs'', ''batch_size'']"

definition has_compute_inputs :: "pyval \<Rightarrow> bool" where
  "has_compute_inputs v = (case v of PDict d \<Rightarrow> list_all (\<lambda>k. dget d k \<noteq> None) compute_inputs | _ \<Rightarrow> False)"

definition probe_native_config :: "'e stream_env_scheme \<Rightarrow> passive_artifact \<Rightarrow> adapter_match option extracted" where
  "probe_native_config env a =
     (if \<not> adapter_supports a [CONFIG] [''.yaml'', ''.yml''] then Inr None
      else
        sbind (verify_integrity (sha256_hex env) a) (\<lambda>_.
        sbind (parse_yaml env (pa_content a)) (\<lambda>v.
          if \<not> has_compute_inputs v then Inr None
          else case scalar_leaves v of (leaves, unsupported) \<Rightarrow>
            sbind (leaf_mappings (sha256_hex env) a native_config leaves) (\<lambda>ms.
            sbind (ensure (ms \<noteq> []) (AdapterParse ''native config has no representable scalar values'')) (\<lambda>_.
              adapter_match_of a native_config ''<native config structure>''
                (if unsupported = [] then round_ratio False 98 100 else round_ratio False 3 4) (unsupported \<noteq> []) ms)))))"

definition is_compute_number :: "pyval \<Rightarrow> bool" where
  "is_compute_number v = (case v of PInt _ \<Rightarrow> True | PFloat _ \<Rightarrow> True | _ \<Rightarrow> False)"

definition config_compute :: "field_mapping \<Rightarrow> config_value \<Rightarrow> compute_evidence list extracted" where
  "config_compute m c =
     (if cv_key c \<in> set compute_inputs \<and> is_compute_number (cv_value c)
      then sbind (adapter_number (''native config '' @ cv_key c) (cv_value c)) (\<lambda>x.
           sbind (lifted (new_compute_evidence (PFloat x)
                    \<lparr>ce_name = cv_key c, ce_value = x, ce_unit = None, ce_provenance = fm_provenance m\<rparr>)) (\<lambda>e. Inr [e]))
      else Inr [])"

definition not_container :: "pyval \<Rightarrow> bool" where
  "not_container v = (case v of PDict _ \<Rightarrow> False | PList _ \<Rightarrow> False | _ \<Rightarrow> True)"

definition native_field ::
  "(nat list \<Rightarrow> string) \<Rightarrow> pyval \<Rightarrow> field_mapping \<Rightarrow> (config_value \<times> compute_evidence list) extracted" where
  "native_field sha v m =
     sbind (selected_dotted sha ''native config mapping target does not match selector''
              ''native config selector must resolve to scalar'' not_container v m) (\<lambda>c.
     sbind (config_compute m c) (\<lambda>es. Inr (c, es)))"

definition extract_native_config ::
  "'e stream_env_scheme \<Rightarrow> passive_artifact \<Rightarrow> adapter_match \<Rightarrow> normalized_evidence extracted" where
  "extract_native_config env a m =
     sbind (verify_integrity (sha256_hex env) a) (\<lambda>_.
     sbind (parse_yaml env (pa_content a)) (\<lambda>v.
     sbind (ensure (has_compute_inputs v) (AdapterParse ''artifact does not contain native ClaimCI config'')) (\<lambda>_.
     sbind (validate_match a m native_config DOTTED_PATH (\<lambda>t. t \<in> set (config_targets (sha256_hex env) v))) (\<lambda>ms.
     sbind (smap (native_field (sha256_hex env) v) (by_selector ms)) (\<lambda>fs.
     sbind (ensure (fs \<noteq> []) (AdapterSelect ''native config extraction requires mappings'')) (\<lambda>_.
     sbind (adapter_provenance a native_config ''<selected native config mappings>'' False ADAPTER_EXTRACTION) (\<lambda>p.
     sbind (lifted (new_observation None
              ((plain_observation p)\<lparr>ob_config := map fst fs, ob_compute := concat (map snd fs)\<rparr>))) (\<lambda>ob.
       extracted_evidence (sha256_hex env) native_config a m [ob]))))))))"

end
