(* ===== verification/TableAdapter.thy ===== *)
theory TableAdapter
  imports AdapterCore
begin

section \<open>Table adapters\<close>

text \<open>
  \<^verbatim>\<open>claimci/analysis/adapters/tabular.py\<close>: the adapters of comma- and tab-separated values. The reader
  of the standard library is modelled as the state machine it is, for the strict dialects
  \<^verbatim>\<open>excel\<close> and \<^verbatim>\<open>excel-tab\<close>; on it rest the bounded table, the typed row selectors and the extraction
  of observations. The lemmas connect the selectors with the disjointness proof of the mappings.
\<close>

subsection \<open>The reader of delimited text\<close>

datatype csv_mode = START_RECORD | START_FIELD | IN_FIELD | IN_QUOTED | QUOTE_IN_QUOTED | EAT_CRNL

record csv_parser =
  cp_mode :: csv_mode
  cp_field :: string
  cp_fields :: "string list"

definition csv_start :: csv_parser where
  "csv_start = \<lparr>cp_mode = START_RECORD, cp_field = [], cp_fields = []\<rparr>"

text \<open>The field ends, and the next state of the machine.\<close>

definition csv_save :: "csv_mode \<Rightarrow> csv_parser \<Rightarrow> csv_parser" where
  "csv_save mode p = \<lparr>cp_mode = mode, cp_field = [], cp_fields = cp_fields p @ [cp_field p]\<rparr>"

definition csv_add :: "csv_mode \<Rightarrow> char \<Rightarrow> csv_parser \<Rightarrow> string + csv_parser" where
  "csv_add mode c p =
     (if max_record_bytes \<le> length (cp_field p)
      then Inl (''field larger than field limit ('' @ show_nat max_record_bytes @ '')'')
      else Inr (p\<lparr>cp_mode := mode, cp_field := cp_field p @ [c]\<rparr>))"

text \<open>A character, or the end of a line, which is \<open>None\<close>. A line end finishes the record.\<close>

definition line_over :: "char option \<Rightarrow> bool" where
  "line_over c \<longleftrightarrow> c = None \<or> c = Some lf \<or> c = Some cr"

definition after_record :: "char option \<Rightarrow> csv_mode" where
  "after_record c = (if c = None then START_RECORD else EAT_CRNL)"

definition field_start :: "char \<Rightarrow> char option \<Rightarrow> csv_parser \<Rightarrow> string + csv_parser" where
  "field_start delim c p =
     (if line_over c then Inr (csv_save (after_record c) p)
      else if c = Some dquote then Inr (p\<lparr>cp_mode := IN_QUOTED\<rparr>)
      else if c = Some delim then Inr (csv_save START_FIELD p)
      else csv_add IN_FIELD (the c) p)"

definition csv_char :: "char \<Rightarrow> csv_parser \<Rightarrow> char option \<Rightarrow> string + csv_parser" where
  "csv_char delim p c =
     (case cp_mode p of
        START_RECORD \<Rightarrow>
          if c = None then Inr p
          else if line_over c then Inr (p\<lparr>cp_mode := EAT_CRNL\<rparr>)
          else field_start delim c p
      | START_FIELD \<Rightarrow> field_start delim c p
      | IN_FIELD \<Rightarrow>
          if line_over c then Inr (csv_save (after_record c) p)
          else if c = Some delim then Inr (csv_save START_FIELD p)
          else csv_add IN_FIELD (the c) p
      | IN_QUOTED \<Rightarrow>
          if c = None then Inr p
          else if c = Some dquote then Inr (p\<lparr>cp_mode := QUOTE_IN_QUOTED\<rparr>)
          else csv_add IN_QUOTED (the c) p
      | QUOTE_IN_QUOTED \<Rightarrow>
          if c = Some dquote then csv_add IN_QUOTED dquote p
          else if c = Some delim then Inr (csv_save START_FIELD p)
          else if line_over c then Inr (csv_save (after_record c) p)
          else Inl (squote @ [delim] @ squote @ '' expected after '' @ squote @ [dquote] @ squote)
      | EAT_CRNL \<Rightarrow>
          if c = None then Inr (p\<lparr>cp_mode := START_RECORD\<rparr>)
          else if line_over c then Inr p
          else Inl (''new-line character seen in unquoted field - do you need to open the file with newline='' @ squote @ squote @ ''?''))"

fun csv_chars :: "char \<Rightarrow> csv_parser \<Rightarrow> char option list \<Rightarrow> string + csv_parser" where
  "csv_chars delim p [] = Inr p"
| "csv_chars delim p (c # cs) = sbind (csv_char delim p c) (\<lambda>q. csv_chars delim q cs)"

text \<open>One record from the lines that are left: its fields and the lines after it.\<close>

fun csv_next :: "char \<Rightarrow> csv_parser \<Rightarrow> string list \<Rightarrow> string + (string list \<times> string list) option" where
  "csv_next delim p [] =
     (if cp_field p \<noteq> [] \<or> cp_mode p = IN_QUOTED then Inl ''unexpected end of data'' else Inr None)"
| "csv_next delim p (l # ls) =
     sbind (csv_chars delim p (map Some l @ [None])) (\<lambda>q.
       if cp_mode q = START_RECORD then Inr (Some (cp_fields q, ls)) else csv_next delim q ls)"

text \<open>The lines of \<^verbatim>\<open>io.StringIO(text, newline="")\<close>, with their ends.\<close>

fun physical_lines :: "string \<Rightarrow> string \<Rightarrow> string list" where
  "physical_lines acc [] = (if acc = [] then [] else [acc])"
| "physical_lines acc [c] = [acc @ [c]]"
| "physical_lines acc (c # d # cs) =
     (if c = lf then (acc @ [c]) # physical_lines [] (d # cs)
      else if c = cr then
        (if d = lf then (acc @ [c, d]) # physical_lines [] cs else (acc @ [c]) # physical_lines [] (d # cs))
      else physical_lines (acc @ [c]) (d # cs))"

subsection \<open>Bounded tables\<close>

type_synonym table = "string list \<times> string list list"

definition logical_record_size :: "string list \<Rightarrow> nat" where
  "logical_record_size row = sum_list (map (\<lambda>f. length (utf8 f)) row) + (length row - 1)"

definition csv_failure :: "string \<Rightarrow> string + 'a \<Rightarrow> 'a extracted" where
  "csv_failure label r =
     (case r of Inl e \<Rightarrow> Inl (AdapterParse (''malformed '' @ label @ '' artifact: '' @ e)) | Inr x \<Rightarrow> Inr x)"

definition header_ok :: "string \<Rightarrow> string list \<Rightarrow> unit extracted" where
  "header_ok label header =
     sbind (ensure (logical_record_size header \<le> max_record_bytes)
              (AdapterLimit (label @ '' header exceeds the 1 MiB logical record limit''))) (\<lambda>_.
     sbind (ensure (length header \<le> max_table_columns)
              (AdapterLimit (label @ '' artifact exceeds the '' @ show_nat max_table_columns @ ''-columns limit''))) (\<lambda>_.
     sbind (ensure (header \<noteq> [] \<and> [] \<notin> set header) (AdapterParse (label @ '' artifact contains an empty header''))) (\<lambda>_.
     sbind (ensure (distinct header) (AdapterParse (label @ '' artifact contains a duplicate header''))) (\<lambda>_.
       ensure (list_all column_name_ok header) (AdapterParse (label @ '' artifact contains an unsupported header''))))))"

definition row_ok :: "string \<Rightarrow> nat \<Rightarrow> nat \<Rightarrow> string list \<Rightarrow> unit extracted" where
  "row_ok label columns n row =
     sbind (ensure (n < max_records)
              (AdapterLimit (label @ '' artifact exceeds the '' @ show_nat max_records @ ''-records limit''))) (\<lambda>_.
     sbind (ensure (logical_record_size row \<le> max_record_bytes)
              (AdapterLimit (label @ '' logical record exceeds the 1 MiB limit''))) (\<lambda>_.
       ensure (length row = columns) (AdapterParse (label @ '' row field count does not match header columns''))))"

lemma csv_next_shorter: "csv_next delim p ls = Inr (Some (row, rest)) \<Longrightarrow> length rest < length ls"
  by (induction ls arbitrary: p) (auto simp: result_simps less_SucI split: if_splits)

text \<open>The rows after the header, \<open>n\<close> of them read before.\<close>

function table_rows :: "char \<Rightarrow> string \<Rightarrow> nat \<Rightarrow> nat \<Rightarrow> string list \<Rightarrow> string list list extracted" where
  "table_rows delim label columns n ls =
     (case csv_failure label (csv_next delim csv_start ls) of
        Inl e \<Rightarrow> Inl e
      | Inr None \<Rightarrow> Inr []
      | Inr (Some (row, rest)) \<Rightarrow>
          sbind (row_ok label columns n row) (\<lambda>_.
          sbind (table_rows delim label columns (n + 1) rest) (\<lambda>rows. Inr (row # rows))))"
  by pat_completeness auto
termination
  by (relation "measure (\<lambda>(delim, label, columns, n, ls). length ls)")
    (auto simp: csv_failure_def dest: csv_next_shorter split: sum.splits)

definition parse_delimited :: "'e stream_env_scheme \<Rightarrow> char \<Rightarrow> string \<Rightarrow> nat list \<Rightarrow> table extracted" where
  "parse_delimited env delim label content =
     (case utf8_text env content of
        None \<Rightarrow> Inl (AdapterParse (label @ '' artifact must contain valid UTF-8''))
      | Some text \<Rightarrow>
          sbind (ensure (CHR 0x00 \<notin> set text) (AdapterParse (label @ '' artifact contains NUL''))) (\<lambda>_.
          sbind (csv_failure label (csv_next delim csv_start (physical_lines [] text))) (\<lambda>r.
            case r of
              None \<Rightarrow> Inl (AdapterParse (label @ '' artifact must contain a header''))
            | Some (header, rest) \<Rightarrow>
                sbind (header_ok label header) (\<lambda>_.
                sbind (table_rows delim label (length header) 0 rest) (\<lambda>rows.
                sbind (ensure (rows \<noteq> [])
                         (AdapterParse (label @ '' artifact must contain at least one data record''))) (\<lambda>_.
                  Inr (header, rows)))))))"

subsection \<open>Numbers\<close>

text \<open>Where \<^verbatim>\<open>float\<close> allows underscores: between two digits.\<close>

fun underscores_ok :: "bool \<Rightarrow> string \<Rightarrow> bool" where
  "underscores_ok digit [] = True"
| "underscores_ok digit (c # cs) =
     (if c = CHR ''_'' then digit \<and> cs \<noteq> [] \<and> is_digit_char (hd cs) \<and> underscores_ok False cs
      else underscores_ok (is_digit_char c) cs)"

text \<open>\<^verbatim>\<open>float\<close> of a text, for the finite results; the nearest float to the decimal it denotes.\<close>

definition unsigned_float :: "bool \<Rightarrow> string \<Rightarrow> flt option" where
  "unsigned_float neg s =
     (let whole = takeWhile is_digit_char s
      in case split_point (dropWhile is_digit_char s) of (tail, rest) \<Rightarrow>
           if whole @ tail = [] then None
           else case exponent_text rest of
                  None \<Rightarrow> None
                | Some e \<Rightarrow>
                    (let m = digits_val (whole @ tail); k = e - int (length tail);
                         x = round_ratio neg (m * 10 ^ nat k) (10 ^ nat (- k))
                     in if isfinite x then Some x else None))"

definition float_of_text :: "string \<Rightarrow> flt option" where
  "float_of_text s =
     (if underscores_ok False s
      then case signed_text (filter (\<lambda>c. c \<noteq> CHR ''_'') s) of (neg, t) \<Rightarrow> unsigned_float neg t
      else None)"

definition finite_csv_number :: "string \<Rightarrow> string \<Rightarrow> flt extracted" where
  "finite_csv_number label v =
     (case float_of_text (py_strip v) of
        Some x \<Rightarrow> Inr x
      | None \<Rightarrow> Inl (AdapterParse (label @ '' must be a finite number'')))"

definition numeric_column :: "string list list \<Rightarrow> nat \<Rightarrow> bool" where
  "numeric_column rows i = list_all (\<lambda>row. float_of_text (py_strip (row ! i)) \<noteq> None) rows"

definition integer_text :: "string \<Rightarrow> bool" where
  "integer_text s = canonical_digits (case s of c # cs \<Rightarrow> if c = CHR ''-'' then cs else s | [] \<Rightarrow> [])"

text \<open>\<^verbatim>\<open>int\<close> of such a text, which fails beyond the digits the interpreter converts.\<close>

definition int_of_text :: "string \<Rightarrow> int extracted" where
  "int_of_text s =
     (case signed_text s of (neg, ds) \<Rightarrow>
        if max_str_digits < length ds
        then Inl (AdapterOther (ValueError
               (''Exceeds the limit ('' @ show_nat max_str_digits @ '' digits) for integer string conversion: value has ''
                @ show_nat (length ds) @ '' digits; use sys.set_int_max_str_digits() to increase the limit'')))
        else Inr (if neg then - int (digits_val ds) else int (digits_val ds)))"

subsection \<open>Generated mappings\<close>

definition unique_named_header :: "string list \<Rightarrow> string list \<Rightarrow> string option" where
  "unique_named_header header names =
     (case filter (\<lambda>h. py_lower h \<in> set names) header of [h] \<Rightarrow> Some h | _ \<Rightarrow> None)"

definition table_run_names :: "string list" where "table_run_names = [''run'', ''run_id'', ''trial'']"
definition table_seed_names :: "string list" where "table_seed_names = [''seed'', ''random_seed'']"

definition chosen_columns :: "string list \<Rightarrow> bool list \<Rightarrow> (string \<times> string) list" where
  "chosen_columns header numeric =
     (let run = unique_named_header header table_run_names; seed = unique_named_header header table_seed_names;
          metrics = map fst (filter (\<lambda>(h, b). Some h \<noteq> run \<and> Some h \<noteq> seed \<and> b) (zip header numeric))
      in sort_key fst
           ((case metrics of [m] \<Rightarrow> [(''metric_value'', m)] | _ \<Rightarrow> [])
            @ (case run of Some h \<Rightarrow> [(''run_id'', h)] | None \<Rightarrow> [])
            @ (case seed of Some h \<Rightarrow> [(''seed'', h)] | None \<Rightarrow> [])))"

definition mappings_from_numeric ::
  "passive_artifact \<Rightarrow> string \<Rightarrow> string list \<Rightarrow> bool list \<Rightarrow> field_mapping list extracted" where
  "mappings_from_numeric a adapter header numeric =
     sbind (ensure (length numeric = length header)
              (AdapterOther (AnalysisContractError ''numeric column state must match the delimited header''))) (\<lambda>_.
       smap (\<lambda>(target, column). adapter_mapping a adapter target COLUMN column True) (chosen_columns header numeric))"

definition table_mappings :: "passive_artifact \<Rightarrow> string \<Rightarrow> table \<Rightarrow> field_mapping list extracted" where
  "table_mappings a adapter t =
     (case t of (header, rows) \<Rightarrow>
        mappings_from_numeric a adapter header (map (numeric_column rows) [0..<length header]))"

subsection \<open>Selected rows\<close>

definition column_index :: "string list \<Rightarrow> string \<Rightarrow> nat option" where
  "column_index header column = map_of (zip header [0..<length header]) column"

text \<open>A null never matches, it is refused; so is a cell that is not of the type of the predicate.\<close>

definition cell_matches :: "string \<Rightarrow> table_predicate \<Rightarrow> bool extracted" where
  "cell_matches cell p =
     (case tp_value p of
        TV_STRING s \<Rightarrow> Inr (cell = s)
      | TV_BOOL b \<Rightarrow>
          if cell \<noteq> ''true'' \<and> cell \<noteq> ''false''
          then Inl (AdapterSelect (''table predicate column '' @ str_repr (tp_column p) @ '' is not a strict boolean''))
          else Inr (cell = boolean_text b)
      | TV_NULL \<Rightarrow> Inl (AdapterSelect ''CSV/TSV tables have no schema-backed null representation'')
      | v \<Rightarrow>
          if \<not> table_number_ok cell
          then Inl (AdapterSelect (''table predicate column '' @ str_repr (tp_column p) @ '' is not a strict number''))
          else (case (decimal_of_text cell, decimal_of_text (canonical_text v)) of
                  (Some d, Some e) \<Rightarrow> Inr (dec_eq d e)
                | _ \<Rightarrow> Inl (AdapterSelect ''table predicate number is malformed'')))"

text \<open>The predicates of a row, up to the first that does not match.\<close>

fun row_matches :: "string list \<Rightarrow> string list \<Rightarrow> table_predicate list \<Rightarrow> bool extracted" where
  "row_matches header row [] = Inr True"
| "row_matches header row (p # ps) =
     sbind (cell_matches (row ! the (column_index header (tp_column p))) p) (\<lambda>b.
       if b then row_matches header row ps else Inr False)"

fun matching_rows :: "string list \<Rightarrow> table_predicate list \<Rightarrow> (nat \<times> string list) list \<Rightarrow> nat list extracted" where
  "matching_rows header ps [] = Inr []"
| "matching_rows header ps ((i, row) # rows) =
     sbind (row_matches header row ps) (\<lambda>b.
     sbind (matching_rows header ps rows) (\<lambda>is. Inr (if b then i # is else is)))"

fun predicate_columns_ok :: "string list \<Rightarrow> table_predicate list \<Rightarrow> unit extracted" where
  "predicate_columns_ok header [] = Inr ()"
| "predicate_columns_ok header (p # ps) =
     sbind (ensure (tp_column p \<in> set header)
              (AdapterSelect (''table predicate column '' @ str_repr (tp_column p) @ '' is not in the header''))) (\<lambda>_.
       predicate_columns_ok header ps)"

definition selected_rows :: "table \<Rightarrow> table_selector \<Rightarrow> nat list extracted" where
  "selected_rows t s =
     (case t of (header, rows) \<Rightarrow>
        sbind (ensure (ts_column s \<in> set header)
                 (AdapterSelect (''table target column '' @ str_repr (ts_column s) @ '' is not in the header''))) (\<lambda>_.
        sbind (predicate_columns_ok header (ts_predicates s)) (\<lambda>_.
        sbind (matching_rows header (ts_predicates s) (enumerate 0 rows)) (\<lambda>is.
        sbind (ensure (int (length is) = ts_cardinality s)
                 (AdapterSelect (''table selector matched '' @ show_nat (length is) @ '' rows; expected exactly ''
                    @ show_int (ts_cardinality s)))) (\<lambda>_. Inr is)))))"

subsection \<open>Canonical matches\<close>

definition is_table_selector :: "field_mapping \<Rightarrow> bool" where
  "is_table_selector m = (case fm_selector m of TableSelector _ \<Rightarrow> True | FieldSelector _ \<Rightarrow> False)"

definition selector_digest :: "(nat list \<Rightarrow> string) \<Rightarrow> selector \<Rightarrow> string extracted" where
  "selector_digest sha s =
     (case json_dumps json_escape_ascii (PList (selector_identity s)) of
        Inl e \<Rightarrow> Inl (AdapterOther (ValueError e))
      | Inr text \<Rightarrow> Inr (take 16 (sha (utf8 text))))"

definition canonical_mapping ::
  "(nat list \<Rightarrow> string) \<Rightarrow> passive_artifact \<Rightarrow> string \<Rightarrow> field_mapping \<Rightarrow> field_mapping extracted" where
  "canonical_mapping sha a adapter m =
     (case fm_selector m of
        FieldSelector _ \<Rightarrow> Inr m
      | TableSelector t \<Rightarrow>
          sbind (selector_digest sha (TableSelector t)) (\<lambda>d.
          sbind (adapter_provenance a adapter (''table:'' @ d) False ADAPTER_EXTRACTION) (\<lambda>p.
          sbind (lifted (new_table_selector (t\<lparr>ts_provenance := p\<rparr>))) (\<lambda>t'.
            lifted (new_field_mapping \<lparr>fm_target = fm_target m, fm_selector = TableSelector t', fm_provenance = p\<rparr>)))))"

definition canonical_table_match ::
  "(nat list \<Rightarrow> string) \<Rightarrow> passive_artifact \<Rightarrow> adapter_match \<Rightarrow> adapter_match extracted" where
  "canonical_table_match sha a m =
     (if \<not> list_ex is_table_selector (am_mappings m) then Inr m
      else
        sbind (smap (canonical_mapping sha a (am_adapter m)) (am_mappings m)) (\<lambda>ms.
        sbind (adapter_provenance a (am_adapter m) ''<validated table selection>'' False ADAPTER_EXTRACTION) (\<lambda>p.
          lifted (new_adapter_match (m\<lparr>am_mappings := ms, am_evidence := [p]\<rparr>)))))"

subsection \<open>The adapters\<close>

record table_format =
  tf_adapter :: string
  tf_suffix :: string
  tf_label :: string
  tf_delimiter :: char

definition csv_format :: table_format where
  "csv_format = \<lparr>tf_adapter = ''claimci-csv-v1'', tf_suffix = ''.csv'', tf_label = ''CSV'', tf_delimiter = CHR '',''\<rparr>"

definition tsv_format :: table_format where
  "tsv_format = \<lparr>tf_adapter = ''claimci-tsv-v1'', tf_suffix = ''.tsv'', tf_label = ''TSV'', tf_delimiter = CHR 0x09\<rparr>"

definition table_kinds :: "artifact_kind list" where "table_kinds = [RESULTS, BENCHMARK, DOCUMENT]"

definition table_targets :: "string list" where
  "table_targets = [''metric_value'', ''run_id'', ''seed''] @ benchmark_fields"

definition probe_table ::
  "'e stream_env_scheme \<Rightarrow> table_format \<Rightarrow> passive_artifact \<Rightarrow> adapter_match option extracted" where
  "probe_table env f a =
     (if \<not> adapter_supports a table_kinds [tf_suffix f] then Inr None
      else
        sbind (verify_integrity (sha256_hex env) a) (\<lambda>_.
        sbind (parse_delimited env (tf_delimiter f) (tf_label f) (pa_content a)) (\<lambda>t.
        sbind (table_mappings a (tf_adapter f) t) (\<lambda>ms.
        (let unambiguous = list_ex (\<lambda>m. fm_target m = ''metric_value'') ms
         in sbind (adapter_provenance a (tf_adapter f) (''<'' @ tf_label f @ '' header>'') (\<not> unambiguous) ADAPTER_EXTRACTION) (\<lambda>p.
            sbind (lifted (new_adapter_match
                     \<lparr>am_adapter = tf_adapter f, am_path = ac_path (candidate_of a),
                      am_confidence = round_ratio False (if unambiguous then 95 else 45) 100,
                      am_mappings = ms, am_evidence = [p]\<rparr>)) (\<lambda>m. Inr (Some m))))))))"

text \<open>Values of predicates are compared as Python compares them.\<close>

fun table_value_eq :: "table_value \<Rightarrow> table_value \<Rightarrow> bool" where
  "table_value_eq (TV_INT i) (TV_FLOAT x) = int_flt_eq i x"
| "table_value_eq (TV_FLOAT x) (TV_INT i) = int_flt_eq i x"
| "table_value_eq (TV_FLOAT x) (TV_FLOAT y) = flt_eq x y"
| "table_value_eq u v = (u = v)"

definition same_predicates :: "table_predicate list \<Rightarrow> table_predicate list \<Rightarrow> bool" where
  "same_predicates ps qs =
     list_all2 (\<lambda>p q. tp_column p = tp_column q \<and> table_value_eq (tp_value p) (tp_value q)) ps qs"

definition same_rows :: "table_selector \<Rightarrow> field_mapping \<Rightarrow> bool" where
  "same_rows s m =
     (case fm_selector m of
        TableSelector t \<Rightarrow>
          same_predicates (ts_predicates t) (ts_predicates s) \<and> ts_cardinality t = ts_cardinality s
      | FieldSelector _ \<Rightarrow> False)"

text \<open>What the extraction requires of the mappings, and the rows it then reads.\<close>

definition mapped_columns_ok :: "string \<Rightarrow> string list \<Rightarrow> field_mapping \<Rightarrow> unit extracted" where
  "mapped_columns_ok label header m =
     ensure (is_table_selector m \<or> selector_text (fm_selector m) \<in> set header)
       (AdapterSelect (''mapped '' @ label @ '' column '' @ str_repr (selector_text (fm_selector m)) @ '' is not in the header''))"

definition rows_to_read :: "string \<Rightarrow> table \<Rightarrow> mapping_table \<Rightarrow> field_mapping \<Rightarrow> nat list extracted" where
  "rows_to_read label t ms metric =
     (let profile = map snd (filter (\<lambda>(target, m). target \<in> set benchmark_fields) ms)
      in sbind (each_extracted (mapped_columns_ok label (fst t)) (map snd ms)) (\<lambda>_.
         sbind (ensure (\<not> list_ex (\<lambda>(target, m). target \<in> {''run_id'', ''seed''} \<and> is_table_selector m) ms)
                  (AdapterSelect ''run_id and seed cannot use table selectors'')) (\<lambda>_.
         case fm_selector metric of
           FieldSelector _ \<Rightarrow>
             sbind (ensure (profile = []) (AdapterSelect ''profile cells require an exact metric table row selector''))
               (\<lambda>_. Inr [0..<length (snd t)])
         | TableSelector s \<Rightarrow>
             sbind (ensure (list_all is_table_selector profile)
                      (AdapterSelect ''profile cells require exact table selectors'')) (\<lambda>_.
             sbind (ensure (list_all (same_rows s) profile)
                      (AdapterSelect ''profile cells and metric must select the same exact row'')) (\<lambda>_.
               selected_rows t s)))))"

definition row_value ::
  "string \<Rightarrow> string list \<Rightarrow> mapping_table \<Rightarrow> string list \<Rightarrow> string \<Rightarrow> string option extracted" where
  "row_value label header ms row target =
     (case map_of ms target of
        None \<Rightarrow> Inr None
      | Some m \<Rightarrow>
          (case column_index header (selector_text (fm_selector m)) of
             None \<Rightarrow> Inl (AdapterSelect (''mapped '' @ label @ '' column ''
                       @ str_repr (selector_text (fm_selector m)) @ '' is not in the header''))
           | Some i \<Rightarrow> Inr (Some (row ! i))))"

definition row_run_id :: "string option \<Rightarrow> string option extracted" where
  "row_run_id v =
     (case v of
        None \<Rightarrow> Inr None
      | Some s \<Rightarrow> if py_strip s = [] then Inl (AdapterSelect ''run_id column contains an empty value'')
                  else Inr (Some (py_strip s)))"

definition row_seed :: "string option \<Rightarrow> observed_seed option extracted" where
  "row_seed v =
     (case v of
        None \<Rightarrow> Inr None
      | Some s \<Rightarrow>
          (let t = py_strip s
           in if t = [] then Inl (AdapterSelect ''seed column contains an empty value'')
              else if integer_text t then sbind (int_of_text t) (\<lambda>i. Inr (Some (SeedInt i)))
              else Inr (Some (SeedText t))))"

text \<open>
  A profile cell of the row. Its column has not been compared with the header, so the lookup may
  fail with the error of a dict.
\<close>

definition profile_cell ::
  "string list \<Rightarrow> string list \<Rightarrow> provenance \<Rightarrow> string \<times> field_mapping \<Rightarrow> config_value extracted" where
  "profile_cell header row p tm =
     (case tm of (target, m) \<Rightarrow>
        (let column = selector_text (fm_selector m)
         in case column_index header column of
              None \<Rightarrow> Inl (AdapterLookup (str_repr column))
            | Some i \<Rightarrow>
                sbind (ensure (row ! i \<noteq> [])
                         (AdapterSelect (''selected profile cell '' @ str_repr column @ '' is empty''))) (\<lambda>_.
                  lifted (new_config_value \<lparr>cv_key = target, cv_value = PStr (row ! i), cv_provenance = p\<rparr>))))"

definition profile_targets :: "mapping_table \<Rightarrow> mapping_table" where
  "profile_targets ms = filter (\<lambda>(target, m). target \<in> set benchmark_fields) (sort_key fst ms)"

definition row_observation ::
  "table_format \<Rightarrow> passive_artifact \<Rightarrow> table \<Rightarrow> mapping_table \<Rightarrow> field_mapping \<Rightarrow> nat \<Rightarrow> observation extracted" where
  "row_observation f a t ms metric i =
     (case t of (header, rows) \<Rightarrow>
        (let row = rows ! i; name = selector_text (fm_selector metric)
         in sbind (row_value (tf_label f) header ms row ''metric_value'') (\<lambda>text.
            sbind (row_value (tf_label f) header ms row ''run_id'') (\<lambda>run_text.
            sbind (row_value (tf_label f) header ms row ''seed'') (\<lambda>seed_text.
            sbind (row_run_id run_text) (\<lambda>run.
            sbind (row_seed seed_text) (\<lambda>seed.
            sbind (adapter_provenance a (tf_adapter f) (''row['' @ show_nat i @ ''].'' @ name)
                     (contains_text ''inferred=true'' (pv_detail (fm_provenance metric))) ADAPTER_EXTRACTION) (\<lambda>p.
            sbind (smap (profile_cell header row p) (profile_targets ms)) (\<lambda>cells.
            sbind (finite_csv_number (tf_label f @ '' metric value'') (the text)) (\<lambda>x.
              rewrap AdapterSelect (''selected '' @ tf_label f @ '' identifier is invalid: '')
                (lifted (new_observation (Some (PFloat x))
                  ((plain_observation p)\<lparr>ob_metric_name := Some name, ob_run_id := run, ob_seed := seed, ob_config := cells\<rparr>)))))))))))))"

definition extract_table ::
  "'e stream_env_scheme \<Rightarrow> table_format \<Rightarrow> passive_artifact \<Rightarrow> adapter_match \<Rightarrow> normalized_evidence extracted" where
  "extract_table env f a m =
     sbind (verify_integrity (sha256_hex env) a) (\<lambda>_.
     sbind (parse_delimited env (tf_delimiter f) (tf_label f) (pa_content a)) (\<lambda>t.
     sbind (validate_match a m (tf_adapter f) COLUMN (\<lambda>target. target \<in> set table_targets)) (\<lambda>ms.
       case map_of ms ''metric_value'' of
         None \<Rightarrow> Inl (AdapterSelect (''ambiguous '' @ tf_label f @ '' evidence requires an external metric_value mapping''))
       | Some metric \<Rightarrow>
           sbind (rows_to_read (tf_label f) t ms metric) (\<lambda>is.
           sbind (canonical_table_match (sha256_hex env) a m) (\<lambda>cm.
           (let cms = map (\<lambda>x. (fm_target x, x)) (am_mappings cm); canonical = the (map_of cms ''metric_value'')
            in sbind (smap (row_observation f a t cms canonical) is) (\<lambda>obs.
               extracted_evidence (sha256_hex env) (tf_adapter f) a cm obs)))))))"

subsection \<open>Disjoint selectors select disjoint rows\<close>

lemma dec_normalize_reduced: "is_reduced (dec_normalize p d)"
proof -
  have "dec_normalize p d = reduced (dec_fix p d)"
    by (simp add: dec_normalize_def reduced_def split: dec.splits)
  then show ?thesis by (simp add: reduced_reduced)
qed

lemma not_decimal:
  assumes "py_strip t = t" "filter (\<lambda>c. c \<noteq> CHR ''_'') t = t" "signed_text t = (neg, c # cs)"
    and "\<not> is_digit_char c" "c \<noteq> CHR ''.''"
  shows "decimal_of_text t = None"
  using assms by (simp add: decimal_of_text_def unsigned_decimal_def split_point_def)

lemma special_texts: "decimal_of_text (dec_str (DInf b)) = None" "decimal_of_text (dec_str DNan) = None"
proof -
  have i: "\<not> is_digit_char (CHR ''I'')" "\<not> is_digit_char (CHR ''N'')" by (simp_all add: is_digit_char_def char_code_def)
  have strip: "py_strip ''Infinity'' = ''Infinity''" "py_strip ''-Infinity'' = ''-Infinity''" "py_strip ''NaN'' = ''NaN''"
    by code_simp+
  have "decimal_of_text ''Infinity'' = None" "decimal_of_text ''-Infinity'' = None" "decimal_of_text ''NaN'' = None"
    using not_decimal [OF strip(1), of False "CHR ''I''" "''nfinity''"]
      not_decimal [OF strip(2), of True "CHR ''I''" "''nfinity''"] not_decimal [OF strip(3), of False "CHR ''N''" "''aN''"]
    by (simp_all add: signed_text_def i)
  then show "decimal_of_text (dec_str (DInf b)) = None" "decimal_of_text (dec_str DNan) = None"
    by (cases b; simp add: dec_str_def minus_sign_def)+
qed

text \<open>A canonical number text is determined by its value.\<close>

lemma canonical_decimal_read:
  assumes "canonical_decimal d = Inr text" "decimal_of_text text = Some x"
  shows "text = (if dval x = 0 then ''0'' else dec_str x)" "is_reduced x"
proof -
  have n: "is_reduced (dec_normalize 28 d)" by (rule dec_normalize_reduced)
  have zero: "decimal_of_text ''0'' = Some (Dec False 0 0)" by code_simp
  have t: "text = (if dec_is_zero (dec_normalize 28 d) then ''0'' else dec_str (dec_normalize 28 d))"
    using assms(1) by (simp add: canonical_decimal_def aensure_def result_simps Let_def)
  have "text = (if dval x = 0 then ''0'' else dec_str x) \<and> is_reduced x"
  proof (cases "dec_normalize 28 d")
    case (Dec s c e)
    show ?thesis
    proof (cases "c = 0")
      case True
      with Dec t have "text = ''0''" by (simp add: dec_is_zero_def)
      with assms(2) zero show ?thesis by (auto simp: dval_Dec)
    next
      case False
      with Dec t have "text = dec_str (Dec s c e)" by (simp add: dec_is_zero_def)
      moreover from this assms(2) have "x = Dec s c e" by (simp add: decimal_roundtrip in_range_def split: if_splits)
      ultimately show ?thesis using n Dec False by (auto simp: dval_Dec)
    qed
  qed (use t assms(2) special_texts in \<open>simp_all add: dec_is_zero_def\<close>)
  then show "text = (if dval x = 0 then ''0'' else dec_str x)" "is_reduced x" by simp_all
qed

lemma canonical_number_unique:
  assumes "canonical_decimal d = Inr t" "canonical_decimal d' = Inr t'"
    and "decimal_of_text t = Some x" "decimal_of_text t' = Some y" "dval x = dval y"
  shows "t = t'"
proof (cases "dval x = 0")
  case True
  then show ?thesis
    using canonical_decimal_read(1) [OF assms(1,3)] canonical_decimal_read(1) [OF assms(2,4)] assms(5) by simp
next
  case False
  obtain s c e where x: "x = Dec s c e" using False by (cases x) (auto simp: dval_def)
  obtain s' c' e' where y: "y = Dec s' c' e'" using False assms(5) by (cases y) (auto simp: dval_def)
  have "c \<noteq> 0" using False x by (cases "c = 0"; cases s) (simp_all add: dval_Dec)
  then have "x = y"
    using reduced_unique [of s c e s' c' e'] canonical_decimal_read(2) [OF assms(1,3)]
      canonical_decimal_read(2) [OF assms(2,4)] assms(5) x y by simp
  then show ?thesis
    using canonical_decimal_read(1) [OF assms(1,3)] canonical_decimal_read(1) [OF assms(2,4)] by simp
qed

text \<open>The two numeric values of predicates.\<close>

definition is_number_value :: "table_value \<Rightarrow> bool" where
  "is_number_value v \<longleftrightarrow> table_type_value v = ''number''"

lemma number_canonical:
  assumes "is_number_value v" "new_table_predicate p = Inr q" "tp_value p = v"
  obtains d t where "canonical_decimal d = Inr t" "canonical_text v = t"
  using assms
  by (cases v) (auto simp: is_number_value_def new_table_predicate_def canonical_text_def result_simps split: if_splits)

lemma number_match:
  assumes "is_number_value (tp_value p)" "cell_matches cell p = Inr True"
  shows "table_number_ok cell \<and> (\<exists>d e. decimal_of_text cell = Some d
    \<and> decimal_of_text (canonical_text (tp_value p)) = Some e \<and> dval d = dval e)"
  using assms
  by (cases "tp_value p")
    (auto simp: is_number_value_def cell_matches_def dec_eq_dval split: if_splits option.splits)

lemma number_not_boolean: "\<not> table_number_ok ''true''" "\<not> table_number_ok ''false''"
  by code_simp+

text \<open>Two predicates that match one cell are never held to exclude each other.\<close>

lemma both_match:
  assumes p: "new_table_predicate p = Inr p'" "cell_matches cell p = Inr True"
    and q: "new_table_predicate q = Inr q'" "cell_matches cell q = Inr True"
  shows "cells_may_match (tp_value p) (tp_value q)"
proof -
  have str: "cell = s" if "tp_value r = TV_STRING s" "cell_matches cell r = Inr True" for r s
    using that by (simp add: cell_matches_def)
  have bool: "cell = boolean_text b" if "tp_value r = TV_BOOL b" "cell_matches cell r = Inr True" for r b
    using that by (simp add: cell_matches_def split: if_splits)
  have null: "tp_value r \<noteq> TV_NULL" if "cell_matches cell r = Inr True" for r
    using that by (auto simp: cell_matches_def)
  have num: "string_may_match cell (tp_value r)" if "is_number_value (tp_value r)" "cell_matches cell r = Inr True" for r
    using number_match [OF that] that(1)
    by (cases "tp_value r") (auto simp: string_may_match_def table_number_text_def dec_eq_dval is_number_value_def)
  have not_bool: "\<not> is_number_value (tp_value r)" if "cell_matches cell r = Inr True" "cell = boolean_text b" for r b
    using number_match [of r cell] number_not_boolean that by (cases b) (auto simp: boolean_text_def)
  have two: "canonical_text (tp_value p) = canonical_text (tp_value q)"
    if n: "is_number_value (tp_value p)" "is_number_value (tp_value q)"
  proof -
    obtain d t where t: "canonical_decimal d = Inr t" "canonical_text (tp_value p) = t"
      by (rule number_canonical [OF n(1) p(1) refl])
    obtain d' t' where t': "canonical_decimal d' = Inr t'" "canonical_text (tp_value q) = t'"
      by (rule number_canonical [OF n(2) q(1) refl])
    obtain x where x: "decimal_of_text t = Some x" "\<exists>z. decimal_of_text cell = Some z \<and> dval z = dval x"
      using number_match [OF n(1) p(2)] t(2) by blast
    obtain y where y: "decimal_of_text t' = Some y" "\<exists>z. decimal_of_text cell = Some z \<and> dval z = dval y"
      using number_match [OF n(2) q(2)] t'(2) by blast
    have "dval x = dval y" using x(2) y(2) by auto
    with canonical_number_unique [OF t(1) t'(1) x(1) y(1)] t(2) t'(2) show ?thesis by simp
  qed
  have mixed: "string_may_match cell (TV_BOOL b)" if "cell = boolean_text b" for b
    using that by (simp add: string_may_match_def)
  show ?thesis
  proof (cases "tp_value p")
    case (TV_STRING s)
    then have "cell = s" by (rule str [OF _ p(2)])
    with TV_STRING show ?thesis
      using str [OF _ q(2)] bool [OF _ q(2)] mixed null [OF q(2)] num [OF _ q(2)]
      by (cases "tp_value q") (simp_all add: string_may_match_def is_number_value_def)
  next
    case (TV_BOOL a)
    then have c: "cell = boolean_text a" by (rule bool [OF _ p(2)])
    have "b = a" if "tp_value q = TV_BOOL b" for b
      using bool [OF that q(2)] c by (simp add: boolean_text_def split: if_splits)
    with TV_BOOL c show ?thesis
      using str [OF _ q(2)] mixed [OF c] null [OF q(2)] not_bool [OF q(2) c]
      by (cases "tp_value q") (simp_all add: is_number_value_def)
  next
    case (TV_INT i)
    then have n: "is_number_value (tp_value p)" by (simp add: is_number_value_def)
    with TV_INT show ?thesis
      using str [OF _ q(2)] bool [OF _ q(2)] null [OF q(2)] num [OF n p(2)] not_bool [OF p(2)] two [OF n]
      by (cases "tp_value q") (auto simp: is_number_value_def)
  next
    case (TV_FLOAT x)
    then have n: "is_number_value (tp_value p)" by (simp add: is_number_value_def)
    with TV_FLOAT show ?thesis
      using str [OF _ q(2)] bool [OF _ q(2)] null [OF q(2)] num [OF n p(2)] not_bool [OF p(2)] two [OF n]
      by (cases "tp_value q") (auto simp: is_number_value_def)
  qed (use null [OF p(2)] in simp)
qed

lemma row_matches_all:
  "row_matches header row ps = Inr True \<Longrightarrow> p \<in> set ps \<Longrightarrow>
     cell_matches (row ! the (column_index header (tp_column p))) p = Inr True"
  by (induction ps) (auto simp: result_simps split: if_splits)

lemma matching_rows_match:
  "matching_rows header ps rows = Inr is \<Longrightarrow> i \<in> set is \<Longrightarrow>
     \<exists>row. (i, row) \<in> set rows \<and> row_matches header row ps = Inr True"
proof (induction rows arbitrary: "is")
  case (Cons r rows)
  then show ?case by (cases r) (fastforce simp: result_simps split: if_splits)
qed simp

definition valid_predicates :: "table_selector \<Rightarrow> bool" where
  "valid_predicates s \<longleftrightarrow> list_all (\<lambda>p. new_table_predicate p = Inr p) (ts_predicates s)"

lemma predicate_on_mem: "predicate_on s c = Some p \<Longrightarrow> p \<in> set (ts_predicates s) \<and> tp_column p = c"
  by (auto simp: predicate_on_def dest!: map_of_SomeD)

lemma disjoint_rows:
  assumes "row_disjoint l r" "valid_predicates l" "valid_predicates r"
    and "selected_rows t l = Inr is" "selected_rows t r = Inr js"
  shows "set is \<inter> set js = {}"
proof (rule ccontr)
  obtain header rows where t: "t = (header, rows)" by fastforce
  assume "set is \<inter> set js \<noteq> {}"
  then obtain i where i: "i \<in> set is" "i \<in> set js" by blast
  have ms: "matching_rows header (ts_predicates l) (enumerate 0 rows) = Inr is"
    "matching_rows header (ts_predicates r) (enumerate 0 rows) = Inr js"
    using assms(4,5) t by (auto simp: selected_rows_def result_simps)
  have m: "row_matches header (rows ! i) (ts_predicates l) = Inr True" "row_matches header (rows ! i) (ts_predicates r) = Inr True"
    using matching_rows_match [OF ms(1) i(1)] matching_rows_match [OF ms(2) i(2)] by (auto simp: in_set_enumerate_eq)
  obtain c p q where pq: "predicate_on l c = Some p" "predicate_on r c = Some q" "\<not> cells_may_match (tp_value p) (tp_value q)"
    using assms(1) by (auto simp: row_disjoint_def list_ex_iff split: option.splits)
  have p: "p \<in> set (ts_predicates l)" "tp_column p = c" and q: "q \<in> set (ts_predicates r)" "tp_column q = c"
    using predicate_on_mem [OF pq(1)] predicate_on_mem [OF pq(2)] by simp_all
  have "new_table_predicate p = Inr p" "new_table_predicate q = Inr q"
    using assms(2,3) p q by (simp_all add: valid_predicates_def list_all_iff)
  then have "cells_may_match (tp_value p) (tp_value q)"
    using both_match row_matches_all [OF m(1) p(1)] row_matches_all [OF m(2) q(1)] p(2) q(2) by simp
  with pq(3) show False ..
qed

text \<open>The cells a selector reads: the selected rows in its column.\<close>

definition selected_cells :: "table_selector \<Rightarrow> nat list \<Rightarrow> (nat \<times> string) list" where
  "selected_cells s is = map (\<lambda>i. (i, ts_column s)) is"

lemma no_cells_overlap:
  assumes "validate_bindings label bs = Inr vs" "b \<in> set vs" "c \<in> set vs" "ab_path b = ab_path c"
    and "ab_role b = ER_BASELINE" "ab_role c = ER_CANDIDATE"
    and "l \<in> set (table_selectors (ab_mappings b))" "r \<in> set (table_selectors (ab_mappings c))" "ts_column l = ts_column r"
  shows "row_disjoint l r"
proof -
  let ?p = "filter (\<lambda>x. ab_path x = ab_path b) bs"
  have v: "vs = bs" "\<not> conflicting_roles ?p"
    using assms(1,2) by (auto simp: validate_bindings_Inr)
  have bc: "b \<in> set ?p" "c \<in> set ?p" using assms(2,3,4) v by auto
  then have "ER_BASELINE \<in> ab_role ` set ?p" "ER_CANDIDATE \<in> ab_role ` set ?p"
    using assms(5,6) by (metis imageI)+
  then have "\<not> cells_overlap (filter (\<lambda>x. ab_role x = ER_BASELINE \<or> ab_role x = ER_CANDIDATE) ?p)"
    using v(2) unfolding conflicting_roles_def Let_def by simp
  moreover have "l \<in> set (role_selectors ER_BASELINE (filter (\<lambda>x. ab_role x = ER_BASELINE \<or> ab_role x = ER_CANDIDATE) ?p))"
    "r \<in> set (role_selectors ER_CANDIDATE (filter (\<lambda>x. ab_role x = ER_BASELINE \<or> ab_role x = ER_CANDIDATE) ?p))"
    using assms bc by (auto simp: role_selectors_def)
  ultimately show ?thesis using assms(9) by (auto simp: cells_overlap_def list_ex_iff)
qed

text \<open>C7: no measurement plays both roles: when a set of bindings is accepted, a baseline and a
  candidate that select rows of one table never read the same cell of it, whatever the table holds
  and whatever types their predicates have.\<close>

theorem roles_never_share_cells:
  assumes "validate_bindings label bs = Inr vs" "b \<in> set vs" "c \<in> set vs" "ab_path b = ab_path c"
    and "ab_role b = ER_BASELINE" "ab_role c = ER_CANDIDATE"
    and "l \<in> set (table_selectors (ab_mappings b))" "r \<in> set (table_selectors (ab_mappings c))"
    and "valid_predicates l" "valid_predicates r"
    and "selected_rows t l = Inr is" "selected_rows t r = Inr js"
  shows "set (selected_cells l is) \<inter> set (selected_cells r js) = {}"
proof (cases "ts_column l = ts_column r")
  case True
  then have "set is \<inter> set js = {}"
    using disjoint_rows [OF no_cells_overlap [OF assms(1-8)] assms(9-12)] by simp
  then show ?thesis by (auto simp: selected_cells_def)
qed (auto simp: selected_cells_def)

definition arm_selector :: "string \<Rightarrow> table_selector" where
  "arm_selector arm =
     \<lparr>ts_column = ''score'', ts_predicates = [\<lparr>tp_column = ''arm'', tp_value = TV_STRING arm\<rparr>], ts_cardinality = 1,
      ts_provenance = ab_provenance (sample_binding None)\<rparr>"

definition arm_binding :: "experiment_role \<Rightarrow> string \<Rightarrow> artifact_binding" where
  "arm_binding role arm =
     (sample_binding None)\<lparr>ab_role := role,
        ab_mappings := [\<lparr>fm_target = ''metric_value'', fm_selector = TableSelector (arm_selector arm),
                         fm_provenance = ab_provenance (sample_binding None)\<rparr>]\<rparr>"

definition arm_table :: table where
  "arm_table = ([''arm'', ''score''], [[''a'', ''1''], [''b'', ''2'']])"

lemma roles_never_share_cells_witness:
  "set (selected_cells (arm_selector ''a'') [0]) \<inter> set (selected_cells (arm_selector ''b'') [1]) = {}"
proof (rule roles_never_share_cells)
  let ?bs = "[arm_binding ER_BASELINE ''a'', arm_binding ER_CANDIDATE ''b'']"
  show "validate_bindings ''mapping'' ?bs = Inr ?bs"
    by (simp add: validate_bindings_def ensure_def aensure_def slot_of_def arm_binding_def conflicting_roles_def
        table_identity_def mapping_projection_def is_table_mapping_def field_mapping_identity_def selector_identity_def
        arm_selector_def canonical_text_def cells_overlap_def role_selectors_def table_selectors_def row_disjoint_def
        predicate_on_def string_may_match_def)
  show "selected_rows arm_table (arm_selector ''a'') = Inr [0]" "selected_rows arm_table (arm_selector ''b'') = Inr [1]"
    by code_simp+
  show "valid_predicates (arm_selector ''a'')" "valid_predicates (arm_selector ''b'')" by code_simp+
  show "arm_selector ''a'' \<in> set (table_selectors (ab_mappings (arm_binding ER_BASELINE ''a'')))"
    "arm_selector ''b'' \<in> set (table_selectors (ab_mappings (arm_binding ER_CANDIDATE ''b'')))"
    by (simp_all add: arm_binding_def table_selectors_def)
qed (simp_all add: arm_binding_def)

end
