(* ===== verification/AdapterRegistry.thy ===== *)
theory AdapterRegistry
  imports NativeAdapter TableAdapter
begin

section \<open>The registry of adapters\<close>

text \<open>
  \<^verbatim>\<open>claimci/analysis/adapters/registry.py\<close>: the fixed order in which the adapters are asked, and the
  extraction of an artifact by the first that recognizes it. The lemmas show what holds of the
  evidence whichever adapter read it.
\<close>

record registered =
  rg_adapter :: string
  rg_probe :: "passive_artifact \<Rightarrow> adapter_match option extracted"
  rg_extract :: "passive_artifact \<Rightarrow> adapter_match \<Rightarrow> normalized_evidence extracted"

definition config_entry :: "(nat list \<Rightarrow> string) \<Rightarrow> config_format \<Rightarrow> registered" where
  "config_entry sha f = \<lparr>rg_adapter = cf_adapter f, rg_probe = probe_config sha f, rg_extract = extract_config sha f\<rparr>"

definition table_entry :: "'e stream_env_scheme \<Rightarrow> table_format \<Rightarrow> registered" where
  "table_entry env f = \<lparr>rg_adapter = tf_adapter f, rg_probe = probe_table env f, rg_extract = extract_table env f\<rparr>"

definition adapters :: "'e adapter_env_scheme \<Rightarrow> registered list" where
  "adapters env =
     [\<lparr>rg_adapter = native_manifest, rg_probe = probe_manifest env, rg_extract = extract_manifest env\<rparr>,
      \<lparr>rg_adapter = native_results, rg_probe = probe_native_results env, rg_extract = extract_native_results env\<rparr>,
      \<lparr>rg_adapter = native_config, rg_probe = probe_native_config env, rg_extract = extract_native_config env\<rparr>,
      \<lparr>rg_adapter = dataset_adapter, rg_probe = probe_dataset (sha256_hex env), rg_extract = extract_dataset (sha256_hex env)\<rparr>,
      \<lparr>rg_adapter = json_adapter, rg_probe = probe_json env, rg_extract = extract_json env\<rparr>,
      \<lparr>rg_adapter = jsonl_adapter, rg_probe = probe_jsonl env, rg_extract = extract_jsonl env\<rparr>,
      table_entry env csv_format, table_entry env tsv_format,
      config_entry (sha256_hex env) (yaml_format env), config_entry (sha256_hex env) (toml_format env)]"

definition get_adapter :: "'e adapter_env_scheme \<Rightarrow> string \<Rightarrow> registered extracted" where
  "get_adapter env adapter =
     sbind (ensure (trusted_adapter_id adapter) (AdapterSelect ''adapter identifier is not canonical registry data'')) (\<lambda>_.
       case filter (\<lambda>r. rg_adapter r = adapter) (adapters env) of
         [] \<Rightarrow> Inl (AdapterLookup (str_repr adapter))
       | r # rs \<Rightarrow> Inr r)"

fun extract_first :: "registered list \<Rightarrow> passive_artifact \<Rightarrow> normalized_evidence option extracted" where
  "extract_first [] a = Inr None"
| "extract_first (r # rs) a =
     sbind (rg_probe r a) (\<lambda>m.
       case m of None \<Rightarrow> extract_first rs a | Some m' \<Rightarrow> sbind (rg_extract r a m') (\<lambda>n. Inr (Some n)))"

definition extract_registered :: "'e adapter_env_scheme \<Rightarrow> passive_artifact \<Rightarrow> normalized_evidence option extracted" where
  "extract_registered env a = extract_first (adapters env) a"

subsection \<open>What holds of extracted evidence\<close>

text \<open>
  Evidence bound to an artifact: the bytes have the size and the digest of the candidate, the
  identity is the one of the occurrence, the adapter and the mappings, and every observation
  satisfies its contract.
\<close>

definition bound_evidence :: "(nat list \<Rightarrow> string) \<Rightarrow> passive_artifact \<Rightarrow> normalized_evidence \<Rightarrow> bool" where
  "bound_evidence sha a n \<longleftrightarrow>
     length (pa_content a) \<le> max_artifact_bytes \<and> int (length (pa_content a)) = ac_size (candidate_of a)
     \<and> sha (pa_content a) = ac_sha256 (candidate_of a) \<and> ne_artifact n = candidate_of a
     \<and> am_path (ne_match n) = ac_path (candidate_of a)
     \<and> ne_id n = adapter_evidence_id sha (am_adapter (ne_match n)) ''1'' a (am_mappings (ne_match n))
     \<and> ne_observations n \<noteq> [] \<and> list_all observation_ok (ne_observations n)"

lemma lifted_Inr [simp]: "lifted r = Inr x \<longleftrightarrow> r = Inr x"
  by (auto simp: lifted_def split: sum.splits)

lemma rewrap_Inr [simp]: "rewrap f prefix r = Inr x \<longleftrightarrow> r = Inr x"
  by (auto simp: rewrap_def split: sum.splits)

lemma verified_integrity:
  "verify_integrity sha a = Inr u \<longleftrightarrow>
     length (pa_content a) \<le> max_artifact_bytes \<and> int (length (pa_content a)) = ac_size (candidate_of a)
     \<and> sha (pa_content a) = ac_sha256 (candidate_of a)"
  by (auto simp: verify_integrity_def result_simps)

lemma validated_match:
  "validate_match a m adapter kind allowed = Inr ms \<Longrightarrow> am_adapter m = adapter \<and> am_path m = ac_path (candidate_of a)"
  by (auto simp: validate_match_def result_simps)

lemma extracted_bound:
  assumes "extracted_evidence sha adapter a m obs = Inr n" "verify_integrity sha a = Inr u"
    and "am_adapter m = adapter" "list_all observation_ok obs"
  shows "bound_evidence sha a n \<and> am_adapter (ne_match n) = adapter"
  using assms
  by (auto simp: extracted_evidence_def new_evidence_def aensure_def result_simps bound_evidence_def verified_integrity)

lemma structured_observation_ok: "structured_observation v ms p = Inr ob \<Longrightarrow> observation_ok ob"
  by (auto simp: structured_observation_def result_simps split: option.splits dest: new_observation_ok)

lemma table_match_adapter: "canonical_table_match sha a m = Inr cm \<Longrightarrow> am_adapter cm = am_adapter m"
  by (auto simp: canonical_table_match_def new_adapter_match_def result_simps split: if_splits)

lemma row_observation_ok: "row_observation f a t ms metric i = Inr ob \<Longrightarrow> observation_ok ob"
  by (auto simp: row_observation_def Let_def result_simps split: prod.splits dest: new_observation_ok)

lemma smap_oks: "smap f xs = Inr ys \<Longrightarrow> (\<And>x y. f x = Inr y \<Longrightarrow> P y) \<Longrightarrow> list_all P ys"
  by (rule smap_all)

lemma extract_table_bound:
  assumes "extract_table env f a m = Inr n"
  shows "bound_evidence (sha256_hex env) a n \<and> am_adapter (ne_match n) = tf_adapter f"
proof -
  from assms obtain t ms cm canonical rows obs where "verify_integrity (sha256_hex env) a = Inr ()"
    and m: "validate_match a m (tf_adapter f) COLUMN (\<lambda>target. target \<in> set table_targets) = Inr ms"
    and cm: "canonical_table_match (sha256_hex env) a m = Inr cm"
    and obs: "smap (row_observation f a t (map (\<lambda>x. (fm_target x, x)) (am_mappings cm)) canonical) rows = Inr obs"
    and "extracted_evidence (sha256_hex env) (tf_adapter f) a cm obs = Inr n"
    by (auto simp: extract_table_def Let_def result_simps split: option.splits)
  moreover have "am_adapter cm = tf_adapter f"
    using table_match_adapter [OF cm] validated_match [OF m] by simp
  moreover have "list_all observation_ok obs"
    using obs by (rule smap_oks) (rule row_observation_ok)
  ultimately show ?thesis by (intro extracted_bound)
qed

lemma extract_json_bound:
  assumes "extract_json env a m = Inr n"
  shows "bound_evidence (sha256_hex env) a n \<and> am_adapter (ne_match n) = json_adapter"
proof -
  from assms obtain v obs where i: "verify_integrity (sha256_hex env) a = Inr ()"
    and obs: "(if ac_kind (candidate_of a) = CONFIG then extract_json_config (sha256_hex env) a m v
               else extract_json_result a m v) = Inr obs"
    and e: "extracted_evidence (sha256_hex env) json_adapter a m obs = Inr n"
    by (auto simp: extract_json_def result_simps)
  have "am_adapter m = json_adapter \<and> list_all observation_ok obs"
    using obs by (auto simp: extract_json_config_def extract_json_result_def result_simps split: if_splits
        dest: validated_match new_observation_ok structured_observation_ok)
  with e i show ?thesis by (intro extracted_bound) auto
qed

lemma jsonl_observation_ok: "jsonl_observation a ms metric r = Inr ob \<Longrightarrow> observation_ok ob"
  by (auto simp: jsonl_observation_def result_simps split: prod.splits dest: structured_observation_ok)

lemma run_observation_ok: "run_observation a ms metric r = Inr ob \<Longrightarrow> observation_ok ob"
  by (auto simp: run_observation_def result_simps split: prod.splits dest: structured_observation_ok)

lemma summary_observations_ok: "summary_observations a s = Inr obs \<Longrightarrow> list_all observation_ok obs"
  by (auto simp: summary_observations_def result_simps split: if_splits dest: new_observation_ok)

lemma extract_jsonl_bound:
  assumes "extract_jsonl env a m = Inr n"
  shows "bound_evidence (sha256_hex env) a n \<and> am_adapter (ne_match n) = jsonl_adapter"
proof -
  from assms obtain ms metric rs obs where "verify_integrity (sha256_hex env) a = Inr ()"
    and m: "validate_match a m jsonl_adapter JSON_POINTER (\<lambda>t. t \<in> set result_targets) = Inr ms"
    and obs: "smap (jsonl_observation a ms metric) rs = Inr obs"
    and "extracted_evidence (sha256_hex env) jsonl_adapter a m obs = Inr n"
    by (auto simp: extract_jsonl_def result_simps split: option.splits)
  moreover have "list_all observation_ok obs"
    using obs by (rule smap_oks) (rule jsonl_observation_ok)
  ultimately show ?thesis using validated_match [OF m] by (intro extracted_bound) auto
qed

lemma extract_native_results_bound:
  assumes "extract_native_results env a m = Inr n"
  shows "bound_evidence (sha256_hex env) a n \<and> am_adapter (ne_match n) = native_results"
proof -
  from assms obtain ms metric runs s obs extra where "verify_integrity (sha256_hex env) a = Inr ()"
    and m: "validate_match a m native_results JSON_POINTER (\<lambda>t. t \<in> set result_targets) = Inr ms"
    and obs: "smap (run_observation a ms metric) runs = Inr obs" and s: "summary_observations a s = Inr extra"
    and "extracted_evidence (sha256_hex env) native_results a m (obs @ extra) = Inr n"
    by (auto simp: extract_native_results_def result_simps split: option.splits)
  moreover have "list_all observation_ok obs"
    using obs by (rule smap_oks) (rule run_observation_ok)
  then have "list_all observation_ok (obs @ extra)" using summary_observations_ok [OF s] by simp
  ultimately show ?thesis using validated_match [OF m] by (intro extracted_bound) auto
qed

lemma one_observation_bound:
  assumes "verify_integrity sha a = Inr u" "validate_match a m adapter kind allowed = Inr ms"
    and "new_observation v ob = Inr ob'" "extracted_evidence sha adapter a m [ob'] = Inr n"
  shows "bound_evidence sha a n \<and> am_adapter (ne_match n) = adapter"
  using extracted_bound [OF assms(4,1)] validated_match [OF assms(2)] new_observation_ok [OF assms(3)] by simp

lemma extract_config_bound:
  "extract_config sha f a m = Inr n \<Longrightarrow> bound_evidence sha a n \<and> am_adapter (ne_match n) = cf_adapter f"
  unfolding extract_config_def sbind_eq_Inr lifted_Inr by (elim exE conjE) (rule one_observation_bound)

lemma extract_dataset_bound:
  "extract_dataset sha a m = Inr n \<Longrightarrow> bound_evidence sha a n \<and> am_adapter (ne_match n) = dataset_adapter"
  unfolding extract_dataset_def sbind_eq_Inr lifted_Inr by (elim exE conjE) (rule one_observation_bound)

lemma extract_native_config_bound:
  "extract_native_config env a m = Inr n \<Longrightarrow>
     bound_evidence (sha256_hex env) a n \<and> am_adapter (ne_match n) = native_config"
  unfolding extract_native_config_def sbind_eq_Inr lifted_Inr by (elim exE conjE) (rule one_observation_bound)

lemma experiment_observation_ok: "experiment_observation a d name role = Inr ob \<Longrightarrow> observation_ok ob"
  by (auto simp: experiment_observation_def result_simps dest: new_observation_ok)

lemma extract_manifest_bound:
  assumes "extract_manifest env a m = Inr n"
  shows "bound_evidence (sha256_hex env) a n \<and> am_adapter (ne_match n) = native_manifest"
proof -
  from assms obtain d ms v ob claim b c where "verify_integrity (sha256_hex env) a = Inr ()"
    and m: "validate_match a m native_manifest DOTTED_PATH (\<lambda>t. t \<in> set (manifest_selectors d)) = Inr ms"
    and "new_observation v ob = Inr claim" "experiment_observation a d ''baseline'' ER_BASELINE = Inr b"
      "experiment_observation a d ''candidate'' ER_CANDIDATE = Inr c"
    and "extracted_evidence (sha256_hex env) native_manifest a m [claim, b, c] = Inr n"
    by (auto simp: extract_manifest_def result_simps)
  then show ?thesis using validated_match [OF m]
    by (intro extracted_bound) (auto dest: new_observation_ok experiment_observation_ok)
qed

definition sound_adapter :: "(nat list \<Rightarrow> string) \<Rightarrow> registered \<Rightarrow> bool" where
  "sound_adapter sha r \<longleftrightarrow>
     (\<forall>a m n. rg_extract r a m = Inr n \<longrightarrow> bound_evidence sha a n \<and> am_adapter (ne_match n) = rg_adapter r)"

lemma adapters_sound: "list_all (sound_adapter (sha256_hex env)) (adapters env)"
  by (simp add: adapters_def sound_adapter_def table_entry_def config_entry_def extract_table_bound extract_json_bound
      extract_jsonl_bound extract_native_results_bound extract_config_bound extract_dataset_bound
      extract_native_config_bound extract_manifest_bound)

lemma extract_first_sound:
  "extract_first rs a = Inr (Some n) \<Longrightarrow> list_all (sound_adapter sha) rs \<Longrightarrow>
     bound_evidence sha a n \<and> am_adapter (ne_match n) \<in> set (map rg_adapter rs)"
  by (induction rs) (auto simp: result_simps sound_adapter_def split: option.splits)


definition rows_artifact :: passive_artifact where
  "rows_artifact =
     \<lparr>pa_occurrence =
        \<lparr>oc_repository = \<lparr>ri_owner = ''o'', ri_name = ''r''\<rparr>, oc_role = HEAD, oc_commit = replicate 40 (CHR ''1''),
         oc_candidate =
           \<lparr>ac_path = ''d.jsonl'', ac_kind = DATASET, ac_sha256 = replicate 64 (CHR ''0''), ac_size = 2,
            ac_confidence = fzero, discovery_reason = ''name'', relevant_claim_ids = [],
            ac_provenance = ab_provenance (sample_binding None)\<rparr>\<rparr>,
      pa_content = [123, 125]\<rparr>"

definition rows_env :: adapter_env where
  "rows_env =
     \<lparr>read_text = (\<lambda>p. Inl (FileNotFound p)), resolve_path = Inr, json_text = (\<lambda>s. Inr (JObj [])),
      yaml_text = (\<lambda>s. Inl YAMLRecursion), sha256_hex = (\<lambda>bs. replicate 64 (CHR ''0'')), utf8_text = (\<lambda>bs. Some ''{}''),
      toml_text = (\<lambda>s. Inl (TOMLOther []))\<rparr>"

definition rows_hint :: provenance where
  "rows_hint =
     \<lparr>pv_kind = ADAPTER_EXTRACTION,
      pv_detail = ''adapter=claimci-jsonl-dataset-v1; selector=<whole passive dataset artifact>; sha256=''
        @ replicate 64 (CHR ''0'') @ ''; inferred=false'',
      pv_source_path = Some ''d.jsonl'', pv_source_id = Some (''claimci-jsonl-dataset-v1:'' @ replicate 16 (CHR ''0''))\<rparr>"

lemma rows_hint_text:
  "\<not> is_blank (pv_detail rows_hint)" "length (pv_detail rows_hint) \<le> 200"
  "contract_id 256 ''provenance source_id'' (''claimci-jsonl-dataset-v1:'' @ replicate 16 (CHR ''0'')) = Inr ()"
  "new_repository_path ''d.jsonl'' = Inr ''d.jsonl''"
  by code_simp+

lemma rows_provenance:
  "adapter_provenance rows_artifact dataset_adapter whole_dataset False ADAPTER_EXTRACTION = Inr rows_hint"
proof -
  have "new_provenance rows_hint = Inr rows_hint"
    using rows_hint_text by (simp add: new_provenance_def contract_text_def aensure_def) (simp add: rows_hint_def)
  then show ?thesis
    by (simp add: adapter_provenance_def lifted_def rows_hint_def dataset_adapter_def whole_dataset_def rows_artifact_def
        candidate_of_def boolean_text_def)
qed

lemma rows_facts:
  "bound_provenance (candidate_of rows_artifact) ''adapter match'' rows_hint = Inr ()"
  "adapter_supports rows_artifact [DATASET] [''.jsonl'']"
  "new_repository_path ''d.jsonl'' = Inr ''d.jsonl''" "trusted_adapter_id dataset_adapter"
  "contract_id 128 ''evidence_id'' (''evidence-v2-'' @ replicate 64 (CHR ''0'')) = Inr ()"
  by code_simp+

lemma rows_other_kinds:
  "probe_manifest rows_env rows_artifact = Inr None" "probe_native_results rows_env rows_artifact = Inr None"
  "probe_native_config rows_env rows_artifact = Inr None"
  by (simp_all add: probe_manifest_def probe_native_results_def probe_native_config_def adapter_supports_def
      candidate_of_def rows_artifact_def)

lemma rows_probe:
  "probe_dataset (sha256_hex rows_env) rows_artifact =
     Inr (Some \<lparr>am_adapter = dataset_adapter, am_path = ''d.jsonl'', am_confidence = round_ratio False 99 100,
                am_mappings = [], am_evidence = [rows_hint]\<rparr>)"
proof -
  have "verify_integrity (sha256_hex rows_env) rows_artifact = Inr ()"
    by (simp add: verified_integrity max_artifact_bytes_def rows_artifact_def rows_env_def candidate_of_def)
  moreover have "ac_path (candidate_of rows_artifact) = ''d.jsonl''" by (simp add: candidate_of_def rows_artifact_def)
  ultimately show ?thesis
    by (simp add: probe_dataset_def rows_facts rows_provenance adapter_match_of_def new_adapter_match_def aensure_def lifted_def)
qed

lemma rows_extract:
  "\<exists>n. extract_dataset (sha256_hex rows_env) rows_artifact
     \<lparr>am_adapter = dataset_adapter, am_path = ''d.jsonl'', am_confidence = c, am_mappings = [], am_evidence = [rows_hint]\<rparr> = Inr n"
proof -
  have "verify_integrity (sha256_hex rows_env) rows_artifact = Inr ()"
    by (simp add: verified_integrity max_artifact_bytes_def rows_artifact_def rows_env_def candidate_of_def)
  moreover have "ac_path (candidate_of rows_artifact) = ''d.jsonl''" by (simp add: candidate_of_def rows_artifact_def)
  moreover have "adapter_evidence_id (sha256_hex rows_env) dataset_adapter ''1'' rows_artifact []
      = ''evidence-v2-'' @ replicate 64 (CHR ''0'')" by (simp add: adapter_evidence_id_def rows_env_def)
  ultimately show ?thesis
    by (simp add: extract_dataset_def validate_match_def rows_facts rows_provenance rows_facts(5) [simplified] new_dataset_reference_def optional_id_def
        new_observation_def observed_metric_def plain_observation_def extracted_evidence_def new_evidence_def
        aensure_def lifted_def)
qed

lemma rows_extracted: "\<exists>n. extract_registered rows_env rows_artifact = Inr (Some n)"
  using rows_extract [of "round_ratio False 99 100"]
  by (auto simp: extract_registered_def adapters_def rows_other_kinds rows_probe)


end
