(* ===== verification/ProfileSelection.thy ===== *)
theory ProfileSelection
  imports TableAdapter MetricIdentity
begin

section \<open>Selecting an evidence profile\<close>

text \<open>
  The policy of \<^verbatim>\<open>claimci/analysis/profiles.py\<close> that chooses the evidence profile of a claim: the
  variant of a benchmark from the metric and the text of the claim, what each mapping recovers from
  the normalized evidence, and the outcome. Of the claim the policy reads only the metric and the
  text of its reference.
\<close>

subsection \<open>The variant of a claim\<close>

text \<open>A maximal run of underscores and hyphens becomes one space; then white space is collapsed.\<close>

fun split_words :: "string \<Rightarrow> string \<Rightarrow> string list" where
  "split_words acc [] = (if acc = [] then [] else [acc])"
| "split_words acc (c # cs) =
     (if is_space c \<or> c = CHR ''_'' \<or> c = CHR ''-''
      then (if acc = [] then split_words [] cs else acc # split_words [] cs)
      else split_words (acc @ [c]) cs)"

definition normalized_metric :: "string \<Rightarrow> string" where
  "normalized_metric s = join '' '' (split_words [] (casefold s))"

text \<open>The word characters of a pattern, for the characters of the model.\<close>

definition word_char :: "char \<Rightarrow> bool" where
  "word_char c =
     (let n = char_code c
      in is_alnum c \<or> n = 95 \<or> n = 170 \<or> n = 178 \<or> n = 179 \<or> n = 181 \<or> n = 185 \<or> n = 186 \<or> (188 \<le> n \<and> n \<le> 190)
         \<or> (192 \<le> n \<and> n \<noteq> 215 \<and> n \<noteq> 247))"

text \<open>A search for a phrase between word boundaries; \<open>inside\<close> says whether a word character precedes.\<close>

fun has_phrase :: "string \<Rightarrow> bool \<Rightarrow> string \<Rightarrow> bool" where
  "has_phrase p inside [] = False"
| "has_phrase p inside (c # cs) =
     (\<not> inside \<and> starts_with p (c # cs)
        \<and> (case drop (length p) (c # cs) of [] \<Rightarrow> True | d # _ \<Rightarrow> \<not> word_char d)
      \<or> has_phrase p (word_char c) cs)"

definition kernel_phrases :: "string list" where
  "kernel_phrases = [''kernel time'', ''kernel latency'', ''kernel bandwidth'']"

definition cost_phrases :: "string list" where
  "cost_phrases = [''cost per request'', ''cost per token'', ''cost/ request'', ''cost/ token'']"

definition latency_names :: "string list" where
  "latency_names = [''latency'', ''runtime'', ''wall clock'', ''wall-clock'', ''cold start'', ''cold-start'']"

definition throughput_names :: "string list" where
  "throughput_names =
     [''throughput'', ''tokens per second'', ''tokens/s'', ''samples per second'', ''samples/s'', ''peak memory'',
      ''peak vram'', ''vram'', ''memory'', ''resource'']"

definition kernel_names :: "string list" where
  "kernel_names = [''kernel time'', ''kernel latency'', ''bandwidth'']"

definition cost_names :: "string list" where
  "cost_names = [''cost'', ''cost per request'', ''cost/request'', ''cost per token'', ''cost/token'']"

definition quality_names :: "string list" where
  "quality_names = [''accuracy'', ''f1'', ''bleu'', ''perplexity'', ''loss'']"

definition metric_variant :: "string \<Rightarrow> string \<Rightarrow> benchmark_variant option" where
  "metric_variant metric source =
     (let v = normalized_metric metric; s = normalized_metric source
      in if list_ex (\<lambda>p. has_phrase p False s) kernel_phrases then Some KERNEL
         else if list_ex (\<lambda>p. has_phrase p False s) cost_phrases then Some COST
         else if v \<in> set latency_names then Some LATENCY
         else if v \<in> set throughput_names then Some THROUGHPUT_RESOURCE
         else if v \<in> set kernel_names \<or> contains_text ''kernel'' v \<and> contains_text ''time'' v then Some KERNEL
         else if v \<in> set cost_names \<or> starts_with ''cost '' v then Some COST
         else if v \<in> set quality_names then Some MODEL_QUALITY
         else None)"

subsection \<open>Mappings and their evidence\<close>

datatype any_mapping = Proposed mapping_candidate | Approved repo_mapping

fun bindings_of :: "any_mapping \<Rightarrow> artifact_binding list" where
  "bindings_of (Proposed m) = mp_bindings m"
| "bindings_of (Approved m) = rm_bindings m"

type_synonym bound_pairs = "(artifact_binding \<times> normalized_evidence) list"

definition extraction_only :: "normalized_evidence \<Rightarrow> bool" where
  "extraction_only n = list_all (\<lambda>p. pv_kind p = ADAPTER_EXTRACTION) (am_evidence (ne_match n))"

definition mapping_evidence :: "any_mapping \<Rightarrow> normalized_evidence list \<Rightarrow> bound_pairs" where
  "mapping_evidence m ns =
     concat (map (\<lambda>b. case evidence_for_binding b ns of
                        Some n \<Rightarrow> if extraction_only n then [(b, n)] else []
                      | None \<Rightarrow> []) (bindings_of m))"

text \<open>The binding of a fact is identified by its artifact, its role and its selection.\<close>

definition profile_binding_id :: "(nat list \<Rightarrow> string) \<Rightarrow> artifact_binding \<Rightarrow> normalized_evidence \<Rightarrow> string" where
  "profile_binding_id sha b n =
     profile_digest sha ''profile-binding-''
       (pdict [(''path'', PStr (ab_path b)), (''kind'', PStr (artifact_kind_value (ab_kind b))),
               (''role'', PStr (experiment_role_value (ab_role b))),
               (''split'', opt_str (map_option split_value (ab_split b))),
               (''sha256'', PStr (ac_sha256 (ne_artifact n))), (''adapter'', opt_str (ab_adapter b)),
               (''mappings'', PList (map PList (mapping_projection (ab_mappings b))))])"

definition trusted_mapping :: "any_mapping \<Rightarrow> bool" where
  "trusted_mapping m =
     (case m of
        Approved _ \<Rightarrow> True
      | Proposed c \<Rightarrow>
          (let fields = concat (map ab_mappings (mp_bindings c));
               ps = mp_provenance c # map ab_provenance (mp_bindings c) @ map fm_provenance fields
                      @ map (\<lambda>f. selector_provenance (fm_selector f)) fields
           in \<not> list_ex (\<lambda>p. pv_kind p = PROVIDER_PROPOSAL) ps))"

definition two_roles :: "experiment_role list" where "two_roles = [ER_BASELINE, ER_CANDIDATE]"

definition has_binding :: "any_mapping \<Rightarrow> experiment_role \<Rightarrow> artifact_kind \<Rightarrow> bool" where
  "has_binding m r k = list_ex (\<lambda>b. ab_role b = r \<and> ab_kind b = k) (bindings_of m)"

definition one_split :: "any_mapping \<Rightarrow> experiment_role \<Rightarrow> dataset_split \<Rightarrow> bool" where
  "one_split m r s =
     (length (filter (\<lambda>b. ab_role b = r \<and> ab_kind b = DATASET \<and> ab_split b = Some s) (bindings_of m)) = 1)"

definition binding_represented :: "normalized_evidence list \<Rightarrow> artifact_binding \<Rightarrow> bool" where
  "binding_represented ns b =
     (case evidence_for_binding b ns of
        None \<Rightarrow> False
      | Some n \<Rightarrow>
          extraction_only n
          \<and> list_all (\<lambda>ob. ob_role ob = ER_UNSPECIFIED \<or> ob_role ob = ab_role b) (ne_observations n))"

definition training_complete :: "any_mapping \<Rightarrow> normalized_evidence list \<Rightarrow> bool" where
  "training_complete m ns \<longleftrightarrow>
     list_all (\<lambda>r. has_binding m r RESULTS \<and> has_binding m r CONFIG
                   \<and> one_split m r SPLIT_TRAIN \<and> one_split m r SPLIT_EVAL) two_roles
     \<and> list_all (binding_represented ns) (bindings_of m)"

definition training_shape :: "any_mapping \<Rightarrow> bool" where
  "training_shape m = list_all (\<lambda>r. has_binding m r RESULTS \<and> has_binding m r CONFIG) two_roles"

subsection \<open>Recovered fields and metrics\<close>

text \<open>The fields of a role with the binding that supplied them, and the metrics of a role.\<close>

type_synonym role_fields = "(string \<times> (pyval \<times> string)) list"
type_synonym recovered_fields = "(experiment_role \<times> role_fields) list"
type_synonym recovered_metrics = "(experiment_role \<times> (string \<times> flt \<times> string) list) list"

definition role_get :: "(experiment_role \<times> 'a list) list \<Rightarrow> experiment_role \<Rightarrow> 'a list" where
  "role_get t r = (case map_of t r of None \<Rightarrow> [] | Some xs \<Rightarrow> xs)"

definition field_conflict :: "string \<Rightarrow> py_error" where
  "field_conflict key = AnalysisContractError (''Benchmark profile field '' @ str_repr key @ '' conflicts within one role'')"

text \<open>One more field of a role: the first value stays, and another that prints differently is refused.\<close>

definition add_field :: "string \<Rightarrow> role_fields \<Rightarrow> config_value \<Rightarrow> role_fields checked" where
  "add_field bid fs c =
     sbind (profile_scalar (cv_key c) (cv_value c)) (\<lambda>v.
       case map_of fs (cv_key c) of
         None \<Rightarrow> Inr (fs @ [(cv_key c, (v, bid))])
       | Some (w, b) \<Rightarrow>
           sbind (scalar_json w) (\<lambda>t.
           sbind (scalar_json v) (\<lambda>u.
             if t = u then Inr fs else Inl (field_conflict (cv_key c)))))"

fun add_fields :: "string \<Rightarrow> role_fields \<Rightarrow> config_value list \<Rightarrow> role_fields checked" where
  "add_fields bid fs [] = Inr fs"
| "add_fields bid fs (c # cs) = sbind (add_field bid fs c) (\<lambda>gs. add_fields bid gs cs)"

definition selected_keys :: "artifact_binding \<Rightarrow> string list" where
  "selected_keys b = concat (map (\<lambda>m. [fm_target m, selector_text (fm_selector m)]) (ab_mappings b))"

definition profile_configs :: "artifact_binding \<Rightarrow> normalized_evidence \<Rightarrow> config_value list" where
  "profile_configs b n =
     filter (\<lambda>c. pv_kind (cv_provenance c) = ADAPTER_EXTRACTION \<and> cv_key c \<in> set benchmark_fields
                 \<and> cv_key c \<in> set (selected_keys b))
       (concat (map ob_config (filter (\<lambda>ob. pv_kind (ob_provenance ob) = ADAPTER_EXTRACTION) (ne_observations n))))"

fun recovered_configs ::
  "(nat list \<Rightarrow> string) \<Rightarrow> recovered_fields \<Rightarrow> bound_pairs \<Rightarrow> recovered_fields checked" where
  "recovered_configs sha t [] = Inr t"
| "recovered_configs sha t ((b, n) # ps) =
     (if ab_role b = ER_UNSPECIFIED then recovered_configs sha t ps
      else sbind (add_fields (profile_binding_id sha b n) (role_get t (ab_role b)) (profile_configs b n)) (\<lambda>fs.
             recovered_configs sha (al_set (ab_role b) fs t) ps))"

definition binding_metrics ::
  "(nat list \<Rightarrow> string) \<Rightarrow> artifact_binding \<times> normalized_evidence \<Rightarrow> (string \<times> flt \<times> string) list" where
  "binding_metrics sha p =
     (case p of (b, n) \<Rightarrow>
        if list_ex (\<lambda>m. fm_target m = ''metric_value'') (ab_mappings b)
        then concat (map (\<lambda>ob. case (ob_metric_name ob, ob_metric_value ob) of
                                 (Some m, Some x) \<Rightarrow> [(m, x, profile_binding_id sha b n)]
                               | _ \<Rightarrow> [])
               (filter (\<lambda>ob. pv_kind (ob_provenance ob) = ADAPTER_EXTRACTION) (ne_observations n)))
        else [])"

text \<open>A role without a metric does not appear.\<close>

definition recovered_metrics :: "(nat list \<Rightarrow> string) \<Rightarrow> bound_pairs \<Rightarrow> recovered_metrics" where
  "recovered_metrics sha ps =
     filter (\<lambda>(r, xs). xs \<noteq> [])
       (map (\<lambda>r. (r, concat (map (\<lambda>p. if ab_role (fst p) = r then binding_metrics sha p else []) ps))) two_roles)"

subsection \<open>Completeness of a benchmark\<close>

definition key_present :: "recovered_fields \<Rightarrow> string \<Rightarrow> bool" where
  "key_present t key \<longleftrightarrow>
     map_of (role_get t ER_REFERENCE) key \<noteq> None \<or> list_all (\<lambda>r. map_of (role_get t r) key \<noteq> None) two_roles"

definition component_present :: "recovered_fields \<Rightarrow> string \<Rightarrow> bool" where
  "component_present t prefix =
     (let present = (\<lambda>r. list_ex (\<lambda>(k, v). starts_with (prefix @ ''.'') k) (role_get t r))
      in present ER_REFERENCE \<or> list_all present two_roles)"

text \<open>The keys a variant requires, and the groups of which it requires one.\<close>

definition required_keys :: "benchmark_variant \<Rightarrow> result_form option \<Rightarrow> string list" where
  "required_keys v f =
     (case v of
        LATENCY \<Rightarrow>
          [''benchmark.workload.id'', ''benchmark.measurement_config.timing_boundary'', ''benchmark.run_protocol.warmup'',
           ''benchmark.run_protocol.sample_count'', ''benchmark.run_protocol.aggregation'', ''benchmark.environment.hardware'']
      | THROUGHPUT_RESOURCE \<Rightarrow>
          [''benchmark.workload.id'', ''benchmark.run_protocol.aggregation'', ''benchmark.environment.hardware'',
           ''benchmark.environment.runtime'']
      | KERNEL \<Rightarrow>
          [''benchmark.workload.tensor_shape'', ''benchmark.workload.dtype'', ''benchmark.workload.layout'',
           ''benchmark.workload.tensor_generation'', ''benchmark.run_protocol.generation_seed'',
           ''benchmark.run_protocol.warmup'', ''benchmark.run_protocol.timing_method'', ''benchmark.environment.compiler'',
           ''benchmark.environment.runtime'', ''benchmark.environment.hardware'']
      | MODEL_QUALITY \<Rightarrow> [''benchmark.evaluator.id'', ''benchmark.evaluator.scoring'']
      | COST \<Rightarrow>
          [''benchmark.environment.provider'', ''benchmark.environment.sku'',
           ''benchmark.measurement_config.measurement_window'', ''benchmark.evaluator.included_costs'',
           ''benchmark.evaluator.excluded_costs'',
           (if f = Some DETERMINISTIC_DERIVATION then ''benchmark.evaluator.formula_family''
            else ''benchmark.run_protocol.aggregation'')])"

definition alternative_keys :: "benchmark_variant \<Rightarrow> string list list" where
  "alternative_keys v =
     (case v of
        THROUGHPUT_RESOURCE \<Rightarrow>
          [[''benchmark.workload.batch_size'', ''benchmark.workload.concurrency'', ''benchmark.workload.sequence_length''],
           [''benchmark.run_protocol.sample_count'', ''benchmark.run_protocol.step_count''],
           [''benchmark.measurement_config.timing_boundary'', ''benchmark.measurement_config.memory_collection'']]
      | MODEL_QUALITY \<Rightarrow>
          [[''benchmark.workload.corpus'', ''benchmark.workload.id''],
           [''measurement.metric_identity.definition'', ''measurement.metric_identity.configuration'',
            ''benchmark.evaluator.metric_definition'', ''benchmark.evaluator.metric_config'']]
      | COST \<Rightarrow>
          [[''benchmark.workload.workload_volume'', ''benchmark.workload.token_volume''],
           [''benchmark.environment.pricing_snapshot'', ''benchmark.environment.pricing_version'']]
      | _ \<Rightarrow> [])"

definition variant_complete :: "recovered_fields \<Rightarrow> benchmark_variant \<Rightarrow> result_form option \<Rightarrow> bool" where
  "variant_complete t v f \<longleftrightarrow>
     list_all (key_present t) (required_keys v f) \<and> list_all (list_ex (key_present t)) (alternative_keys v)"

definition needs_environment :: "benchmark_variant \<Rightarrow> bool" where
  "needs_environment v \<longleftrightarrow> v \<in> {LATENCY, THROUGHPUT_RESOURCE, KERNEL, COST}"

definition needs_evaluator :: "benchmark_variant \<Rightarrow> bool" where
  "needs_evaluator v \<longleftrightarrow> v \<in> {MODEL_QUALITY, COST}"

definition form_of_text :: "string \<Rightarrow> result_form option" where
  "form_of_text s = find (\<lambda>f. form_value f = s) [RAW_RUN_SERIES, REPORTED_AGGREGATE, DETERMINISTIC_DERIVATION]"

definition field_text :: "pyval \<Rightarrow> string list" where
  "field_text v = (case v of PStr s \<Rightarrow> [s] | _ \<Rightarrow> [])"

definition single_result_form :: "recovered_fields \<Rightarrow> result_form option" where
  "single_result_form t =
     (case remdups (concat (map (\<lambda>(r, fs). concat (map (\<lambda>(k, v, b).
              if k = ''benchmark.run_protocol.result_form'' then field_text v else []) fs)) t)) of
        [] \<Rightarrow> Some RAW_RUN_SERIES
      | [s] \<Rightarrow> form_of_text s
      | _ \<Rightarrow> None)"

definition role_value_of :: "recovered_fields \<Rightarrow> experiment_role \<Rightarrow> string \<Rightarrow> pyval option" where
  "role_value_of t r key = map_option fst (map_of (role_get t r) key)"

definition paired_value :: "recovered_fields \<Rightarrow> string \<Rightarrow> (pyval \<times> pyval) option" where
  "paired_value t key =
     (case (role_value_of t ER_BASELINE key, role_value_of t ER_CANDIDATE key) of
        (Some a, Some b) \<Rightarrow> Some (a, b) | _ \<Rightarrow> None)"

definition metric_recovered :: "recovered_metrics \<Rightarrow> bool" where
  "metric_recovered ms =
     list_all (\<lambda>r. length (remdups (map (normalized_metric \<circ> fst) (role_get ms r))) = 1) two_roles"

text \<open>
  The count of a raw series is that of its observations; a field of this name is read as an integer
  in its bounds.
\<close>

definition count_matches :: "recovered_metrics \<Rightarrow> experiment_role \<Rightarrow> pyval \<Rightarrow> bool" where
  "count_matches ms r v =
     (case v of PInt i \<Rightarrow> 1 \<le> i \<and> i \<le> 2 ^ 63 - 1 \<and> i = int (length (role_get ms r)) | _ \<Rightarrow> False)"

definition raw_complete :: "recovered_fields \<Rightarrow> recovered_metrics \<Rightarrow> bool" where
  "raw_complete t ms =
     (case (paired_value t ''benchmark.run_protocol.sample_count'', paired_value t ''benchmark.run_protocol.aggregation'') of
        (Some (b, c), Some (x, y)) \<Rightarrow>
          count_matches ms ER_BASELINE b \<and> count_matches ms ER_CANDIDATE c
          \<and> x = PStr ''arithmetic_mean_v1'' \<and> y = PStr ''arithmetic_mean_v1''
      | _ \<Rightarrow> False)"

definition all_keys :: "recovered_fields \<Rightarrow> string list \<Rightarrow> bool" where
  "all_keys t keys = list_all (\<lambda>r. list_all (\<lambda>k. map_of (role_get t r) k \<noteq> None) keys) two_roles"

definition reported_complete :: "recovered_fields \<Rightarrow> recovered_metrics \<Rightarrow> bool" where
  "reported_complete t ms \<longleftrightarrow>
     all_keys t [''benchmark.run_protocol.sample_count'', ''benchmark.run_protocol.aggregation'',
                 ''benchmark.run_protocol.statistic'']
     \<and> list_all (\<lambda>r. length (role_get ms r) = 1) two_roles"

definition float_readable :: "pyval \<Rightarrow> bool" where
  "float_readable v =
     (case v of
        PStr s \<Rightarrow> float_of_text (py_strip s) \<noteq> None
      | PInt i \<Rightarrow> float_of_int i \<noteq> None
      | PFloat x \<Rightarrow> isfinite x
      | _ \<Rightarrow> False)"

definition derivation_complete :: "recovered_fields \<Rightarrow> bool" where
  "derivation_complete t \<longleftrightarrow>
     all_keys t [''benchmark.evaluator.formula_family'', ''benchmark.evaluator.unit_value'', ''benchmark.evaluator.quantity'']
     \<and> paired_value t ''benchmark.evaluator.formula_family'' = Some (PStr ''multiply_v1'', PStr ''multiply_v1'')
     \<and> list_all (\<lambda>r. list_all (\<lambda>k. case role_value_of t r k of None \<Rightarrow> False | Some v \<Rightarrow> float_readable v)
          [''benchmark.evaluator.unit_value'', ''benchmark.evaluator.quantity'']) two_roles"

definition benchmark_complete :: "recovered_fields \<Rightarrow> recovered_metrics \<Rightarrow> benchmark_variant \<Rightarrow> bool" where
  "benchmark_complete t ms v \<longleftrightarrow>
     list_all (component_present t)
       [''benchmark.subject'', ''benchmark.workload'', ''benchmark.measurement_config'', ''benchmark.run_protocol'']
     \<and> metric_recovered ms
     \<and> (needs_environment v \<longrightarrow> component_present t ''benchmark.environment'')
     \<and> (needs_evaluator v \<longrightarrow> component_present t ''benchmark.evaluator'')
     \<and> variant_complete t v (single_result_form t)
     \<and> (case single_result_form t of
          None \<Rightarrow> False
        | Some RAW_RUN_SERIES \<Rightarrow> raw_complete t ms
        | Some REPORTED_AGGREGATE \<Rightarrow> reported_complete t ms
        | Some DETERMINISTIC_DERIVATION \<Rightarrow> derivation_complete t)"

subsection \<open>The facts of a mapping\<close>

definition by_role :: "(experiment_role \<times> 'a) list \<Rightarrow> (experiment_role \<times> 'a) list" where
  "by_role t = sort_key (\<lambda>(r, x). experiment_role_value r) t"

definition field_facts ::
  "(nat list \<Rightarrow> string) \<Rightarrow> experiment_role \<times> role_fields \<Rightarrow> selection_fact list checked" where
  "field_facts sha p =
     (case p of (r, fs) \<Rightarrow>
        smap (\<lambda>(k, v, b). new_fact sha (experiment_role_value r @ ''.'' @ k) v [b])
          (sort_key fst (filter (\<lambda>(k, v). starts_with ''benchmark.'' k \<or> starts_with ''measurement.metric_identity.'' k) fs)))"

text \<open>The distinct names of a role with their bindings, in order.\<close>

definition metric_facts ::
  "(nat list \<Rightarrow> string) \<Rightarrow> experiment_role \<times> (string \<times> flt \<times> string) list \<Rightarrow> selection_fact list checked" where
  "metric_facts sha p =
     (case p of (r, xs) \<Rightarrow>
        smap (\<lambda>(m, b). new_fact sha (experiment_role_value r @ ''.measurement.metric_identity.name'') (PStr m) [b])
          (sort_key fst (sort_key snd (remdups (map (\<lambda>(m, x, b). (m, b)) xs)))))"

definition positive_prefixes :: "string list" where
  "positive_prefixes =
     [''benchmark.workload.'', ''benchmark.measurement_config.'', ''benchmark.run_protocol.'',
      ''benchmark.environment.'', ''benchmark.evaluator.'']"

definition positive_fact :: "selection_fact \<Rightarrow> bool" where
  "positive_fact f =
     (let rest = join ''.'' (drop 1 (split_on (CHR ''.'') (sf_name f)))
      in list_ex (\<lambda>p. starts_with p rest) positive_prefixes)"

record benchmark_facts =
  bf_facts :: "selection_fact list"
  bf_form :: "result_form option"
  bf_positive :: bool
  bf_complete :: bool

definition no_facts :: benchmark_facts where
  "no_facts = \<lparr>bf_facts = [], bf_form = None, bf_positive = False, bf_complete = False\<rparr>"

definition facts_of_mapping ::
  "(nat list \<Rightarrow> string) \<Rightarrow> any_mapping \<Rightarrow> normalized_evidence list \<Rightarrow> benchmark_variant \<Rightarrow> benchmark_facts checked" where
  "facts_of_mapping sha m ns v =
     (let pairs = mapping_evidence m ns
      in sbind (recovered_configs sha [] pairs) (\<lambda>t.
         (let ms = recovered_metrics sha pairs
          in sbind (smap (field_facts sha) (by_role t)) (\<lambda>fs.
             sbind (smap (metric_facts sha) (by_role ms)) (\<lambda>gs.
             (let facts = concat fs @ concat gs
              in Inr \<lparr>bf_facts = facts, bf_form = single_result_form t, bf_positive = list_ex positive_fact facts,
                      bf_complete = benchmark_complete t ms v\<rparr>))))))"

subsection \<open>The outcome\<close>

datatype selection_state = PS_SELECTED | PS_AMBIGUOUS | PS_UNRESOLVED

record selection_outcome =
  po_state :: selection_state
  po_selection :: "profile_selection option"
  po_reason :: "string option"
  po_facts :: "selection_fact list"

definition new_outcome ::
  "selection_state \<Rightarrow> profile_selection option \<Rightarrow> string option \<Rightarrow> selection_fact list \<Rightarrow> selection_outcome checked" where
  "new_outcome st s reason fs =
     sbind (bounded_facts fs) (\<lambda>ordered.
     sbind (aensure ((st = PS_SELECTED) = (s \<noteq> None)) ''profile outcome state is inconsistent'') (\<lambda>_.
     sbind (aensure ((st = PS_SELECTED) \<noteq> (reason \<noteq> None)) ''profile outcome reason is inconsistent'') (\<lambda>_.
       Inr \<lparr>po_state = st, po_selection = s, po_reason = reason, po_facts = ordered\<rparr>)))"

definition selected_outcome ::
  "(nat list \<Rightarrow> string) \<Rightarrow> profile_id \<Rightarrow> benchmark_variant option \<Rightarrow> result_form option \<Rightarrow> bool
    \<Rightarrow> selection_fact list \<Rightarrow> selection_outcome checked" where
  "selected_outcome sha p v f whole fs =
     sbind (new_selection sha p v f whole fs) (\<lambda>s. new_outcome PS_SELECTED (Some s) None fs)"

text \<open>What the policy knows of a mapping.\<close>

record mapping_record =
  mr_facts :: benchmark_facts
  mr_training :: bool
  mr_shape :: bool
  mr_trusted :: bool

definition mapping_facts ::
  "(nat list \<Rightarrow> string) \<Rightarrow> normalized_evidence list \<Rightarrow> benchmark_variant option \<Rightarrow> any_mapping \<Rightarrow> mapping_record checked" where
  "mapping_facts sha ns variant m =
     sbind (case variant of
              None \<Rightarrow> Inr no_facts
            | Some v \<Rightarrow>
                (case facts_of_mapping sha m ns v of
                   Inl (AnalysisContractError _) \<Rightarrow> Inr no_facts
                 | r \<Rightarrow> r)) (\<lambda>f.
       Inr \<lparr>mr_facts = f, mr_training = training_complete m ns, mr_shape = training_shape m,
            mr_trusted = trusted_mapping m\<rparr>)"

text \<open>Mappings a provider proposed do not count once a trusted one is complete.\<close>

definition effective_records :: "mapping_record list \<Rightarrow> mapping_record list" where
  "effective_records rs =
     (if list_ex (\<lambda>r. mr_trusted r \<and> (mr_training r \<or> bf_complete (mr_facts r))) rs
      then filter mr_trusted rs else rs)"

definition first_facts :: "benchmark_facts list \<Rightarrow> benchmark_facts option" where
  "first_facts bs = (case find bf_complete bs of Some b \<Rightarrow> Some b | None \<Rightarrow> find bf_positive bs)"

definition complete_forms :: "benchmark_facts list \<Rightarrow> result_form list" where
  "complete_forms bs = remdups (concat (map (\<lambda>b. case bf_form b of Some f \<Rightarrow> [f] | None \<Rightarrow> []) (filter bf_complete bs)))"

definition decide_profile ::
  "(nat list \<Rightarrow> string) \<Rightarrow> benchmark_variant option \<Rightarrow> mapping_record list \<Rightarrow> selection_outcome checked" where
  "decide_profile sha variant rs =
     (let bs = map mr_facts rs; training = list_ex mr_training rs; whole = list_ex bf_complete bs;
          chosen = first_facts bs; facts = (case chosen of None \<Rightarrow> [] | Some b \<Rightarrow> bf_facts b);
          quality = (variant = None \<or> variant = Some MODEL_QUALITY)
      in if quality \<and> training \<and> whole
         then new_outcome PS_AMBIGUOUS None (Some ''evidence_profile_ambiguous'') facts
         else if quality \<and> training
         then selected_outcome sha TRAINING_EXPERIMENT_V0 None None True []
         else if variant \<noteq> None \<and> (\<not> quality \<or> list_ex bf_positive bs)
         then (if 1 < length (complete_forms bs)
               then selected_outcome sha BENCHMARK_MEASUREMENT_V0 variant None False []
               else selected_outcome sha BENCHMARK_MEASUREMENT_V0 variant
                      (Some (case chosen of
                               None \<Rightarrow> RAW_RUN_SERIES
                             | Some b \<Rightarrow> (case bf_form b of None \<Rightarrow> RAW_RUN_SERIES | Some f \<Rightarrow> f))) whole facts)
         else if list_ex mr_shape rs
         then selected_outcome sha TRAINING_EXPERIMENT_V0 None None False []
         else new_outcome PS_UNRESOLVED None (Some ''required_profile_evidence_not_recovered'') [])"

text \<open>
  The profile of a metric improvement, from its metric and the text of its reference. An approved
  mapping replaces the proposed ones.
\<close>

definition considered :: "mapping_candidate list \<Rightarrow> repo_mapping option \<Rightarrow> any_mapping list" where
  "considered ms approved = (case approved of Some m \<Rightarrow> [Approved m] | None \<Rightarrow> map Proposed ms)"

definition select_evidence_profile ::
  "(nat list \<Rightarrow> string) \<Rightarrow> string \<Rightarrow> string \<Rightarrow> normalized_evidence list \<Rightarrow> mapping_candidate list
    \<Rightarrow> repo_mapping option \<Rightarrow> selection_outcome checked" where
  "select_evidence_profile sha metric text ns ms approved =
     (let variant = metric_variant metric text
      in sbind (smap (mapping_facts sha ns variant) (considered ms approved)) (\<lambda>rs.
           decide_profile sha variant (effective_records rs)))"

definition mapping_matches_profile ::
  "(nat list \<Rightarrow> string) \<Rightarrow> profile_selection \<Rightarrow> any_mapping \<Rightarrow> normalized_evidence list \<Rightarrow> bool checked" where
  "mapping_matches_profile sha s m ns =
     (case se_profile s of
        TRAINING_EXPERIMENT_V0 \<Rightarrow> Inr (training_complete m ns)
      | BENCHMARK_MEASUREMENT_V0 \<Rightarrow>
          (case se_variant s of
             None \<Rightarrow> Inr False
           | Some v \<Rightarrow>
               if 16 < length (bindings_of m) then Inr False
               else (case facts_of_mapping sha m ns v of
                       Inl (AnalysisContractError _) \<Rightarrow> Inr False
                     | Inl e \<Rightarrow> Inl e
                     | Inr b \<Rightarrow> Inr (bf_complete b \<and> (se_form s = None \<or> bf_form b = se_form s)))))"

subsection \<open>The slots of a profile\<close>

definition training_slots :: "string list" where
  "training_slots =
     [''artifact.baseline.results.metric'', ''artifact.candidate.results.metric'', ''artifact.baseline.config'',
      ''artifact.candidate.config'', ''artifact.baseline.dataset.train'', ''artifact.baseline.dataset.eval'',
      ''artifact.candidate.dataset.train'', ''artifact.candidate.dataset.eval'']"

definition profile_slots :: "profile_id \<Rightarrow> string list" where
  "profile_slots p = (case p of TRAINING_EXPERIMENT_V0 \<Rightarrow> training_slots | BENCHMARK_MEASUREMENT_V0 \<Rightarrow> benchmark_slots)"

definition active_benchmark_slots :: "benchmark_variant \<Rightarrow> string list" where
  "active_benchmark_slots v =
     take 6 benchmark_slots @ (if needs_environment v then [''benchmark.environment''] else [])
     @ (if needs_evaluator v then [''benchmark.evaluator''] else [])"

subsection \<open>What a complete selection rests on\<close>

definition complete_facts :: "(nat list \<Rightarrow> string) \<Rightarrow> normalized_evidence list \<Rightarrow> benchmark_variant \<Rightarrow> any_mapping \<Rightarrow> result_form option" where
  "complete_facts sha ns v m =
     (case facts_of_mapping sha m ns v of Inr b \<Rightarrow> if bf_complete b then bf_form b else None | Inl _ \<Rightarrow> None)"

text \<open>A mapping that a selection can rest on, and one that shows any profile to be complete.\<close>

definition supports_selection :: "(nat list \<Rightarrow> string) \<Rightarrow> normalized_evidence list \<Rightarrow> profile_selection \<Rightarrow> any_mapping \<Rightarrow> bool" where
  "supports_selection sha ns s m =
     (case (se_profile s, se_variant s) of
        (TRAINING_EXPERIMENT_V0, _) \<Rightarrow> training_complete m ns
      | (BENCHMARK_MEASUREMENT_V0, Some v) \<Rightarrow> complete_facts sha ns v m = se_form s \<and> se_form s \<noteq> None
      | _ \<Rightarrow> False)"

definition completes_profile :: "(nat list \<Rightarrow> string) \<Rightarrow> normalized_evidence list \<Rightarrow> benchmark_variant option \<Rightarrow> any_mapping \<Rightarrow> bool" where
  "completes_profile sha ns variant m \<longleftrightarrow>
     training_complete m ns \<or> (case variant of None \<Rightarrow> False | Some v \<Rightarrow> complete_facts sha ns v m \<noteq> None)"

lemma facts_complete_form: "facts_of_mapping sha m ns v = Inr b \<Longrightarrow> bf_complete b \<Longrightarrow> bf_form b \<noteq> None"
  by (auto simp: facts_of_mapping_def Let_def result_simps benchmark_complete_def split: option.splits)

text \<open>A record of a mapping says what the mapping completes.\<close>

lemma mapping_facts_complete:
  assumes "mapping_facts sha ns variant m = Inr r"
  shows "mr_training r = training_complete m ns" "mr_trusted r = trusted_mapping m"
    "bf_complete (mr_facts r) \<longleftrightarrow> (case variant of None \<Rightarrow> False | Some v \<Rightarrow> complete_facts sha ns v m \<noteq> None)"
    "bf_complete (mr_facts r) \<Longrightarrow> variant = Some v \<Longrightarrow> complete_facts sha ns v m = bf_form (mr_facts r)"
proof -
  show "mr_training r = training_complete m ns" "mr_trusted r = trusted_mapping m"
    using assms by (auto simp: mapping_facts_def result_simps)
  have "case variant of None \<Rightarrow> mr_facts r = no_facts
      | Some v \<Rightarrow> (case facts_of_mapping sha m ns v of Inr b \<Rightarrow> mr_facts r = b | Inl _ \<Rightarrow> mr_facts r = no_facts)"
    using assms by (auto simp: mapping_facts_def result_simps split: option.splits sum.splits py_error.splits)
  then show "bf_complete (mr_facts r) \<longleftrightarrow> (case variant of None \<Rightarrow> False | Some v \<Rightarrow> complete_facts sha ns v m \<noteq> None)"
    "bf_complete (mr_facts r) \<Longrightarrow> variant = Some v \<Longrightarrow> complete_facts sha ns v m = bf_form (mr_facts r)"
    using facts_complete_form [of sha m ns]
    by (auto simp: complete_facts_def no_facts_def split: option.splits sum.splits)
qed

lemma record_form:
  assumes "mapping_facts sha ns variant m = Inr r" "bf_complete (mr_facts r)"
  shows "bf_form (mr_facts r) \<noteq> None"
proof (cases variant)
  case None
  with mapping_facts_complete(3) [OF assms(1)] assms(2) show ?thesis by simp
next
  case (Some v)
  with mapping_facts_complete(3,4) [OF assms(1)] assms(2) show ?thesis by simp
qed

lemma selected_outcome_Inr:
  "selected_outcome sha p v f whole fs = Inr out \<Longrightarrow> po_selection out = Some s \<Longrightarrow>
     se_profile s = p \<and> se_variant s = v \<and> se_form s = f \<and> se_complete s = whole"
  by (auto simp: selected_outcome_def new_selection_def new_outcome_def aensure_def result_simps)

lemma new_outcome_selection: "new_outcome st None reason fs = Inr out \<Longrightarrow> po_selection out = None"
  by (auto simp: new_outcome_def aensure_def result_simps)

lemma decide_complete:
  assumes "decide_profile sha variant rs = Inr out" "po_selection out = Some s" "se_complete s"
    and forms: "list_all (\<lambda>r. bf_complete (mr_facts r) \<longrightarrow> bf_form (mr_facts r) \<noteq> None) rs"
  shows "(se_profile s = TRAINING_EXPERIMENT_V0 \<and> list_ex mr_training rs)
    \<or> (se_profile s = BENCHMARK_MEASUREMENT_V0 \<and> se_variant s = variant \<and> variant \<noteq> None
       \<and> (\<exists>r \<in> set rs. bf_complete (mr_facts r) \<and> bf_form (mr_facts r) = se_form s))"
proof -
  have first: "\<exists>r \<in> set rs. bf_complete (mr_facts r) \<and> first_facts (map mr_facts rs) = Some (mr_facts r)"
    if "list_ex bf_complete (map mr_facts rs)"
  proof (cases "find bf_complete (map mr_facts rs)")
    case None
    with that show ?thesis by (auto simp: find_None_iff list_ex_iff)
  next
    case (Some b)
    then obtain i where "i < length rs" "b = mr_facts (rs ! i)" "bf_complete b"
      by (auto simp: find_Some_iff)
    with Some show ?thesis by (auto simp: first_facts_def intro!: bexI [of _ "rs ! i"])
  qed
  define quality where "quality \<longleftrightarrow> variant = None \<or> variant = Some MODEL_QUALITY"
  define facts where "facts = (case first_facts (map mr_facts rs) of None \<Rightarrow> [] | Some b \<Rightarrow> bf_facts b)"
  note decide = assms(1) [unfolded decide_profile_def Let_def, folded quality_def facts_def]
  note chosen = selected_outcome_Inr [OF _ assms(2)] new_outcome_selection
  consider (ambiguous) "quality" "list_ex mr_training rs" "list_ex bf_complete (map mr_facts rs)"
    | (training) "quality" "list_ex mr_training rs" "\<not> list_ex bf_complete (map mr_facts rs)"
    | (benchmark) "\<not> (quality \<and> list_ex mr_training rs)"
        "variant \<noteq> None \<and> (\<not> quality \<or> list_ex bf_positive (map mr_facts rs))"
    | (neither) "\<not> (quality \<and> list_ex mr_training rs)"
        "\<not> (variant \<noteq> None \<and> (\<not> quality \<or> list_ex bf_positive (map mr_facts rs)))"
    by blast
  then show ?thesis
  proof cases
    case ambiguous
    with decide have "new_outcome PS_AMBIGUOUS None (Some ''evidence_profile_ambiguous'') facts = Inr out" by simp
    with new_outcome_selection assms(2) have False by fastforce
    then show ?thesis ..
  next
    case training
    with decide have "selected_outcome sha TRAINING_EXPERIMENT_V0 None None True [] = Inr out" by simp
    with chosen(1) training show ?thesis by blast
  next
    case neither
    from decide [unfolded if_not_P [OF neither(2)]] neither(1) assms(2,3) show ?thesis
      by (auto dest: chosen(1) dest!: new_outcome_selection split: if_splits)
  next
    case benchmark
    let ?form = "Some (case first_facts (map mr_facts rs) of None \<Rightarrow> RAW_RUN_SERIES
        | Some b \<Rightarrow> (case bf_form b of None \<Rightarrow> RAW_RUN_SERIES | Some f \<Rightarrow> f))"
    have split_forms: "1 < length (complete_forms (map mr_facts rs))
        \<and> selected_outcome sha BENCHMARK_MEASUREMENT_V0 variant None False [] = Inr out
      \<or> selected_outcome sha BENCHMARK_MEASUREMENT_V0 variant ?form (list_ex bf_complete (map mr_facts rs)) facts = Inr out"
      using decide benchmark by (simp split: if_splits)
    with chosen(1) assms(3)
    have s: "se_profile s = BENCHMARK_MEASUREMENT_V0" "se_variant s = variant" "se_form s = ?form"
      "list_ex bf_complete (map mr_facts rs)"
      by blast+
    from first [OF s(4)] obtain r where r: "r \<in> set rs" "bf_complete (mr_facts r)"
      "first_facts (map mr_facts rs) = Some (mr_facts r)" by blast
    from forms r(1,2) obtain f where f: "bf_form (mr_facts r) = Some f" by (auto simp: list_all_iff)
    have "bf_form (mr_facts r) = se_form s" unfolding s(3) r(3) using f by simp
    moreover have "variant \<noteq> None" using benchmark(2) by blast
    ultimately show ?thesis using s(1,2) r(1,2) by blast
  qed
qed

lemma smap_back: "smap f xs = Inr ys \<Longrightarrow> y \<in> set ys \<Longrightarrow> \<exists>x \<in> set xs. f x = Inr y"
  by (auto dest: smap_mem)

lemma smap_forth: "smap f xs = Inr ys \<Longrightarrow> x \<in> set xs \<Longrightarrow> \<exists>y \<in> set ys. f x = Inr y"
  by (induction xs arbitrary: ys) (auto simp: result_simps)

text \<open>C9: a complete profile is never selected on hope: one of the considered mappings, the approved one
  if there is one, itself completes it with the result form of the selection, from evidence the
  adapters extracted; and that mapping is trusted whenever any trusted mapping completes a profile, so
  a proposal of a provider can not outweigh it.\<close>

theorem complete_selection_supported:
  assumes "select_evidence_profile sha metric text ns ms approved = Inr out"
    and "po_selection out = Some s" "se_complete s"
  shows "list_ex (\<lambda>m. supports_selection sha ns s m
           \<and> (trusted_mapping m \<or> \<not> list_ex (\<lambda>k. trusted_mapping k \<and> completes_profile sha ns (metric_variant metric text) k)
                (considered ms approved)))
         (considered ms approved)"
proof -
  let ?v = "metric_variant metric text" and ?ms = "considered ms approved"
  from assms(1) obtain rs where rs: "smap (mapping_facts sha ns ?v) ?ms = Inr rs"
    and out: "decide_profile sha ?v (effective_records rs) = Inr out"
    by (auto simp: select_evidence_profile_def Let_def result_simps)
  have sub: "set (effective_records rs) \<subseteq> set rs" by (auto simp: effective_records_def)
  have from_mapping: "\<exists>m \<in> set ?ms. mapping_facts sha ns ?v m = Inr r" if "r \<in> set (effective_records rs)" for r
    using smap_back [OF rs] sub that by blast
  have forms: "list_all (\<lambda>r. bf_complete (mr_facts r) \<longrightarrow> bf_form (mr_facts r) \<noteq> None) (effective_records rs)"
  proof (unfold list_all_iff, intro ballI impI)
    fix r assume r: "r \<in> set (effective_records rs)" and b: "bf_complete (mr_facts r)"
    from from_mapping [OF r] obtain m where "mapping_facts sha ns ?v m = Inr r" by blast
    from this b show "bf_form (mr_facts r) \<noteq> None"
      by (rule record_form)
  qed
  have trust: "trusted_mapping m \<or> \<not> list_ex (\<lambda>k. trusted_mapping k \<and> completes_profile sha ns ?v k) ?ms"
    if r: "r \<in> set (effective_records rs)" and m: "mapping_facts sha ns ?v m = Inr r" for r m
  proof (rule ccontr)
    assume c: "\<not> ?thesis"
    then obtain k where k: "k \<in> set ?ms" "trusted_mapping k" "completes_profile sha ns ?v k" by (auto simp: list_ex_iff)
    obtain q where q: "q \<in> set rs" "mapping_facts sha ns ?v k = Inr q" using smap_forth [OF rs k(1)] by blast
    have "mr_trusted q \<and> (mr_training q \<or> bf_complete (mr_facts q))"
      using mapping_facts_complete(1-3) [OF q(2)] k(2,3) by (auto simp: completes_profile_def)
    then have "effective_records rs = filter mr_trusted rs" using q(1) by (auto simp: effective_records_def list_ex_iff)
    with r have "mr_trusted r" by simp
    with mapping_facts_complete(2) [OF m] c show False by simp
  qed
  from decide_complete [OF out assms(2,3) forms]
  obtain r where r: "r \<in> set (effective_records rs)"
    and d: "(se_profile s = TRAINING_EXPERIMENT_V0 \<and> mr_training r)
      \<or> (se_profile s = BENCHMARK_MEASUREMENT_V0 \<and> se_variant s = ?v \<and> ?v \<noteq> None
         \<and> bf_complete (mr_facts r) \<and> bf_form (mr_facts r) = se_form s)"
    by (auto simp: list_ex_iff)
  from from_mapping [OF r] obtain m where m: "m \<in> set ?ms" "mapping_facts sha ns ?v m = Inr r" by blast
  have "supports_selection sha ns s m"
    using d
  proof
    assume "se_profile s = TRAINING_EXPERIMENT_V0 \<and> mr_training r"
    with mapping_facts_complete(1) [OF m(2)] show ?thesis by (simp add: supports_selection_def)
  next
    assume b: "se_profile s = BENCHMARK_MEASUREMENT_V0 \<and> se_variant s = ?v \<and> ?v \<noteq> None
      \<and> bf_complete (mr_facts r) \<and> bf_form (mr_facts r) = se_form s"
    then obtain v where v: "?v = Some v" by blast
    with b mapping_facts_complete(4) [OF m(2) _ v] record_form [OF m(2)] show ?thesis
      by (simp add: supports_selection_def)
  qed
  with m trust [OF r m(2)] show ?thesis by (auto simp: list_ex_iff)
qed

text \<open>The eight files of a training experiment, each bound and extracted.\<close>

definition trial_provenance :: "provenance_kind \<Rightarrow> provenance" where
  "trial_provenance k = \<lparr>pv_kind = k, pv_detail = ''d'', pv_source_path = None, pv_source_id = None\<rparr>"

type_synonym trial_file = "experiment_role \<times> artifact_kind \<times> dataset_split option \<times> string"

definition trial_binding :: "trial_file \<Rightarrow> artifact_binding" where
  "trial_binding = (\<lambda>(r, k, s, path). \<lparr>ab_path = path, ab_kind = k, ab_role = r, ab_adapter = None, ab_mappings = [],
     ab_provenance = trial_provenance MANIFEST_HINT, ab_split = s\<rparr>)"

definition trial_normalized :: "trial_file \<Rightarrow> normalized_evidence" where
  "trial_normalized = (\<lambda>(r, k, s, path). \<lparr>ne_id = path,
     ne_artifact = \<lparr>ac_path = path, ac_kind = k, ac_sha256 = replicate 64 (CHR ''0''), ac_size = 1, ac_confidence = fzero,
       discovery_reason = ''d'', relevant_claim_ids = [], ac_provenance = trial_provenance MANIFEST_HINT\<rparr>,
     ne_match = \<lparr>am_adapter = ''claimci.dataset.v1'', am_path = path, am_confidence = fzero, am_mappings = [],
       am_evidence = [trial_provenance ADAPTER_EXTRACTION]\<rparr>,
     ne_observations = [plain_observation (trial_provenance ADAPTER_EXTRACTION)], ne_scan = None, ne_trace = None\<rparr>)"

definition trial_files :: "trial_file list" where
  "trial_files =
     [(ER_BASELINE, RESULTS, None, ''a''), (ER_BASELINE, CONFIG, None, ''b''),
      (ER_BASELINE, DATASET, Some SPLIT_TRAIN, ''c''), (ER_BASELINE, DATASET, Some SPLIT_EVAL, ''d''),
      (ER_CANDIDATE, RESULTS, None, ''e''), (ER_CANDIDATE, CONFIG, None, ''f''),
      (ER_CANDIDATE, DATASET, Some SPLIT_TRAIN, ''g''), (ER_CANDIDATE, DATASET, Some SPLIT_EVAL, ''h'')]"

definition trial_mapping :: mapping_candidate where
  "trial_mapping = \<lparr>mp_id = ''m'', mp_bindings = map trial_binding trial_files, mp_confidence = fzero,
     mp_trust = TRUST_MANIFEST_HINT, mp_provenance = trial_provenance MANIFEST_HINT\<rparr>"

definition trial_evidence :: "normalized_evidence list" where
  "trial_evidence = map trial_normalized trial_files"

lemma trial_training: "training_complete (Proposed trial_mapping) trial_evidence"
  by (simp add: training_complete_def trial_mapping_def trial_evidence_def trial_files_def trial_binding_def trial_normalized_def
      two_roles_def has_binding_def one_split_def binding_represented_def evidence_for_binding_def
      evidence_matches_binding_def extraction_only_def plain_observation_def trial_provenance_def)

lemma trial_variant: "metric_variant ''score'' [] = None"
  by code_simp

lemma trial_selected:
  "\<exists>out s. select_evidence_profile (\<lambda>_. ''0'') ''score'' [] trial_evidence [trial_mapping] None = Inr out
     \<and> po_selection out = Some s \<and> se_complete s"
  by (simp add: select_evidence_profile_def considered_def trial_variant mapping_facts_def trial_training
      effective_records_def decide_profile_def no_facts_def selected_outcome_def new_selection_def
      bounded_facts_def facts_by_id_def activation_policy_def new_outcome_def aensure_def)

lemma complete_selection_supported_witness:
  "\<exists>out s. select_evidence_profile (\<lambda>_. ''0'') ''score'' [] trial_evidence [trial_mapping] None = Inr out
     \<and> po_selection out = Some s \<and> supports_selection (\<lambda>_. ''0'') trial_evidence s (Proposed trial_mapping)"
proof -
  obtain out s where s: "select_evidence_profile (\<lambda>_. ''0'') ''score'' [] trial_evidence [trial_mapping] None = Inr out"
    "po_selection out = Some s" "se_complete s" using trial_selected by blast
  from complete_selection_supported [OF s]
  have "supports_selection (\<lambda>_. ''0'') trial_evidence s (Proposed trial_mapping)"
    by (simp add: considered_def)
  with s show ?thesis by blast
qed

end
