(* ===== verification/Spec2Isabelle.thy ===== *)
theory Spec2Isabelle
  imports ConfigCheck ResultCheck DatasetCheck Measurement Paths Contracts ArtifactScan StreamLines DatasetSpill StreamingDataset StreamedAudit MetricIdentity ResearchAudit PassiveFiles Report CheckRun BenchmarkAudit AdapterRegistry ProfileSelection
begin

text \<open>
  ClaimCI checks whether the evidence in a repository supports a claim that one experiment improves a
  metric over another. This development models its deterministic core, the Python of
  \<^verbatim>\<open>src/claimci\<close>, and proves what its verdicts mean.

  \<^bold>\<open>The parts and how they interact.\<close> The research audit reads a manifest that names two
  experiments, loads their results, configurations and data splits below a trusted root, asks each check
  for findings, and turns the findings into a verdict; the report renders the result and the GitHub
  gateway turns the report into a check run. The analysis layer takes its evidence from repository files
  that it never runs: an artifact is captured or scanned as bounded, digest-verified bytes; the adapter
  registry extracts observations from it; mappings bind artifacts to the roles of an experiment; metric
  identities and measurement protocols say what was measured; and a profile is selected, which the profiled
  audit then evaluates as a training experiment or as a benchmark. Large data splits are streamed
  through a spill table instead of memory.

  \<^bold>\<open>Theories and the code they model.\<close> (files below \<^verbatim>\<open>src/claimci\<close>)
  \<^item> \<^verbatim>\<open>Prelude\<close>, \<^verbatim>\<open>PyNumbers\<close>: no file of the program, but the Python it uses: strings,
    dictionaries as association lists in insertion order, fallible values as a sum, binary64 floats with
    their exact rounding and printing, and decimal comparison.
  \<^item> \<^verbatim>\<open>Models\<close>: \<^verbatim>\<open>models.py\<close>, decoded values and their equality, findings and verdicts; the locale
    \<open>rule_check\<close> is the interface of every check to the audit (which rules it can raise), interpreted by
    the configuration, result, leakage, alignment and streaming checks.
  \<^item> \<^verbatim>\<open>Parsing\<close>: \<^verbatim>\<open>parsing.py\<close>. \<^verbatim>\<open>ConfigCheck\<close>: \<^verbatim>\<open>config_check.py\<close>.
    \<^verbatim>\<open>ResultCheck\<close>: \<^verbatim>\<open>result_check.py\<close>. \<^verbatim>\<open>CanonicalJson\<close>, \<^verbatim>\<open>DatasetCheck\<close>: \<^verbatim>\<open>dataset_check.py\<close>;
    the locale \<open>hash_index\<close> is the interface of a store of digests, which the counters in memory and the
    spill table both implement.
  \<^item> \<^verbatim>\<open>Measurement\<close>: \<^verbatim>\<open>measurement.py\<close>. \<^verbatim>\<open>MetricIdentity\<close>: \<^verbatim>\<open>analysis/metric_identity.py\<close>.
  \<^item> \<^verbatim>\<open>Paths\<close>: the parts of \<^verbatim>\<open>pathlib\<close> in use and \<^verbatim>\<open>review/path_policy.py\<close>.
    \<^verbatim>\<open>Contracts\<close>, \<^verbatim>\<open>Observations\<close>, \<^verbatim>\<open>Mappings\<close>: \<^verbatim>\<open>analysis/contracts.py\<close>,
    \<^verbatim>\<open>analysis/confidence.py\<close>, \<^verbatim>\<open>analysis/evidence_identity.py\<close>.
    A class with a validating constructor is a record with a fallible \<open>new_\<close> function.
  \<^item> \<^verbatim>\<open>ArtifactScan\<close>: \<^verbatim>\<open>analysis/artifact_source.py\<close>. \<^verbatim>\<open>PassiveFiles\<close>: \<^verbatim>\<open>passive_files.py\<close>.
    \<^verbatim>\<open>StreamLines\<close>: the line reader of \<^verbatim>\<open>analysis/adapters/streaming.py\<close>.
    \<^verbatim>\<open>DatasetSpill\<close>, \<^verbatim>\<open>StreamingDataset\<close>, \<^verbatim>\<open>StreamedAudit\<close>: \<^verbatim>\<open>analysis/streaming_dataset.py\<close>.
  \<^item> \<^verbatim>\<open>AdapterCore\<close>, \<^verbatim>\<open>StructuredAdapter\<close>, \<^verbatim>\<open>TableAdapter\<close>, \<^verbatim>\<open>ConfigAdapter\<close>,
    \<^verbatim>\<open>NativeAdapter\<close>, \<^verbatim>\<open>AdapterRegistry\<close>: the files of \<^verbatim>\<open>analysis/adapters\<close> with these names
    (\<^verbatim>\<open>tabular.py\<close>; \<^verbatim>\<open>config.py\<close> and \<^verbatim>\<open>dataset.py\<close> together).
  \<^item> \<^verbatim>\<open>Decimals\<close>, \<^verbatim>\<open>ProfileData\<close>, \<^verbatim>\<open>ProfileSelection\<close>: \<^verbatim>\<open>analysis/profiles.py\<close>.
    \<^verbatim>\<open>BenchmarkAudit\<close>: \<^verbatim>\<open>benchmark_audit.py\<close> and the dispatch of \<^verbatim>\<open>audit.py\<close> on the profile.
  \<^item> \<^verbatim>\<open>ResearchAudit\<close>: \<^verbatim>\<open>audit.py\<close>. \<^verbatim>\<open>Report\<close>: \<^verbatim>\<open>report.py\<close>. \<^verbatim>\<open>CheckRun\<close>: \<^verbatim>\<open>github.py\<close>.

  \<^bold>\<open>How the code is represented.\<close> A class is a record, an enumeration a datatype, and every exception
  a value of an error datatype, so a function that can raise returns a sum and the order of its checks is
  the order of the code. An integer is an \<open>int\<close>, as Python's are unbounded; a float is \<open>flt\<close>, an exact
  binary64 value. A string is a list of characters that stand for the code points below 256, so
  statements about text are about Latin-1 text; all literals and delimiters of the program are in it.
  Operations on a file or a spill pass their state (the scan, its budget, the clock of the system calls)
  explicitly and return it with the outcome.

  \<^bold>\<open>Parameters.\<close> What is no code of the repository is an argument: the decoders of JSON, YAML, TOML and
  UTF-8 text and SHA-256 with the reading and resolving of paths (\<open>io_env\<close>, \<open>audit_env\<close>,
  \<open>stream_env\<close>, \<open>adapter_env\<close>), the file system, which may answer each call differently
  (\<open>os_files\<close>), and the availability and size of the SQLite file (\<open>spill_os\<close>). A hypothesis on one of
  these is named in the statement (that a descriptor delivers certain bytes, say), and each witness
  gives a concrete instance.

  \<^bold>\<open>What the lemmas show.\<close>
  \<^item> Verdicts: the research audit and the benchmark audit say supported exactly under a condition on the
    loaded evidence; a supported claim has evaluated, comparable results; every error of a result
    check is one of its input errors; each check's findings match the multiset or rational condition it
    stands for; a path outside the artifact root is never read.
  \<^item> Evidence: a finished scan or a capture delivers the bytes whose size and digest were promised;
    inspecting equals capturing; a budget stays exhausted; the streamed reader does not depend on how its
    input is cut, and the streamed overlap equals the one in memory; whatever adapter answers, its
    evidence is bound to the verified artifact; the selectors that a JSON document generates read back
    the value they were made for; two roles never share a table cell.
  \<^item> Identity: metric pairs are bound only by a recognised or approved identity of the current commit;
    approving and resolving agree; narrowing a mapping never adds to it; a complete profile rests on a
    mapping that completes it; measurement drift is judged only on recovered protocols.
  \<^item> Output: rendering is total and escapes every character with a meaning in Markdown, the check
    run is within the limits of the service and succeeds only when a supported verdict is shown.

  \<^bold>\<open>Loops and bounds.\<close> No definition uses fuel. Recursion that is not structural has a termination
  proof: the walks over decoded values by their size, the readers by the bytes that remain or by the
  budget that each read consumes, the JSON and YAML graphs by the nesting that is left. The limits
  (bytes, rows, columns, depth, nodes, digits) are those of the code, as definitions.

  \<^bold>\<open>Not modelled.\<close> The claim taxonomy (\<^verbatim>\<open>claim_types.py\<close>, \<^verbatim>\<open>claims.py\<close>), of which the audits take
  only metric, direction and threshold; the obligations, the planner, the traces and the materialisation
  of a plan (\<^verbatim>\<open>obligations.py\<close>, \<^verbatim>\<open>planner.py\<close>, \<^verbatim>\<open>trace.py\<close>, \<^verbatim>\<open>materialize.py\<close>) with the plan and
  outcome records of \<^verbatim>\<open>contracts.py\<close> and \<^verbatim>\<open>analysis/measurement.py\<close>, which prepare the inputs of the
  modelled audits; the schema and observation scans of \<^verbatim>\<open>streaming.py\<close>; the recovery of metric
  definitions from Python sources, whose parser is no code of the repository; discovery, the advisory
  review around a language model and its provider, whose proposals are untrusted input here; and the
  command line. The identity of mutable Python objects is modelled only where the code depends
  on it, in the YAML graph.
\<close>

end
